(* ===== verification/Prelude.thy ===== *)
theory Prelude
  imports Complex_Main "HOL-Library.Word" "HOL-Library.AList" "HOL-Library.Monad_Syntax"
begin

text \<open>
  Shared vocabulary of the development: names for Go's machine integers, Go maps as
  association lists with distinct keys, checked slice indexing (an index out of range is a
  panic, the value \<^term>\<open>None\<close>), and the binary search loop of the standard library's
  \<^verbatim>\<open>sort.Find\<close> and \<^verbatim>\<open>slices.BinarySearchFunc\<close>, with the lemmas the components share.
\<close>

section \<open>Machine integers\<close>

type_synonym int32 = "32 word"
type_synonym int64 = "64 word"
type_synonym uint16 = "16 word"
type_synonym uint32 = "32 word"
type_synonym uint64 = "64 word"
type_synonym byte = "8 word"
type_synonym bytes = "byte list"

lemma sint_inject: "sint v = sint w \<longleftrightarrow> v = w"
  for v w :: "'a::len word"
  by (auto dest: signed_word_eqI)

lemma sint_less_total: "\<not> sint v < sint w \<Longrightarrow> v \<noteq> w \<Longrightarrow> sint w < sint v"
  for v w :: "'a::len word"
  by (metis linorder_neqE signed_word_eqI)

lemma unat64_less [simp]: "unat (v :: 64 word) < 18446744073709551616"
proof -
  have "unat v < 2 ^ LENGTH(64)" by (rule unsigned_less)
  then show ?thesis by simp
qed

lemma sint64_unat:
  assumes "unat v < 2 ^ 63"
  shows "sint (v :: 64 word) = int (unat v)"
proof -
  have lt: "uint v < 2 ^ 63"
    using assms by (metis of_nat_less_iff of_nat_numeral of_nat_power uint_nat)
  have "sint v = signed_take_bit (LENGTH(64) - Suc 0) (uint v)" by (rule sint_uint)
  also have "\<dots> = uint v"
    using lt by (intro signed_take_bit_int_eq_self) (simp_all add: order_trans [OF _ unsigned_greater_eq])
  finally show ?thesis by (simp only: uint_nat)
qed

lemma sint32_unat:
  assumes "unat v < 2 ^ 31"
  shows "sint (v :: 32 word) = int (unat v)"
proof -
  have lt: "uint v < 2 ^ 31"
    using assms by (metis of_nat_less_iff of_nat_numeral of_nat_power uint_nat)
  have "sint v = signed_take_bit (LENGTH(32) - Suc 0) (uint v)" by (rule sint_uint)
  also have "\<dots> = uint v"
    using lt by (intro signed_take_bit_int_eq_self) (simp_all add: order_trans [OF _ unsigned_greater_eq])
  finally show ?thesis by (simp only: uint_nat)
qed

lemma unat_sint64:
  assumes "0 \<le> sint (v :: 64 word)"
  shows "int (unat v) = sint v" and "unat v < 2 ^ 63"
proof -
  have lt: "sint v < 2 ^ 63" using sint_lt [of v] by simp
  have "uint v = take_bit LENGTH(64) (sint v)" by (rule uint_sint)
  also have "\<dots> = sint v" using assms lt by (intro take_bit_int_eq_self) auto
  finally have "int (unat v) = sint v" by (simp only: uint_nat)
  then show eq: "int (unat v) = sint v" .
  show "unat v < 2 ^ 63" using lt unfolding eq [symmetric]
    by (metis of_nat_less_iff of_nat_numeral of_nat_power)
qed

lemma unat_of_nat64: "n < 2 ^ 64 \<Longrightarrow> unat (of_nat n :: 64 word) = n"
  by (simp add: unsigned_of_nat take_bit_nat_eq_self)

lemma sint32_word_of_int: "- (2 ^ 31) \<le> n \<Longrightarrow> n < 2 ^ 31 \<Longrightarrow> sint (word_of_int n :: 32 word) = n"
  by (simp add: signed_of_int signed_take_bit_int_eq_self)

named_theorems gomap_simps \<open>rewriting of Go maps\<close>
named_theorems slice_simps \<open>rewriting of checked slice accesses\<close>

section \<open>Strings and byte slices\<close>

text \<open>A Go string is an immutable sequence of bytes; the conversions copy the bytes.\<close>

definition bytes_of_string :: "string \<Rightarrow> bytes" where
  "bytes_of_string s = map of_char s"

definition string_of_bytes :: "bytes \<Rightarrow> string" where
  "string_of_bytes bs = map (\<lambda>b. char_of (unat b)) bs"

lemma string_of_bytes_of_string [simp]: "string_of_bytes (bytes_of_string s) = s"
proof -
  have "unat (of_char c :: byte) = of_char c" for c
  proof -
    have lt: "(of_char c :: nat) < 256"
      using of_char_of [of "of_char c :: nat"] by simp
    have "(of_char c :: byte) = of_nat (of_char c)"
      by (simp add: of_char_def)
    then show ?thesis
      using lt by (simp add: unat_of_nat)
  qed
  then show ?thesis
    by (simp add: string_of_bytes_def bytes_of_string_def map_idI)
qed

text \<open>\<^verbatim>\<open>binary.LittleEndian.PutUint32\<close> and \<^verbatim>\<open>PutUint64\<close>.\<close>

definition PutUint32_LE :: "uint32 \<Rightarrow> bytes" where
  "PutUint32_LE v = map (\<lambda>i. ucast (drop_bit (8 * i) v)) [0..<4]"

definition PutUint64_LE :: "uint64 \<Rightarrow> bytes" where
  "PutUint64_LE v = map (\<lambda>i. ucast (drop_bit (8 * i) v)) [0..<8]"

section \<open>Go maps\<close>

text \<open>
  A Go map is an association list with distinct keys. The order of the list is the order in
  which a \<^verbatim>\<open>range\<close> loop happens to visit the map; Go leaves that order open, and every
  statement below is made for all lists, hence for all orders.
\<close>

type_synonym ('k, 'v) gomap = "('k \<times> 'v) list"

abbreviation (input) gm_get :: "('k, 'v) gomap \<Rightarrow> 'k \<Rightarrow> 'v option" where
  "gm_get \<equiv> map_of"

abbreviation (input) gm_put :: "('k, 'v) gomap \<Rightarrow> 'k \<Rightarrow> 'v \<Rightarrow> ('k, 'v) gomap" where
  "gm_put m k v \<equiv> AList.update k v m"

abbreviation (input) gm_len :: "('k, 'v) gomap \<Rightarrow> nat" where
  "gm_len \<equiv> length"

definition gm_ok :: "('k, 'v) gomap \<Rightarrow> bool" where
  "gm_ok m \<longleftrightarrow> distinct (map fst m)"

definition gm_sum :: "('v \<Rightarrow> 'a::comm_monoid_add) \<Rightarrow> ('k, 'v) gomap \<Rightarrow> 'a" where
  "gm_sum f m = sum_list (map (f \<circ> snd) m)"

lemma gm_ok_Nil [simp]: "gm_ok []"
  by (simp add: gm_ok_def)

lemma gm_ok_put [simp]: "gm_ok m \<Longrightarrow> gm_ok (gm_put m k v)"
  by (simp add: gm_ok_def distinct_update)

lemma gm_sum_Nil [simp]: "gm_sum f [] = 0"
  by (simp add: gm_sum_def)

lemma gm_sum_Cons [simp]: "gm_sum f (p # m) = f (snd p) + gm_sum f m"
  by (simp add: gm_sum_def)

lemma gm_len_put [gomap_simps]:
  "gm_len (gm_put m k v) = (if gm_get m k = None then Suc (gm_len m) else gm_len m)"
  by (induction m) (auto split: prod.splits)

lemma gm_sum_put_new [gomap_simps]:
  "gm_get m k = None \<Longrightarrow> gm_sum f (gm_put m k v) = gm_sum f m + f v"
  by (induction m) (auto simp: ac_simps split: if_splits)

lemma gm_sum_put_old:
  "gm_get m k = Some w \<Longrightarrow> gm_sum f (gm_put m k v) + f w = gm_sum f m + f v"
  by (induction m) (auto simp: ac_simps split: if_splits)

text \<open>The update as a difference, for groups such as words under wrap-around addition.\<close>

lemma gm_sum_put_old_group:
  fixes f :: "'v \<Rightarrow> 'a::ab_group_add"
  assumes "gm_get m k = Some w"
  shows "gm_sum f (gm_put m k v) = gm_sum f m + (f v - f w)"
  using gm_sum_put_old [OF assms, of f v] by (simp add: algebra_simps)

lemma gm_get_put [gomap_simps]:
  "gm_get (gm_put m k v) k' = (if k' = k then Some v else gm_get m k')"
  by (simp add: update_conv)

lemma gm_put_all:
  assumes "\<forall>p \<in> set m. P (snd p)" and "P v"
  shows "\<forall>p \<in> set (gm_put m k v). P (snd p)"
  using assms by (induction m) auto

lemma gm_get_all: "\<forall>p \<in> set m. P (snd p) \<Longrightarrow> gm_get m k = Some v \<Longrightarrow> P v"
  by (fastforce dest: map_of_SomeD)

section \<open>Checked slice accesses\<close>

text \<open>\<^term>\<open>None\<close> stands for the run-time panic of an index out of range.\<close>

definition index_at :: "'a list \<Rightarrow> int \<Rightarrow> 'a option" where
  "index_at xs i = (if 0 \<le> i \<and> i < int (length xs) then Some (xs ! nat i) else None)"

definition store_at :: "'a list \<Rightarrow> int \<Rightarrow> 'a \<Rightarrow> 'a list option" where
  "store_at xs i v =
     (if 0 \<le> i \<and> i < int (length xs) then Some (xs[nat i := v]) else None)"

lemma index_at_int [slice_simps]: "i < length xs \<Longrightarrow> index_at xs (int i) = Some (xs ! i)"
  by (simp add: index_at_def)

lemma store_at_int [slice_simps]: "i < length xs \<Longrightarrow> store_at xs (int i) v = Some (xs[i := v])"
  by (simp add: store_at_def)

section \<open>Binary search\<close>

text \<open>
  The loop shared by \<^verbatim>\<open>sort.Find\<close> and \<^verbatim>\<open>slices.BinarySearchFunc\<close>: \<^term>\<open>right h\<close> says
  that the comparison at \<^term>\<open>h\<close> sends the search to the right half.
\<close>

function bsearch :: "(nat \<Rightarrow> bool) \<Rightarrow> nat \<Rightarrow> nat \<Rightarrow> nat" where
  "bsearch right i j =
     (if i < j
      then (let h = (i + j) div 2
            in if right h then bsearch right (Suc h) j else bsearch right i h)
      else i)"
  by pat_completeness auto
termination
  by (relation "measure (\<lambda>(right, i, j). j - i)") auto

declare bsearch.simps [simp del]

text \<open>\<^verbatim>\<open>sort.Find(n, cmp)\<close>\<close>

definition sort_Find :: "nat \<Rightarrow> (nat \<Rightarrow> int) \<Rightarrow> nat \<times> bool" where
  "sort_Find n cmp =
     (let i = bsearch (\<lambda>h. cmp h > 0) 0 n in (i, i < n \<and> cmp i = 0))"

text \<open>\<^verbatim>\<open>slices.BinarySearchFunc(xs, target, cmp)\<close>\<close>

definition BinarySearchFunc :: "'a list \<Rightarrow> 'b \<Rightarrow> ('a \<Rightarrow> 'b \<Rightarrow> int) \<Rightarrow> nat \<times> bool" where
  "BinarySearchFunc xs target cmp =
     (let i = bsearch (\<lambda>h. cmp (xs ! h) target < 0) 0 (length xs)
      in (i, i < length xs \<and> cmp (xs ! i) target = 0))"

text \<open>On a range that \<^term>\<open>right\<close> splits at \<^term>\<open>k\<close>, the loop finds \<^term>\<open>k\<close>.\<close>

lemma bsearch_split_point:
  assumes "i \<le> k" and "k \<le> j" and "\<And>h. i \<le> h \<Longrightarrow> h < j \<Longrightarrow> right h \<longleftrightarrow> h < k"
  shows "bsearch right i j = k"
  using assms
proof (induction right i j rule: bsearch.induct)
  case (1 right i j)
  show ?case
  proof (cases "i < j")
    case False
    with "1.prems" show ?thesis by (simp add: bsearch.simps [of right i j])
  next
    case True
    define h where "h = (i + j) div 2"
    have h: "i \<le> h" "h < j" using True by (auto simp: h_def)
    show ?thesis
    proof (cases "right h")
      case r: True
      with "1.prems"(3) [OF h] have "Suc h \<le> k" by simp
      with "1.IH"(1) [OF True h_def r] "1.prems" h have "bsearch right (Suc h) j = k" by auto
      with True r show ?thesis by (simp add: bsearch.simps [of right i j] h_def [symmetric] Let_def)
    next
      case r: False
      with "1.prems"(3) [OF h] have "k \<le> h" by simp
      with "1.IH"(2) [OF True h_def r] "1.prems" h have "bsearch right i h = k" by auto
      with True r show ?thesis by (simp add: bsearch.simps [of right i j] h_def [symmetric] Let_def)
    qed
  qed
qed

text \<open>The split point of a sorted list for a key: how many elements are below it.\<close>

definition lower_point :: "'a::linorder list \<Rightarrow> 'a \<Rightarrow> nat" where
  "lower_point xs x = length (takeWhile (\<lambda>y. y < x) xs)"

lemma lower_point_le [simp]: "lower_point xs x \<le> length xs"
  by (simp add: lower_point_def length_takeWhile_le)

lemma lower_point_nth:
  assumes "sorted xs" and "h < length xs"
  shows "xs ! h < x \<longleftrightarrow> h < lower_point xs x"
proof
  assume "h < lower_point xs x"
  then show "xs ! h < x"
    unfolding lower_point_def
    by (metis nth_mem set_takeWhileD takeWhile_nth)
next
  assume lt: "xs ! h < x"
  show "h < lower_point xs x"
  proof (rule ccontr)
    assume "\<not> h < lower_point xs x"
    then have le: "lower_point xs x \<le> h" by simp
    then have "lower_point xs x < length xs" using assms(2) by simp
    then have "\<not> xs ! lower_point xs x < x"
      unfolding lower_point_def by (rule nth_length_takeWhile)
    moreover have "xs ! lower_point xs x \<le> xs ! h"
      using assms le by (simp add: sorted_nth_mono)
    ultimately show False using lt by simp
  qed
qed

lemma bsearch_sorted:
  assumes "sorted (map f xs)" and "\<And>h. h < length xs \<Longrightarrow> right h \<longleftrightarrow> f (xs ! h) < x"
  shows "bsearch right 0 (length xs) = lower_point (map f xs) x"
proof (rule bsearch_split_point)
  show "lower_point (map f xs) x \<le> length xs"
    using lower_point_le [of "map f xs" x] by simp
  show "right h \<longleftrightarrow> h < lower_point (map f xs) x" if "h < length xs" for h
    using assms(2) [OF that] lower_point_nth [OF assms(1), of h x] that by simp
qed simp

end
