(* ===== verification/Float64.thy ===== *)
theory Float64
  imports Prelude "HOL-Library.Log_Nat"
begin

text \<open>
  Go's \<^verbatim>\<open>float64\<close> (IEEE 754 binary64): finite values as rationals, the infinities and NaN.
  Every arithmetic operation computes the exact rational result and rounds it to the nearest
  value with a 53-bit significand, ties to even, with gradual underflow at exponent -1074 and
  overflow to infinity at \<^term>\<open>2 ^ 1024 :: rat\<close>. The two zeros are one value; the program never
  observes the sign of a zero. Conversions to integers out of range are implementation-specific
  in Go; the definitions give what the amd64 compiler emits.
\<close>

datatype float64 = Fin rat | PosInf | NegInf | NaN

section \<open>Rounding\<close>

definition round_even :: "rat \<Rightarrow> int" where
  "round_even x =
     (let f = \<lfloor>x\<rfloor>; d = x - of_int f
      in if d < 1 / 2 then f else if d > 1 / 2 then f + 1 else if even f then f else f + 1)"

text \<open>The exponent of the leading bit of a positive rational.\<close>

definition ilog2 :: "rat \<Rightarrow> int" where
  "ilog2 x =
     (let (a, b) = quotient_of x; e = bitlen a - bitlen b
      in if x < 2 powi e then e - 1 else e)"

definition rnd64 :: "rat \<Rightarrow> float64" where
  "rnd64 x =
     (if x = 0 then Fin 0
      else let q = max (ilog2 \<bar>x\<bar> - 52) (- 1074);
               y = of_int (round_even (x / 2 powi q)) * 2 powi q
           in if \<bar>y\<bar> \<ge> 2 ^ 1024 then (if x > 0 then PosInf else NegInf) else Fin y)"

section \<open>Arithmetic and comparison\<close>

fun fadd :: "float64 \<Rightarrow> float64 \<Rightarrow> float64" where
  "fadd (Fin x) (Fin y) = rnd64 (x + y)"
| "fadd NaN _ = NaN"
| "fadd _ NaN = NaN"
| "fadd PosInf NegInf = NaN"
| "fadd NegInf PosInf = NaN"
| "fadd PosInf _ = PosInf"
| "fadd _ PosInf = PosInf"
| "fadd NegInf _ = NegInf"
| "fadd _ NegInf = NegInf"

fun f_sgn :: "float64 \<Rightarrow> int" where
  "f_sgn (Fin x) = (if x > 0 then 1 else if x < 0 then - 1 else 0)"
| "f_sgn PosInf = 1"
| "f_sgn NegInf = - 1"
| "f_sgn NaN = 0"

definition signed_inf :: "int \<Rightarrow> float64" where
  "signed_inf s = (if s > 0 then PosInf else if s < 0 then NegInf else NaN)"

fun fmul :: "float64 \<Rightarrow> float64 \<Rightarrow> float64" where
  "fmul (Fin x) (Fin y) = rnd64 (x * y)"
| "fmul NaN _ = NaN"
| "fmul _ NaN = NaN"
| "fmul a b = signed_inf (f_sgn a * f_sgn b)"

fun fdiv :: "float64 \<Rightarrow> float64 \<Rightarrow> float64" where
  "fdiv (Fin x) (Fin y) = (if y = 0 then signed_inf (f_sgn (Fin x)) else rnd64 (x / y))"
| "fdiv (Fin x) PosInf = Fin 0"
| "fdiv (Fin x) NegInf = Fin 0"
| "fdiv PosInf (Fin y) = (if y < 0 then NegInf else PosInf)"
| "fdiv NegInf (Fin y) = (if y < 0 then PosInf else NegInf)"
| "fdiv _ _ = NaN"

fun flt :: "float64 \<Rightarrow> float64 \<Rightarrow> bool" where
  "flt (Fin x) (Fin y) = (x < y)"
| "flt NaN _ = False"
| "flt _ NaN = False"
| "flt NegInf b = (b \<noteq> NegInf)"
| "flt PosInf _ = False"
| "flt (Fin _) PosInf = True"
| "flt (Fin _) NegInf = False"

fun fle :: "float64 \<Rightarrow> float64 \<Rightarrow> bool" where
  "fle (Fin x) (Fin y) = (x \<le> y)"
| "fle NaN _ = False"
| "fle _ NaN = False"
| "fle NegInf _ = True"
| "fle _ PosInf = True"
| "fle PosInf (Fin _) = False"
| "fle PosInf NegInf = False"
| "fle (Fin _) NegInf = False"

section \<open>Conversions\<close>

definition f64_of_int :: "int \<Rightarrow> float64" where
  "f64_of_int n = rnd64 (of_int n)"

definition trunc :: "rat \<Rightarrow> int" where
  "trunc x = (if 0 \<le> x then \<lfloor>x\<rfloor> else \<lceil>x\<rceil>)"

text \<open>The hardware conversion to a signed integer of the given width: out of range gives the
  integer indefinite value, the sign bit alone.\<close>

fun cvtt :: "nat \<Rightarrow> float64 \<Rightarrow> int" where
  "cvtt w (Fin x) =
     (if - (2 ^ (w - 1)) \<le> trunc x \<and> trunc x < 2 ^ (w - 1) then trunc x else - (2 ^ (w - 1)))"
| "cvtt w _ = - (2 ^ (w - 1))"

definition f64_to_int64 :: "float64 \<Rightarrow> int64" where
  "f64_to_int64 f = word_of_int (cvtt 64 f)"

definition f64_to_uint64 :: "float64 \<Rightarrow> uint64" where
  "f64_to_uint64 f =
     (if flt f (Fin (2 ^ 63)) then word_of_int (cvtt 64 f)
      else word_of_int (cvtt 64 (fadd f (Fin (- (2 ^ 63)))) + 2 ^ 63))"

definition f64_to_uint16 :: "float64 \<Rightarrow> uint16" where
  "f64_to_uint16 f = word_of_int (cvtt 32 f)"

text \<open>\<^verbatim>\<open>math.Round\<close>: half away from zero.\<close>

fun math_Round :: "float64 \<Rightarrow> float64" where
  "math_Round (Fin x) = Fin (of_int (if 0 \<le> x then \<lfloor>x + 1 / 2\<rfloor> else \<lceil>x - 1 / 2\<rceil>))"
| "math_Round f = f"

section \<open>Exactness\<close>

lemma round_even_of_int [simp]: "round_even (of_int n) = n"
  by (simp add: round_even_def)

lemma bitlen_rat_bounds:
  fixes a :: int
  assumes "0 < a"
  shows "(2::rat) powi (bitlen a - 1) \<le> of_int a" and "of_int a < (2::rat) powi bitlen a"
proof -
  have bl: "1 \<le> bitlen a" using assms by (simp add: bitlen_ge_iff_power)
  have b: "2 ^ nat (bitlen a - 1) \<le> a \<and> a < 2 ^ nat (bitlen a)"
    using bitlen_bounds [OF assms] .
  have "of_int (2 ^ nat (bitlen a - 1)) \<le> (of_int a :: rat)"
    using b of_int_le_iff by blast
  then show "(2::rat) powi (bitlen a - 1) \<le> of_int a"
    using bl by (simp add: power_int_def)
  have "(of_int a :: rat) < of_int (2 ^ nat (bitlen a))"
    using b of_int_less_iff by blast
  then show "of_int a < (2::rat) powi bitlen a"
    using bl by (simp add: power_int_def)
qed

lemma ilog2_bounds:
  assumes "0 < x"
  shows "2 powi (ilog2 x) \<le> x" and "x < 2 powi (ilog2 x + 1)"
proof -
  obtain a b where q: "quotient_of x = (a, b)" by (cases "quotient_of x")
  have b: "0 < b" using q quotient_of_denom_pos by blast
  have x: "x = of_int a / of_int b" using q quotient_of_div by blast
  have a: "0 < a" using assms b by (simp add: x zero_less_divide_iff)
  define e where "e = bitlen a - bitlen b"
  have up: "x < 2 powi (e + 1)"
  proof -
    have "of_int a < (2::rat) powi bitlen a"
      by (rule bitlen_rat_bounds(2) [OF a])
    also have "(2::rat) powi bitlen a = 2 powi (e + 1) * 2 powi (bitlen b - 1)"
      by (simp add: e_def flip: power_int_add)
    also have "\<dots> \<le> 2 powi (e + 1) * of_int b"
      using bitlen_rat_bounds(1) [OF b] by (intro mult_left_mono) auto
    finally show ?thesis using b by (simp add: x pos_divide_less_eq)
  qed
  have lo: "2 powi (e - 1) \<le> x"
  proof -
    have "2 powi (e - 1) * of_int b \<le> (2::rat) powi (e - 1) * 2 powi bitlen b"
      using bitlen_rat_bounds(2) [OF b] by (intro mult_left_mono) auto
    also have "\<dots> = 2 powi (bitlen a - 1)"
      by (simp add: e_def flip: power_int_add)
    also have "\<dots> \<le> of_int a" by (rule bitlen_rat_bounds(1) [OF a])
    finally show ?thesis using b by (simp add: x pos_le_divide_eq)
  qed
  show "2 powi (ilog2 x) \<le> x" and "x < 2 powi (ilog2 x + 1)"
    using up lo by (auto simp: ilog2_def q Let_def e_def not_less)
qed

lemma ilog2_less:
  assumes "0 < x" and "x < 2 powi k"
  shows "ilog2 x < k"
proof -
  have "2 powi (ilog2 x) < (2::rat) powi k"
    using ilog2_bounds(1) [OF assms(1)] assms(2) by (rule le_less_trans)
  then show ?thesis
    using power_int_increasing [of k "ilog2 x" "2::rat"] by (cases "ilog2 x < k") auto
qed

lemma rnd64_exact_aux:
  assumes x: "x = of_int m * 2 powi q'" and m: "\<bar>m\<bar> < 2 ^ 53" and q': "- 1074 \<le> q'"
    and b: "\<bar>x\<bar> < 2 ^ 1024"
  shows "rnd64 x = Fin x"
proof (cases "x = 0")
  case True
  then show ?thesis by (simp add: rnd64_def)
next
  case False
  define q where "q = max (ilog2 \<bar>x\<bar> - 52) (- 1074)"
  have "\<bar>x\<bar> = of_int \<bar>m\<bar> * 2 powi q'" by (simp add: x abs_mult)
  also have "\<dots> < of_int (2 ^ 53) * 2 powi q'"
    using m by (intro mult_strict_right_mono) (simp_all only: of_int_less_iff, simp)
  also have "\<dots> = (2::rat) powi (53 + q')"
    by (subst power_int_add) (simp_all add: power_int_def)
  finally have "ilog2 \<bar>x\<bar> < 53 + q'"
    using False by (intro ilog2_less) auto
  then have le: "q \<le> q'" using q' by (auto simp: q_def)
  have "x / 2 powi q = of_int m * 2 powi (q' - q)"
    by (simp add: x power_int_diff)
  also have "\<dots> = of_int (m * 2 ^ nat (q' - q))"
    using le by (simp add: power_int_def)
  finally have "round_even (x / 2 powi q) = m * 2 ^ nat (q' - q)"
    by (simp only: round_even_of_int)
  moreover have "of_int (m * 2 ^ nat (q' - q)) * 2 powi q = x"
  proof -
    have "of_int (m * 2 ^ nat (q' - q)) * 2 powi q = (of_int m :: rat) * (2 powi (q' - q) * 2 powi q)"
      using le by (simp add: power_int_def)
    also have "\<dots> = x" by (simp add: x flip: power_int_add)
    finally show ?thesis .
  qed
  ultimately show ?thesis
    using False b by (simp add: rnd64_def q_def [symmetric] Let_def)
qed

text \<open>Every integer of magnitude up to \<open>2 ^ 53\<close> is a \<^verbatim>\<open>float64\<close>.\<close>

lemma rnd64_of_int:
  assumes "\<bar>n\<bar> \<le> 2 ^ 53"
  shows "rnd64 (of_int n) = Fin (of_int n)"
proof -
  have b: "\<bar>of_int n :: rat\<bar> < 2 ^ 1024"
  proof -
    have "\<bar>n\<bar> < 2 ^ 1024" using assms by simp
    then have "(of_int \<bar>n\<bar> :: rat) < of_int (2 ^ 1024)" by (simp only: of_int_less_iff)
    then show ?thesis by (simp only: of_int_abs of_int_power of_int_numeral)
  qed
  show ?thesis
  proof (cases "\<bar>n\<bar> < 2 ^ 53")
    case True
    then show ?thesis using b by (intro rnd64_exact_aux [where m = n and q' = 0]) auto
  next
    case False
    then have "n = 2 ^ 52 * 2 \<or> n = - (2 ^ 52) * 2" using assms by auto
    then show ?thesis
    proof
      assume "n = 2 ^ 52 * 2"
      then show ?thesis using b by (intro rnd64_exact_aux [where m = "2 ^ 52" and q' = 1]) auto
    next
      assume "n = - (2 ^ 52) * 2"
      then show ?thesis using b by (intro rnd64_exact_aux [where m = "- (2 ^ 52)" and q' = 1]) auto
    qed
  qed
qed

lemma f64_of_int_exact: "\<bar>n\<bar> \<le> 2 ^ 53 \<Longrightarrow> f64_of_int n = Fin (of_int n)"
  by (simp add: f64_of_int_def rnd64_of_int)

lemma fadd_ints:
  "\<bar>m + n\<bar> \<le> 2 ^ 53 \<Longrightarrow> fadd (Fin (of_int m)) (Fin (of_int n)) = Fin (of_int (m + n))"
  using rnd64_of_int [of "m + n"] by simp

lemma fmul_ints:
  "\<bar>m * n\<bar> \<le> 2 ^ 53 \<Longrightarrow> fmul (Fin (of_int m)) (Fin (of_int n)) = Fin (of_int (m * n))"
  using rnd64_of_int [of "m * n"] by simp

lemma rnd64_0 [simp]: "rnd64 0 = Fin 0"
  by (simp add: rnd64_def)

lemma fadd_commute: "fadd a b = fadd b a"
  by (cases a; cases b) (simp_all add: add.commute)

lemma math_Round_of_int [simp]: "math_Round (Fin (of_int n)) = Fin (of_int n)"
proof -
  have "\<lfloor>(of_int n :: rat) + 1 / 2\<rfloor> = n" by (simp add: floor_eq_iff)
  moreover have "\<lceil>(of_int n :: rat) - 1 / 2\<rceil> = n" by (simp add: ceiling_eq_iff)
  ultimately show ?thesis by simp
qed

lemma trunc_of_int [simp]: "trunc (of_int n) = n"
  by (simp add: trunc_def)

end
