(* ===== verification/GoTime.thy ===== *)
theory GoTime
  imports Float64 "HOL-Library.Signed_Division"
begin

text \<open>
  The parts of Go's package \<^verbatim>\<open>time\<close> the aggregator uses, and the package
  \<^verbatim>\<open>aggregators/internal/timestamppb\<close>. A \<^verbatim>\<open>time.Duration\<close> is its number of
  nanoseconds, a \<^verbatim>\<open>time.Time\<close> its number of nanoseconds since the Unix epoch (wall clock,
  UTC). Go's zero time, the origin of \<^verbatim>\<open>Truncate\<close>, is January 1 of the year 1.
\<close>

type_synonym duration = int
type_synonym gotime = int

definition Second :: duration where "Second = 1000000000"
definition Minute :: duration where "Minute = 60 * Second"
definition Hour :: duration where "Hour = 60 * Minute"
definition Millisecond :: duration where "Millisecond = 1000000"

lemmas duration_units = Hour_def Minute_def Second_def Millisecond_def

definition zero_time :: gotime where
  "zero_time = - 62135596800 * 1000000000"

section \<open>Package time\<close>

text \<open>\<^verbatim>\<open>t.Truncate(d)\<close>: round down to a multiple of \<^term>\<open>d\<close> since the zero time.\<close>

definition Truncate :: "gotime \<Rightarrow> duration \<Rightarrow> gotime" where
  "Truncate t d = (if d \<le> 0 then t else t - (t - zero_time) mod d)"

text \<open>\<^verbatim>\<open>t.Unix()\<close> and \<^verbatim>\<open>time.Unix(sec, nsec)\<close>\<close>

definition Unix :: "gotime \<Rightarrow> int64" where
  "Unix t = word_of_int (t div 1000000000)"

definition time_Unix :: "int64 \<Rightarrow> int64 \<Rightarrow> gotime" where
  "time_Unix sec nsec = sint sec * 1000000000 + sint nsec"

definition UnixNano :: "gotime \<Rightarrow> int64" where
  "UnixNano t = word_of_int t"

text \<open>\<^verbatim>\<open>d.Microseconds()\<close>, \<^verbatim>\<open>d.Seconds()\<close>, \<^verbatim>\<open>d.Minutes()\<close>; Go's \<^verbatim>\<open>/\<close> and
  \<^verbatim>\<open>%\<close> truncate towards zero.\<close>

definition Microseconds :: "duration \<Rightarrow> int64" where
  "Microseconds d = word_of_int (d sdiv 1000)"

definition Seconds :: "duration \<Rightarrow> float64" where
  "Seconds d =
     fadd (f64_of_int (d sdiv Second)) (fdiv (f64_of_int (d smod Second)) (f64_of_int 1000000000))"

definition Minutes :: "duration \<Rightarrow> float64" where
  "Minutes d =
     fadd (f64_of_int (d sdiv Minute)) (fdiv (f64_of_int (d smod Minute)) (f64_of_int 60000000000))"

section \<open>Package timestamppb\<close>

definition TimeToPBTimestamp :: "gotime \<Rightarrow> uint64" where
  "TimeToPBTimestamp t = UnixNano t"

definition PBTimestampToTime :: "uint64 \<Rightarrow> gotime" where
  "PBTimestampToTime timestamp = time_Unix 0 timestamp"

section \<open>Lemmas\<close>

lemma Truncate_le: "Truncate t d \<le> t"
  by (simp add: Truncate_def)

lemma Truncate_gt: "0 < d \<Longrightarrow> t < Truncate t d + d"
  by (simp add: Truncate_def)

lemma Truncate_dvd: "0 < d \<Longrightarrow> d dvd Truncate t d - zero_time"
proof -
  assume "0 < d"
  then have "Truncate t d - zero_time = (t - zero_time) - (t - zero_time) mod d"
    by (simp add: Truncate_def)
  then show ?thesis by (simp only: dvd_minus_mod)
qed

lemma Truncate_eq_iff: "0 < d \<Longrightarrow> Truncate t d = t \<longleftrightarrow> d dvd t - zero_time"
  by (auto simp: Truncate_def dvd_eq_mod_eq_0)

lemma Truncate_idem [simp]: "Truncate (Truncate t d) d = Truncate t d"
proof (cases "0 < d")
  case True
  then show ?thesis by (simp add: Truncate_eq_iff Truncate_dvd)
next
  case False
  then show ?thesis by (simp add: Truncate_def)
qed

text \<open>An aligned instant not after \<^term>\<open>t\<close> is not after the truncation of \<^term>\<open>t\<close>.\<close>

lemma Truncate_greatest:
  assumes "0 < d" and "d dvd u - zero_time" and "u \<le> t"
  shows "u \<le> Truncate t d"
proof (rule ccontr)
  assume "\<not> u \<le> Truncate t d"
  then have lt: "0 < u - Truncate t d" by simp
  have "d dvd (u - zero_time) - (Truncate t d - zero_time)"
    using assms(2) Truncate_dvd [OF assms(1)] by (rule dvd_diff)
  then have "d \<le> u - Truncate t d" using lt by (simp add: zdvd_imp_le)
  then show False using Truncate_gt [OF assms(1), of t] assms(3) by simp
qed

text \<open>Truncating to a divisor first changes nothing.\<close>

lemma Truncate_nested:
  assumes "0 < d" and "0 < e" and "d dvd e"
  shows "Truncate (Truncate t d) e = Truncate t e"
proof (rule antisym)
  have "d dvd Truncate t e - zero_time"
    using assms(3) Truncate_dvd [OF assms(2)] by (rule dvd_trans)
  then have "Truncate t e \<le> Truncate t d"
    using Truncate_greatest [OF assms(1)] Truncate_le by blast
  then show "Truncate t e \<le> Truncate (Truncate t d) e"
    using Truncate_greatest [OF assms(2) Truncate_dvd [OF assms(2)]] by blast
  have "Truncate (Truncate t d) e \<le> t"
    using Truncate_le [of "Truncate t d" e] Truncate_le [of t d] by linarith
  then show "Truncate (Truncate t d) e \<le> Truncate t e"
    using Truncate_greatest [OF assms(2) Truncate_dvd [OF assms(2)]] by blast
qed

lemma sint_word_of_int_64:
  "- (2 ^ 63) \<le> t \<Longrightarrow> t < 2 ^ 63 \<Longrightarrow> sint (word_of_int t :: int64) = t"
  by (simp add: signed_of_int signed_take_bit_int_eq_self)

lemma PBTimestampToTime_inverse:
  assumes "- (2 ^ 63) \<le> t" and "t < 2 ^ 63"
  shows "PBTimestampToTime (TimeToPBTimestamp t) = t"
  using assms
  by (simp add: PBTimestampToTime_def TimeToPBTimestamp_def UnixNano_def time_Unix_def
      sint_word_of_int_64)

lemma TimeToPBTimestamp_inverse [simp]: "TimeToPBTimestamp (PBTimestampToTime w) = w"
  by (simp add: PBTimestampToTime_def TimeToPBTimestamp_def UnixNano_def time_Unix_def)

lemma PBTimestampToTime_inj: "PBTimestampToTime v = PBTimestampToTime w \<longleftrightarrow> v = w"
  by (metis TimeToPBTimestamp_inverse)

text \<open>A whole number of seconds converts exactly.\<close>

lemma Seconds_whole:
  assumes "\<bar>n\<bar> \<le> 2 ^ 53"
  shows "Seconds (n * Second) = Fin (of_int n)"
proof -
  have q: "(n * Second) sdiv Second = n"
    by (simp add: Second_def signed_divide_int_def abs_mult sgn_mult sgn_mult_abs)
  have r: "(n * Second) smod Second = 0"
    by (simp add: signed_modulo_int_def q)
  have "rnd64 (1000000000 :: rat) = Fin 1000000000"
    using rnd64_of_int [of 1000000000] by simp
  then show ?thesis
    using assms
    by (simp add: Seconds_def q r f64_of_int_def rnd64_of_int)
qed

end
