(* ===== verification/Nullable.thy ===== *)
theory Nullable
  imports Prelude
begin

text \<open>
  Package \<^verbatim>\<open>aggregators/nullable\<close>: a boolean that may be unset, stored as a
  \<^verbatim>\<open>uint32\<close> (0 is \<^verbatim>\<open>Nil\<close>, 1 is \<^verbatim>\<open>False\<close>, 2 is \<^verbatim>\<open>True\<close>).
  A \<^verbatim>\<open>*bool\<close> is a \<^typ>\<open>bool option\<close>.
\<close>

type_synonym nbool = uint32

definition NB_Nil :: nbool where "NB_Nil = 0"
definition NB_False :: nbool where "NB_False = 1"
definition NB_True :: nbool where "NB_True = 2"

lemmas nbool_defs = NB_Nil_def NB_False_def NB_True_def

definition ParseBoolPtr :: "bool option \<Rightarrow> nbool" where
  "ParseBoolPtr b = (case b of None \<Rightarrow> NB_Nil | Some v \<Rightarrow> if v then NB_True else NB_False)"

text \<open>The receiver is a pointer; the outer \<^term>\<open>None\<close> is the nil receiver. A value outside the
  three constants falls through the switch and leaves the zero value \<^verbatim>\<open>false\<close>.\<close>

definition ToBoolPtr :: "nbool option \<Rightarrow> bool option" where
  "ToBoolPtr nb =
     (case nb of None \<Rightarrow> None
      | Some v \<Rightarrow> if v = NB_Nil then None
                 else if v = NB_False then Some False
                 else if v = NB_True then Some True
                 else Some False)"

lemma ToBoolPtr_ParseBoolPtr: "ToBoolPtr (Some (ParseBoolPtr b)) = b"
  by (auto simp: ToBoolPtr_def ParseBoolPtr_def nbool_defs split: option.splits)

lemma ParseBoolPtr_ToBoolPtr:
  "v \<in> {NB_Nil, NB_False, NB_True} \<Longrightarrow> ParseBoolPtr (ToBoolPtr (Some v)) = v"
  by (auto simp: ToBoolPtr_def ParseBoolPtr_def nbool_defs)

lemma ParseBoolPtr_range: "ParseBoolPtr b \<in> {NB_Nil, NB_False, NB_True}"
  by (auto simp: ParseBoolPtr_def split: option.splits)

end
