(* ===== verification/Models.thy ===== *)
theory Models
  imports GoTime Nullable
begin

text \<open>
  The data of the aggregator: the messages of \<^verbatim>\<open>aggregationpb\<close> (a message pointer is an
  \<^typ>\<open>'a option\<close>, a repeated field a list) and the in-memory types of \<^verbatim>\<open>aggregators/models.go\<close>.
  Two third-party packages are parameters, given by the records of their operations:
  \<^verbatim>\<open>github.com/axiomhq/hyperloglog\<close> (sketches of type \<^typ>\<open>'sk\<close>) and
  \<^verbatim>\<open>github.com/cespare/xxhash/v2\<close> (digests of type \<^typ>\<open>'d\<close>).
\<close>

section \<open>Interfaces of the third-party packages\<close>

record 'sk hll_ops =
  hll_New14 :: 'sk
  hll_InsertHash :: "'sk \<Rightarrow> uint64 \<Rightarrow> 'sk"
  hll_Merge :: "'sk \<Rightarrow> 'sk \<Rightarrow> 'sk"
  hll_MarshalBinary :: "'sk \<Rightarrow> bytes"
  hll_UnmarshalBinary :: "bytes \<Rightarrow> 'sk"
  hll_Estimate :: "'sk \<Rightarrow> uint64"

record 'd xxhash_ops =
  xx_Digest0 :: 'd
  xx_Write :: "'d \<Rightarrow> bytes \<Rightarrow> 'd"
  xx_WriteString :: "'d \<Rightarrow> string \<Rightarrow> 'd"
  xx_Sum64 :: "'d \<Rightarrow> uint64"

section \<open>Messages\<close>

record HDRHistogram =
  hdr_LowestTrackableValue :: int64
  hdr_HighestTrackableValue :: int64
  hdr_SignificantFigures :: int64
  hdr_Counts :: "int64 list"
  hdr_Buckets :: "int32 list"

record TransactionMetrics =
  tm_Histogram :: "HDRHistogram option"

record ServiceTransactionMetrics =
  stm_Histogram :: "HDRHistogram option"
  stm_FailureCount :: float64
  stm_SuccessCount :: float64

record SpanMetrics =
  spm_Count :: float64
  spm_Sum :: float64

record TransactionAggregationKey =
  pbtk_TraceRoot :: bool
  pbtk_ContainerId :: string
  pbtk_KubernetesPodName :: string
  pbtk_ServiceVersion :: string
  pbtk_ServiceNodeName :: string
  pbtk_ServiceRuntimeName :: string
  pbtk_ServiceRuntimeVersion :: string
  pbtk_ServiceLanguageVersion :: string
  pbtk_HostHostname :: string
  pbtk_HostName :: string
  pbtk_HostOsPlatform :: string
  pbtk_EventOutcome :: string
  pbtk_TransactionName :: string
  pbtk_TransactionType :: string
  pbtk_TransactionResult :: string
  pbtk_FaasColdstart :: uint32
  pbtk_FaasId :: string
  pbtk_FaasName :: string
  pbtk_FaasVersion :: string
  pbtk_FaasTriggerType :: string
  pbtk_CloudProvider :: string
  pbtk_CloudRegion :: string
  pbtk_CloudAvailabilityZone :: string
  pbtk_CloudServiceName :: string
  pbtk_CloudAccountId :: string
  pbtk_CloudAccountName :: string
  pbtk_CloudMachineType :: string
  pbtk_CloudProjectId :: string
  pbtk_CloudProjectName :: string

record ServiceTransactionAggregationKey =
  pbstk_TransactionType :: string

record SpanAggregationKey =
  pbspk_SpanName :: string
  pbspk_Outcome :: string
  pbspk_TargetType :: string
  pbspk_TargetName :: string
  pbspk_Resource :: string

record ServiceAggregationKey =
  pbsk_Timestamp :: uint64
  pbsk_ServiceName :: string
  pbsk_ServiceEnvironment :: string
  pbsk_ServiceLanguageName :: string
  pbsk_AgentName :: string

record ServiceInstanceAggregationKey =
  pbsik_GlobalLabelsStr :: bytes

record KeyedTransactionMetrics =
  ktm_Key :: "TransactionAggregationKey option"
  ktm_Metrics :: "TransactionMetrics option"

record KeyedServiceTransactionMetrics =
  kstm_Key :: "ServiceTransactionAggregationKey option"
  kstm_Metrics :: "ServiceTransactionMetrics option"

record KeyedSpanMetrics =
  kspm_Key :: "SpanAggregationKey option"
  kspm_Metrics :: "SpanMetrics option"

record ServiceInstanceMetrics =
  pbsim_TransactionMetrics :: "KeyedTransactionMetrics list"
  pbsim_ServiceTransactionMetrics :: "KeyedServiceTransactionMetrics list"
  pbsim_SpanMetrics :: "KeyedSpanMetrics list"

record KeyedServiceInstanceMetrics =
  ksim_Key :: "ServiceInstanceAggregationKey option"
  ksim_Metrics :: "ServiceInstanceMetrics option"

record Overflow =
  pbo_OverflowTransactions :: "TransactionMetrics option"
  pbo_OverflowServiceTransactions :: "ServiceTransactionMetrics option"
  pbo_OverflowSpans :: "SpanMetrics option"
  pbo_OverflowTransactionsEstimator :: bytes
  pbo_OverflowServiceTransactionsEstimator :: bytes
  pbo_OverflowSpansEstimator :: bytes

record ServiceMetrics =
  pbsm_ServiceInstanceMetrics :: "KeyedServiceInstanceMetrics list"
  pbsm_OverflowGroups :: "Overflow option"

record KeyedServiceMetrics =
  ksm_Key :: "ServiceAggregationKey option"
  ksm_Metrics :: "ServiceMetrics option"

record CombinedMetrics =
  pbcm_ServiceMetrics :: "KeyedServiceMetrics list"
  pbcm_OverflowServices :: "Overflow option"
  pbcm_OverflowServiceInstancesEstimator :: bytes
  pbcm_EventsTotal :: float64
  pbcm_YoungestEventTimestamp :: uint64

text \<open>The messages of \<^verbatim>\<open>labels.proto\<close>.\<close>

record Label =
  lb_Key :: string
  lb_Value :: string
  lb_Values :: "string list"

record NumericLabel =
  nl_Key :: string
  nl_Value :: float64
  nl_Values :: "float64 list"

record GlobalLabels =
  gl_Labels :: "Label list"
  gl_NumericLabels :: "NumericLabel list"

section \<open>Limits and keys of models.go\<close>

record Limits =
  MaxServices :: int
  MaxServiceInstanceGroupsPerService :: int
  MaxSpanGroups :: int
  MaxSpanGroupsPerService :: int
  MaxTransactionGroups :: int
  MaxTransactionGroupsPerService :: int
  MaxServiceTransactionGroups :: int
  MaxServiceTransactionGroupsPerService :: int

record CombinedMetricsKey =
  cmk_Interval :: duration
  cmk_ProcessingTime :: gotime
  cmk_PartitionID :: uint16
  cmk_ID :: bytes

record serviceAggregationKey =
  sk_Timestamp :: gotime
  sk_ServiceName :: string
  sk_ServiceEnvironment :: string
  sk_ServiceLanguageName :: string
  sk_AgentName :: string

record serviceInstanceAggregationKey =
  sik_GlobalLabelsStr :: string

record transactionAggregationKey =
  tk_TraceRoot :: bool
  tk_ContainerID :: string
  tk_KubernetesPodName :: string
  tk_ServiceVersion :: string
  tk_ServiceNodeName :: string
  tk_ServiceRuntimeName :: string
  tk_ServiceRuntimeVersion :: string
  tk_ServiceLanguageVersion :: string
  tk_HostHostname :: string
  tk_HostName :: string
  tk_HostOSPlatform :: string
  tk_EventOutcome :: string
  tk_TransactionName :: string
  tk_TransactionType :: string
  tk_TransactionResult :: string
  tk_FAASColdstart :: nbool
  tk_FAASID :: string
  tk_FAASName :: string
  tk_FAASVersion :: string
  tk_FAASTriggerType :: string
  tk_CloudProvider :: string
  tk_CloudRegion :: string
  tk_CloudAvailabilityZone :: string
  tk_CloudServiceName :: string
  tk_CloudAccountID :: string
  tk_CloudAccountName :: string
  tk_CloudMachineType :: string
  tk_CloudProjectID :: string
  tk_CloudProjectName :: string

record spanAggregationKey =
  spk_SpanName :: string
  spk_Outcome :: string
  spk_TargetType :: string
  spk_TargetName :: string
  spk_Resource :: string

record serviceTransactionAggregationKey =
  stk_TransactionType :: string

section \<open>In-memory metrics of models.go\<close>

record 'sk overflowTransaction =
  ot_Metrics :: "TransactionMetrics option"
  ot_Estimator :: "'sk option"

record 'sk overflowServiceTransaction =
  ost_Metrics :: "ServiceTransactionMetrics option"
  ost_Estimator :: "'sk option"

record 'sk overflowSpan =
  osp_Metrics :: "SpanMetrics option"
  osp_Estimator :: "'sk option"

record 'sk overflow =
  OverflowTransaction :: "'sk overflowTransaction"
  OverflowServiceTransaction :: "'sk overflowServiceTransaction"
  OverflowSpan :: "'sk overflowSpan"

record serviceInstanceMetrics =
  TransactionGroups :: "(transactionAggregationKey, KeyedTransactionMetrics) gomap"
  ServiceTransactionGroups :: "(serviceTransactionAggregationKey, KeyedServiceTransactionMetrics) gomap"
  SpanGroups :: "(spanAggregationKey, KeyedSpanMetrics) gomap"

record 'sk serviceMetrics =
  ServiceInstanceGroups :: "(serviceInstanceAggregationKey, serviceInstanceMetrics) gomap"
  OverflowGroups :: "'sk overflow"

record 'sk combinedMetrics =
  Services :: "(serviceAggregationKey, 'sk serviceMetrics) gomap"
  OverflowServices :: "'sk overflow"
  OverflowServiceInstancesEstimator :: "'sk option"
  EventsTotal :: float64
  YoungestEventTimestamp :: uint64

section \<open>Zero values\<close>

text \<open>The messages a pool hands out are reset, hence zero values.\<close>

definition zero_HDRHistogram :: HDRHistogram where
  "zero_HDRHistogram = \<lparr>hdr_LowestTrackableValue = 0, hdr_HighestTrackableValue = 0,
     hdr_SignificantFigures = 0, hdr_Counts = [], hdr_Buckets = []\<rparr>"

definition zero_TransactionMetrics :: TransactionMetrics where
  "zero_TransactionMetrics = \<lparr>tm_Histogram = None\<rparr>"

definition zero_ServiceTransactionMetrics :: ServiceTransactionMetrics where
  "zero_ServiceTransactionMetrics =
     \<lparr>stm_Histogram = None, stm_FailureCount = Fin 0, stm_SuccessCount = Fin 0\<rparr>"

definition zero_SpanMetrics :: SpanMetrics where
  "zero_SpanMetrics = \<lparr>spm_Count = Fin 0, spm_Sum = Fin 0\<rparr>"

definition zero_Overflow :: Overflow where
  "zero_Overflow = \<lparr>pbo_OverflowTransactions = None, pbo_OverflowServiceTransactions = None,
     pbo_OverflowSpans = None, pbo_OverflowTransactionsEstimator = [],
     pbo_OverflowServiceTransactionsEstimator = [], pbo_OverflowSpansEstimator = []\<rparr>"

definition zero_overflow :: "'sk overflow" where
  "zero_overflow =
     \<lparr>OverflowTransaction = \<lparr>ot_Metrics = None, ot_Estimator = None\<rparr>,
      OverflowServiceTransaction = \<lparr>ost_Metrics = None, ost_Estimator = None\<rparr>,
      OverflowSpan = \<lparr>osp_Metrics = None, osp_Estimator = None\<rparr>\<rparr>"

definition zero_combinedMetrics :: "'sk combinedMetrics" where
  "zero_combinedMetrics = \<lparr>Services = [], OverflowServices = zero_overflow,
     OverflowServiceInstancesEstimator = None, EventsTotal = Fin 0, YoungestEventTimestamp = 0\<rparr>"

section \<open>Sketches\<close>

definition insertHash :: "'sk hll_ops \<Rightarrow> 'sk option \<Rightarrow> uint64 \<Rightarrow> 'sk option" where
  "insertHash H to hash =
     (let s = (case to of None \<Rightarrow> hll_New14 H | Some s \<Rightarrow> s) in Some (hll_InsertHash H s hash))"

definition mergeEstimator :: "'sk hll_ops \<Rightarrow> 'sk option \<Rightarrow> 'sk \<Rightarrow> 'sk option" where
  "mergeEstimator H to from =
     (let s = (case to of None \<Rightarrow> hll_New14 H | Some s \<Rightarrow> s) in Some (hll_Merge H s from))"

end
