(* ===== verification/ModelPB.thy ===== *)
theory ModelPB
  imports Models
begin

text \<open>
  The event messages of \<^verbatim>\<open>github.com/elastic/apm-data/model/modelpb\<close>, with the fields that the
  aggregator reads or writes. A message pointer is an option; a getter on a nil message gives the zero
  value, which is \<open>getf\<close>. A protobuf timestamp or duration is the instant or duration it stands for;
  converting a nil one gives the Unix epoch and the zero duration. \<open>FromVTPool\<close> hands out a reset
  message, a zero value.
\<close>

definition getf :: "('m \<Rightarrow> 'f) \<Rightarrow> 'f \<Rightarrow> 'm option \<Rightarrow> 'f" where
  "getf f d m = (case m of None \<Rightarrow> d | Some m \<Rightarrow> f m)"

lemma getf_simps [simp]: "getf f d None = d" "getf f d (Some m) = f m"
  by (simp_all add: getf_def)

definition AsTime :: "gotime option \<Rightarrow> gotime" where
  "AsTime t = (case t of None \<Rightarrow> 0 | Some t \<Rightarrow> t)"

definition AsDuration :: "duration option \<Rightarrow> duration" where
  "AsDuration d = (case d of None \<Rightarrow> 0 | Some d \<Rightarrow> d)"

section \<open>Messages\<close>

record LabelValue =
  lv_Value :: string
  lv_Values :: "string list"
  lv_Global :: bool

record NumericLabelValue =
  nlv_Value :: float64
  nlv_Values :: "float64 list"
  nlv_Global :: bool

record Container =
  ctr_Id :: string

record Kubernetes =
  k8s_PodName :: string

record ServiceNode =
  sn_Name :: string

record Runtime =
  rt_Name :: string
  rt_Version :: string

record Language =
  lang_Name :: string
  lang_Version :: string

record ServiceTarget =
  tgt_Type :: string
  tgt_Name :: string

record Service =
  svc_Name :: string
  svc_Environment :: string
  svc_Version :: string
  svc_Node :: "ServiceNode option"
  svc_Runtime :: "Runtime option"
  svc_Language :: "Language option"
  svc_Target :: "ServiceTarget option"

record OS =
  os_Platform :: string

record Host =
  host_Hostname :: string
  host_Name :: string
  host_Os :: "OS option"

record SummaryMetric =
  sum_Count :: uint64
  sum_Sum :: float64

record Event =
  ev_Outcome :: string
  ev_Duration :: "duration option"
  ev_Received :: "gotime option"
  ev_SuccessCount :: "SummaryMetric option"

record Histogram =
  hg_Counts :: "uint64 list"
  hg_Values :: "float64 list"

record AggregatedDuration =
  ad_Count :: uint64
  ad_Sum :: "duration option"

record DroppedSpanStats =
  dss_Outcome :: string
  dss_ServiceTargetType :: string
  dss_ServiceTargetName :: string
  dss_DestinationServiceResource :: string
  dss_Duration :: "AggregatedDuration option"

record Transaction =
  tx_Name :: string
  tx_Type :: string
  tx_Result :: string
  tx_Root :: bool
  tx_RepresentativeCount :: float64
  tx_DroppedSpansStats :: "DroppedSpanStats list"
  tx_DurationSummary :: "SummaryMetric option"
  tx_DurationHistogram :: "Histogram option"

record Composite =
  comp_Count :: uint32
  comp_Sum :: float64

record DestinationService =
  ds_Resource :: string
  ds_ResponseTime :: "AggregatedDuration option"

record Span =
  sp_Name :: string
  sp_RepresentativeCount :: float64
  sp_DestinationService :: "DestinationService option"
  sp_Composite :: "Composite option"

record Faas =
  faas_ColdStart :: "bool option"
  faas_Id :: string
  faas_Name :: string
  faas_Version :: string
  faas_TriggerType :: string

record Cloud =
  cl_Provider :: string
  cl_Region :: string
  cl_AvailabilityZone :: string
  cl_ServiceName :: string
  cl_AccountId :: string
  cl_AccountName :: string
  cl_MachineType :: string
  cl_ProjectId :: string
  cl_ProjectName :: string

record Agent =
  ag_Name :: string

record MetricsetSample =
  mss_Name :: string
  mss_Value :: float64

record Metricset =
  mset_Name :: string
  mset_DocCount :: uint64
  mset_Interval :: string
  mset_Samples :: "MetricsetSample list"

record APMEvent =
  ae_Timestamp :: "gotime option"
  ae_ParentId :: string
  ae_Labels :: "(string, LabelValue) gomap option"
  ae_NumericLabels :: "(string, NumericLabelValue) gomap option"
  ae_Agent :: "Agent option"
  ae_Container :: "Container option"
  ae_Kubernetes :: "Kubernetes option"
  ae_Service :: "Service option"
  ae_Host :: "Host option"
  ae_Event :: "Event option"
  ae_Transaction :: "Transaction option"
  ae_Span :: "Span option"
  ae_Faas :: "Faas option"
  ae_Cloud :: "Cloud option"
  ae_Metricset :: "Metricset option"

section \<open>Zero values\<close>

definition zero_Service :: Service where
  "zero_Service = \<lparr>svc_Name = [], svc_Environment = [], svc_Version = [], svc_Node = None,
     svc_Runtime = None, svc_Language = None, svc_Target = None\<rparr>"

definition zero_Event :: Event where
  "zero_Event = \<lparr>ev_Outcome = [], ev_Duration = None, ev_Received = None, ev_SuccessCount = None\<rparr>"

definition zero_Transaction :: Transaction where
  "zero_Transaction = \<lparr>tx_Name = [], tx_Type = [], tx_Result = [], tx_Root = False,
     tx_RepresentativeCount = Fin 0, tx_DroppedSpansStats = [], tx_DurationSummary = None,
     tx_DurationHistogram = None\<rparr>"

definition zero_Span :: Span where
  "zero_Span = \<lparr>sp_Name = [], sp_RepresentativeCount = Fin 0, sp_DestinationService = None, sp_Composite = None\<rparr>"

definition zero_Host :: Host where
  "zero_Host = \<lparr>host_Hostname = [], host_Name = [], host_Os = None\<rparr>"

definition zero_Faas :: Faas where
  "zero_Faas = \<lparr>faas_ColdStart = None, faas_Id = [], faas_Name = [], faas_Version = [], faas_TriggerType = []\<rparr>"

definition zero_Cloud :: Cloud where
  "zero_Cloud = \<lparr>cl_Provider = [], cl_Region = [], cl_AvailabilityZone = [], cl_ServiceName = [],
     cl_AccountId = [], cl_AccountName = [], cl_MachineType = [], cl_ProjectId = [], cl_ProjectName = []\<rparr>"

definition zero_Metricset :: Metricset where
  "zero_Metricset = \<lparr>mset_Name = [], mset_DocCount = 0, mset_Interval = [], mset_Samples = []\<rparr>"

definition zero_APMEvent :: APMEvent where
  "zero_APMEvent = \<lparr>ae_Timestamp = None, ae_ParentId = [], ae_Labels = None, ae_NumericLabels = None,
     ae_Agent = None, ae_Container = None, ae_Kubernetes = None, ae_Service = None, ae_Host = None,
     ae_Event = None, ae_Transaction = None, ae_Span = None, ae_Faas = None, ae_Cloud = None,
     ae_Metricset = None\<rparr>"

text \<open>The classification of an event is a method of the library.\<close>

datatype APMEventType = TransactionEventType | SpanEventType | OtherEventType

end
