(* ===== verification/FloatBits.thy ===== *)
theory FloatBits
  imports Float64
begin

text \<open>
  \<^verbatim>\<open>math.Float64bits\<close> and \<^verbatim>\<open>math.Float64frombits\<close>: the binary64 interchange format, with one sign
  bit, eleven exponent bits and 52 fraction bits. The two zeros and all NaNs are one value each,
  as in theory \<open>Float64\<close>.
\<close>

definition mag_bits :: "rat \<Rightarrow> nat" where
  "mag_bits x =
     (let q = max (ilog2 x - 52) (- 1074); m = nat \<lfloor>x / 2 powi q\<rfloor>
      in if m < 2 ^ 52 then m else nat (q + 1075) * 2 ^ 52 + (m - 2 ^ 52))"

definition Float64bits :: "float64 \<Rightarrow> uint64" where
  "Float64bits f =
     (case f of
        Fin x \<Rightarrow> if x = 0 then 0
                 else of_nat ((if x < 0 then 2 ^ 63 else 0) + mag_bits \<bar>x\<bar>)
      | PosInf \<Rightarrow> 0x7FF0000000000000
      | NegInf \<Rightarrow> 0xFFF0000000000000
      | NaN \<Rightarrow> 0x7FF8000000000001)"

definition mag_of_bits :: "nat \<Rightarrow> rat" where
  "mag_of_bits u =
     (let e = u div 2 ^ 52; m = u mod 2 ^ 52
      in if e = 0 then of_nat m * 2 powi (- 1074)
         else of_nat (2 ^ 52 + m) * 2 powi (int e - 1075))"

definition Float64frombits :: "uint64 \<Rightarrow> float64" where
  "Float64frombits w =
     (let neg = unat w \<ge> 2 ^ 63; u = unat w mod 2 ^ 63
      in if u div 2 ^ 52 = 2047
         then (if u mod 2 ^ 52 = 0 then (if neg then NegInf else PosInf) else NaN)
         else Fin (if neg then - mag_of_bits u else mag_of_bits u))"

text \<open>The rationals that are binary64 values.\<close>

definition is_f64 :: "float64 \<Rightarrow> bool" where
  "is_f64 f \<longleftrightarrow> (case f of Fin x \<Rightarrow> rnd64 x = Fin x | _ \<Rightarrow> True)"

lemma is_f64_0 [simp]: "is_f64 (Fin 0)"
  by (simp add: is_f64_def)

lemma is_f64_int: "\<bar>n\<bar> \<le> 2 ^ 53 \<Longrightarrow> is_f64 (Fin (of_int n))"
  by (simp add: is_f64_def rnd64_of_int)

lemma is_f64_decompose:
  assumes "is_f64 (Fin x)" and "x \<noteq> 0"
  defines "q \<equiv> max (ilog2 \<bar>x\<bar> - 52) (- 1074)"
  obtains n where "\<bar>x\<bar> = of_nat n * 2 powi q" and "n < 2 ^ 53" and "q = - 1074 \<or> 2 ^ 52 \<le> n" and "q \<le> 971"
proof -
  define k where "k = round_even (x / 2 powi q)"
  have x: "x = of_int k * 2 powi q" and lt: "\<bar>x\<bar> < 2 ^ 1024"
    using assms(1,2) unfolding is_f64_def
    by (auto simp: rnd64_def Let_def q_def [symmetric] k_def split: if_splits)
  have ax: "\<bar>x\<bar> = of_nat (nat \<bar>k\<bar>) * 2 powi q" by (simp add: x abs_mult)
  have pos: "0 < \<bar>x\<bar>" using assms(2) by simp
  have "ilog2 \<bar>x\<bar> + 1 \<le> q + 53" unfolding q_def by linarith
  then have "(2::rat) powi (ilog2 \<bar>x\<bar> + 1) \<le> 2 powi (q + 53)" by (rule power_int_increasing) simp
  then have up: "\<bar>x\<bar> < 2 powi (q + 53)"
    by (rule less_le_trans [OF ilog2_bounds(2) [OF pos]])
  also have "2 powi (q + 53) = (2 ^ 53 :: rat) * 2 powi q" by (simp add: power_int_add)
  finally have "rat_of_nat (nat \<bar>k\<bar>) < 2 ^ 53" by (simp add: ax)
  then have n1: "nat \<bar>k\<bar> < 2 ^ 53" by (metis of_nat_less_iff of_nat_numeral of_nat_power)
  have n2: "q = - 1074 \<or> 2 ^ 52 \<le> nat \<bar>k\<bar>"
  proof (cases "q = - 1074")
    case False
    then have "q = ilog2 \<bar>x\<bar> - 52" by (auto simp: q_def)
    then have "2 powi (52 + q) \<le> \<bar>x\<bar>" using ilog2_bounds(1) [OF pos] by simp
    then have "(2 ^ 52 :: rat) * 2 powi q \<le> rat_of_nat (nat \<bar>k\<bar>) * 2 powi q"
      unfolding ax by (simp add: power_int_add)
    then have "(2 ^ 52 :: rat) \<le> rat_of_nat (nat \<bar>k\<bar>)" by simp
    then show ?thesis by (metis of_nat_le_iff of_nat_numeral of_nat_power)
  qed simp
  have "ilog2 \<bar>x\<bar> < 1024"
    using pos lt by (intro ilog2_less) (simp_all add: power_int_def)
  then have "q \<le> 971" by (simp add: q_def)
  with ax n1 n2 show ?thesis by (rule that)
qed

lemma mag_bits_roundtrip:
  assumes "is_f64 (Fin x)" and "x \<noteq> 0"
  shows "mag_of_bits (mag_bits \<bar>x\<bar>) = \<bar>x\<bar>" and "mag_bits \<bar>x\<bar> div 2 ^ 52 < 2047"
proof -
  define q where "q = max (ilog2 \<bar>x\<bar> - 52) (- 1074)"
  from is_f64_decompose [OF assms, folded q_def] obtain n where
    n: "\<bar>x\<bar> = of_nat n * 2 powi q" "n < 2 ^ 53" "q = - 1074 \<or> 2 ^ 52 \<le> n" "q \<le> 971" .
  have fl: "nat \<lfloor>\<bar>x\<bar> / 2 powi q\<rfloor> = n" by (simp add: n(1))
  have mb: "mag_bits \<bar>x\<bar> = (if n < 2 ^ 52 then n else nat (q + 1075) * 2 ^ 52 + (n - 2 ^ 52))"
    by (simp add: mag_bits_def Let_def q_def [symmetric] fl)
  have "mag_of_bits (mag_bits \<bar>x\<bar>) = \<bar>x\<bar> \<and> mag_bits \<bar>x\<bar> div 2 ^ 52 < 2047"
  proof (cases "n < 2 ^ 52")
    case True
    then have "q = - 1074" using n(3) by auto
    moreover have "n div 2 ^ 52 = 0" "n mod 2 ^ 52 = n" using True by simp_all
    moreover have "mag_bits \<bar>x\<bar> = n" unfolding mb using True by simp
    moreover have "mag_of_bits n = of_nat n * 2 powi (- 1074)"
      unfolding mag_of_bits_def Let_def using calculation by simp
    ultimately show ?thesis using n(1) by (simp only:) simp
  next
    case False
    define e where "e = nat (q + 1075)"
    have q: "- 1074 \<le> q" by (simp add: q_def)
    have e: "1 \<le> e" "e < 2047" "int e - 1075 = q" using n(4) q by (auto simp: e_def)
    define r where "r = n - 2 ^ 52"
    have r: "r < 2 ^ 52" "2 ^ 52 + r = n" using n(2) False by (simp_all add: r_def)
    have d: "(e * 2 ^ 52 + r) div 2 ^ 52 = e" "(e * 2 ^ 52 + r) mod 2 ^ 52 = r"
      using r(1) by simp_all
    have "mag_bits \<bar>x\<bar> = e * 2 ^ 52 + r" unfolding mb e_def r_def using False by simp
    moreover have "mag_of_bits (e * 2 ^ 52 + r) = of_nat n * 2 powi q"
      unfolding mag_of_bits_def Let_def d r(2) e(3) using e(1) by simp
    ultimately show ?thesis using d(1) e(2) n(1) by (simp only:)
  qed
  then show "mag_of_bits (mag_bits \<bar>x\<bar>) = \<bar>x\<bar>" and "mag_bits \<bar>x\<bar> div 2 ^ 52 < 2047" by auto
qed

lemma Float64frombits_bits [simp]:
  assumes "is_f64 f"
  shows "Float64frombits (Float64bits f) = f"
proof (cases f)
  case (Fin x)
  show ?thesis
  proof (cases "x = 0")
    case True
    with Fin show ?thesis by (simp add: Float64bits_def Float64frombits_def Let_def mag_of_bits_def)
  next
    case False
    from Fin assms have f: "is_f64 (Fin x)" by simp
    note rt = mag_bits_roundtrip [OF f False]
    define u where "u = mag_bits \<bar>x\<bar>"
    have u: "mag_of_bits u = \<bar>x\<bar>" "u div 2 ^ 52 < 2047" using rt by (simp_all add: u_def)
    then have "u < 2047 * 2 ^ 52" by (simp add: less_mult_imp_div_less div_less_iff_less_mult)
    then have u63: "u < 2 ^ 63" by simp
    define s where "s = (if x < 0 then 2 ^ 63 else 0 :: nat)"
    have b: "Float64bits f = of_nat (s + u)" using False by (simp add: Float64bits_def Fin u_def s_def)
    have un: "unat (of_nat (s + u) :: uint64) = s + u"
      using u63 by (intro unat_of_nat64) (simp add: s_def)
    have m: "(s + u) mod 2 ^ 63 = u" using u63 by (simp add: s_def)
    have neg: "2 ^ 63 \<le> s + u \<longleftrightarrow> x < 0" using u63 by (simp add: s_def)
    have "u div 2 ^ 52 \<noteq> 2047" using u(2) by simp
    then show ?thesis
      unfolding b Float64frombits_def Let_def un m neg by (simp add: u(1) Fin)
  qed
qed (simp_all add: Float64bits_def Float64frombits_def Let_def)

end
