(* ===== verification/Wire.thy ===== *)
theory Wire
  imports FloatBits
begin

unbundle bit_operations_syntax

text \<open>
  The protobuf wire format as the generated code of \<^verbatim>\<open>aggregationpb/*_vtproto.pb.go\<close> writes and
  reads it: varints, length-delimited fields, fixed 64-bit fields, packed fields, and the loop that
  reads the fields of a message. A reader works on the bytes that are left, \<^term>\<open>drop iNdEx dAtA\<close>
  in the code; a writer fills its buffer from the back, so writing prepends bytes to what is written.
\<close>

datatype wire_error =
    ErrIntOverflow
  | ErrUnexpectedEOF
  | ErrInvalidLength
  | ErrUnexpectedEndOfGroup
  | IllegalWireType int
  | EndGroupForNonGroup
  | IllegalTag int
  | WrongWireType int
  | NoProgress

section \<open>Varints\<close>

text \<open>\<^verbatim>\<open>sov\<close>: the encoded length, \<^verbatim>\<open>(bits.Len64(x|1) + 6) / 7\<close>.\<close>

definition sov :: "uint64 \<Rightarrow> nat" where
  "sov x = nat ((bitlen (uint (x OR 1)) + 6) div 7)"

lemma unat_drop_bit_7: "unat (drop_bit 7 v) = unat v div 128" for v :: uint64
  by (simp add: drop_bit_eq_div unat_div)

text \<open>The loop of \<^verbatim>\<open>encodeVarint\<close>.\<close>

function varint :: "uint64 \<Rightarrow> bytes" where
  "varint v = (if v \<ge> 128 then ucast (v AND 0x7F OR 0x80) # varint (drop_bit 7 v) else [ucast v])"
  by pat_completeness auto
termination
proof (relation "measure unat")
  fix v :: uint64
  assume "v \<ge> 128"
  then have "unat (128 :: uint64) \<le> unat v" by (simp only: word_le_nat_alt)
  then show "(drop_bit 7 v, v) \<in> measure unat" by (simp only: in_measure unat_drop_bit_7) simp
qed simp

declare varint.simps [simp del]

text \<open>The loop that every varint read has inline; \<^term>\<open>acc\<close> is the variable it fills.\<close>

fun dec_varint :: "nat \<Rightarrow> 'a::len word \<Rightarrow> bytes \<Rightarrow> wire_error + ('a word \<times> bytes)" where
  "dec_varint shift acc [] = (if shift \<ge> 64 then Inl ErrIntOverflow else Inl ErrUnexpectedEOF)"
| "dec_varint shift acc (b # bs) =
     (if shift \<ge> 64 then Inl ErrIntOverflow
      else let acc = acc OR push_bit shift (ucast (b AND 0x7F))
           in if b < 0x80 then Inr (acc, bs) else dec_varint (shift + 7) acc bs)"

lemma dec_varint_length: "dec_varint s a bs = Inr (v, r) \<Longrightarrow> length r < length bs"
  by (induction s a bs rule: dec_varint.induct) (auto simp: Let_def split: if_splits)

lemma bits_7F: "bit (0x7F :: int) n \<longleftrightarrow> n < 7"
proof -
  have "(0x7F :: int) = mask 7" by (simp add: mask_eq_exp_minus_1)
  then show ?thesis by (simp only: bit_mask_iff) auto
qed

lemma bits_80: "bit (0x80 :: int) n \<longleftrightarrow> n = 7"
proof -
  have "(0x80 :: int) = 2 ^ 7" by simp
  then show ?thesis by (simp only: bit_exp_iff) auto
qed

lemma varint_low: "ucast (ucast (v AND 0x7F OR 0x80 :: uint64) AND 0x7F :: byte) = (ucast (v AND 0x7F) :: 'a::len word)"
  by (rule bit_word_eqI) (auto simp: bit_simps bits_7F bits_80 )

lemma varint_join:
  "push_bit s (ucast (v AND 0x7F)) OR push_bit (s + 7) (ucast (drop_bit 7 v)) = (push_bit s (ucast v) :: 'a::len word)"
  for v :: uint64
proof (rule bit_word_eqI)
  fix n
  have len: "bit v k \<Longrightarrow> k < 64" for k using bit_imp_le_length [of v k] by simp
  show "bit (push_bit s (ucast (v AND 0x7F)) OR push_bit (s + 7) (ucast (drop_bit 7 v)) :: 'a word) n
      \<longleftrightarrow> bit (push_bit s (ucast v) :: 'a word) n"
    by (cases "s + 7 \<le> n") (auto simp: bit_simps bits_7F dest: len)
qed

lemma varint_high: "\<not> ucast (v AND 0x7F OR 0x80 :: uint64) < (0x80 :: byte)"
proof -
  have "0x80 AND (ucast (v AND 0x7F OR 0x80) :: byte) = 0x80"
    by (rule bit_word_eqI) (auto simp: bit_simps bits_7F bits_80)
  then have "(0x80 :: byte) \<le> ucast (v AND 0x7F OR 0x80)"
    by (metis word_and_le1)
  then show ?thesis by simp
qed

text \<open>Reading back a varint gives the value, cut to the width of the variable.\<close>

lemma dec_varint_varint:
  assumes "unat v < 2 ^ (64 - s)" and "s < 64"
  shows "dec_varint s acc (varint v @ rest) = Inr (acc OR push_bit s (ucast v), rest)"
  using assms
proof (induction v arbitrary: s acc rule: varint.induct)
  case (1 v)
  show ?case
  proof (cases "v \<ge> 128")
    case True
    then have ge: "128 \<le> unat v" by (simp add: word_le_nat_alt)
    have s: "s + 7 < 64"
    proof (rule ccontr)
      assume "\<not> s + 7 < 64"
      then have "(2::nat) ^ (64 - s) \<le> 2 ^ 7" by (intro power_increasing) auto
      then show False using ge "1.prems"(1) by simp
    qed
    have "unat (drop_bit 7 v) = unat v div 128" by (rule unat_drop_bit_7)
    also have "\<dots> < 2 ^ (64 - (s + 7))"
    proof -
      have "64 - s = (64 - (s + 7)) + 7" using s by simp
      then have "(2::nat) ^ (64 - s) = 2 ^ (64 - (s + 7)) * 2 ^ 7" by (simp only: power_add)
      then show ?thesis using "1.prems"(1) by (simp add: less_mult_imp_div_less)
    qed
    finally have IH: "dec_varint (s + 7) (acc OR push_bit s (ucast (v AND 0x7F))) (varint (drop_bit 7 v) @ rest)
        = Inr ((acc OR push_bit s (ucast (v AND 0x7F))) OR push_bit (s + 7) (ucast (drop_bit 7 v)), rest)"
      using "1.IH" [OF True] s by blast
    show ?thesis
      using True IH s varint_high [of v]
      by (simp add: varint.simps [of v] Let_def varint_low or.assoc varint_join)
  next
    case False
    then have lt: "unat v < 128" by (simp add: word_le_nat_alt not_le)
    have v: "(ucast (ucast v AND 0x7F :: byte) :: 'a word) = ucast v"
    proof (rule bit_word_eqI)
      fix n
      assume "n < LENGTH('a)"
      have "unat (take_bit 7 v) = unat v" using lt by (simp add: unsigned_take_bit_eq take_bit_nat_eq_self)
      then have "take_bit 7 v = v" by (simp only: word_unat_eq_iff)
      then have "bit v n \<Longrightarrow> n < 7" by (metis bit_take_bit_iff)
      then show "bit (ucast (ucast v AND 0x7F :: byte) :: 'a word) n \<longleftrightarrow> bit (ucast v :: 'a word) n"
        by (auto simp: bit_simps bits_7F)
    qed
    have "(ucast v :: byte) < 0x80"
      using lt by (simp add: word_less_nat_alt unsigned_ucast_eq take_bit_nat_eq_self)
    then show ?thesis using False "1.prems"(2) v by (simp add: varint.simps [of v] Let_def)
  qed
qed

lemma dec_varint_0 [simp]: "dec_varint 0 0 (varint v @ rest) = Inr (ucast v :: 'a::len word, rest)"
  using dec_varint_varint [of v 0 "0 :: 'a word" rest] unat64_less [of v] by simp

lemma bitlen_half: "0 < n \<Longrightarrow> bitlen n = bitlen (n div 2) + 1"
  by (simp add: compute_bitlen [of n])

lemma bitlen_div_pow: "2 ^ k \<le> n \<Longrightarrow> bitlen (n div 2 ^ k) = bitlen n - int k"
proof (induction k arbitrary: n)
  case (Suc k)
  have pos: "0 < n" using Suc.prems by (metis less_le_trans zero_less_numeral zero_less_power)
  have "2 ^ k \<le> n div 2" using Suc.prems by simp
  then have "bitlen (n div 2 div 2 ^ k) = bitlen (n div 2) - int k" by (rule Suc.IH)
  moreover have "n div 2 div 2 ^ k = n div 2 ^ Suc k" by (simp add: zdiv_zmult2_eq)
  ultimately show ?case using bitlen_half [OF pos] by simp
qed simp

lemma bitlen_or_1: "0 \<le> n \<Longrightarrow> bitlen (n OR 1) = max 1 (bitlen n)"
proof -
  assume n: "0 \<le> n"
  have half: "(n OR 1) div 2 = n div 2"
  proof -
    have "drop_bit 1 (n OR 1) = drop_bit 1 n OR drop_bit 1 (1 :: int)" by (rule drop_bit_or)
    then show ?thesis by (simp add: drop_bit_eq_div)
  qed
  have pos: "0 < n OR 1"
  proof -
    have "0 \<le> n OR 1" using n by simp
    moreover have "odd (n OR 1)" by (simp add: even_or_iff)
    ultimately show ?thesis by (metis even_zero le_less)
  qed
  show ?thesis
  proof (cases "n = 0")
    case False
    then have "0 < n" using n by simp
    then show ?thesis using bitlen_half [OF pos] bitlen_half [of n] half bitlen_nonneg [of "n div 2"] by simp
  qed (simp add: bitlen_def floorlog_def)
qed

lemma length_varint: "length (varint v) = sov v"
proof (induction v rule: varint.induct)
  case (1 v)
  define n where "n = uint v"
  have n0: "0 \<le> n" by (simp add: n_def)
  have sv: "sov v = nat ((max 1 (bitlen n) + 6) div 7)"
    using bitlen_or_1 [OF n0] by (simp add: sov_def n_def unsigned_or_eq)
  show ?case
  proof (cases "v \<ge> 128")
    case True
    then have ge: "2 ^ 7 \<le> n" by (simp add: n_def word_le_def)
    have "uint (drop_bit 7 v) = n div 2 ^ 7"
      by (simp add: n_def drop_bit_eq_div uint_div)
    then have "sov (drop_bit 7 v) = nat ((max 1 (bitlen n - 7) + 6) div 7)"
      using bitlen_or_1 [of "n div 2 ^ 7"] bitlen_div_pow [OF ge] n0 by (simp add: sov_def unsigned_or_eq)
    moreover have "8 \<le> bitlen n" using ge by (simp add: bitlen_ge_iff_power)
    moreover have "(bitlen n + 6) div 7 = (bitlen n - 1) div 7 + 1"
      using div_add_self2 [of 7 "bitlen n - 1"] by simp
    moreover from calculation(2) have "0 \<le> (bitlen n - 1) div 7" by simp
    ultimately show ?thesis
      using True "1.IH" [OF True] sv by (simp add: varint.simps [of v] nat_add_distrib)
  next
    case False
    then have "n < 2 ^ 7" by (simp add: n_def word_le_def not_le)
    then have "bitlen n \<le> 7" using n0 by (simp add: bitlen_le_iff_power)
    then show ?thesis using False sv bitlen_nonneg [of n] by (simp add: varint.simps [of v])
  qed
qed

lemma varint_not_Nil [simp]: "varint v \<noteq> []"
  by (simp add: varint.simps [of v])

section \<open>Skipping unknown fields\<close>

text \<open>\<^verbatim>\<open>skip\<close>: the index after the field at the start of \<open>dAtA\<close>, which may lie beyond its end.\<close>

function skip_loop :: "bytes \<Rightarrow> nat \<Rightarrow> nat \<Rightarrow> wire_error + nat" where
  "skip_loop dAtA iNdEx depth =
     (if iNdEx < length dAtA then
        (case dec_varint 0 (0 :: uint64) (drop iNdEx dAtA) of
           Inl e \<Rightarrow> Inl e
         | Inr (wire, rest) \<Rightarrow>
             let i = length dAtA - length rest;
                 wireType = uint (wire AND 0x7);
                 step = (if wireType = 0 then
                           (case dec_varint 0 (0 :: uint64) rest of Inl e \<Rightarrow> Inl e
                            | Inr (_, rest) \<Rightarrow> Inr (length dAtA - length rest, depth))
                         else if wireType = 1 then Inr (i + 8, depth)
                         else if wireType = 2 then
                           (case dec_varint 0 (0 :: int64) rest of Inl e \<Rightarrow> Inl e
                            | Inr (len, rest) \<Rightarrow>
                                if sint len < 0 \<or> int (length dAtA - length rest) + sint len \<ge> 2 ^ 63
                                then Inl ErrInvalidLength
                                else Inr (length dAtA - length rest + unat len, depth))
                         else if wireType = 3 then Inr (i, depth + 1)
                         else if wireType = 4 then
                           (if depth = 0 then Inl ErrUnexpectedEndOfGroup else Inr (i, depth - 1))
                         else if wireType = 5 then Inr (i + 4, depth)
                         else Inl (IllegalWireType wireType))
             in case step of Inl e \<Rightarrow> Inl e
                | Inr (i', d') \<Rightarrow>
                    if d' = 0 then Inr i'
                    else if iNdEx < i' then skip_loop dAtA i' d' else Inl NoProgress)
      else Inl ErrUnexpectedEOF)"
  by pat_completeness auto
termination
  by (relation "measure (\<lambda>(dAtA, i, d). length dAtA - i)") auto

declare skip_loop.simps [simp del]

definition skip :: "bytes \<Rightarrow> wire_error + nat" where
  "skip dAtA = skip_loop dAtA 0 0"

section \<open>Readers of fields\<close>

text \<open>A length-delimited value; \<open>l\<close> is the length of the whole message.\<close>

definition dec_len :: "nat \<Rightarrow> bytes \<Rightarrow> wire_error + (bytes \<times> bytes)" where
  "dec_len l bs =
     (case dec_varint 0 (0 :: int64) bs of
        Inl e \<Rightarrow> Inl e
      | Inr (len, rest) \<Rightarrow>
          if sint len < 0 then Inl ErrInvalidLength
          else if int (l - length rest) + sint len \<ge> 2 ^ 63 then Inl ErrInvalidLength
          else if sint len > int (length rest) then Inl ErrUnexpectedEOF
          else Inr (take (unat len) rest, drop (unat len) rest))"

definition rd_varint ::
  "int \<Rightarrow> bytes \<Rightarrow> ('a::len word \<Rightarrow> 'm) \<Rightarrow> wire_error + ('m \<times> bytes)" where
  "rd_varint wireType bs f =
     (if wireType \<noteq> 0 then Inl (WrongWireType wireType)
      else case dec_varint 0 0 bs of Inl e \<Rightarrow> Inl e | Inr (v, rest) \<Rightarrow> Inr (f v, rest))"

definition rd_bytes ::
  "nat \<Rightarrow> int \<Rightarrow> bytes \<Rightarrow> (bytes \<Rightarrow> 'm) \<Rightarrow> wire_error + ('m \<times> bytes)" where
  "rd_bytes l wireType bs f =
     (if wireType \<noteq> 2 then Inl (WrongWireType wireType)
      else case dec_len l bs of Inl e \<Rightarrow> Inl e | Inr (v, rest) \<Rightarrow> Inr (f v, rest))"

definition rd_msg ::
  "nat \<Rightarrow> int \<Rightarrow> bytes \<Rightarrow> (bytes \<Rightarrow> wire_error + 'x) \<Rightarrow> ('x \<Rightarrow> 'm) \<Rightarrow> wire_error + ('m \<times> bytes)" where
  "rd_msg l wireType bs dec f =
     (if wireType \<noteq> 2 then Inl (WrongWireType wireType)
      else case dec_len l bs of Inl e \<Rightarrow> Inl e
           | Inr (v, rest) \<Rightarrow> (case dec v of Inl e \<Rightarrow> Inl e | Inr x \<Rightarrow> Inr (f x, rest)))"

text \<open>\<^verbatim>\<open>binary.LittleEndian\<close>\<close>

definition Uint64_LE :: "bytes \<Rightarrow> uint64" where
  "Uint64_LE bs = foldr (\<lambda>b acc. push_bit 8 acc OR ucast b) (take 8 bs) 0"

definition rd_double :: "int \<Rightarrow> bytes \<Rightarrow> (float64 \<Rightarrow> 'm) \<Rightarrow> wire_error + ('m \<times> bytes)" where
  "rd_double wireType bs f =
     (if wireType \<noteq> 1 then Inl (WrongWireType wireType)
      else if length bs < 8 then Inl ErrUnexpectedEOF
      else Inr (f (Float64frombits (Uint64_LE bs)), drop 8 bs))"

text \<open>Packed fields: the loop runs until the end of the packed region is reached or passed.\<close>

function packed_varints :: "nat \<Rightarrow> bytes \<Rightarrow> 'a::len word list \<Rightarrow> wire_error + ('a word list \<times> bytes)" where
  "packed_varints stop bs acc =
     (if length bs > stop
      then case dec_varint 0 0 bs of Inl e \<Rightarrow> Inl e
           | Inr (v, rest) \<Rightarrow> packed_varints stop rest (acc @ [v])
      else Inr (acc, bs))"
  by pat_completeness auto
termination
  by (relation "measure (\<lambda>(stop, bs, acc). length bs)") (auto dest: dec_varint_length)

declare packed_varints.simps [simp del]

definition rd_packed_varint ::
  "nat \<Rightarrow> int \<Rightarrow> bytes \<Rightarrow> 'a::len word list \<Rightarrow> ('a word list \<Rightarrow> 'm) \<Rightarrow> wire_error + ('m \<times> bytes)" where
  "rd_packed_varint l wireType bs old f =
     (if wireType = 0 then
        (case dec_varint 0 0 bs of Inl e \<Rightarrow> Inl e | Inr (v, rest) \<Rightarrow> Inr (f (old @ [v]), rest))
      else if wireType = 2 then
        (case dec_varint 0 (0 :: int64) bs of
           Inl e \<Rightarrow> Inl e
         | Inr (len, rest) \<Rightarrow>
             if sint len < 0 \<or> int (l - length rest) + sint len \<ge> 2 ^ 63 then Inl ErrInvalidLength
             else if sint len > int (length rest) then Inl ErrUnexpectedEOF
             else case packed_varints (length rest - unat len) rest old of
                    Inl e \<Rightarrow> Inl e | Inr (vs, rest) \<Rightarrow> Inr (f vs, rest))
      else Inl (WrongWireType wireType))"

function packed_doubles :: "nat \<Rightarrow> bytes \<Rightarrow> float64 list \<Rightarrow> wire_error + (float64 list \<times> bytes)" where
  "packed_doubles stop bs acc =
     (if length bs > stop
      then if length bs < 8 then Inl ErrUnexpectedEOF
           else packed_doubles stop (drop 8 bs) (acc @ [Float64frombits (Uint64_LE bs)])
      else Inr (acc, bs))"
  by pat_completeness auto
termination
  by (relation "measure (\<lambda>(stop, bs, acc). length bs)") auto

declare packed_doubles.simps [simp del]

definition rd_packed_double ::
  "nat \<Rightarrow> int \<Rightarrow> bytes \<Rightarrow> float64 list \<Rightarrow> (float64 list \<Rightarrow> 'm) \<Rightarrow> wire_error + ('m \<times> bytes)" where
  "rd_packed_double l wireType bs old f =
     (if wireType = 1 then
        (if length bs < 8 then Inl ErrUnexpectedEOF
         else Inr (f (old @ [Float64frombits (Uint64_LE bs)]), drop 8 bs))
      else if wireType = 2 then
        (case dec_varint 0 (0 :: int64) bs of
           Inl e \<Rightarrow> Inl e
         | Inr (len, rest) \<Rightarrow>
             if sint len < 0 \<or> int (l - length rest) + sint len \<ge> 2 ^ 63 then Inl ErrInvalidLength
             else if sint len > int (length rest) then Inl ErrUnexpectedEOF
             else case packed_doubles (length rest - unat len) rest old of
                    Inl e \<Rightarrow> Inl e | Inr (vs, rest) \<Rightarrow> Inr (f vs, rest))
      else Inl (WrongWireType wireType))"

section \<open>The loop over the fields of a message\<close>

text \<open>
  \<open>fields\<close> is the switch over the field numbers; \<^term>\<open>None\<close> is its default case, which skips the
  field. Every reader returns a suffix of what it was given, so each round makes progress; the
  error \<^term>\<open>NoProgress\<close> of the definition does not occur.
\<close>

function unmarshal ::
  "nat \<Rightarrow> (int \<Rightarrow> int \<Rightarrow> bytes \<Rightarrow> 'm \<Rightarrow> (wire_error + ('m \<times> bytes)) option) \<Rightarrow> bytes \<Rightarrow> 'm \<Rightarrow> wire_error + 'm" where
  "unmarshal l fields bs m =
     (if bs = [] then Inr m
      else case dec_varint 0 (0 :: uint64) bs of
        Inl e \<Rightarrow> Inl e
      | Inr (wire, rest) \<Rightarrow>
          let fieldNum = sint (ucast (drop_bit 3 wire) :: int32); wireType = uint (wire AND 0x7)
          in if wireType = 4 then Inl EndGroupForNonGroup
             else if fieldNum \<le> 0 then Inl (IllegalTag fieldNum)
             else case fields fieldNum wireType rest m of
               Some (Inl e) \<Rightarrow> Inl e
             | Some (Inr (m', rest')) \<Rightarrow>
                 if length rest' < length bs then unmarshal l fields rest' m' else Inl NoProgress
             | None \<Rightarrow>
                 (case skip bs of
                    Inl e \<Rightarrow> Inl e
                  | Inr skippy \<Rightarrow>
                      if int (l - length bs) + int skippy \<ge> 2 ^ 63 then Inl ErrInvalidLength
                      else if skippy > length bs then Inl ErrUnexpectedEOF
                      else if skippy = 0 then Inl NoProgress
                      else unmarshal l fields (drop skippy bs) m))"
  by pat_completeness auto
termination
  by (relation "measure (\<lambda>(l, fields, bs, m). length bs)") auto

declare unmarshal.simps [simp del]

section \<open>Writers of fields\<close>

text \<open>\<open>d\<close> is what has been written behind the field.\<close>

definition put_varint :: "bytes \<Rightarrow> uint64 \<Rightarrow> bytes \<Rightarrow> bytes" where
  "put_varint tag v d = (if v \<noteq> 0 then tag @ varint v @ d else d)"

definition put_bool :: "bytes \<Rightarrow> bool \<Rightarrow> bytes \<Rightarrow> bytes" where
  "put_bool tag v d = (if v then tag @ (if v then 1 else 0) # d else d)"

definition put_bytes :: "bytes \<Rightarrow> bytes \<Rightarrow> bytes \<Rightarrow> bytes" where
  "put_bytes tag v d = (if length v > 0 then tag @ varint (of_nat (length v)) @ v @ d else d)"

definition put_msg :: "bytes \<Rightarrow> ('x \<Rightarrow> bytes) \<Rightarrow> 'x option \<Rightarrow> bytes \<Rightarrow> bytes" where
  "put_msg tag enc x d =
     (case x of None \<Rightarrow> d | Some x \<Rightarrow> tag @ varint (of_nat (length (enc x))) @ enc x @ d)"

definition put_msgs :: "bytes \<Rightarrow> ('x \<Rightarrow> bytes) \<Rightarrow> 'x list \<Rightarrow> bytes \<Rightarrow> bytes" where
  "put_msgs tag enc xs d = foldr (\<lambda>x d. tag @ varint (of_nat (length (enc x))) @ enc x @ d) xs d"

definition put_double :: "bytes \<Rightarrow> float64 \<Rightarrow> bytes \<Rightarrow> bytes" where
  "put_double tag v d = (if v \<noteq> Fin 0 then tag @ PutUint64_LE (Float64bits v) @ d else d)"

definition put_packed_varint :: "bytes \<Rightarrow> uint64 list \<Rightarrow> bytes \<Rightarrow> bytes" where
  "put_packed_varint tag vs d =
     (if length vs > 0
      then tag @ varint (of_nat (sum_list (map sov vs))) @ concat (map varint vs) @ d else d)"

definition put_packed_double :: "bytes \<Rightarrow> float64 list \<Rightarrow> bytes \<Rightarrow> bytes" where
  "put_packed_double tag vs d =
     (if length vs > 0
      then tag @ varint (of_nat (length vs * 8)) @ concat (map (\<lambda>v. PutUint64_LE (Float64bits v)) vs) @ d
      else d)"

text \<open>The sizes that \<^verbatim>\<open>SizeVT\<close> adds up for them.\<close>

definition size_varint :: "nat \<Rightarrow> uint64 \<Rightarrow> nat" where
  "size_varint t v = (if v \<noteq> 0 then t + sov v else 0)"

definition size_bool :: "nat \<Rightarrow> bool \<Rightarrow> nat" where
  "size_bool t v = (if v then t + 1 else 0)"

definition size_bytes :: "nat \<Rightarrow> nat \<Rightarrow> nat" where
  "size_bytes t l = (if l > 0 then t + l + sov (of_nat l) else 0)"

definition size_msg :: "nat \<Rightarrow> ('x \<Rightarrow> nat) \<Rightarrow> 'x option \<Rightarrow> nat" where
  "size_msg t sz x = (case x of None \<Rightarrow> 0 | Some x \<Rightarrow> t + sz x + sov (of_nat (sz x)))"

definition size_msgs :: "nat \<Rightarrow> ('x \<Rightarrow> nat) \<Rightarrow> 'x list \<Rightarrow> nat" where
  "size_msgs t sz xs = sum_list (map (\<lambda>x. t + sz x + sov (of_nat (sz x))) xs)"

definition size_double :: "nat \<Rightarrow> float64 \<Rightarrow> nat" where
  "size_double t v = (if v \<noteq> Fin 0 then t + 8 else 0)"

definition size_packed_varint :: "nat \<Rightarrow> uint64 list \<Rightarrow> nat" where
  "size_packed_varint t vs =
     (if length vs > 0 then let l = sum_list (map sov vs) in t + sov (of_nat l) + l else 0)"

definition size_packed_double :: "nat \<Rightarrow> float64 list \<Rightarrow> nat" where
  "size_packed_double t vs =
     (if length vs > 0 then t + sov (of_nat (length vs * 8)) + length vs * 8 else 0)"

text \<open>\<^verbatim>\<open>MarshalVT\<close>: a buffer of the computed size is filled from the back, and the first \<open>n\<close> bytes of
  it are returned, \<open>n\<close> the number of bytes written. A buffer that is too small is a panic.\<close>

definition MarshalVT :: "('m \<Rightarrow> nat) \<Rightarrow> ('m \<Rightarrow> bytes) \<Rightarrow> 'm \<Rightarrow> bytes option" where
  "MarshalVT sz enc m =
     (let d = enc m; size = sz m
      in if length d > size then None
         else Some (take (length d) (replicate (size - length d) 0 @ d)))"

section \<open>Sizes are exact\<close>

named_theorems wire_sizes \<open>lengths of written fields\<close>

lemma put_varint_size [wire_sizes]: "length (put_varint tag v d) = size_varint (length tag) v + length d"
  by (simp add: put_varint_def size_varint_def length_varint)

lemma put_bool_size [wire_sizes]: "length (put_bool tag v d) = size_bool (length tag) v + length d"
  by (simp add: put_bool_def size_bool_def)

lemma put_bytes_size [wire_sizes]: "length (put_bytes tag v d) = size_bytes (length tag) (length v) + length d"
  by (simp add: put_bytes_def size_bytes_def length_varint)

lemma put_msg_size:
  "(\<And>x. length (enc x) = sz x) \<Longrightarrow> length (put_msg tag enc x d) = size_msg (length tag) sz x + length d"
  by (simp add: put_msg_def size_msg_def length_varint split: option.splits)

lemma put_msgs_size:
  "(\<And>x. length (enc x) = sz x) \<Longrightarrow> length (put_msgs tag enc xs d) = size_msgs (length tag) sz xs + length d"
  by (induction xs) (simp_all add: put_msgs_def size_msgs_def length_varint)

lemma size_msgs_mem: "x \<in> set xs \<Longrightarrow> sz x \<le> size_msgs t sz xs"
  by (induction xs) (auto simp: size_msgs_def)

lemma length_bytes_of_string [simp]: "length (bytes_of_string s) = length s"
  by (simp add: bytes_of_string_def)

lemma length_PutUint64_LE [simp]: "length (PutUint64_LE v) = 8"
  by (simp add: PutUint64_LE_def)

lemma put_double_size [wire_sizes]: "length (put_double tag v d) = size_double (length tag) v + length d"
  by (simp add: put_double_def size_double_def)

lemma put_packed_varint_size [wire_sizes]:
  "length (put_packed_varint tag vs d) = size_packed_varint (length tag) vs + length d"
  by (simp add: put_packed_varint_def size_packed_varint_def length_varint length_concat comp_def Let_def)

lemma put_packed_double_size [wire_sizes]:
  "length (put_packed_double tag vs d) = size_packed_double (length tag) vs + length d"
  by (simp add: put_packed_double_def size_packed_double_def length_varint length_concat comp_def sum_list_triv)

lemma MarshalVT_exact: "length (enc m) = sz m \<Longrightarrow> MarshalVT sz enc m = Some (enc m)"
  by (simp add: MarshalVT_def Let_def)

end
