(* ===== verification/Vtproto.thy ===== *)
theory Vtproto
  imports Models Wire
begin

text \<open>
  The generated codec of \<^verbatim>\<open>aggregationpb/aggregation_vtproto.pb.go\<close> and
  \<^verbatim>\<open>aggregationpb/labels_vtproto.pb.go\<close>, message by message: \<^verbatim>\<open>MarshalToSizedBufferVT\<close> writes the
  fields from the last to the first in front of what is written, \<^verbatim>\<open>SizeVT\<close> adds up the sizes, and
  \<^verbatim>\<open>UnmarshalVT\<close> runs the loop of theory \<open>Wire\<close> over the switch \<open>_fields\<close>. \<open>m\<close> is the message that is
  filled, \<open>l\<close> the length of the input. The bytes of unknown fields, which the Go messages keep
  aside, are skipped and not kept: every field this program writes is known to it.
\<close>

section \<open>HDRHistogram\<close>

definition HDRHistogram_MarshalToSizedBufferVT :: "HDRHistogram \<Rightarrow> bytes" where
  "HDRHistogram_MarshalToSizedBufferVT m =
     (let d = [];
          d = put_packed_varint [0x2A] (map scast (hdr_Buckets m)) d;
          d = put_packed_varint [0x22] (hdr_Counts m) d;
          d = put_varint [0x18] (hdr_SignificantFigures m) d;
          d = put_varint [0x10] (hdr_HighestTrackableValue m) d;
          d = put_varint [0x8] (hdr_LowestTrackableValue m) d
      in d)"

definition HDRHistogram_SizeVT :: "HDRHistogram \<Rightarrow> nat" where
  "HDRHistogram_SizeVT m =
     size_varint 1 (hdr_LowestTrackableValue m)
     + size_varint 1 (hdr_HighestTrackableValue m)
     + size_varint 1 (hdr_SignificantFigures m)
     + size_packed_varint 1 (hdr_Counts m)
     + size_packed_varint 1 (map scast (hdr_Buckets m))"

definition HDRHistogram_fields :: "nat \<Rightarrow> int \<Rightarrow> int \<Rightarrow> bytes \<Rightarrow> HDRHistogram \<Rightarrow> (wire_error + (HDRHistogram \<times> bytes)) option" where
  "HDRHistogram_fields l fieldNum w bs m =
     (if fieldNum = 1 then Some (rd_varint w bs (\<lambda>v. m\<lparr>hdr_LowestTrackableValue := v\<rparr>))
      else if fieldNum = 2 then Some (rd_varint w bs (\<lambda>v. m\<lparr>hdr_HighestTrackableValue := v\<rparr>))
      else if fieldNum = 3 then Some (rd_varint w bs (\<lambda>v. m\<lparr>hdr_SignificantFigures := v\<rparr>))
      else if fieldNum = 4 then Some (rd_packed_varint l w bs (hdr_Counts m) (\<lambda>vs. m\<lparr>hdr_Counts := vs\<rparr>))
      else if fieldNum = 5 then Some (rd_packed_varint l w bs (hdr_Buckets m) (\<lambda>vs. m\<lparr>hdr_Buckets := vs\<rparr>))
      else None)"

definition HDRHistogram_UnmarshalVT :: "bytes \<Rightarrow> HDRHistogram \<Rightarrow> wire_error + HDRHistogram" where
  "HDRHistogram_UnmarshalVT dAtA m = unmarshal (length dAtA) (HDRHistogram_fields (length dAtA)) dAtA m"

section \<open>TransactionMetrics\<close>

definition TransactionMetrics_MarshalToSizedBufferVT :: "TransactionMetrics \<Rightarrow> bytes" where
  "TransactionMetrics_MarshalToSizedBufferVT m =
     (let d = [];
          d = put_msg [0xA] HDRHistogram_MarshalToSizedBufferVT (tm_Histogram m) d
      in d)"

definition TransactionMetrics_SizeVT :: "TransactionMetrics \<Rightarrow> nat" where
  "TransactionMetrics_SizeVT m =
     size_msg 1 HDRHistogram_SizeVT (tm_Histogram m)"

definition TransactionMetrics_fields :: "nat \<Rightarrow> int \<Rightarrow> int \<Rightarrow> bytes \<Rightarrow> TransactionMetrics \<Rightarrow> (wire_error + (TransactionMetrics \<times> bytes)) option" where
  "TransactionMetrics_fields l fieldNum w bs m =
     (if fieldNum = 1 then Some (rd_msg l w bs
          (\<lambda>b. HDRHistogram_UnmarshalVT b (case tm_Histogram m of None \<Rightarrow> zero_HDRHistogram | Some x \<Rightarrow> x)) (\<lambda>x. m\<lparr>tm_Histogram := Some x\<rparr>))
      else None)"

definition TransactionMetrics_UnmarshalVT :: "bytes \<Rightarrow> TransactionMetrics \<Rightarrow> wire_error + TransactionMetrics" where
  "TransactionMetrics_UnmarshalVT dAtA m = unmarshal (length dAtA) (TransactionMetrics_fields (length dAtA)) dAtA m"

section \<open>ServiceTransactionMetrics\<close>

definition ServiceTransactionMetrics_MarshalToSizedBufferVT :: "ServiceTransactionMetrics \<Rightarrow> bytes" where
  "ServiceTransactionMetrics_MarshalToSizedBufferVT m =
     (let d = [];
          d = put_double [0x19] (stm_SuccessCount m) d;
          d = put_double [0x11] (stm_FailureCount m) d;
          d = put_msg [0xA] HDRHistogram_MarshalToSizedBufferVT (stm_Histogram m) d
      in d)"

definition ServiceTransactionMetrics_SizeVT :: "ServiceTransactionMetrics \<Rightarrow> nat" where
  "ServiceTransactionMetrics_SizeVT m =
     size_msg 1 HDRHistogram_SizeVT (stm_Histogram m)
     + size_double 1 (stm_FailureCount m)
     + size_double 1 (stm_SuccessCount m)"

definition ServiceTransactionMetrics_fields :: "nat \<Rightarrow> int \<Rightarrow> int \<Rightarrow> bytes \<Rightarrow> ServiceTransactionMetrics \<Rightarrow> (wire_error + (ServiceTransactionMetrics \<times> bytes)) option" where
  "ServiceTransactionMetrics_fields l fieldNum w bs m =
     (if fieldNum = 1 then Some (rd_msg l w bs
          (\<lambda>b. HDRHistogram_UnmarshalVT b (case stm_Histogram m of None \<Rightarrow> zero_HDRHistogram | Some x \<Rightarrow> x)) (\<lambda>x. m\<lparr>stm_Histogram := Some x\<rparr>))
      else if fieldNum = 2 then Some (rd_double w bs (\<lambda>v. m\<lparr>stm_FailureCount := v\<rparr>))
      else if fieldNum = 3 then Some (rd_double w bs (\<lambda>v. m\<lparr>stm_SuccessCount := v\<rparr>))
      else None)"

definition ServiceTransactionMetrics_UnmarshalVT :: "bytes \<Rightarrow> ServiceTransactionMetrics \<Rightarrow> wire_error + ServiceTransactionMetrics" where
  "ServiceTransactionMetrics_UnmarshalVT dAtA m = unmarshal (length dAtA) (ServiceTransactionMetrics_fields (length dAtA)) dAtA m"

section \<open>SpanMetrics\<close>

definition SpanMetrics_MarshalToSizedBufferVT :: "SpanMetrics \<Rightarrow> bytes" where
  "SpanMetrics_MarshalToSizedBufferVT m =
     (let d = [];
          d = put_double [0x11] (spm_Sum m) d;
          d = put_double [0x9] (spm_Count m) d
      in d)"

definition SpanMetrics_SizeVT :: "SpanMetrics \<Rightarrow> nat" where
  "SpanMetrics_SizeVT m =
     size_double 1 (spm_Count m)
     + size_double 1 (spm_Sum m)"

definition SpanMetrics_fields :: "nat \<Rightarrow> int \<Rightarrow> int \<Rightarrow> bytes \<Rightarrow> SpanMetrics \<Rightarrow> (wire_error + (SpanMetrics \<times> bytes)) option" where
  "SpanMetrics_fields l fieldNum w bs m =
     (if fieldNum = 1 then Some (rd_double w bs (\<lambda>v. m\<lparr>spm_Count := v\<rparr>))
      else if fieldNum = 2 then Some (rd_double w bs (\<lambda>v. m\<lparr>spm_Sum := v\<rparr>))
      else None)"

definition SpanMetrics_UnmarshalVT :: "bytes \<Rightarrow> SpanMetrics \<Rightarrow> wire_error + SpanMetrics" where
  "SpanMetrics_UnmarshalVT dAtA m = unmarshal (length dAtA) (SpanMetrics_fields (length dAtA)) dAtA m"

section \<open>TransactionAggregationKey\<close>

definition zero_TransactionAggregationKey :: TransactionAggregationKey where
  "zero_TransactionAggregationKey = \<lparr>pbtk_TraceRoot = False,
     pbtk_ContainerId = [],
     pbtk_KubernetesPodName = [],
     pbtk_ServiceVersion = [],
     pbtk_ServiceNodeName = [],
     pbtk_ServiceRuntimeName = [],
     pbtk_ServiceRuntimeVersion = [],
     pbtk_ServiceLanguageVersion = [],
     pbtk_HostHostname = [],
     pbtk_HostName = [],
     pbtk_HostOsPlatform = [],
     pbtk_EventOutcome = [],
     pbtk_TransactionName = [],
     pbtk_TransactionType = [],
     pbtk_TransactionResult = [],
     pbtk_FaasColdstart = 0,
     pbtk_FaasId = [],
     pbtk_FaasName = [],
     pbtk_FaasVersion = [],
     pbtk_FaasTriggerType = [],
     pbtk_CloudProvider = [],
     pbtk_CloudRegion = [],
     pbtk_CloudAvailabilityZone = [],
     pbtk_CloudServiceName = [],
     pbtk_CloudAccountId = [],
     pbtk_CloudAccountName = [],
     pbtk_CloudMachineType = [],
     pbtk_CloudProjectId = [],
     pbtk_CloudProjectName = []\<rparr>"

definition TransactionAggregationKey_MarshalToSizedBufferVT :: "TransactionAggregationKey \<Rightarrow> bytes" where
  "TransactionAggregationKey_MarshalToSizedBufferVT m =
     (let d = [];
          d = put_bytes [0xEA, 0x1] (bytes_of_string (pbtk_CloudProjectName m)) d;
          d = put_bytes [0xE2, 0x1] (bytes_of_string (pbtk_CloudProjectId m)) d;
          d = put_bytes [0xDA, 0x1] (bytes_of_string (pbtk_CloudMachineType m)) d;
          d = put_bytes [0xD2, 0x1] (bytes_of_string (pbtk_CloudAccountName m)) d;
          d = put_bytes [0xCA, 0x1] (bytes_of_string (pbtk_CloudAccountId m)) d;
          d = put_bytes [0xC2, 0x1] (bytes_of_string (pbtk_CloudServiceName m)) d;
          d = put_bytes [0xBA, 0x1] (bytes_of_string (pbtk_CloudAvailabilityZone m)) d;
          d = put_bytes [0xB2, 0x1] (bytes_of_string (pbtk_CloudRegion m)) d;
          d = put_bytes [0xAA, 0x1] (bytes_of_string (pbtk_CloudProvider m)) d;
          d = put_bytes [0xA2, 0x1] (bytes_of_string (pbtk_FaasTriggerType m)) d;
          d = put_bytes [0x9A, 0x1] (bytes_of_string (pbtk_FaasVersion m)) d;
          d = put_bytes [0x92, 0x1] (bytes_of_string (pbtk_FaasName m)) d;
          d = put_bytes [0x8A, 0x1] (bytes_of_string (pbtk_FaasId m)) d;
          d = put_varint [0x80, 0x1] (ucast (pbtk_FaasColdstart m)) d;
          d = put_bytes [0x7A] (bytes_of_string (pbtk_TransactionResult m)) d;
          d = put_bytes [0x72] (bytes_of_string (pbtk_TransactionType m)) d;
          d = put_bytes [0x6A] (bytes_of_string (pbtk_TransactionName m)) d;
          d = put_bytes [0x62] (bytes_of_string (pbtk_EventOutcome m)) d;
          d = put_bytes [0x5A] (bytes_of_string (pbtk_HostOsPlatform m)) d;
          d = put_bytes [0x52] (bytes_of_string (pbtk_HostName m)) d;
          d = put_bytes [0x4A] (bytes_of_string (pbtk_HostHostname m)) d;
          d = put_bytes [0x42] (bytes_of_string (pbtk_ServiceLanguageVersion m)) d;
          d = put_bytes [0x3A] (bytes_of_string (pbtk_ServiceRuntimeVersion m)) d;
          d = put_bytes [0x32] (bytes_of_string (pbtk_ServiceRuntimeName m)) d;
          d = put_bytes [0x2A] (bytes_of_string (pbtk_ServiceNodeName m)) d;
          d = put_bytes [0x22] (bytes_of_string (pbtk_ServiceVersion m)) d;
          d = put_bytes [0x1A] (bytes_of_string (pbtk_KubernetesPodName m)) d;
          d = put_bytes [0x12] (bytes_of_string (pbtk_ContainerId m)) d;
          d = put_bool [0x8] (pbtk_TraceRoot m) d
      in d)"

definition TransactionAggregationKey_SizeVT :: "TransactionAggregationKey \<Rightarrow> nat" where
  "TransactionAggregationKey_SizeVT m =
     size_bool 1 (pbtk_TraceRoot m)
     + size_bytes 1 (length (pbtk_ContainerId m))
     + size_bytes 1 (length (pbtk_KubernetesPodName m))
     + size_bytes 1 (length (pbtk_ServiceVersion m))
     + size_bytes 1 (length (pbtk_ServiceNodeName m))
     + size_bytes 1 (length (pbtk_ServiceRuntimeName m))
     + size_bytes 1 (length (pbtk_ServiceRuntimeVersion m))
     + size_bytes 1 (length (pbtk_ServiceLanguageVersion m))
     + size_bytes 1 (length (pbtk_HostHostname m))
     + size_bytes 1 (length (pbtk_HostName m))
     + size_bytes 1 (length (pbtk_HostOsPlatform m))
     + size_bytes 1 (length (pbtk_EventOutcome m))
     + size_bytes 1 (length (pbtk_TransactionName m))
     + size_bytes 1 (length (pbtk_TransactionType m))
     + size_bytes 1 (length (pbtk_TransactionResult m))
     + size_varint 2 (ucast (pbtk_FaasColdstart m))
     + size_bytes 2 (length (pbtk_FaasId m))
     + size_bytes 2 (length (pbtk_FaasName m))
     + size_bytes 2 (length (pbtk_FaasVersion m))
     + size_bytes 2 (length (pbtk_FaasTriggerType m))
     + size_bytes 2 (length (pbtk_CloudProvider m))
     + size_bytes 2 (length (pbtk_CloudRegion m))
     + size_bytes 2 (length (pbtk_CloudAvailabilityZone m))
     + size_bytes 2 (length (pbtk_CloudServiceName m))
     + size_bytes 2 (length (pbtk_CloudAccountId m))
     + size_bytes 2 (length (pbtk_CloudAccountName m))
     + size_bytes 2 (length (pbtk_CloudMachineType m))
     + size_bytes 2 (length (pbtk_CloudProjectId m))
     + size_bytes 2 (length (pbtk_CloudProjectName m))"

definition TransactionAggregationKey_fields :: "nat \<Rightarrow> int \<Rightarrow> int \<Rightarrow> bytes \<Rightarrow> TransactionAggregationKey \<Rightarrow> (wire_error + (TransactionAggregationKey \<times> bytes)) option" where
  "TransactionAggregationKey_fields l fieldNum w bs m =
     (if fieldNum = 1 then Some (rd_varint w bs (\<lambda>v :: int64. m\<lparr>pbtk_TraceRoot := v \<noteq> 0\<rparr>))
      else if fieldNum = 2 then Some (rd_bytes l w bs (\<lambda>v. m\<lparr>pbtk_ContainerId := string_of_bytes v\<rparr>))
      else if fieldNum = 3 then Some (rd_bytes l w bs (\<lambda>v. m\<lparr>pbtk_KubernetesPodName := string_of_bytes v\<rparr>))
      else if fieldNum = 4 then Some (rd_bytes l w bs (\<lambda>v. m\<lparr>pbtk_ServiceVersion := string_of_bytes v\<rparr>))
      else if fieldNum = 5 then Some (rd_bytes l w bs (\<lambda>v. m\<lparr>pbtk_ServiceNodeName := string_of_bytes v\<rparr>))
      else if fieldNum = 6 then Some (rd_bytes l w bs (\<lambda>v. m\<lparr>pbtk_ServiceRuntimeName := string_of_bytes v\<rparr>))
      else if fieldNum = 7 then Some (rd_bytes l w bs (\<lambda>v. m\<lparr>pbtk_ServiceRuntimeVersion := string_of_bytes v\<rparr>))
      else if fieldNum = 8 then Some (rd_bytes l w bs (\<lambda>v. m\<lparr>pbtk_ServiceLanguageVersion := string_of_bytes v\<rparr>))
      else if fieldNum = 9 then Some (rd_bytes l w bs (\<lambda>v. m\<lparr>pbtk_HostHostname := string_of_bytes v\<rparr>))
      else if fieldNum = 10 then Some (rd_bytes l w bs (\<lambda>v. m\<lparr>pbtk_HostName := string_of_bytes v\<rparr>))
      else if fieldNum = 11 then Some (rd_bytes l w bs (\<lambda>v. m\<lparr>pbtk_HostOsPlatform := string_of_bytes v\<rparr>))
      else if fieldNum = 12 then Some (rd_bytes l w bs (\<lambda>v. m\<lparr>pbtk_EventOutcome := string_of_bytes v\<rparr>))
      else if fieldNum = 13 then Some (rd_bytes l w bs (\<lambda>v. m\<lparr>pbtk_TransactionName := string_of_bytes v\<rparr>))
      else if fieldNum = 14 then Some (rd_bytes l w bs (\<lambda>v. m\<lparr>pbtk_TransactionType := string_of_bytes v\<rparr>))
      else if fieldNum = 15 then Some (rd_bytes l w bs (\<lambda>v. m\<lparr>pbtk_TransactionResult := string_of_bytes v\<rparr>))
      else if fieldNum = 16 then Some (rd_varint w bs (\<lambda>v. m\<lparr>pbtk_FaasColdstart := v\<rparr>))
      else if fieldNum = 17 then Some (rd_bytes l w bs (\<lambda>v. m\<lparr>pbtk_FaasId := string_of_bytes v\<rparr>))
      else if fieldNum = 18 then Some (rd_bytes l w bs (\<lambda>v. m\<lparr>pbtk_FaasName := string_of_bytes v\<rparr>))
      else if fieldNum = 19 then Some (rd_bytes l w bs (\<lambda>v. m\<lparr>pbtk_FaasVersion := string_of_bytes v\<rparr>))
      else if fieldNum = 20 then Some (rd_bytes l w bs (\<lambda>v. m\<lparr>pbtk_FaasTriggerType := string_of_bytes v\<rparr>))
      else if fieldNum = 21 then Some (rd_bytes l w bs (\<lambda>v. m\<lparr>pbtk_CloudProvider := string_of_bytes v\<rparr>))
      else if fieldNum = 22 then Some (rd_bytes l w bs (\<lambda>v. m\<lparr>pbtk_CloudRegion := string_of_bytes v\<rparr>))
      else if fieldNum = 23 then Some (rd_bytes l w bs (\<lambda>v. m\<lparr>pbtk_CloudAvailabilityZone := string_of_bytes v\<rparr>))
      else if fieldNum = 24 then Some (rd_bytes l w bs (\<lambda>v. m\<lparr>pbtk_CloudServiceName := string_of_bytes v\<rparr>))
      else if fieldNum = 25 then Some (rd_bytes l w bs (\<lambda>v. m\<lparr>pbtk_CloudAccountId := string_of_bytes v\<rparr>))
      else if fieldNum = 26 then Some (rd_bytes l w bs (\<lambda>v. m\<lparr>pbtk_CloudAccountName := string_of_bytes v\<rparr>))
      else if fieldNum = 27 then Some (rd_bytes l w bs (\<lambda>v. m\<lparr>pbtk_CloudMachineType := string_of_bytes v\<rparr>))
      else if fieldNum = 28 then Some (rd_bytes l w bs (\<lambda>v. m\<lparr>pbtk_CloudProjectId := string_of_bytes v\<rparr>))
      else if fieldNum = 29 then Some (rd_bytes l w bs (\<lambda>v. m\<lparr>pbtk_CloudProjectName := string_of_bytes v\<rparr>))
      else None)"

definition TransactionAggregationKey_UnmarshalVT :: "bytes \<Rightarrow> TransactionAggregationKey \<Rightarrow> wire_error + TransactionAggregationKey" where
  "TransactionAggregationKey_UnmarshalVT dAtA m = unmarshal (length dAtA) (TransactionAggregationKey_fields (length dAtA)) dAtA m"

section \<open>ServiceTransactionAggregationKey\<close>

definition zero_ServiceTransactionAggregationKey :: ServiceTransactionAggregationKey where
  "zero_ServiceTransactionAggregationKey = \<lparr>pbstk_TransactionType = []\<rparr>"

definition ServiceTransactionAggregationKey_MarshalToSizedBufferVT :: "ServiceTransactionAggregationKey \<Rightarrow> bytes" where
  "ServiceTransactionAggregationKey_MarshalToSizedBufferVT m =
     (let d = [];
          d = put_bytes [0xA] (bytes_of_string (pbstk_TransactionType m)) d
      in d)"

definition ServiceTransactionAggregationKey_SizeVT :: "ServiceTransactionAggregationKey \<Rightarrow> nat" where
  "ServiceTransactionAggregationKey_SizeVT m =
     size_bytes 1 (length (pbstk_TransactionType m))"

definition ServiceTransactionAggregationKey_fields :: "nat \<Rightarrow> int \<Rightarrow> int \<Rightarrow> bytes \<Rightarrow> ServiceTransactionAggregationKey \<Rightarrow> (wire_error + (ServiceTransactionAggregationKey \<times> bytes)) option" where
  "ServiceTransactionAggregationKey_fields l fieldNum w bs m =
     (if fieldNum = 1 then Some (rd_bytes l w bs (\<lambda>v. m\<lparr>pbstk_TransactionType := string_of_bytes v\<rparr>))
      else None)"

definition ServiceTransactionAggregationKey_UnmarshalVT :: "bytes \<Rightarrow> ServiceTransactionAggregationKey \<Rightarrow> wire_error + ServiceTransactionAggregationKey" where
  "ServiceTransactionAggregationKey_UnmarshalVT dAtA m = unmarshal (length dAtA) (ServiceTransactionAggregationKey_fields (length dAtA)) dAtA m"

section \<open>SpanAggregationKey\<close>

definition zero_SpanAggregationKey :: SpanAggregationKey where
  "zero_SpanAggregationKey = \<lparr>pbspk_SpanName = [],
     pbspk_Outcome = [],
     pbspk_TargetType = [],
     pbspk_TargetName = [],
     pbspk_Resource = []\<rparr>"

definition SpanAggregationKey_MarshalToSizedBufferVT :: "SpanAggregationKey \<Rightarrow> bytes" where
  "SpanAggregationKey_MarshalToSizedBufferVT m =
     (let d = [];
          d = put_bytes [0x2A] (bytes_of_string (pbspk_Resource m)) d;
          d = put_bytes [0x22] (bytes_of_string (pbspk_TargetName m)) d;
          d = put_bytes [0x1A] (bytes_of_string (pbspk_TargetType m)) d;
          d = put_bytes [0x12] (bytes_of_string (pbspk_Outcome m)) d;
          d = put_bytes [0xA] (bytes_of_string (pbspk_SpanName m)) d
      in d)"

definition SpanAggregationKey_SizeVT :: "SpanAggregationKey \<Rightarrow> nat" where
  "SpanAggregationKey_SizeVT m =
     size_bytes 1 (length (pbspk_SpanName m))
     + size_bytes 1 (length (pbspk_Outcome m))
     + size_bytes 1 (length (pbspk_TargetType m))
     + size_bytes 1 (length (pbspk_TargetName m))
     + size_bytes 1 (length (pbspk_Resource m))"

definition SpanAggregationKey_fields :: "nat \<Rightarrow> int \<Rightarrow> int \<Rightarrow> bytes \<Rightarrow> SpanAggregationKey \<Rightarrow> (wire_error + (SpanAggregationKey \<times> bytes)) option" where
  "SpanAggregationKey_fields l fieldNum w bs m =
     (if fieldNum = 1 then Some (rd_bytes l w bs (\<lambda>v. m\<lparr>pbspk_SpanName := string_of_bytes v\<rparr>))
      else if fieldNum = 2 then Some (rd_bytes l w bs (\<lambda>v. m\<lparr>pbspk_Outcome := string_of_bytes v\<rparr>))
      else if fieldNum = 3 then Some (rd_bytes l w bs (\<lambda>v. m\<lparr>pbspk_TargetType := string_of_bytes v\<rparr>))
      else if fieldNum = 4 then Some (rd_bytes l w bs (\<lambda>v. m\<lparr>pbspk_TargetName := string_of_bytes v\<rparr>))
      else if fieldNum = 5 then Some (rd_bytes l w bs (\<lambda>v. m\<lparr>pbspk_Resource := string_of_bytes v\<rparr>))
      else None)"

definition SpanAggregationKey_UnmarshalVT :: "bytes \<Rightarrow> SpanAggregationKey \<Rightarrow> wire_error + SpanAggregationKey" where
  "SpanAggregationKey_UnmarshalVT dAtA m = unmarshal (length dAtA) (SpanAggregationKey_fields (length dAtA)) dAtA m"

section \<open>ServiceAggregationKey\<close>

definition zero_ServiceAggregationKey :: ServiceAggregationKey where
  "zero_ServiceAggregationKey = \<lparr>pbsk_Timestamp = 0,
     pbsk_ServiceName = [],
     pbsk_ServiceEnvironment = [],
     pbsk_ServiceLanguageName = [],
     pbsk_AgentName = []\<rparr>"

definition ServiceAggregationKey_MarshalToSizedBufferVT :: "ServiceAggregationKey \<Rightarrow> bytes" where
  "ServiceAggregationKey_MarshalToSizedBufferVT m =
     (let d = [];
          d = put_bytes [0x2A] (bytes_of_string (pbsk_AgentName m)) d;
          d = put_bytes [0x22] (bytes_of_string (pbsk_ServiceLanguageName m)) d;
          d = put_bytes [0x1A] (bytes_of_string (pbsk_ServiceEnvironment m)) d;
          d = put_bytes [0x12] (bytes_of_string (pbsk_ServiceName m)) d;
          d = put_varint [0x8] (pbsk_Timestamp m) d
      in d)"

definition ServiceAggregationKey_SizeVT :: "ServiceAggregationKey \<Rightarrow> nat" where
  "ServiceAggregationKey_SizeVT m =
     size_varint 1 (pbsk_Timestamp m)
     + size_bytes 1 (length (pbsk_ServiceName m))
     + size_bytes 1 (length (pbsk_ServiceEnvironment m))
     + size_bytes 1 (length (pbsk_ServiceLanguageName m))
     + size_bytes 1 (length (pbsk_AgentName m))"

definition ServiceAggregationKey_fields :: "nat \<Rightarrow> int \<Rightarrow> int \<Rightarrow> bytes \<Rightarrow> ServiceAggregationKey \<Rightarrow> (wire_error + (ServiceAggregationKey \<times> bytes)) option" where
  "ServiceAggregationKey_fields l fieldNum w bs m =
     (if fieldNum = 1 then Some (rd_varint w bs (\<lambda>v. m\<lparr>pbsk_Timestamp := v\<rparr>))
      else if fieldNum = 2 then Some (rd_bytes l w bs (\<lambda>v. m\<lparr>pbsk_ServiceName := string_of_bytes v\<rparr>))
      else if fieldNum = 3 then Some (rd_bytes l w bs (\<lambda>v. m\<lparr>pbsk_ServiceEnvironment := string_of_bytes v\<rparr>))
      else if fieldNum = 4 then Some (rd_bytes l w bs (\<lambda>v. m\<lparr>pbsk_ServiceLanguageName := string_of_bytes v\<rparr>))
      else if fieldNum = 5 then Some (rd_bytes l w bs (\<lambda>v. m\<lparr>pbsk_AgentName := string_of_bytes v\<rparr>))
      else None)"

definition ServiceAggregationKey_UnmarshalVT :: "bytes \<Rightarrow> ServiceAggregationKey \<Rightarrow> wire_error + ServiceAggregationKey" where
  "ServiceAggregationKey_UnmarshalVT dAtA m = unmarshal (length dAtA) (ServiceAggregationKey_fields (length dAtA)) dAtA m"

section \<open>ServiceInstanceAggregationKey\<close>

definition zero_ServiceInstanceAggregationKey :: ServiceInstanceAggregationKey where
  "zero_ServiceInstanceAggregationKey = \<lparr>pbsik_GlobalLabelsStr = []\<rparr>"

definition ServiceInstanceAggregationKey_MarshalToSizedBufferVT :: "ServiceInstanceAggregationKey \<Rightarrow> bytes" where
  "ServiceInstanceAggregationKey_MarshalToSizedBufferVT m =
     (let d = [];
          d = put_bytes [0xA] (pbsik_GlobalLabelsStr m) d
      in d)"

definition ServiceInstanceAggregationKey_SizeVT :: "ServiceInstanceAggregationKey \<Rightarrow> nat" where
  "ServiceInstanceAggregationKey_SizeVT m =
     size_bytes 1 (length (pbsik_GlobalLabelsStr m))"

definition ServiceInstanceAggregationKey_fields :: "nat \<Rightarrow> int \<Rightarrow> int \<Rightarrow> bytes \<Rightarrow> ServiceInstanceAggregationKey \<Rightarrow> (wire_error + (ServiceInstanceAggregationKey \<times> bytes)) option" where
  "ServiceInstanceAggregationKey_fields l fieldNum w bs m =
     (if fieldNum = 1 then Some (rd_bytes l w bs (\<lambda>v. m\<lparr>pbsik_GlobalLabelsStr := v\<rparr>))
      else None)"

definition ServiceInstanceAggregationKey_UnmarshalVT :: "bytes \<Rightarrow> ServiceInstanceAggregationKey \<Rightarrow> wire_error + ServiceInstanceAggregationKey" where
  "ServiceInstanceAggregationKey_UnmarshalVT dAtA m = unmarshal (length dAtA) (ServiceInstanceAggregationKey_fields (length dAtA)) dAtA m"

section \<open>KeyedTransactionMetrics\<close>

definition zero_KeyedTransactionMetrics :: KeyedTransactionMetrics where
  "zero_KeyedTransactionMetrics = \<lparr>ktm_Key = None,
     ktm_Metrics = None\<rparr>"

definition KeyedTransactionMetrics_MarshalToSizedBufferVT :: "KeyedTransactionMetrics \<Rightarrow> bytes" where
  "KeyedTransactionMetrics_MarshalToSizedBufferVT m =
     (let d = [];
          d = put_msg [0x12] TransactionMetrics_MarshalToSizedBufferVT (ktm_Metrics m) d;
          d = put_msg [0xA] TransactionAggregationKey_MarshalToSizedBufferVT (ktm_Key m) d
      in d)"

definition KeyedTransactionMetrics_SizeVT :: "KeyedTransactionMetrics \<Rightarrow> nat" where
  "KeyedTransactionMetrics_SizeVT m =
     size_msg 1 TransactionAggregationKey_SizeVT (ktm_Key m)
     + size_msg 1 TransactionMetrics_SizeVT (ktm_Metrics m)"

definition KeyedTransactionMetrics_fields :: "nat \<Rightarrow> int \<Rightarrow> int \<Rightarrow> bytes \<Rightarrow> KeyedTransactionMetrics \<Rightarrow> (wire_error + (KeyedTransactionMetrics \<times> bytes)) option" where
  "KeyedTransactionMetrics_fields l fieldNum w bs m =
     (if fieldNum = 1 then Some (rd_msg l w bs
          (\<lambda>b. TransactionAggregationKey_UnmarshalVT b (case ktm_Key m of None \<Rightarrow> zero_TransactionAggregationKey | Some x \<Rightarrow> x)) (\<lambda>x. m\<lparr>ktm_Key := Some x\<rparr>))
      else if fieldNum = 2 then Some (rd_msg l w bs
          (\<lambda>b. TransactionMetrics_UnmarshalVT b (case ktm_Metrics m of None \<Rightarrow> zero_TransactionMetrics | Some x \<Rightarrow> x)) (\<lambda>x. m\<lparr>ktm_Metrics := Some x\<rparr>))
      else None)"

definition KeyedTransactionMetrics_UnmarshalVT :: "bytes \<Rightarrow> KeyedTransactionMetrics \<Rightarrow> wire_error + KeyedTransactionMetrics" where
  "KeyedTransactionMetrics_UnmarshalVT dAtA m = unmarshal (length dAtA) (KeyedTransactionMetrics_fields (length dAtA)) dAtA m"

section \<open>KeyedServiceTransactionMetrics\<close>

definition zero_KeyedServiceTransactionMetrics :: KeyedServiceTransactionMetrics where
  "zero_KeyedServiceTransactionMetrics = \<lparr>kstm_Key = None,
     kstm_Metrics = None\<rparr>"

definition KeyedServiceTransactionMetrics_MarshalToSizedBufferVT :: "KeyedServiceTransactionMetrics \<Rightarrow> bytes" where
  "KeyedServiceTransactionMetrics_MarshalToSizedBufferVT m =
     (let d = [];
          d = put_msg [0x12] ServiceTransactionMetrics_MarshalToSizedBufferVT (kstm_Metrics m) d;
          d = put_msg [0xA] ServiceTransactionAggregationKey_MarshalToSizedBufferVT (kstm_Key m) d
      in d)"

definition KeyedServiceTransactionMetrics_SizeVT :: "KeyedServiceTransactionMetrics \<Rightarrow> nat" where
  "KeyedServiceTransactionMetrics_SizeVT m =
     size_msg 1 ServiceTransactionAggregationKey_SizeVT (kstm_Key m)
     + size_msg 1 ServiceTransactionMetrics_SizeVT (kstm_Metrics m)"

definition KeyedServiceTransactionMetrics_fields :: "nat \<Rightarrow> int \<Rightarrow> int \<Rightarrow> bytes \<Rightarrow> KeyedServiceTransactionMetrics \<Rightarrow> (wire_error + (KeyedServiceTransactionMetrics \<times> bytes)) option" where
  "KeyedServiceTransactionMetrics_fields l fieldNum w bs m =
     (if fieldNum = 1 then Some (rd_msg l w bs
          (\<lambda>b. ServiceTransactionAggregationKey_UnmarshalVT b (case kstm_Key m of None \<Rightarrow> zero_ServiceTransactionAggregationKey | Some x \<Rightarrow> x)) (\<lambda>x. m\<lparr>kstm_Key := Some x\<rparr>))
      else if fieldNum = 2 then Some (rd_msg l w bs
          (\<lambda>b. ServiceTransactionMetrics_UnmarshalVT b (case kstm_Metrics m of None \<Rightarrow> zero_ServiceTransactionMetrics | Some x \<Rightarrow> x)) (\<lambda>x. m\<lparr>kstm_Metrics := Some x\<rparr>))
      else None)"

definition KeyedServiceTransactionMetrics_UnmarshalVT :: "bytes \<Rightarrow> KeyedServiceTransactionMetrics \<Rightarrow> wire_error + KeyedServiceTransactionMetrics" where
  "KeyedServiceTransactionMetrics_UnmarshalVT dAtA m = unmarshal (length dAtA) (KeyedServiceTransactionMetrics_fields (length dAtA)) dAtA m"

section \<open>KeyedSpanMetrics\<close>

definition zero_KeyedSpanMetrics :: KeyedSpanMetrics where
  "zero_KeyedSpanMetrics = \<lparr>kspm_Key = None,
     kspm_Metrics = None\<rparr>"

definition KeyedSpanMetrics_MarshalToSizedBufferVT :: "KeyedSpanMetrics \<Rightarrow> bytes" where
  "KeyedSpanMetrics_MarshalToSizedBufferVT m =
     (let d = [];
          d = put_msg [0x12] SpanMetrics_MarshalToSizedBufferVT (kspm_Metrics m) d;
          d = put_msg [0xA] SpanAggregationKey_MarshalToSizedBufferVT (kspm_Key m) d
      in d)"

definition KeyedSpanMetrics_SizeVT :: "KeyedSpanMetrics \<Rightarrow> nat" where
  "KeyedSpanMetrics_SizeVT m =
     size_msg 1 SpanAggregationKey_SizeVT (kspm_Key m)
     + size_msg 1 SpanMetrics_SizeVT (kspm_Metrics m)"

definition KeyedSpanMetrics_fields :: "nat \<Rightarrow> int \<Rightarrow> int \<Rightarrow> bytes \<Rightarrow> KeyedSpanMetrics \<Rightarrow> (wire_error + (KeyedSpanMetrics \<times> bytes)) option" where
  "KeyedSpanMetrics_fields l fieldNum w bs m =
     (if fieldNum = 1 then Some (rd_msg l w bs
          (\<lambda>b. SpanAggregationKey_UnmarshalVT b (case kspm_Key m of None \<Rightarrow> zero_SpanAggregationKey | Some x \<Rightarrow> x)) (\<lambda>x. m\<lparr>kspm_Key := Some x\<rparr>))
      else if fieldNum = 2 then Some (rd_msg l w bs
          (\<lambda>b. SpanMetrics_UnmarshalVT b (case kspm_Metrics m of None \<Rightarrow> zero_SpanMetrics | Some x \<Rightarrow> x)) (\<lambda>x. m\<lparr>kspm_Metrics := Some x\<rparr>))
      else None)"

definition KeyedSpanMetrics_UnmarshalVT :: "bytes \<Rightarrow> KeyedSpanMetrics \<Rightarrow> wire_error + KeyedSpanMetrics" where
  "KeyedSpanMetrics_UnmarshalVT dAtA m = unmarshal (length dAtA) (KeyedSpanMetrics_fields (length dAtA)) dAtA m"

section \<open>ServiceInstanceMetrics\<close>

definition zero_ServiceInstanceMetrics :: ServiceInstanceMetrics where
  "zero_ServiceInstanceMetrics = \<lparr>pbsim_TransactionMetrics = [],
     pbsim_ServiceTransactionMetrics = [],
     pbsim_SpanMetrics = []\<rparr>"

definition ServiceInstanceMetrics_MarshalToSizedBufferVT :: "ServiceInstanceMetrics \<Rightarrow> bytes" where
  "ServiceInstanceMetrics_MarshalToSizedBufferVT m =
     (let d = [];
          d = put_msgs [0x1A] KeyedSpanMetrics_MarshalToSizedBufferVT (pbsim_SpanMetrics m) d;
          d = put_msgs [0x12] KeyedServiceTransactionMetrics_MarshalToSizedBufferVT (pbsim_ServiceTransactionMetrics m) d;
          d = put_msgs [0xA] KeyedTransactionMetrics_MarshalToSizedBufferVT (pbsim_TransactionMetrics m) d
      in d)"

definition ServiceInstanceMetrics_SizeVT :: "ServiceInstanceMetrics \<Rightarrow> nat" where
  "ServiceInstanceMetrics_SizeVT m =
     size_msgs 1 KeyedTransactionMetrics_SizeVT (pbsim_TransactionMetrics m)
     + size_msgs 1 KeyedServiceTransactionMetrics_SizeVT (pbsim_ServiceTransactionMetrics m)
     + size_msgs 1 KeyedSpanMetrics_SizeVT (pbsim_SpanMetrics m)"

definition ServiceInstanceMetrics_fields :: "nat \<Rightarrow> int \<Rightarrow> int \<Rightarrow> bytes \<Rightarrow> ServiceInstanceMetrics \<Rightarrow> (wire_error + (ServiceInstanceMetrics \<times> bytes)) option" where
  "ServiceInstanceMetrics_fields l fieldNum w bs m =
     (if fieldNum = 1 then Some (rd_msg l w bs (\<lambda>b. KeyedTransactionMetrics_UnmarshalVT b zero_KeyedTransactionMetrics) (\<lambda>x. m\<lparr>pbsim_TransactionMetrics := pbsim_TransactionMetrics m @ [x]\<rparr>))
      else if fieldNum = 2 then Some (rd_msg l w bs (\<lambda>b. KeyedServiceTransactionMetrics_UnmarshalVT b zero_KeyedServiceTransactionMetrics) (\<lambda>x. m\<lparr>pbsim_ServiceTransactionMetrics := pbsim_ServiceTransactionMetrics m @ [x]\<rparr>))
      else if fieldNum = 3 then Some (rd_msg l w bs (\<lambda>b. KeyedSpanMetrics_UnmarshalVT b zero_KeyedSpanMetrics) (\<lambda>x. m\<lparr>pbsim_SpanMetrics := pbsim_SpanMetrics m @ [x]\<rparr>))
      else None)"

definition ServiceInstanceMetrics_UnmarshalVT :: "bytes \<Rightarrow> ServiceInstanceMetrics \<Rightarrow> wire_error + ServiceInstanceMetrics" where
  "ServiceInstanceMetrics_UnmarshalVT dAtA m = unmarshal (length dAtA) (ServiceInstanceMetrics_fields (length dAtA)) dAtA m"

section \<open>KeyedServiceInstanceMetrics\<close>

definition zero_KeyedServiceInstanceMetrics :: KeyedServiceInstanceMetrics where
  "zero_KeyedServiceInstanceMetrics = \<lparr>ksim_Key = None,
     ksim_Metrics = None\<rparr>"

definition KeyedServiceInstanceMetrics_MarshalToSizedBufferVT :: "KeyedServiceInstanceMetrics \<Rightarrow> bytes" where
  "KeyedServiceInstanceMetrics_MarshalToSizedBufferVT m =
     (let d = [];
          d = put_msg [0x12] ServiceInstanceMetrics_MarshalToSizedBufferVT (ksim_Metrics m) d;
          d = put_msg [0xA] ServiceInstanceAggregationKey_MarshalToSizedBufferVT (ksim_Key m) d
      in d)"

definition KeyedServiceInstanceMetrics_SizeVT :: "KeyedServiceInstanceMetrics \<Rightarrow> nat" where
  "KeyedServiceInstanceMetrics_SizeVT m =
     size_msg 1 ServiceInstanceAggregationKey_SizeVT (ksim_Key m)
     + size_msg 1 ServiceInstanceMetrics_SizeVT (ksim_Metrics m)"

definition KeyedServiceInstanceMetrics_fields :: "nat \<Rightarrow> int \<Rightarrow> int \<Rightarrow> bytes \<Rightarrow> KeyedServiceInstanceMetrics \<Rightarrow> (wire_error + (KeyedServiceInstanceMetrics \<times> bytes)) option" where
  "KeyedServiceInstanceMetrics_fields l fieldNum w bs m =
     (if fieldNum = 1 then Some (rd_msg l w bs
          (\<lambda>b. ServiceInstanceAggregationKey_UnmarshalVT b (case ksim_Key m of None \<Rightarrow> zero_ServiceInstanceAggregationKey | Some x \<Rightarrow> x)) (\<lambda>x. m\<lparr>ksim_Key := Some x\<rparr>))
      else if fieldNum = 2 then Some (rd_msg l w bs
          (\<lambda>b. ServiceInstanceMetrics_UnmarshalVT b (case ksim_Metrics m of None \<Rightarrow> zero_ServiceInstanceMetrics | Some x \<Rightarrow> x)) (\<lambda>x. m\<lparr>ksim_Metrics := Some x\<rparr>))
      else None)"

definition KeyedServiceInstanceMetrics_UnmarshalVT :: "bytes \<Rightarrow> KeyedServiceInstanceMetrics \<Rightarrow> wire_error + KeyedServiceInstanceMetrics" where
  "KeyedServiceInstanceMetrics_UnmarshalVT dAtA m = unmarshal (length dAtA) (KeyedServiceInstanceMetrics_fields (length dAtA)) dAtA m"

section \<open>Overflow\<close>

definition Overflow_MarshalToSizedBufferVT :: "Overflow \<Rightarrow> bytes" where
  "Overflow_MarshalToSizedBufferVT m =
     (let d = [];
          d = put_bytes [0x32] (pbo_OverflowSpansEstimator m) d;
          d = put_bytes [0x2A] (pbo_OverflowServiceTransactionsEstimator m) d;
          d = put_bytes [0x22] (pbo_OverflowTransactionsEstimator m) d;
          d = put_msg [0x1A] SpanMetrics_MarshalToSizedBufferVT (pbo_OverflowSpans m) d;
          d = put_msg [0x12] ServiceTransactionMetrics_MarshalToSizedBufferVT (pbo_OverflowServiceTransactions m) d;
          d = put_msg [0xA] TransactionMetrics_MarshalToSizedBufferVT (pbo_OverflowTransactions m) d
      in d)"

definition Overflow_SizeVT :: "Overflow \<Rightarrow> nat" where
  "Overflow_SizeVT m =
     size_msg 1 TransactionMetrics_SizeVT (pbo_OverflowTransactions m)
     + size_msg 1 ServiceTransactionMetrics_SizeVT (pbo_OverflowServiceTransactions m)
     + size_msg 1 SpanMetrics_SizeVT (pbo_OverflowSpans m)
     + size_bytes 1 (length (pbo_OverflowTransactionsEstimator m))
     + size_bytes 1 (length (pbo_OverflowServiceTransactionsEstimator m))
     + size_bytes 1 (length (pbo_OverflowSpansEstimator m))"

definition Overflow_fields :: "nat \<Rightarrow> int \<Rightarrow> int \<Rightarrow> bytes \<Rightarrow> Overflow \<Rightarrow> (wire_error + (Overflow \<times> bytes)) option" where
  "Overflow_fields l fieldNum w bs m =
     (if fieldNum = 1 then Some (rd_msg l w bs
          (\<lambda>b. TransactionMetrics_UnmarshalVT b (case pbo_OverflowTransactions m of None \<Rightarrow> zero_TransactionMetrics | Some x \<Rightarrow> x)) (\<lambda>x. m\<lparr>pbo_OverflowTransactions := Some x\<rparr>))
      else if fieldNum = 2 then Some (rd_msg l w bs
          (\<lambda>b. ServiceTransactionMetrics_UnmarshalVT b (case pbo_OverflowServiceTransactions m of None \<Rightarrow> zero_ServiceTransactionMetrics | Some x \<Rightarrow> x)) (\<lambda>x. m\<lparr>pbo_OverflowServiceTransactions := Some x\<rparr>))
      else if fieldNum = 3 then Some (rd_msg l w bs
          (\<lambda>b. SpanMetrics_UnmarshalVT b (case pbo_OverflowSpans m of None \<Rightarrow> zero_SpanMetrics | Some x \<Rightarrow> x)) (\<lambda>x. m\<lparr>pbo_OverflowSpans := Some x\<rparr>))
      else if fieldNum = 4 then Some (rd_bytes l w bs (\<lambda>v. m\<lparr>pbo_OverflowTransactionsEstimator := v\<rparr>))
      else if fieldNum = 5 then Some (rd_bytes l w bs (\<lambda>v. m\<lparr>pbo_OverflowServiceTransactionsEstimator := v\<rparr>))
      else if fieldNum = 6 then Some (rd_bytes l w bs (\<lambda>v. m\<lparr>pbo_OverflowSpansEstimator := v\<rparr>))
      else None)"

definition Overflow_UnmarshalVT :: "bytes \<Rightarrow> Overflow \<Rightarrow> wire_error + Overflow" where
  "Overflow_UnmarshalVT dAtA m = unmarshal (length dAtA) (Overflow_fields (length dAtA)) dAtA m"

section \<open>ServiceMetrics\<close>

definition zero_ServiceMetrics :: ServiceMetrics where
  "zero_ServiceMetrics = \<lparr>pbsm_ServiceInstanceMetrics = [],
     pbsm_OverflowGroups = None\<rparr>"

definition ServiceMetrics_MarshalToSizedBufferVT :: "ServiceMetrics \<Rightarrow> bytes" where
  "ServiceMetrics_MarshalToSizedBufferVT m =
     (let d = [];
          d = put_msg [0x12] Overflow_MarshalToSizedBufferVT (pbsm_OverflowGroups m) d;
          d = put_msgs [0xA] KeyedServiceInstanceMetrics_MarshalToSizedBufferVT (pbsm_ServiceInstanceMetrics m) d
      in d)"

definition ServiceMetrics_SizeVT :: "ServiceMetrics \<Rightarrow> nat" where
  "ServiceMetrics_SizeVT m =
     size_msgs 1 KeyedServiceInstanceMetrics_SizeVT (pbsm_ServiceInstanceMetrics m)
     + size_msg 1 Overflow_SizeVT (pbsm_OverflowGroups m)"

definition ServiceMetrics_fields :: "nat \<Rightarrow> int \<Rightarrow> int \<Rightarrow> bytes \<Rightarrow> ServiceMetrics \<Rightarrow> (wire_error + (ServiceMetrics \<times> bytes)) option" where
  "ServiceMetrics_fields l fieldNum w bs m =
     (if fieldNum = 1 then Some (rd_msg l w bs (\<lambda>b. KeyedServiceInstanceMetrics_UnmarshalVT b zero_KeyedServiceInstanceMetrics) (\<lambda>x. m\<lparr>pbsm_ServiceInstanceMetrics := pbsm_ServiceInstanceMetrics m @ [x]\<rparr>))
      else if fieldNum = 2 then Some (rd_msg l w bs
          (\<lambda>b. Overflow_UnmarshalVT b (case pbsm_OverflowGroups m of None \<Rightarrow> zero_Overflow | Some x \<Rightarrow> x)) (\<lambda>x. m\<lparr>pbsm_OverflowGroups := Some x\<rparr>))
      else None)"

definition ServiceMetrics_UnmarshalVT :: "bytes \<Rightarrow> ServiceMetrics \<Rightarrow> wire_error + ServiceMetrics" where
  "ServiceMetrics_UnmarshalVT dAtA m = unmarshal (length dAtA) (ServiceMetrics_fields (length dAtA)) dAtA m"

section \<open>KeyedServiceMetrics\<close>

definition zero_KeyedServiceMetrics :: KeyedServiceMetrics where
  "zero_KeyedServiceMetrics = \<lparr>ksm_Key = None,
     ksm_Metrics = None\<rparr>"

definition KeyedServiceMetrics_MarshalToSizedBufferVT :: "KeyedServiceMetrics \<Rightarrow> bytes" where
  "KeyedServiceMetrics_MarshalToSizedBufferVT m =
     (let d = [];
          d = put_msg [0x12] ServiceMetrics_MarshalToSizedBufferVT (ksm_Metrics m) d;
          d = put_msg [0xA] ServiceAggregationKey_MarshalToSizedBufferVT (ksm_Key m) d
      in d)"

definition KeyedServiceMetrics_SizeVT :: "KeyedServiceMetrics \<Rightarrow> nat" where
  "KeyedServiceMetrics_SizeVT m =
     size_msg 1 ServiceAggregationKey_SizeVT (ksm_Key m)
     + size_msg 1 ServiceMetrics_SizeVT (ksm_Metrics m)"

definition KeyedServiceMetrics_fields :: "nat \<Rightarrow> int \<Rightarrow> int \<Rightarrow> bytes \<Rightarrow> KeyedServiceMetrics \<Rightarrow> (wire_error + (KeyedServiceMetrics \<times> bytes)) option" where
  "KeyedServiceMetrics_fields l fieldNum w bs m =
     (if fieldNum = 1 then Some (rd_msg l w bs
          (\<lambda>b. ServiceAggregationKey_UnmarshalVT b (case ksm_Key m of None \<Rightarrow> zero_ServiceAggregationKey | Some x \<Rightarrow> x)) (\<lambda>x. m\<lparr>ksm_Key := Some x\<rparr>))
      else if fieldNum = 2 then Some (rd_msg l w bs
          (\<lambda>b. ServiceMetrics_UnmarshalVT b (case ksm_Metrics m of None \<Rightarrow> zero_ServiceMetrics | Some x \<Rightarrow> x)) (\<lambda>x. m\<lparr>ksm_Metrics := Some x\<rparr>))
      else None)"

definition KeyedServiceMetrics_UnmarshalVT :: "bytes \<Rightarrow> KeyedServiceMetrics \<Rightarrow> wire_error + KeyedServiceMetrics" where
  "KeyedServiceMetrics_UnmarshalVT dAtA m = unmarshal (length dAtA) (KeyedServiceMetrics_fields (length dAtA)) dAtA m"

section \<open>CombinedMetrics\<close>

definition zero_CombinedMetrics :: CombinedMetrics where
  "zero_CombinedMetrics = \<lparr>pbcm_ServiceMetrics = [],
     pbcm_OverflowServices = None,
     pbcm_OverflowServiceInstancesEstimator = [],
     pbcm_EventsTotal = Fin 0,
     pbcm_YoungestEventTimestamp = 0\<rparr>"

definition CombinedMetrics_MarshalToSizedBufferVT :: "CombinedMetrics \<Rightarrow> bytes" where
  "CombinedMetrics_MarshalToSizedBufferVT m =
     (let d = [];
          d = put_varint [0x28] (pbcm_YoungestEventTimestamp m) d;
          d = put_double [0x21] (pbcm_EventsTotal m) d;
          d = put_bytes [0x1A] (pbcm_OverflowServiceInstancesEstimator m) d;
          d = put_msg [0x12] Overflow_MarshalToSizedBufferVT (pbcm_OverflowServices m) d;
          d = put_msgs [0xA] KeyedServiceMetrics_MarshalToSizedBufferVT (pbcm_ServiceMetrics m) d
      in d)"

definition CombinedMetrics_SizeVT :: "CombinedMetrics \<Rightarrow> nat" where
  "CombinedMetrics_SizeVT m =
     size_msgs 1 KeyedServiceMetrics_SizeVT (pbcm_ServiceMetrics m)
     + size_msg 1 Overflow_SizeVT (pbcm_OverflowServices m)
     + size_bytes 1 (length (pbcm_OverflowServiceInstancesEstimator m))
     + size_double 1 (pbcm_EventsTotal m)
     + size_varint 1 (pbcm_YoungestEventTimestamp m)"

definition CombinedMetrics_fields :: "nat \<Rightarrow> int \<Rightarrow> int \<Rightarrow> bytes \<Rightarrow> CombinedMetrics \<Rightarrow> (wire_error + (CombinedMetrics \<times> bytes)) option" where
  "CombinedMetrics_fields l fieldNum w bs m =
     (if fieldNum = 1 then Some (rd_msg l w bs (\<lambda>b. KeyedServiceMetrics_UnmarshalVT b zero_KeyedServiceMetrics) (\<lambda>x. m\<lparr>pbcm_ServiceMetrics := pbcm_ServiceMetrics m @ [x]\<rparr>))
      else if fieldNum = 2 then Some (rd_msg l w bs
          (\<lambda>b. Overflow_UnmarshalVT b (case pbcm_OverflowServices m of None \<Rightarrow> zero_Overflow | Some x \<Rightarrow> x)) (\<lambda>x. m\<lparr>pbcm_OverflowServices := Some x\<rparr>))
      else if fieldNum = 3 then Some (rd_bytes l w bs (\<lambda>v. m\<lparr>pbcm_OverflowServiceInstancesEstimator := v\<rparr>))
      else if fieldNum = 4 then Some (rd_double w bs (\<lambda>v. m\<lparr>pbcm_EventsTotal := v\<rparr>))
      else if fieldNum = 5 then Some (rd_varint w bs (\<lambda>v. m\<lparr>pbcm_YoungestEventTimestamp := v\<rparr>))
      else None)"

definition CombinedMetrics_UnmarshalVT :: "bytes \<Rightarrow> CombinedMetrics \<Rightarrow> wire_error + CombinedMetrics" where
  "CombinedMetrics_UnmarshalVT dAtA m = unmarshal (length dAtA) (CombinedMetrics_fields (length dAtA)) dAtA m"

section \<open>Label\<close>

definition zero_Label :: Label where
  "zero_Label = \<lparr>lb_Key = [],
     lb_Value = [],
     lb_Values = []\<rparr>"

definition Label_MarshalToSizedBufferVT :: "Label \<Rightarrow> bytes" where
  "Label_MarshalToSizedBufferVT m =
     (let d = [];
          d = put_msgs [0x1A] bytes_of_string (lb_Values m) d;
          d = put_bytes [0x12] (bytes_of_string (lb_Value m)) d;
          d = put_bytes [0xA] (bytes_of_string (lb_Key m)) d
      in d)"

definition Label_SizeVT :: "Label \<Rightarrow> nat" where
  "Label_SizeVT m =
     size_bytes 1 (length (lb_Key m))
     + size_bytes 1 (length (lb_Value m))
     + size_msgs 1 length (lb_Values m)"

definition Label_fields :: "nat \<Rightarrow> int \<Rightarrow> int \<Rightarrow> bytes \<Rightarrow> Label \<Rightarrow> (wire_error + (Label \<times> bytes)) option" where
  "Label_fields l fieldNum w bs m =
     (if fieldNum = 1 then Some (rd_bytes l w bs (\<lambda>v. m\<lparr>lb_Key := string_of_bytes v\<rparr>))
      else if fieldNum = 2 then Some (rd_bytes l w bs (\<lambda>v. m\<lparr>lb_Value := string_of_bytes v\<rparr>))
      else if fieldNum = 3 then Some (rd_bytes l w bs (\<lambda>v. m\<lparr>lb_Values := lb_Values m @ [string_of_bytes v]\<rparr>))
      else None)"

definition Label_UnmarshalVT :: "bytes \<Rightarrow> Label \<Rightarrow> wire_error + Label" where
  "Label_UnmarshalVT dAtA m = unmarshal (length dAtA) (Label_fields (length dAtA)) dAtA m"

section \<open>NumericLabel\<close>

definition zero_NumericLabel :: NumericLabel where
  "zero_NumericLabel = \<lparr>nl_Key = [],
     nl_Value = Fin 0,
     nl_Values = []\<rparr>"

definition NumericLabel_MarshalToSizedBufferVT :: "NumericLabel \<Rightarrow> bytes" where
  "NumericLabel_MarshalToSizedBufferVT m =
     (let d = [];
          d = put_packed_double [0x1A] (nl_Values m) d;
          d = put_double [0x11] (nl_Value m) d;
          d = put_bytes [0xA] (bytes_of_string (nl_Key m)) d
      in d)"

definition NumericLabel_SizeVT :: "NumericLabel \<Rightarrow> nat" where
  "NumericLabel_SizeVT m =
     size_bytes 1 (length (nl_Key m))
     + size_double 1 (nl_Value m)
     + size_packed_double 1 (nl_Values m)"

definition NumericLabel_fields :: "nat \<Rightarrow> int \<Rightarrow> int \<Rightarrow> bytes \<Rightarrow> NumericLabel \<Rightarrow> (wire_error + (NumericLabel \<times> bytes)) option" where
  "NumericLabel_fields l fieldNum w bs m =
     (if fieldNum = 1 then Some (rd_bytes l w bs (\<lambda>v. m\<lparr>nl_Key := string_of_bytes v\<rparr>))
      else if fieldNum = 2 then Some (rd_double w bs (\<lambda>v. m\<lparr>nl_Value := v\<rparr>))
      else if fieldNum = 3 then Some (rd_packed_double l w bs (nl_Values m) (\<lambda>vs. m\<lparr>nl_Values := vs\<rparr>))
      else None)"

definition NumericLabel_UnmarshalVT :: "bytes \<Rightarrow> NumericLabel \<Rightarrow> wire_error + NumericLabel" where
  "NumericLabel_UnmarshalVT dAtA m = unmarshal (length dAtA) (NumericLabel_fields (length dAtA)) dAtA m"

section \<open>GlobalLabels\<close>

definition zero_GlobalLabels :: GlobalLabels where
  "zero_GlobalLabels = \<lparr>gl_Labels = [],
     gl_NumericLabels = []\<rparr>"

definition GlobalLabels_MarshalToSizedBufferVT :: "GlobalLabels \<Rightarrow> bytes" where
  "GlobalLabels_MarshalToSizedBufferVT m =
     (let d = [];
          d = put_msgs [0x12] NumericLabel_MarshalToSizedBufferVT (gl_NumericLabels m) d;
          d = put_msgs [0xA] Label_MarshalToSizedBufferVT (gl_Labels m) d
      in d)"

definition GlobalLabels_SizeVT :: "GlobalLabels \<Rightarrow> nat" where
  "GlobalLabels_SizeVT m =
     size_msgs 1 Label_SizeVT (gl_Labels m)
     + size_msgs 1 NumericLabel_SizeVT (gl_NumericLabels m)"

definition GlobalLabels_fields :: "nat \<Rightarrow> int \<Rightarrow> int \<Rightarrow> bytes \<Rightarrow> GlobalLabels \<Rightarrow> (wire_error + (GlobalLabels \<times> bytes)) option" where
  "GlobalLabels_fields l fieldNum w bs m =
     (if fieldNum = 1 then Some (rd_msg l w bs (\<lambda>b. Label_UnmarshalVT b zero_Label) (\<lambda>x. m\<lparr>gl_Labels := gl_Labels m @ [x]\<rparr>))
      else if fieldNum = 2 then Some (rd_msg l w bs (\<lambda>b. NumericLabel_UnmarshalVT b zero_NumericLabel) (\<lambda>x. m\<lparr>gl_NumericLabels := gl_NumericLabels m @ [x]\<rparr>))
      else None)"

definition GlobalLabels_UnmarshalVT :: "bytes \<Rightarrow> GlobalLabels \<Rightarrow> wire_error + GlobalLabels" where
  "GlobalLabels_UnmarshalVT dAtA m = unmarshal (length dAtA) (GlobalLabels_fields (length dAtA)) dAtA m"

end
