(* ===== verification/WireRT.thy ===== *)
theory WireRT
  imports Wire
begin

unbundle bit_operations_syntax

text \<open>
  Reading back what the writers of theory \<open>Wire\<close> produce, one field at a time: the loop over the
  fields of a message consumes a written field and goes on with the rest.
\<close>

section \<open>Fixed 64-bit values\<close>

lemma join_byte: "push_bit 8 (drop_bit (n + 8) v) OR ucast (ucast (drop_bit n v) :: byte) = drop_bit n v"
  for v :: uint64
proof (rule bit_word_eqI)
  fix i
  have len: "bit v k \<Longrightarrow> k < 64" for k using bit_imp_le_length [of v k] by simp
  show "bit (push_bit 8 (drop_bit (n + 8) v) OR ucast (ucast (drop_bit n v) :: byte)) i \<longleftrightarrow> bit (drop_bit n v) i"
    by (cases "8 \<le> i") (auto simp: bit_simps dest: len)
qed

lemma Uint64_LE_Put [simp]: "Uint64_LE (PutUint64_LE v @ rest) = v"
proof -
  have put: "PutUint64_LE v = [ucast v, ucast (drop_bit 8 v), ucast (drop_bit 16 v), ucast (drop_bit 24 v),
      ucast (drop_bit 32 v), ucast (drop_bit 40 v), ucast (drop_bit 48 v), ucast (drop_bit 56 v)]"
    by (simp add: PutUint64_LE_def upt_rec)
  have "(ucast (ucast (drop_bit 56 v) :: byte) :: uint64) = drop_bit 56 v"
  proof (rule bit_word_eqI)
    fix i
    have "bit v k \<Longrightarrow> k < 64" for k using bit_imp_le_length [of v k] by simp
    from this [of "56 + i"] show "bit (ucast (ucast (drop_bit 56 v) :: byte) :: uint64) i \<longleftrightarrow> bit (drop_bit 56 v) i"
      by (auto simp: bit_simps)
  qed
  then show ?thesis
    using join_byte [of 48 v] join_byte [of 40 v] join_byte [of 32 v] join_byte [of 24 v] join_byte [of 16 v]
      join_byte [of 8 v] join_byte [of 0 v]
    by (simp add: Uint64_LE_def put)
qed

section \<open>Lengths\<close>

lemma sint_of_nat64: "n < 2 ^ 63 \<Longrightarrow> sint (of_nat n :: int64) = int n"
proof -
  assume "n < 2 ^ 63"
  then have "unat (of_nat n :: int64) = n" by (intro unat_of_nat64) simp
  with \<open>n < 2 ^ 63\<close> show ?thesis using sint64_unat [of "of_nat n"] by simp
qed

lemma unat_of_nat63: "n < 2 ^ 63 \<Longrightarrow> unat (of_nat n :: int64) = n"
  by (intro unat_of_nat64) simp

text \<open>
  The index of the code never overflows: with the length of the message and the length of the value
  below \<open>2 ^ 63\<close>, the end of the value is too.
\<close>

lemma len_in_range:
  assumes "l < 2 ^ 63" and "n \<le> k" and "n < 2 ^ 63"
  shows "int (l - k) + int n < 2 ^ 63"
proof -
  have "l - k + n < 2 ^ 63" using assms by (cases "k \<le> l") auto
  then show ?thesis by (metis of_nat_add of_nat_less_iff of_nat_numeral of_nat_power)
qed

lemma dec_len_bytes:
  assumes "length v < 2 ^ 63" and "l < 2 ^ 63"
  shows "dec_len l (varint (of_nat (length v)) @ v @ d) = Inr (v, d)"
  using len_in_range [OF assms(2), of "length v" "length (v @ d)"] assms unfolding dec_len_def dec_varint_0
  by (simp add: sint_of_nat64 unat_of_nat63 not_le del: of_nat_add)

section \<open>Tags\<close>

text \<open>A tag as the writers have it, with its wire type and its field number.\<close>

definition is_tag :: "bytes \<Rightarrow> int \<Rightarrow> bool" where
  "is_tag tag w \<longleftrightarrow> tag \<noteq> [] \<and> w \<noteq> 4 \<and>
     (\<exists>wire :: uint64. (\<forall>bs. dec_varint 0 0 (tag @ bs) = Inr (wire, bs)) \<and> uint (wire AND 0x7) = w
        \<and> 0 < sint (ucast (drop_bit 3 wire) :: int32))"

definition tag_field :: "bytes \<Rightarrow> int" where
  "tag_field tag =
     (case dec_varint 0 (0 :: uint64) tag of Inl e \<Rightarrow> 0
      | Inr (wire, _) \<Rightarrow> sint (ucast (drop_bit 3 wire) :: int32))"

lemma is_tag_1 [simp]:
  "b < 0x80 \<Longrightarrow> is_tag [b] w \<longleftrightarrow> w \<noteq> 4 \<and> uint ((ucast (b AND 0x7F) :: uint64) AND 0x7) = w
     \<and> 0 < sint (ucast (drop_bit 3 (ucast (b AND 0x7F) :: uint64)) :: int32)"
  by (auto simp: is_tag_def Let_def split: if_splits)

lemma is_tag_2 [simp]:
  "b \<ge> 0x80 \<Longrightarrow> c < 0x80 \<Longrightarrow> is_tag [b, c] w \<longleftrightarrow> w \<noteq> 4
     \<and> uint ((ucast (b AND 0x7F) OR push_bit 7 (ucast (c AND 0x7F)) :: uint64) AND 0x7) = w
     \<and> 0 < sint (ucast (drop_bit 3 (ucast (b AND 0x7F) OR push_bit 7 (ucast (c AND 0x7F)) :: uint64)) :: int32)"
  by (auto simp: is_tag_def Let_def not_less [symmetric])

lemma unmarshal_Nil [simp]: "unmarshal l F [] m = Inr m"
  by (simp add: unmarshal.simps)

lemma unmarshal_field:
  assumes "is_tag tag w" and "F (tag_field tag) w bs m = Some (Inr (m', rest))" and "length rest \<le> length bs"
  shows "unmarshal l F (tag @ bs) m = unmarshal l F rest m'"
proof -
  obtain wire :: uint64 where w: "\<And>bs. dec_varint 0 0 (tag @ bs) = Inr (wire, bs)" "uint (wire AND 0x7) = w"
    and n: "0 < sint (ucast (drop_bit 3 wire) :: int32)"
    using assms(1) unfolding is_tag_def by blast
  have t: "tag \<noteq> []" "w \<noteq> 4" using assms(1) by (auto simp: is_tag_def)
  have f: "tag_field tag = sint (ucast (drop_bit 3 wire) :: int32)"
    using w(1) [of "[]"] by (simp add: tag_field_def)
  have "length rest < length (tag @ bs)" using t assms(3) by (cases tag) auto
  then show ?thesis
    using t n assms(2) by (subst unmarshal.simps) (simp add: w Let_def f)
qed

section \<open>Fields\<close>

text \<open>
  One lemma per kind of field. \<open>U\<close> is the update function of the field in the record of the message,
  \<open>F\<close> the switch of the message over its fields.
\<close>

lemma un_varint:
  fixes U :: "('a::len word \<Rightarrow> 'a word) \<Rightarrow> 'm \<Rightarrow> 'm"
  assumes "is_tag tag 0" and "\<And>bs. F (tag_field tag) 0 bs m = Some (rd_varint 0 bs (\<lambda>v. U (\<lambda>_. v) m))"
    and "U (\<lambda>_. 0) m = m"
  shows "unmarshal l F (put_varint tag v d) m = unmarshal l F d (U (\<lambda>_. ucast v) m)"
proof (cases "v = 0")
  case False
  have "F (tag_field tag) 0 (varint v @ d) m = Some (Inr (U (\<lambda>_. ucast v) m, d))"
    by (simp add: assms(2) rd_varint_def)
  with False show ?thesis
    by (simp add: put_varint_def unmarshal_field [OF assms(1)])
qed (simp add: put_varint_def assms(3))

lemma cast_32_64: "ucast (ucast v :: 64 word) = v" "ucast (scast v :: 64 word) = v" for v :: "32 word"
  by (rule bit_word_eqI, auto simp: bit_simps)+

lemma un_uint64:
  fixes U :: "(uint64 \<Rightarrow> uint64) \<Rightarrow> 'm \<Rightarrow> 'm"
  assumes "is_tag tag 0" and "\<And>bs. F (tag_field tag) 0 bs m = Some (rd_varint 0 bs (\<lambda>v. U (\<lambda>_. v) m))"
    and "U (\<lambda>_. 0) m = m"
  shows "unmarshal l F (put_varint tag v d) m = unmarshal l F d (U (\<lambda>_. v) m)"
  using un_varint [where F = F and m = m and U = U, OF assms] by simp

lemma un_uint32:
  fixes U :: "(uint32 \<Rightarrow> uint32) \<Rightarrow> 'm \<Rightarrow> 'm"
  assumes "is_tag tag 0" and "\<And>bs. F (tag_field tag) 0 bs m = Some (rd_varint 0 bs (\<lambda>v. U (\<lambda>_. v) m))"
    and "U (\<lambda>_. 0) m = m"
  shows "unmarshal l F (put_varint tag (ucast v) d) m = unmarshal l F d (U (\<lambda>_. v) m)"
  using un_varint [where F = F and m = m and U = U, OF assms, of l "ucast v" d] by (simp add: cast_32_64)

lemma un_bool:
  assumes "is_tag tag 0"
    and "\<And>bs. F (tag_field tag) 0 bs m = Some (rd_varint 0 bs (\<lambda>v :: int64. U (\<lambda>_. v \<noteq> 0) m))"
    and "U (\<lambda>_. False) m = m"
  shows "unmarshal l F (put_bool tag v d) m = unmarshal l F d (U (\<lambda>_. v) m)"
proof (cases v)
  case True
  have "F (tag_field tag) 0 (1 # d) m = Some (Inr (U (\<lambda>_. True) m, d))"
    by (simp add: assms(2) rd_varint_def)
  with True show ?thesis
    by (simp add: put_bool_def unmarshal_field [OF assms(1)])
qed (simp add: put_bool_def assms(3))

lemma size_bytes_less: "size_bytes t n < k \<Longrightarrow> 0 < n \<Longrightarrow> n < k"
  by (simp add: size_bytes_def)

lemma un_bytes:
  assumes "is_tag tag 2" and "\<And>bs. F (tag_field tag) 2 bs m = Some (rd_bytes l 2 bs (\<lambda>v. U (\<lambda>_. g v) m))"
    and "U (\<lambda>_. g []) m = m" and "size_bytes (length tag) (length v) < 2 ^ 63" and "l < 2 ^ 63"
  shows "unmarshal l F (put_bytes tag v d) m = unmarshal l F d (U (\<lambda>_. g v) m)"
proof (cases "v = []")
  case False
  then have "length v < 2 ^ 63" using size_bytes_less [OF assms(4)] by simp
  then have "F (tag_field tag) 2 (varint (of_nat (length v)) @ v @ d) m = Some (Inr (U (\<lambda>_. g v) m, d))"
    by (simp add: assms(2) rd_bytes_def dec_len_bytes [OF _ assms(5)])
  with False show ?thesis
    by (simp add: put_bytes_def unmarshal_field [OF assms(1)])
qed (simp add: put_bytes_def assms(3))

lemmas un_raw = un_bytes [where g = "\<lambda>v. v"]

lemma string_of_bytes_Nil [simp]: "string_of_bytes [] = []"
  by (simp add: string_of_bytes_def)

lemma un_string:
  assumes "is_tag tag 2"
    and "\<And>bs. F (tag_field tag) 2 bs m = Some (rd_bytes l 2 bs (\<lambda>v. U (\<lambda>_. string_of_bytes v) m))"
    and "U (\<lambda>_. []) m = m" and "size_bytes (length tag) (length v) < 2 ^ 63" and "l < 2 ^ 63"
  shows "unmarshal l F (put_bytes tag (bytes_of_string v) d) m = unmarshal l F d (U (\<lambda>_. v) m)"
  using un_bytes [where g = string_of_bytes and F = F and m = m and U = U, OF assms(1,2)] assms(3-) by simp

text \<open>Nested messages, given that their own codec has an exact size and reads back what it writes.\<close>

lemma un_msg:
  assumes sz: "\<And>y. length (enc y) = sz y" and rt: "\<And>y. P y \<Longrightarrow> sz y < 2 ^ 63 \<Longrightarrow> dec (enc y) = Inr y"
    and "is_tag tag 2" and "\<And>bs. F (tag_field tag) 2 bs m = Some (rd_msg l 2 bs dec (\<lambda>x. U (\<lambda>_. Some x) m))"
    and "U (\<lambda>_. None) m = m" and "pred_option P x" and "size_msg (length tag) sz x < 2 ^ 63" and "l < 2 ^ 63"
  shows "unmarshal l F (put_msg tag enc x d) m = unmarshal l F d (U (\<lambda>_. x) m)"
proof (cases x)
  case (Some y)
  then have y: "length (enc y) < 2 ^ 63" using assms(7) by (simp add: size_msg_def sz)
  then have "dec (enc y) = Inr y" using rt [of y] assms(6) Some by (simp add: sz)
  then have "F (tag_field tag) 2 (varint (of_nat (length (enc y))) @ enc y @ d) m = Some (Inr (U (\<lambda>_. Some y) m, d))"
    by (simp add: assms(4) rd_msg_def dec_len_bytes [OF y assms(8)])
  with Some show ?thesis
    by (simp add: put_msg_def unmarshal_field [OF assms(3)])
qed (simp add: put_msg_def assms(5))

lemma un_msgs:
  assumes sz: "\<And>y. length (enc y) = sz y" and rt: "\<And>y. P y \<Longrightarrow> sz y < 2 ^ 63 \<Longrightarrow> dec (enc y) = Inr y"
    and "is_tag tag 2"
    and "\<And>bs m. F (tag_field tag) 2 bs m = Some (rd_msg l 2 bs dec (\<lambda>x. U (\<lambda>_. S m @ [x]) m))"
    and "\<And>xs m. S (U (\<lambda>_. xs) m) = xs" and "\<And>xs ys m. U (\<lambda>_. xs) (U (\<lambda>_. ys) m) = U (\<lambda>_. xs) m"
    and "U (\<lambda>_. S m) m = m"
    and "list_all P xs" and "size_msgs (length tag) sz xs < 2 ^ 63" and "l < 2 ^ 63"
  shows "unmarshal l F (put_msgs tag enc xs d) m = unmarshal l F d (U (\<lambda>_. S m @ xs) m)"
  using assms(7-9)
proof (induction xs arbitrary: m)
  case (Cons x xs)
  let ?d = "put_msgs tag enc xs d"
  have eq: "put_msgs tag enc (x # xs) d = tag @ varint (of_nat (length (enc x))) @ enc x @ ?d"
    by (simp add: put_msgs_def)
  have len: "length (enc x) < 2 ^ 63" "size_msgs (length tag) sz xs < 2 ^ 63"
    using Cons.prems(3) by (simp_all add: size_msgs_def sz)
  then have "dec (enc x) = Inr x" using rt [of x] Cons.prems(2) by (simp add: sz)
  then have "F (tag_field tag) 2 (varint (of_nat (length (enc x))) @ enc x @ ?d) m
      = Some (Inr (U (\<lambda>_. S m @ [x]) m, ?d))"
    by (simp add: assms(4) rd_msg_def dec_len_bytes [OF len(1) assms(10)])
  then have "unmarshal l F (put_msgs tag enc (x # xs) d) m = unmarshal l F ?d (U (\<lambda>_. S m @ [x]) m)"
    unfolding eq by (rule unmarshal_field [OF assms(3)]) simp
  with Cons.IH [of "U (\<lambda>_. S m @ [x]) m"] Cons.prems(2) len(2) show ?case by (simp add: assms(5,6))
qed (simp add: put_msgs_def)

lemmas un_plain_msg = un_msg [where P = "\<lambda>_. True", simplified option.pred_True simp_thms]
lemmas un_plain_msgs = un_msgs [where P = "\<lambda>_. True", simplified list.pred_True simp_thms]

lemma un_strings:
  assumes "is_tag tag 2"
    and "\<And>bs m. F (tag_field tag) 2 bs m = Some (rd_bytes l 2 bs (\<lambda>v. U (\<lambda>_. S m @ [string_of_bytes v]) m))"
    and "\<And>xs m. S (U (\<lambda>_. xs) m) = xs" and "\<And>xs ys m. U (\<lambda>_. xs) (U (\<lambda>_. ys) m) = U (\<lambda>_. xs) m"
    and "U (\<lambda>_. S m) m = m"
    and "size_msgs (length tag) length xs < 2 ^ 63" and "l < 2 ^ 63"
  shows "unmarshal l F (put_msgs tag bytes_of_string xs d) m = unmarshal l F d (U (\<lambda>_. S m @ xs) m)"
proof (rule un_msgs [where P = "\<lambda>_. True" and dec = "\<lambda>b. Inr (string_of_bytes b)" and sz = length])
  show "F (tag_field tag) 2 bs m
      = Some (rd_msg l 2 bs (\<lambda>b. Inr (string_of_bytes b)) (\<lambda>x. U (\<lambda>_. S m @ [x]) m))" for bs m
    by (simp add: assms(2) rd_bytes_def rd_msg_def split: sum.splits prod.splits)
qed (use assms in \<open>simp_all add: list_all_iff\<close>)

lemma un_double:
  assumes "is_tag tag 1" and "\<And>bs. F (tag_field tag) 1 bs m = Some (rd_double 1 bs (\<lambda>v. U (\<lambda>_. v) m))"
    and "U (\<lambda>_. Fin 0) m = m" and "is_f64 v"
  shows "unmarshal l F (put_double tag v d) m = unmarshal l F d (U (\<lambda>_. v) m)"
proof (cases "v = Fin 0")
  case False
  have "F (tag_field tag) 1 (PutUint64_LE (Float64bits v) @ d) m = Some (Inr (U (\<lambda>_. v) m, d))"
    using assms(4) by (simp add: assms(2) rd_double_def)
  with False show ?thesis
    by (simp add: put_double_def unmarshal_field [OF assms(1)])
qed (simp add: put_double_def assms(3))

text \<open>Packed fields.\<close>

lemma packed_varints_concat:
  fixes acc :: "'a::len word list"
  shows "packed_varints (length d) (concat (map varint vs) @ d) acc = Inr (acc @ map ucast vs, d)"
proof (induction vs arbitrary: acc)
  case (Cons v vs)
  have "length (concat (map varint (v # vs)) @ d) > length d" by simp
  then show ?case
    using Cons.IH [of "acc @ [ucast v]"] by (subst packed_varints.simps) simp
qed (simp add: packed_varints.simps)

lemma un_packed_varint:
  fixes U :: "('a::len word list \<Rightarrow> 'a word list) \<Rightarrow> 'm \<Rightarrow> 'm"
  assumes "is_tag tag 2"
    and "\<And>bs. F (tag_field tag) 2 bs m = Some (rd_packed_varint l 2 bs (S m) (\<lambda>vs. U (\<lambda>_. vs) m))"
    and "U (\<lambda>_. S m) m = m" and "size_packed_varint (length tag) vs < 2 ^ 63" and "l < 2 ^ 63"
  shows "unmarshal l F (put_packed_varint tag vs d) m = unmarshal l F d (U (\<lambda>_. S m @ map ucast vs) m)"
proof (cases "vs = []")
  case False
  let ?c = "concat (map varint vs)"
  have c: "length ?c = sum_list (map sov vs)" by (simp add: length_concat length_varint comp_def)
  have n: "length ?c < 2 ^ 63" using False assms(4) c by (simp add: size_packed_varint_def Let_def)
  then have "F (tag_field tag) 2 (varint (of_nat (length ?c)) @ ?c @ d) m = Some (Inr (U (\<lambda>_. S m @ map ucast vs) m, d))"
    using len_in_range [OF assms(5) _ n, of "length (?c @ d)"] packed_varints_concat [of d vs "S m"]
    unfolding assms(2) rd_packed_varint_def dec_varint_0
    by (simp add: sint_of_nat64 unat_of_nat63 not_le del: of_nat_add length_concat)
  with False show ?thesis
    by (simp add: put_packed_varint_def unmarshal_field [OF assms(1)] flip: c)
qed (simp add: put_packed_varint_def assms(3))

lemma un_packed_int64:
  fixes U :: "(int64 list \<Rightarrow> int64 list) \<Rightarrow> 'm \<Rightarrow> 'm"
  assumes "is_tag tag 2"
    and "\<And>bs. F (tag_field tag) 2 bs m = Some (rd_packed_varint l 2 bs (S m) (\<lambda>vs. U (\<lambda>_. vs) m))"
    and "U (\<lambda>_. S m) m = m" and "size_packed_varint (length tag) vs < 2 ^ 63" and "l < 2 ^ 63"
  shows "unmarshal l F (put_packed_varint tag vs d) m = unmarshal l F d (U (\<lambda>_. S m @ vs) m)"
  using un_packed_varint [where S = S and F = F and m = m and U = U, OF assms] by (simp add: map_idI)

lemma un_packed_int32:
  fixes U :: "(int32 list \<Rightarrow> int32 list) \<Rightarrow> 'm \<Rightarrow> 'm"
  assumes "is_tag tag 2"
    and "\<And>bs. F (tag_field tag) 2 bs m = Some (rd_packed_varint l 2 bs (S m) (\<lambda>vs. U (\<lambda>_. vs) m))"
    and "U (\<lambda>_. S m) m = m" and "size_packed_varint (length tag) (map scast vs) < 2 ^ 63" and "l < 2 ^ 63"
  shows "unmarshal l F (put_packed_varint tag (map scast vs) d) m = unmarshal l F d (U (\<lambda>_. S m @ vs) m)"
  using un_packed_varint [where S = S and F = F and m = m and U = U, OF assms] by (simp add: comp_def cast_32_64)

lemma packed_doubles_concat:
  "\<forall>v \<in> set vs. is_f64 v \<Longrightarrow>
   packed_doubles (length d) (concat (map (\<lambda>v. PutUint64_LE (Float64bits v)) vs) @ d) acc = Inr (acc @ vs, d)"
proof (induction vs arbitrary: acc)
  case (Cons v vs)
  then show ?case
    using Cons.IH [of "acc @ [v]"] by (subst packed_doubles.simps) simp
qed (simp add: packed_doubles.simps)

lemma un_packed_double:
  assumes "is_tag tag 2"
    and "\<And>bs. F (tag_field tag) 2 bs m = Some (rd_packed_double l 2 bs (S m) (\<lambda>vs. U (\<lambda>_. vs) m))"
    and "U (\<lambda>_. S m) m = m" and "list_all is_f64 vs"
    and "size_packed_double (length tag) vs < 2 ^ 63" and "l < 2 ^ 63"
  shows "unmarshal l F (put_packed_double tag vs d) m = unmarshal l F d (U (\<lambda>_. S m @ vs) m)"
proof (cases "vs = []")
  case False
  let ?c = "concat (map (\<lambda>v. PutUint64_LE (Float64bits v)) vs)"
  have c: "length ?c = length vs * 8" by (simp add: length_concat comp_def sum_list_triv)
  have n: "length ?c < 2 ^ 63" using False assms(5) c by (simp add: size_packed_double_def)
  have f: "\<forall>v \<in> set vs. is_f64 v" using assms(4) by (simp add: list_all_iff)
  have "F (tag_field tag) 2 (varint (of_nat (length ?c)) @ ?c @ d) m = Some (Inr (U (\<lambda>_. S m @ vs) m, d))"
    using n len_in_range [OF assms(6) _ n, of "length (?c @ d)"] packed_doubles_concat [OF f, of d "S m"]
    unfolding assms(2) rd_packed_double_def dec_varint_0
    by (simp add: sint_of_nat64 unat_of_nat63 not_le del: of_nat_add length_concat)
  with False show ?thesis
    by (simp add: put_packed_double_def unmarshal_field [OF assms(1)] flip: c)
qed (simp add: put_packed_double_def assms(3))

text \<open>Tags of two bytes.\<close>

lemma size_two [wire_sizes]:
  "size_varint (Suc (Suc 0)) = size_varint 2" "size_bytes (Suc (Suc 0)) = size_bytes 2"
  by (simp_all add: numeral_2_eq_2)

lemmas un_scalar = un_uint64 un_uint32 un_bool un_raw un_string un_double

end
