(* ===== verification/VtprotoRT.thy ===== *)
theory VtprotoRT
  imports Vtproto WireRT
begin

text \<open>
  The codec of theory \<open>Vtproto\<close> is exact and faithful: the size computed for a message is the number
  of bytes written for it, and reading those bytes into an empty message gives the message back. The
  predicates \<open>_rep\<close> say that the floating point fields of a message hold binary64 values.
\<close>

section \<open>HDRHistogram\<close>

lemma HDRHistogram_size: "length (HDRHistogram_MarshalToSizedBufferVT m) = HDRHistogram_SizeVT m"
  by (simp add: HDRHistogram_MarshalToSizedBufferVT_def HDRHistogram_SizeVT_def wire_sizes)

lemma HDRHistogram_steps:
  "l < 2 ^ 63 \<Longrightarrow> hdr_LowestTrackableValue m = 0 \<Longrightarrow> unmarshal l (HDRHistogram_fields l) (put_varint [0x8] v1 d) m
     = unmarshal l (HDRHistogram_fields l) d (m\<lparr>hdr_LowestTrackableValue := v1\<rparr>)"
  "l < 2 ^ 63 \<Longrightarrow> hdr_HighestTrackableValue m = 0 \<Longrightarrow> unmarshal l (HDRHistogram_fields l) (put_varint [0x10] v2 d) m
     = unmarshal l (HDRHistogram_fields l) d (m\<lparr>hdr_HighestTrackableValue := v2\<rparr>)"
  "l < 2 ^ 63 \<Longrightarrow> hdr_SignificantFigures m = 0 \<Longrightarrow> unmarshal l (HDRHistogram_fields l) (put_varint [0x18] v3 d) m
     = unmarshal l (HDRHistogram_fields l) d (m\<lparr>hdr_SignificantFigures := v3\<rparr>)"
  "l < 2 ^ 63 \<Longrightarrow> size_packed_varint 1 v4 < 2 ^ 63 \<Longrightarrow> unmarshal l (HDRHistogram_fields l) (put_packed_varint [0x22] v4 d) m
     = unmarshal l (HDRHistogram_fields l) d (m\<lparr>hdr_Counts := hdr_Counts m @ v4\<rparr>)"
  "l < 2 ^ 63 \<Longrightarrow> size_packed_varint 1 (map scast v5) < 2 ^ 63 \<Longrightarrow> unmarshal l (HDRHistogram_fields l) (put_packed_varint [0x2A] (map scast v5) d) m
     = unmarshal l (HDRHistogram_fields l) d (m\<lparr>hdr_Buckets := hdr_Buckets m @ v5\<rparr>)"
  by (rule un_uint64 un_packed_int64 un_packed_int32;
      simp add: HDRHistogram_fields_def tag_field_def Let_def wire_sizes; fail)+

lemma HDRHistogram_rt:
  assumes "HDRHistogram_SizeVT m < 2 ^ 63"
  shows "HDRHistogram_UnmarshalVT (HDRHistogram_MarshalToSizedBufferVT m) zero_HDRHistogram = Inr m"
  using assms unfolding HDRHistogram_UnmarshalVT_def HDRHistogram_size
  by (simp add: HDRHistogram_steps HDRHistogram_MarshalToSizedBufferVT_def zero_HDRHistogram_def HDRHistogram_SizeVT_def)

lemmas HDRHistogram_un = un_plain_msg [OF HDRHistogram_size HDRHistogram_rt]

section \<open>TransactionMetrics\<close>

lemma TransactionMetrics_size: "length (TransactionMetrics_MarshalToSizedBufferVT m) = TransactionMetrics_SizeVT m"
  by (simp add: TransactionMetrics_MarshalToSizedBufferVT_def TransactionMetrics_SizeVT_def wire_sizes
      put_msg_size HDRHistogram_size)

lemma TransactionMetrics_steps:
  "l < 2 ^ 63 \<Longrightarrow> tm_Histogram m = None \<Longrightarrow> size_msg 1 HDRHistogram_SizeVT v1 < 2 ^ 63 \<Longrightarrow> unmarshal l (TransactionMetrics_fields l) (put_msg [0xA] HDRHistogram_MarshalToSizedBufferVT v1 d) m
     = unmarshal l (TransactionMetrics_fields l) d (m\<lparr>tm_Histogram := v1\<rparr>)"
  by (rule HDRHistogram_un;
      simp add: TransactionMetrics_fields_def tag_field_def Let_def wire_sizes; fail)+

lemma TransactionMetrics_rt:
  assumes "TransactionMetrics_SizeVT m < 2 ^ 63"
  shows "TransactionMetrics_UnmarshalVT (TransactionMetrics_MarshalToSizedBufferVT m) zero_TransactionMetrics = Inr m"
  using assms unfolding TransactionMetrics_UnmarshalVT_def TransactionMetrics_size
  by (simp add: TransactionMetrics_steps TransactionMetrics_MarshalToSizedBufferVT_def zero_TransactionMetrics_def TransactionMetrics_SizeVT_def)

lemmas TransactionMetrics_un = un_plain_msg [OF TransactionMetrics_size TransactionMetrics_rt]

section \<open>ServiceTransactionMetrics\<close>

definition ServiceTransactionMetrics_rep :: "ServiceTransactionMetrics \<Rightarrow> bool" where
  "ServiceTransactionMetrics_rep m \<longleftrightarrow> is_f64 (stm_FailureCount m)
     \<and> is_f64 (stm_SuccessCount m)"

lemma ServiceTransactionMetrics_size: "length (ServiceTransactionMetrics_MarshalToSizedBufferVT m) = ServiceTransactionMetrics_SizeVT m"
  by (simp add: ServiceTransactionMetrics_MarshalToSizedBufferVT_def ServiceTransactionMetrics_SizeVT_def wire_sizes
      put_msg_size HDRHistogram_size)

lemma ServiceTransactionMetrics_steps:
  "l < 2 ^ 63 \<Longrightarrow> stm_Histogram m = None \<Longrightarrow> size_msg 1 HDRHistogram_SizeVT v1 < 2 ^ 63 \<Longrightarrow> unmarshal l (ServiceTransactionMetrics_fields l) (put_msg [0xA] HDRHistogram_MarshalToSizedBufferVT v1 d) m
     = unmarshal l (ServiceTransactionMetrics_fields l) d (m\<lparr>stm_Histogram := v1\<rparr>)"
  "l < 2 ^ 63 \<Longrightarrow> stm_FailureCount m = Fin 0 \<Longrightarrow> is_f64 v2 \<Longrightarrow> unmarshal l (ServiceTransactionMetrics_fields l) (put_double [0x11] v2 d) m
     = unmarshal l (ServiceTransactionMetrics_fields l) d (m\<lparr>stm_FailureCount := v2\<rparr>)"
  "l < 2 ^ 63 \<Longrightarrow> stm_SuccessCount m = Fin 0 \<Longrightarrow> is_f64 v3 \<Longrightarrow> unmarshal l (ServiceTransactionMetrics_fields l) (put_double [0x19] v3 d) m
     = unmarshal l (ServiceTransactionMetrics_fields l) d (m\<lparr>stm_SuccessCount := v3\<rparr>)"
  by (rule HDRHistogram_un un_double;
      simp add: ServiceTransactionMetrics_fields_def tag_field_def Let_def wire_sizes; fail)+

lemma ServiceTransactionMetrics_rt:
  assumes "ServiceTransactionMetrics_rep m" and "ServiceTransactionMetrics_SizeVT m < 2 ^ 63"
  shows "ServiceTransactionMetrics_UnmarshalVT (ServiceTransactionMetrics_MarshalToSizedBufferVT m) zero_ServiceTransactionMetrics = Inr m"
  using assms unfolding ServiceTransactionMetrics_UnmarshalVT_def ServiceTransactionMetrics_size
  by (simp add: ServiceTransactionMetrics_steps ServiceTransactionMetrics_MarshalToSizedBufferVT_def zero_ServiceTransactionMetrics_def ServiceTransactionMetrics_SizeVT_def ServiceTransactionMetrics_rep_def)

lemmas ServiceTransactionMetrics_un = un_msg [OF ServiceTransactionMetrics_size ServiceTransactionMetrics_rt]

section \<open>SpanMetrics\<close>

definition SpanMetrics_rep :: "SpanMetrics \<Rightarrow> bool" where
  "SpanMetrics_rep m \<longleftrightarrow> is_f64 (spm_Count m)
     \<and> is_f64 (spm_Sum m)"

lemma SpanMetrics_size: "length (SpanMetrics_MarshalToSizedBufferVT m) = SpanMetrics_SizeVT m"
  by (simp add: SpanMetrics_MarshalToSizedBufferVT_def SpanMetrics_SizeVT_def wire_sizes)

lemma SpanMetrics_steps:
  "l < 2 ^ 63 \<Longrightarrow> spm_Count m = Fin 0 \<Longrightarrow> is_f64 v1 \<Longrightarrow> unmarshal l (SpanMetrics_fields l) (put_double [0x9] v1 d) m
     = unmarshal l (SpanMetrics_fields l) d (m\<lparr>spm_Count := v1\<rparr>)"
  "l < 2 ^ 63 \<Longrightarrow> spm_Sum m = Fin 0 \<Longrightarrow> is_f64 v2 \<Longrightarrow> unmarshal l (SpanMetrics_fields l) (put_double [0x11] v2 d) m
     = unmarshal l (SpanMetrics_fields l) d (m\<lparr>spm_Sum := v2\<rparr>)"
  by (rule un_double;
      simp add: SpanMetrics_fields_def tag_field_def Let_def wire_sizes; fail)+

lemma SpanMetrics_rt:
  assumes "SpanMetrics_rep m" and "SpanMetrics_SizeVT m < 2 ^ 63"
  shows "SpanMetrics_UnmarshalVT (SpanMetrics_MarshalToSizedBufferVT m) zero_SpanMetrics = Inr m"
  using assms unfolding SpanMetrics_UnmarshalVT_def SpanMetrics_size
  by (simp add: SpanMetrics_steps SpanMetrics_MarshalToSizedBufferVT_def zero_SpanMetrics_def SpanMetrics_SizeVT_def SpanMetrics_rep_def)

lemmas SpanMetrics_un = un_msg [OF SpanMetrics_size SpanMetrics_rt]

section \<open>TransactionAggregationKey\<close>

lemma TransactionAggregationKey_size: "length (TransactionAggregationKey_MarshalToSizedBufferVT m) = TransactionAggregationKey_SizeVT m"
  by (simp add: TransactionAggregationKey_MarshalToSizedBufferVT_def TransactionAggregationKey_SizeVT_def wire_sizes)

lemma TransactionAggregationKey_steps:
  "l < 2 ^ 63 \<Longrightarrow> pbtk_TraceRoot m = False \<Longrightarrow> unmarshal l (TransactionAggregationKey_fields l) (put_bool [0x8] v1 d) m
     = unmarshal l (TransactionAggregationKey_fields l) d (m\<lparr>pbtk_TraceRoot := v1\<rparr>)"
  "l < 2 ^ 63 \<Longrightarrow> pbtk_ContainerId m = [] \<Longrightarrow> size_bytes 1 (length v2) < 2 ^ 63 \<Longrightarrow> unmarshal l (TransactionAggregationKey_fields l) (put_bytes [0x12] (bytes_of_string v2) d) m
     = unmarshal l (TransactionAggregationKey_fields l) d (m\<lparr>pbtk_ContainerId := v2\<rparr>)"
  "l < 2 ^ 63 \<Longrightarrow> pbtk_KubernetesPodName m = [] \<Longrightarrow> size_bytes 1 (length v3) < 2 ^ 63 \<Longrightarrow> unmarshal l (TransactionAggregationKey_fields l) (put_bytes [0x1A] (bytes_of_string v3) d) m
     = unmarshal l (TransactionAggregationKey_fields l) d (m\<lparr>pbtk_KubernetesPodName := v3\<rparr>)"
  "l < 2 ^ 63 \<Longrightarrow> pbtk_ServiceVersion m = [] \<Longrightarrow> size_bytes 1 (length v4) < 2 ^ 63 \<Longrightarrow> unmarshal l (TransactionAggregationKey_fields l) (put_bytes [0x22] (bytes_of_string v4) d) m
     = unmarshal l (TransactionAggregationKey_fields l) d (m\<lparr>pbtk_ServiceVersion := v4\<rparr>)"
  "l < 2 ^ 63 \<Longrightarrow> pbtk_ServiceNodeName m = [] \<Longrightarrow> size_bytes 1 (length v5) < 2 ^ 63 \<Longrightarrow> unmarshal l (TransactionAggregationKey_fields l) (put_bytes [0x2A] (bytes_of_string v5) d) m
     = unmarshal l (TransactionAggregationKey_fields l) d (m\<lparr>pbtk_ServiceNodeName := v5\<rparr>)"
  "l < 2 ^ 63 \<Longrightarrow> pbtk_ServiceRuntimeName m = [] \<Longrightarrow> size_bytes 1 (length v6) < 2 ^ 63 \<Longrightarrow> unmarshal l (TransactionAggregationKey_fields l) (put_bytes [0x32] (bytes_of_string v6) d) m
     = unmarshal l (TransactionAggregationKey_fields l) d (m\<lparr>pbtk_ServiceRuntimeName := v6\<rparr>)"
  "l < 2 ^ 63 \<Longrightarrow> pbtk_ServiceRuntimeVersion m = [] \<Longrightarrow> size_bytes 1 (length v7) < 2 ^ 63 \<Longrightarrow> unmarshal l (TransactionAggregationKey_fields l) (put_bytes [0x3A] (bytes_of_string v7) d) m
     = unmarshal l (TransactionAggregationKey_fields l) d (m\<lparr>pbtk_ServiceRuntimeVersion := v7\<rparr>)"
  "l < 2 ^ 63 \<Longrightarrow> pbtk_ServiceLanguageVersion m = [] \<Longrightarrow> size_bytes 1 (length v8) < 2 ^ 63 \<Longrightarrow> unmarshal l (TransactionAggregationKey_fields l) (put_bytes [0x42] (bytes_of_string v8) d) m
     = unmarshal l (TransactionAggregationKey_fields l) d (m\<lparr>pbtk_ServiceLanguageVersion := v8\<rparr>)"
  "l < 2 ^ 63 \<Longrightarrow> pbtk_HostHostname m = [] \<Longrightarrow> size_bytes 1 (length v9) < 2 ^ 63 \<Longrightarrow> unmarshal l (TransactionAggregationKey_fields l) (put_bytes [0x4A] (bytes_of_string v9) d) m
     = unmarshal l (TransactionAggregationKey_fields l) d (m\<lparr>pbtk_HostHostname := v9\<rparr>)"
  "l < 2 ^ 63 \<Longrightarrow> pbtk_HostName m = [] \<Longrightarrow> size_bytes 1 (length v10) < 2 ^ 63 \<Longrightarrow> unmarshal l (TransactionAggregationKey_fields l) (put_bytes [0x52] (bytes_of_string v10) d) m
     = unmarshal l (TransactionAggregationKey_fields l) d (m\<lparr>pbtk_HostName := v10\<rparr>)"
  "l < 2 ^ 63 \<Longrightarrow> pbtk_HostOsPlatform m = [] \<Longrightarrow> size_bytes 1 (length v11) < 2 ^ 63 \<Longrightarrow> unmarshal l (TransactionAggregationKey_fields l) (put_bytes [0x5A] (bytes_of_string v11) d) m
     = unmarshal l (TransactionAggregationKey_fields l) d (m\<lparr>pbtk_HostOsPlatform := v11\<rparr>)"
  "l < 2 ^ 63 \<Longrightarrow> pbtk_EventOutcome m = [] \<Longrightarrow> size_bytes 1 (length v12) < 2 ^ 63 \<Longrightarrow> unmarshal l (TransactionAggregationKey_fields l) (put_bytes [0x62] (bytes_of_string v12) d) m
     = unmarshal l (TransactionAggregationKey_fields l) d (m\<lparr>pbtk_EventOutcome := v12\<rparr>)"
  "l < 2 ^ 63 \<Longrightarrow> pbtk_TransactionName m = [] \<Longrightarrow> size_bytes 1 (length v13) < 2 ^ 63 \<Longrightarrow> unmarshal l (TransactionAggregationKey_fields l) (put_bytes [0x6A] (bytes_of_string v13) d) m
     = unmarshal l (TransactionAggregationKey_fields l) d (m\<lparr>pbtk_TransactionName := v13\<rparr>)"
  "l < 2 ^ 63 \<Longrightarrow> pbtk_TransactionType m = [] \<Longrightarrow> size_bytes 1 (length v14) < 2 ^ 63 \<Longrightarrow> unmarshal l (TransactionAggregationKey_fields l) (put_bytes [0x72] (bytes_of_string v14) d) m
     = unmarshal l (TransactionAggregationKey_fields l) d (m\<lparr>pbtk_TransactionType := v14\<rparr>)"
  "l < 2 ^ 63 \<Longrightarrow> pbtk_TransactionResult m = [] \<Longrightarrow> size_bytes 1 (length v15) < 2 ^ 63 \<Longrightarrow> unmarshal l (TransactionAggregationKey_fields l) (put_bytes [0x7A] (bytes_of_string v15) d) m
     = unmarshal l (TransactionAggregationKey_fields l) d (m\<lparr>pbtk_TransactionResult := v15\<rparr>)"
  "l < 2 ^ 63 \<Longrightarrow> pbtk_FaasColdstart m = 0 \<Longrightarrow> unmarshal l (TransactionAggregationKey_fields l) (put_varint [0x80, 0x1] (ucast v16) d) m
     = unmarshal l (TransactionAggregationKey_fields l) d (m\<lparr>pbtk_FaasColdstart := v16\<rparr>)"
  "l < 2 ^ 63 \<Longrightarrow> pbtk_FaasId m = [] \<Longrightarrow> size_bytes 2 (length v17) < 2 ^ 63 \<Longrightarrow> unmarshal l (TransactionAggregationKey_fields l) (put_bytes [0x8A, 0x1] (bytes_of_string v17) d) m
     = unmarshal l (TransactionAggregationKey_fields l) d (m\<lparr>pbtk_FaasId := v17\<rparr>)"
  "l < 2 ^ 63 \<Longrightarrow> pbtk_FaasName m = [] \<Longrightarrow> size_bytes 2 (length v18) < 2 ^ 63 \<Longrightarrow> unmarshal l (TransactionAggregationKey_fields l) (put_bytes [0x92, 0x1] (bytes_of_string v18) d) m
     = unmarshal l (TransactionAggregationKey_fields l) d (m\<lparr>pbtk_FaasName := v18\<rparr>)"
  "l < 2 ^ 63 \<Longrightarrow> pbtk_FaasVersion m = [] \<Longrightarrow> size_bytes 2 (length v19) < 2 ^ 63 \<Longrightarrow> unmarshal l (TransactionAggregationKey_fields l) (put_bytes [0x9A, 0x1] (bytes_of_string v19) d) m
     = unmarshal l (TransactionAggregationKey_fields l) d (m\<lparr>pbtk_FaasVersion := v19\<rparr>)"
  "l < 2 ^ 63 \<Longrightarrow> pbtk_FaasTriggerType m = [] \<Longrightarrow> size_bytes 2 (length v20) < 2 ^ 63 \<Longrightarrow> unmarshal l (TransactionAggregationKey_fields l) (put_bytes [0xA2, 0x1] (bytes_of_string v20) d) m
     = unmarshal l (TransactionAggregationKey_fields l) d (m\<lparr>pbtk_FaasTriggerType := v20\<rparr>)"
  "l < 2 ^ 63 \<Longrightarrow> pbtk_CloudProvider m = [] \<Longrightarrow> size_bytes 2 (length v21) < 2 ^ 63 \<Longrightarrow> unmarshal l (TransactionAggregationKey_fields l) (put_bytes [0xAA, 0x1] (bytes_of_string v21) d) m
     = unmarshal l (TransactionAggregationKey_fields l) d (m\<lparr>pbtk_CloudProvider := v21\<rparr>)"
  "l < 2 ^ 63 \<Longrightarrow> pbtk_CloudRegion m = [] \<Longrightarrow> size_bytes 2 (length v22) < 2 ^ 63 \<Longrightarrow> unmarshal l (TransactionAggregationKey_fields l) (put_bytes [0xB2, 0x1] (bytes_of_string v22) d) m
     = unmarshal l (TransactionAggregationKey_fields l) d (m\<lparr>pbtk_CloudRegion := v22\<rparr>)"
  "l < 2 ^ 63 \<Longrightarrow> pbtk_CloudAvailabilityZone m = [] \<Longrightarrow> size_bytes 2 (length v23) < 2 ^ 63 \<Longrightarrow> unmarshal l (TransactionAggregationKey_fields l) (put_bytes [0xBA, 0x1] (bytes_of_string v23) d) m
     = unmarshal l (TransactionAggregationKey_fields l) d (m\<lparr>pbtk_CloudAvailabilityZone := v23\<rparr>)"
  "l < 2 ^ 63 \<Longrightarrow> pbtk_CloudServiceName m = [] \<Longrightarrow> size_bytes 2 (length v24) < 2 ^ 63 \<Longrightarrow> unmarshal l (TransactionAggregationKey_fields l) (put_bytes [0xC2, 0x1] (bytes_of_string v24) d) m
     = unmarshal l (TransactionAggregationKey_fields l) d (m\<lparr>pbtk_CloudServiceName := v24\<rparr>)"
  "l < 2 ^ 63 \<Longrightarrow> pbtk_CloudAccountId m = [] \<Longrightarrow> size_bytes 2 (length v25) < 2 ^ 63 \<Longrightarrow> unmarshal l (TransactionAggregationKey_fields l) (put_bytes [0xCA, 0x1] (bytes_of_string v25) d) m
     = unmarshal l (TransactionAggregationKey_fields l) d (m\<lparr>pbtk_CloudAccountId := v25\<rparr>)"
  "l < 2 ^ 63 \<Longrightarrow> pbtk_CloudAccountName m = [] \<Longrightarrow> size_bytes 2 (length v26) < 2 ^ 63 \<Longrightarrow> unmarshal l (TransactionAggregationKey_fields l) (put_bytes [0xD2, 0x1] (bytes_of_string v26) d) m
     = unmarshal l (TransactionAggregationKey_fields l) d (m\<lparr>pbtk_CloudAccountName := v26\<rparr>)"
  "l < 2 ^ 63 \<Longrightarrow> pbtk_CloudMachineType m = [] \<Longrightarrow> size_bytes 2 (length v27) < 2 ^ 63 \<Longrightarrow> unmarshal l (TransactionAggregationKey_fields l) (put_bytes [0xDA, 0x1] (bytes_of_string v27) d) m
     = unmarshal l (TransactionAggregationKey_fields l) d (m\<lparr>pbtk_CloudMachineType := v27\<rparr>)"
  "l < 2 ^ 63 \<Longrightarrow> pbtk_CloudProjectId m = [] \<Longrightarrow> size_bytes 2 (length v28) < 2 ^ 63 \<Longrightarrow> unmarshal l (TransactionAggregationKey_fields l) (put_bytes [0xE2, 0x1] (bytes_of_string v28) d) m
     = unmarshal l (TransactionAggregationKey_fields l) d (m\<lparr>pbtk_CloudProjectId := v28\<rparr>)"
  "l < 2 ^ 63 \<Longrightarrow> pbtk_CloudProjectName m = [] \<Longrightarrow> size_bytes 2 (length v29) < 2 ^ 63 \<Longrightarrow> unmarshal l (TransactionAggregationKey_fields l) (put_bytes [0xEA, 0x1] (bytes_of_string v29) d) m
     = unmarshal l (TransactionAggregationKey_fields l) d (m\<lparr>pbtk_CloudProjectName := v29\<rparr>)"
  by (rule un_bool un_string un_uint32;
      simp add: TransactionAggregationKey_fields_def tag_field_def Let_def wire_sizes; fail)+

lemma TransactionAggregationKey_rt:
  assumes "TransactionAggregationKey_SizeVT m < 2 ^ 63"
  shows "TransactionAggregationKey_UnmarshalVT (TransactionAggregationKey_MarshalToSizedBufferVT m) zero_TransactionAggregationKey = Inr m"
  using assms unfolding TransactionAggregationKey_UnmarshalVT_def TransactionAggregationKey_size
  by (simp add: TransactionAggregationKey_steps TransactionAggregationKey_MarshalToSizedBufferVT_def zero_TransactionAggregationKey_def TransactionAggregationKey_SizeVT_def)

lemmas TransactionAggregationKey_un = un_plain_msg [OF TransactionAggregationKey_size TransactionAggregationKey_rt]

section \<open>ServiceTransactionAggregationKey\<close>

lemma ServiceTransactionAggregationKey_size: "length (ServiceTransactionAggregationKey_MarshalToSizedBufferVT m) = ServiceTransactionAggregationKey_SizeVT m"
  by (simp add: ServiceTransactionAggregationKey_MarshalToSizedBufferVT_def ServiceTransactionAggregationKey_SizeVT_def wire_sizes)

lemma ServiceTransactionAggregationKey_steps:
  "l < 2 ^ 63 \<Longrightarrow> pbstk_TransactionType m = [] \<Longrightarrow> size_bytes 1 (length v1) < 2 ^ 63 \<Longrightarrow> unmarshal l (ServiceTransactionAggregationKey_fields l) (put_bytes [0xA] (bytes_of_string v1) d) m
     = unmarshal l (ServiceTransactionAggregationKey_fields l) d (m\<lparr>pbstk_TransactionType := v1\<rparr>)"
  by (rule un_string;
      simp add: ServiceTransactionAggregationKey_fields_def tag_field_def Let_def wire_sizes; fail)+

lemma ServiceTransactionAggregationKey_rt:
  assumes "ServiceTransactionAggregationKey_SizeVT m < 2 ^ 63"
  shows "ServiceTransactionAggregationKey_UnmarshalVT (ServiceTransactionAggregationKey_MarshalToSizedBufferVT m) zero_ServiceTransactionAggregationKey = Inr m"
  using assms unfolding ServiceTransactionAggregationKey_UnmarshalVT_def ServiceTransactionAggregationKey_size
  by (simp add: ServiceTransactionAggregationKey_steps ServiceTransactionAggregationKey_MarshalToSizedBufferVT_def zero_ServiceTransactionAggregationKey_def ServiceTransactionAggregationKey_SizeVT_def)

lemmas ServiceTransactionAggregationKey_un = un_plain_msg [OF ServiceTransactionAggregationKey_size ServiceTransactionAggregationKey_rt]

section \<open>SpanAggregationKey\<close>

lemma SpanAggregationKey_size: "length (SpanAggregationKey_MarshalToSizedBufferVT m) = SpanAggregationKey_SizeVT m"
  by (simp add: SpanAggregationKey_MarshalToSizedBufferVT_def SpanAggregationKey_SizeVT_def wire_sizes)

lemma SpanAggregationKey_steps:
  "l < 2 ^ 63 \<Longrightarrow> pbspk_SpanName m = [] \<Longrightarrow> size_bytes 1 (length v1) < 2 ^ 63 \<Longrightarrow> unmarshal l (SpanAggregationKey_fields l) (put_bytes [0xA] (bytes_of_string v1) d) m
     = unmarshal l (SpanAggregationKey_fields l) d (m\<lparr>pbspk_SpanName := v1\<rparr>)"
  "l < 2 ^ 63 \<Longrightarrow> pbspk_Outcome m = [] \<Longrightarrow> size_bytes 1 (length v2) < 2 ^ 63 \<Longrightarrow> unmarshal l (SpanAggregationKey_fields l) (put_bytes [0x12] (bytes_of_string v2) d) m
     = unmarshal l (SpanAggregationKey_fields l) d (m\<lparr>pbspk_Outcome := v2\<rparr>)"
  "l < 2 ^ 63 \<Longrightarrow> pbspk_TargetType m = [] \<Longrightarrow> size_bytes 1 (length v3) < 2 ^ 63 \<Longrightarrow> unmarshal l (SpanAggregationKey_fields l) (put_bytes [0x1A] (bytes_of_string v3) d) m
     = unmarshal l (SpanAggregationKey_fields l) d (m\<lparr>pbspk_TargetType := v3\<rparr>)"
  "l < 2 ^ 63 \<Longrightarrow> pbspk_TargetName m = [] \<Longrightarrow> size_bytes 1 (length v4) < 2 ^ 63 \<Longrightarrow> unmarshal l (SpanAggregationKey_fields l) (put_bytes [0x22] (bytes_of_string v4) d) m
     = unmarshal l (SpanAggregationKey_fields l) d (m\<lparr>pbspk_TargetName := v4\<rparr>)"
  "l < 2 ^ 63 \<Longrightarrow> pbspk_Resource m = [] \<Longrightarrow> size_bytes 1 (length v5) < 2 ^ 63 \<Longrightarrow> unmarshal l (SpanAggregationKey_fields l) (put_bytes [0x2A] (bytes_of_string v5) d) m
     = unmarshal l (SpanAggregationKey_fields l) d (m\<lparr>pbspk_Resource := v5\<rparr>)"
  by (rule un_string;
      simp add: SpanAggregationKey_fields_def tag_field_def Let_def wire_sizes; fail)+

lemma SpanAggregationKey_rt:
  assumes "SpanAggregationKey_SizeVT m < 2 ^ 63"
  shows "SpanAggregationKey_UnmarshalVT (SpanAggregationKey_MarshalToSizedBufferVT m) zero_SpanAggregationKey = Inr m"
  using assms unfolding SpanAggregationKey_UnmarshalVT_def SpanAggregationKey_size
  by (simp add: SpanAggregationKey_steps SpanAggregationKey_MarshalToSizedBufferVT_def zero_SpanAggregationKey_def SpanAggregationKey_SizeVT_def)

lemmas SpanAggregationKey_un = un_plain_msg [OF SpanAggregationKey_size SpanAggregationKey_rt]

section \<open>ServiceAggregationKey\<close>

lemma ServiceAggregationKey_size: "length (ServiceAggregationKey_MarshalToSizedBufferVT m) = ServiceAggregationKey_SizeVT m"
  by (simp add: ServiceAggregationKey_MarshalToSizedBufferVT_def ServiceAggregationKey_SizeVT_def wire_sizes)

lemma ServiceAggregationKey_steps:
  "l < 2 ^ 63 \<Longrightarrow> pbsk_Timestamp m = 0 \<Longrightarrow> unmarshal l (ServiceAggregationKey_fields l) (put_varint [0x8] v1 d) m
     = unmarshal l (ServiceAggregationKey_fields l) d (m\<lparr>pbsk_Timestamp := v1\<rparr>)"
  "l < 2 ^ 63 \<Longrightarrow> pbsk_ServiceName m = [] \<Longrightarrow> size_bytes 1 (length v2) < 2 ^ 63 \<Longrightarrow> unmarshal l (ServiceAggregationKey_fields l) (put_bytes [0x12] (bytes_of_string v2) d) m
     = unmarshal l (ServiceAggregationKey_fields l) d (m\<lparr>pbsk_ServiceName := v2\<rparr>)"
  "l < 2 ^ 63 \<Longrightarrow> pbsk_ServiceEnvironment m = [] \<Longrightarrow> size_bytes 1 (length v3) < 2 ^ 63 \<Longrightarrow> unmarshal l (ServiceAggregationKey_fields l) (put_bytes [0x1A] (bytes_of_string v3) d) m
     = unmarshal l (ServiceAggregationKey_fields l) d (m\<lparr>pbsk_ServiceEnvironment := v3\<rparr>)"
  "l < 2 ^ 63 \<Longrightarrow> pbsk_ServiceLanguageName m = [] \<Longrightarrow> size_bytes 1 (length v4) < 2 ^ 63 \<Longrightarrow> unmarshal l (ServiceAggregationKey_fields l) (put_bytes [0x22] (bytes_of_string v4) d) m
     = unmarshal l (ServiceAggregationKey_fields l) d (m\<lparr>pbsk_ServiceLanguageName := v4\<rparr>)"
  "l < 2 ^ 63 \<Longrightarrow> pbsk_AgentName m = [] \<Longrightarrow> size_bytes 1 (length v5) < 2 ^ 63 \<Longrightarrow> unmarshal l (ServiceAggregationKey_fields l) (put_bytes [0x2A] (bytes_of_string v5) d) m
     = unmarshal l (ServiceAggregationKey_fields l) d (m\<lparr>pbsk_AgentName := v5\<rparr>)"
  by (rule un_uint64 un_string;
      simp add: ServiceAggregationKey_fields_def tag_field_def Let_def wire_sizes; fail)+

lemma ServiceAggregationKey_rt:
  assumes "ServiceAggregationKey_SizeVT m < 2 ^ 63"
  shows "ServiceAggregationKey_UnmarshalVT (ServiceAggregationKey_MarshalToSizedBufferVT m) zero_ServiceAggregationKey = Inr m"
  using assms unfolding ServiceAggregationKey_UnmarshalVT_def ServiceAggregationKey_size
  by (simp add: ServiceAggregationKey_steps ServiceAggregationKey_MarshalToSizedBufferVT_def zero_ServiceAggregationKey_def ServiceAggregationKey_SizeVT_def)

lemmas ServiceAggregationKey_un = un_plain_msg [OF ServiceAggregationKey_size ServiceAggregationKey_rt]

section \<open>ServiceInstanceAggregationKey\<close>

lemma ServiceInstanceAggregationKey_size: "length (ServiceInstanceAggregationKey_MarshalToSizedBufferVT m) = ServiceInstanceAggregationKey_SizeVT m"
  by (simp add: ServiceInstanceAggregationKey_MarshalToSizedBufferVT_def ServiceInstanceAggregationKey_SizeVT_def wire_sizes)

lemma ServiceInstanceAggregationKey_steps:
  "l < 2 ^ 63 \<Longrightarrow> pbsik_GlobalLabelsStr m = [] \<Longrightarrow> size_bytes 1 (length v1) < 2 ^ 63 \<Longrightarrow> unmarshal l (ServiceInstanceAggregationKey_fields l) (put_bytes [0xA] v1 d) m
     = unmarshal l (ServiceInstanceAggregationKey_fields l) d (m\<lparr>pbsik_GlobalLabelsStr := v1\<rparr>)"
  by (rule un_raw;
      simp add: ServiceInstanceAggregationKey_fields_def tag_field_def Let_def wire_sizes; fail)+

lemma ServiceInstanceAggregationKey_rt:
  assumes "ServiceInstanceAggregationKey_SizeVT m < 2 ^ 63"
  shows "ServiceInstanceAggregationKey_UnmarshalVT (ServiceInstanceAggregationKey_MarshalToSizedBufferVT m) zero_ServiceInstanceAggregationKey = Inr m"
  using assms unfolding ServiceInstanceAggregationKey_UnmarshalVT_def ServiceInstanceAggregationKey_size
  by (simp add: ServiceInstanceAggregationKey_steps ServiceInstanceAggregationKey_MarshalToSizedBufferVT_def zero_ServiceInstanceAggregationKey_def ServiceInstanceAggregationKey_SizeVT_def)

lemmas ServiceInstanceAggregationKey_un = un_plain_msg [OF ServiceInstanceAggregationKey_size ServiceInstanceAggregationKey_rt]

section \<open>KeyedTransactionMetrics\<close>

lemma KeyedTransactionMetrics_size: "length (KeyedTransactionMetrics_MarshalToSizedBufferVT m) = KeyedTransactionMetrics_SizeVT m"
  by (simp add: KeyedTransactionMetrics_MarshalToSizedBufferVT_def KeyedTransactionMetrics_SizeVT_def wire_sizes
      put_msg_size TransactionAggregationKey_size TransactionMetrics_size)

lemma KeyedTransactionMetrics_steps:
  "l < 2 ^ 63 \<Longrightarrow> ktm_Key m = None \<Longrightarrow> size_msg 1 TransactionAggregationKey_SizeVT v1 < 2 ^ 63 \<Longrightarrow> unmarshal l (KeyedTransactionMetrics_fields l) (put_msg [0xA] TransactionAggregationKey_MarshalToSizedBufferVT v1 d) m
     = unmarshal l (KeyedTransactionMetrics_fields l) d (m\<lparr>ktm_Key := v1\<rparr>)"
  "l < 2 ^ 63 \<Longrightarrow> ktm_Metrics m = None \<Longrightarrow> size_msg 1 TransactionMetrics_SizeVT v2 < 2 ^ 63 \<Longrightarrow> unmarshal l (KeyedTransactionMetrics_fields l) (put_msg [0x12] TransactionMetrics_MarshalToSizedBufferVT v2 d) m
     = unmarshal l (KeyedTransactionMetrics_fields l) d (m\<lparr>ktm_Metrics := v2\<rparr>)"
  by (rule TransactionAggregationKey_un TransactionMetrics_un;
      simp add: KeyedTransactionMetrics_fields_def tag_field_def Let_def wire_sizes; fail)+

lemma KeyedTransactionMetrics_rt:
  assumes "KeyedTransactionMetrics_SizeVT m < 2 ^ 63"
  shows "KeyedTransactionMetrics_UnmarshalVT (KeyedTransactionMetrics_MarshalToSizedBufferVT m) zero_KeyedTransactionMetrics = Inr m"
  using assms unfolding KeyedTransactionMetrics_UnmarshalVT_def KeyedTransactionMetrics_size
  by (simp add: KeyedTransactionMetrics_steps KeyedTransactionMetrics_MarshalToSizedBufferVT_def zero_KeyedTransactionMetrics_def KeyedTransactionMetrics_SizeVT_def)

lemmas KeyedTransactionMetrics_uns = un_plain_msgs [OF KeyedTransactionMetrics_size KeyedTransactionMetrics_rt]

section \<open>KeyedServiceTransactionMetrics\<close>

definition KeyedServiceTransactionMetrics_rep :: "KeyedServiceTransactionMetrics \<Rightarrow> bool" where
  "KeyedServiceTransactionMetrics_rep m \<longleftrightarrow> pred_option ServiceTransactionMetrics_rep (kstm_Metrics m)"

lemma KeyedServiceTransactionMetrics_size: "length (KeyedServiceTransactionMetrics_MarshalToSizedBufferVT m) = KeyedServiceTransactionMetrics_SizeVT m"
  by (simp add: KeyedServiceTransactionMetrics_MarshalToSizedBufferVT_def KeyedServiceTransactionMetrics_SizeVT_def wire_sizes
      put_msg_size ServiceTransactionAggregationKey_size ServiceTransactionMetrics_size)

lemma KeyedServiceTransactionMetrics_steps:
  "l < 2 ^ 63 \<Longrightarrow> kstm_Key m = None \<Longrightarrow> size_msg 1 ServiceTransactionAggregationKey_SizeVT v1 < 2 ^ 63 \<Longrightarrow> unmarshal l (KeyedServiceTransactionMetrics_fields l) (put_msg [0xA] ServiceTransactionAggregationKey_MarshalToSizedBufferVT v1 d) m
     = unmarshal l (KeyedServiceTransactionMetrics_fields l) d (m\<lparr>kstm_Key := v1\<rparr>)"
  "l < 2 ^ 63 \<Longrightarrow> kstm_Metrics m = None \<Longrightarrow> pred_option ServiceTransactionMetrics_rep v2 \<Longrightarrow> size_msg 1 ServiceTransactionMetrics_SizeVT v2 < 2 ^ 63 \<Longrightarrow> unmarshal l (KeyedServiceTransactionMetrics_fields l) (put_msg [0x12] ServiceTransactionMetrics_MarshalToSizedBufferVT v2 d) m
     = unmarshal l (KeyedServiceTransactionMetrics_fields l) d (m\<lparr>kstm_Metrics := v2\<rparr>)"
  by (rule ServiceTransactionAggregationKey_un ServiceTransactionMetrics_un;
      simp add: KeyedServiceTransactionMetrics_fields_def tag_field_def Let_def wire_sizes; fail)+

lemma KeyedServiceTransactionMetrics_rt:
  assumes "KeyedServiceTransactionMetrics_rep m" and "KeyedServiceTransactionMetrics_SizeVT m < 2 ^ 63"
  shows "KeyedServiceTransactionMetrics_UnmarshalVT (KeyedServiceTransactionMetrics_MarshalToSizedBufferVT m) zero_KeyedServiceTransactionMetrics = Inr m"
  using assms unfolding KeyedServiceTransactionMetrics_UnmarshalVT_def KeyedServiceTransactionMetrics_size
  by (simp add: KeyedServiceTransactionMetrics_steps KeyedServiceTransactionMetrics_MarshalToSizedBufferVT_def zero_KeyedServiceTransactionMetrics_def KeyedServiceTransactionMetrics_SizeVT_def KeyedServiceTransactionMetrics_rep_def)

lemmas KeyedServiceTransactionMetrics_uns = un_msgs [OF KeyedServiceTransactionMetrics_size KeyedServiceTransactionMetrics_rt]

section \<open>KeyedSpanMetrics\<close>

definition KeyedSpanMetrics_rep :: "KeyedSpanMetrics \<Rightarrow> bool" where
  "KeyedSpanMetrics_rep m \<longleftrightarrow> pred_option SpanMetrics_rep (kspm_Metrics m)"

lemma KeyedSpanMetrics_size: "length (KeyedSpanMetrics_MarshalToSizedBufferVT m) = KeyedSpanMetrics_SizeVT m"
  by (simp add: KeyedSpanMetrics_MarshalToSizedBufferVT_def KeyedSpanMetrics_SizeVT_def wire_sizes
      put_msg_size SpanAggregationKey_size SpanMetrics_size)

lemma KeyedSpanMetrics_steps:
  "l < 2 ^ 63 \<Longrightarrow> kspm_Key m = None \<Longrightarrow> size_msg 1 SpanAggregationKey_SizeVT v1 < 2 ^ 63 \<Longrightarrow> unmarshal l (KeyedSpanMetrics_fields l) (put_msg [0xA] SpanAggregationKey_MarshalToSizedBufferVT v1 d) m
     = unmarshal l (KeyedSpanMetrics_fields l) d (m\<lparr>kspm_Key := v1\<rparr>)"
  "l < 2 ^ 63 \<Longrightarrow> kspm_Metrics m = None \<Longrightarrow> pred_option SpanMetrics_rep v2 \<Longrightarrow> size_msg 1 SpanMetrics_SizeVT v2 < 2 ^ 63 \<Longrightarrow> unmarshal l (KeyedSpanMetrics_fields l) (put_msg [0x12] SpanMetrics_MarshalToSizedBufferVT v2 d) m
     = unmarshal l (KeyedSpanMetrics_fields l) d (m\<lparr>kspm_Metrics := v2\<rparr>)"
  by (rule SpanAggregationKey_un SpanMetrics_un;
      simp add: KeyedSpanMetrics_fields_def tag_field_def Let_def wire_sizes; fail)+

lemma KeyedSpanMetrics_rt:
  assumes "KeyedSpanMetrics_rep m" and "KeyedSpanMetrics_SizeVT m < 2 ^ 63"
  shows "KeyedSpanMetrics_UnmarshalVT (KeyedSpanMetrics_MarshalToSizedBufferVT m) zero_KeyedSpanMetrics = Inr m"
  using assms unfolding KeyedSpanMetrics_UnmarshalVT_def KeyedSpanMetrics_size
  by (simp add: KeyedSpanMetrics_steps KeyedSpanMetrics_MarshalToSizedBufferVT_def zero_KeyedSpanMetrics_def KeyedSpanMetrics_SizeVT_def KeyedSpanMetrics_rep_def)

lemmas KeyedSpanMetrics_uns = un_msgs [OF KeyedSpanMetrics_size KeyedSpanMetrics_rt]

section \<open>ServiceInstanceMetrics\<close>

definition ServiceInstanceMetrics_rep :: "ServiceInstanceMetrics \<Rightarrow> bool" where
  "ServiceInstanceMetrics_rep m \<longleftrightarrow> list_all KeyedServiceTransactionMetrics_rep (pbsim_ServiceTransactionMetrics m)
     \<and> list_all KeyedSpanMetrics_rep (pbsim_SpanMetrics m)"

lemma ServiceInstanceMetrics_size: "length (ServiceInstanceMetrics_MarshalToSizedBufferVT m) = ServiceInstanceMetrics_SizeVT m"
  by (simp add: ServiceInstanceMetrics_MarshalToSizedBufferVT_def ServiceInstanceMetrics_SizeVT_def wire_sizes
      put_msgs_size KeyedServiceTransactionMetrics_size KeyedSpanMetrics_size KeyedTransactionMetrics_size)

lemma ServiceInstanceMetrics_steps:
  "l < 2 ^ 63 \<Longrightarrow> size_msgs 1 KeyedTransactionMetrics_SizeVT v1 < 2 ^ 63 \<Longrightarrow> unmarshal l (ServiceInstanceMetrics_fields l) (put_msgs [0xA] KeyedTransactionMetrics_MarshalToSizedBufferVT v1 d) m
     = unmarshal l (ServiceInstanceMetrics_fields l) d (m\<lparr>pbsim_TransactionMetrics := pbsim_TransactionMetrics m @ v1\<rparr>)"
  "l < 2 ^ 63 \<Longrightarrow> list_all KeyedServiceTransactionMetrics_rep v2 \<Longrightarrow> size_msgs 1 KeyedServiceTransactionMetrics_SizeVT v2 < 2 ^ 63 \<Longrightarrow> unmarshal l (ServiceInstanceMetrics_fields l) (put_msgs [0x12] KeyedServiceTransactionMetrics_MarshalToSizedBufferVT v2 d) m
     = unmarshal l (ServiceInstanceMetrics_fields l) d (m\<lparr>pbsim_ServiceTransactionMetrics := pbsim_ServiceTransactionMetrics m @ v2\<rparr>)"
  "l < 2 ^ 63 \<Longrightarrow> list_all KeyedSpanMetrics_rep v3 \<Longrightarrow> size_msgs 1 KeyedSpanMetrics_SizeVT v3 < 2 ^ 63 \<Longrightarrow> unmarshal l (ServiceInstanceMetrics_fields l) (put_msgs [0x1A] KeyedSpanMetrics_MarshalToSizedBufferVT v3 d) m
     = unmarshal l (ServiceInstanceMetrics_fields l) d (m\<lparr>pbsim_SpanMetrics := pbsim_SpanMetrics m @ v3\<rparr>)"
  by (rule KeyedTransactionMetrics_uns KeyedServiceTransactionMetrics_uns KeyedSpanMetrics_uns;
      simp add: ServiceInstanceMetrics_fields_def tag_field_def Let_def wire_sizes; fail)+

lemma ServiceInstanceMetrics_rt:
  assumes "ServiceInstanceMetrics_rep m" and "ServiceInstanceMetrics_SizeVT m < 2 ^ 63"
  shows "ServiceInstanceMetrics_UnmarshalVT (ServiceInstanceMetrics_MarshalToSizedBufferVT m) zero_ServiceInstanceMetrics = Inr m"
  using assms unfolding ServiceInstanceMetrics_UnmarshalVT_def ServiceInstanceMetrics_size
  by (simp add: ServiceInstanceMetrics_steps ServiceInstanceMetrics_MarshalToSizedBufferVT_def zero_ServiceInstanceMetrics_def ServiceInstanceMetrics_SizeVT_def ServiceInstanceMetrics_rep_def)

lemmas ServiceInstanceMetrics_un = un_msg [OF ServiceInstanceMetrics_size ServiceInstanceMetrics_rt]

section \<open>KeyedServiceInstanceMetrics\<close>

definition KeyedServiceInstanceMetrics_rep :: "KeyedServiceInstanceMetrics \<Rightarrow> bool" where
  "KeyedServiceInstanceMetrics_rep m \<longleftrightarrow> pred_option ServiceInstanceMetrics_rep (ksim_Metrics m)"

lemma KeyedServiceInstanceMetrics_size: "length (KeyedServiceInstanceMetrics_MarshalToSizedBufferVT m) = KeyedServiceInstanceMetrics_SizeVT m"
  by (simp add: KeyedServiceInstanceMetrics_MarshalToSizedBufferVT_def KeyedServiceInstanceMetrics_SizeVT_def wire_sizes
      put_msg_size ServiceInstanceAggregationKey_size ServiceInstanceMetrics_size)

lemma KeyedServiceInstanceMetrics_steps:
  "l < 2 ^ 63 \<Longrightarrow> ksim_Key m = None \<Longrightarrow> size_msg 1 ServiceInstanceAggregationKey_SizeVT v1 < 2 ^ 63 \<Longrightarrow> unmarshal l (KeyedServiceInstanceMetrics_fields l) (put_msg [0xA] ServiceInstanceAggregationKey_MarshalToSizedBufferVT v1 d) m
     = unmarshal l (KeyedServiceInstanceMetrics_fields l) d (m\<lparr>ksim_Key := v1\<rparr>)"
  "l < 2 ^ 63 \<Longrightarrow> ksim_Metrics m = None \<Longrightarrow> pred_option ServiceInstanceMetrics_rep v2 \<Longrightarrow> size_msg 1 ServiceInstanceMetrics_SizeVT v2 < 2 ^ 63 \<Longrightarrow> unmarshal l (KeyedServiceInstanceMetrics_fields l) (put_msg [0x12] ServiceInstanceMetrics_MarshalToSizedBufferVT v2 d) m
     = unmarshal l (KeyedServiceInstanceMetrics_fields l) d (m\<lparr>ksim_Metrics := v2\<rparr>)"
  by (rule ServiceInstanceAggregationKey_un ServiceInstanceMetrics_un;
      simp add: KeyedServiceInstanceMetrics_fields_def tag_field_def Let_def wire_sizes; fail)+

lemma KeyedServiceInstanceMetrics_rt:
  assumes "KeyedServiceInstanceMetrics_rep m" and "KeyedServiceInstanceMetrics_SizeVT m < 2 ^ 63"
  shows "KeyedServiceInstanceMetrics_UnmarshalVT (KeyedServiceInstanceMetrics_MarshalToSizedBufferVT m) zero_KeyedServiceInstanceMetrics = Inr m"
  using assms unfolding KeyedServiceInstanceMetrics_UnmarshalVT_def KeyedServiceInstanceMetrics_size
  by (simp add: KeyedServiceInstanceMetrics_steps KeyedServiceInstanceMetrics_MarshalToSizedBufferVT_def zero_KeyedServiceInstanceMetrics_def KeyedServiceInstanceMetrics_SizeVT_def KeyedServiceInstanceMetrics_rep_def)

lemmas KeyedServiceInstanceMetrics_uns = un_msgs [OF KeyedServiceInstanceMetrics_size KeyedServiceInstanceMetrics_rt]

section \<open>Overflow\<close>

definition Overflow_rep :: "Overflow \<Rightarrow> bool" where
  "Overflow_rep m \<longleftrightarrow> pred_option ServiceTransactionMetrics_rep (pbo_OverflowServiceTransactions m)
     \<and> pred_option SpanMetrics_rep (pbo_OverflowSpans m)"

lemma Overflow_size: "length (Overflow_MarshalToSizedBufferVT m) = Overflow_SizeVT m"
  by (simp add: Overflow_MarshalToSizedBufferVT_def Overflow_SizeVT_def wire_sizes
      put_msg_size ServiceTransactionMetrics_size SpanMetrics_size TransactionMetrics_size)

lemma Overflow_steps:
  "l < 2 ^ 63 \<Longrightarrow> pbo_OverflowTransactions m = None \<Longrightarrow> size_msg 1 TransactionMetrics_SizeVT v1 < 2 ^ 63 \<Longrightarrow> unmarshal l (Overflow_fields l) (put_msg [0xA] TransactionMetrics_MarshalToSizedBufferVT v1 d) m
     = unmarshal l (Overflow_fields l) d (m\<lparr>pbo_OverflowTransactions := v1\<rparr>)"
  "l < 2 ^ 63 \<Longrightarrow> pbo_OverflowServiceTransactions m = None \<Longrightarrow> pred_option ServiceTransactionMetrics_rep v2 \<Longrightarrow> size_msg 1 ServiceTransactionMetrics_SizeVT v2 < 2 ^ 63 \<Longrightarrow> unmarshal l (Overflow_fields l) (put_msg [0x12] ServiceTransactionMetrics_MarshalToSizedBufferVT v2 d) m
     = unmarshal l (Overflow_fields l) d (m\<lparr>pbo_OverflowServiceTransactions := v2\<rparr>)"
  "l < 2 ^ 63 \<Longrightarrow> pbo_OverflowSpans m = None \<Longrightarrow> pred_option SpanMetrics_rep v3 \<Longrightarrow> size_msg 1 SpanMetrics_SizeVT v3 < 2 ^ 63 \<Longrightarrow> unmarshal l (Overflow_fields l) (put_msg [0x1A] SpanMetrics_MarshalToSizedBufferVT v3 d) m
     = unmarshal l (Overflow_fields l) d (m\<lparr>pbo_OverflowSpans := v3\<rparr>)"
  "l < 2 ^ 63 \<Longrightarrow> pbo_OverflowTransactionsEstimator m = [] \<Longrightarrow> size_bytes 1 (length v4) < 2 ^ 63 \<Longrightarrow> unmarshal l (Overflow_fields l) (put_bytes [0x22] v4 d) m
     = unmarshal l (Overflow_fields l) d (m\<lparr>pbo_OverflowTransactionsEstimator := v4\<rparr>)"
  "l < 2 ^ 63 \<Longrightarrow> pbo_OverflowServiceTransactionsEstimator m = [] \<Longrightarrow> size_bytes 1 (length v5) < 2 ^ 63 \<Longrightarrow> unmarshal l (Overflow_fields l) (put_bytes [0x2A] v5 d) m
     = unmarshal l (Overflow_fields l) d (m\<lparr>pbo_OverflowServiceTransactionsEstimator := v5\<rparr>)"
  "l < 2 ^ 63 \<Longrightarrow> pbo_OverflowSpansEstimator m = [] \<Longrightarrow> size_bytes 1 (length v6) < 2 ^ 63 \<Longrightarrow> unmarshal l (Overflow_fields l) (put_bytes [0x32] v6 d) m
     = unmarshal l (Overflow_fields l) d (m\<lparr>pbo_OverflowSpansEstimator := v6\<rparr>)"
  by (rule TransactionMetrics_un ServiceTransactionMetrics_un SpanMetrics_un un_raw;
      simp add: Overflow_fields_def tag_field_def Let_def wire_sizes; fail)+

lemma Overflow_rt:
  assumes "Overflow_rep m" and "Overflow_SizeVT m < 2 ^ 63"
  shows "Overflow_UnmarshalVT (Overflow_MarshalToSizedBufferVT m) zero_Overflow = Inr m"
  using assms unfolding Overflow_UnmarshalVT_def Overflow_size
  by (simp add: Overflow_steps Overflow_MarshalToSizedBufferVT_def zero_Overflow_def Overflow_SizeVT_def Overflow_rep_def)

lemmas Overflow_un = un_msg [OF Overflow_size Overflow_rt]

section \<open>ServiceMetrics\<close>

definition ServiceMetrics_rep :: "ServiceMetrics \<Rightarrow> bool" where
  "ServiceMetrics_rep m \<longleftrightarrow> list_all KeyedServiceInstanceMetrics_rep (pbsm_ServiceInstanceMetrics m)
     \<and> pred_option Overflow_rep (pbsm_OverflowGroups m)"

lemma ServiceMetrics_size: "length (ServiceMetrics_MarshalToSizedBufferVT m) = ServiceMetrics_SizeVT m"
  by (simp add: ServiceMetrics_MarshalToSizedBufferVT_def ServiceMetrics_SizeVT_def wire_sizes
      put_msg_size put_msgs_size KeyedServiceInstanceMetrics_size Overflow_size)

lemma ServiceMetrics_steps:
  "l < 2 ^ 63 \<Longrightarrow> list_all KeyedServiceInstanceMetrics_rep v1 \<Longrightarrow> size_msgs 1 KeyedServiceInstanceMetrics_SizeVT v1 < 2 ^ 63 \<Longrightarrow> unmarshal l (ServiceMetrics_fields l) (put_msgs [0xA] KeyedServiceInstanceMetrics_MarshalToSizedBufferVT v1 d) m
     = unmarshal l (ServiceMetrics_fields l) d (m\<lparr>pbsm_ServiceInstanceMetrics := pbsm_ServiceInstanceMetrics m @ v1\<rparr>)"
  "l < 2 ^ 63 \<Longrightarrow> pbsm_OverflowGroups m = None \<Longrightarrow> pred_option Overflow_rep v2 \<Longrightarrow> size_msg 1 Overflow_SizeVT v2 < 2 ^ 63 \<Longrightarrow> unmarshal l (ServiceMetrics_fields l) (put_msg [0x12] Overflow_MarshalToSizedBufferVT v2 d) m
     = unmarshal l (ServiceMetrics_fields l) d (m\<lparr>pbsm_OverflowGroups := v2\<rparr>)"
  by (rule KeyedServiceInstanceMetrics_uns Overflow_un;
      simp add: ServiceMetrics_fields_def tag_field_def Let_def wire_sizes; fail)+

lemma ServiceMetrics_rt:
  assumes "ServiceMetrics_rep m" and "ServiceMetrics_SizeVT m < 2 ^ 63"
  shows "ServiceMetrics_UnmarshalVT (ServiceMetrics_MarshalToSizedBufferVT m) zero_ServiceMetrics = Inr m"
  using assms unfolding ServiceMetrics_UnmarshalVT_def ServiceMetrics_size
  by (simp add: ServiceMetrics_steps ServiceMetrics_MarshalToSizedBufferVT_def zero_ServiceMetrics_def ServiceMetrics_SizeVT_def ServiceMetrics_rep_def)

lemmas ServiceMetrics_un = un_msg [OF ServiceMetrics_size ServiceMetrics_rt]

section \<open>KeyedServiceMetrics\<close>

definition KeyedServiceMetrics_rep :: "KeyedServiceMetrics \<Rightarrow> bool" where
  "KeyedServiceMetrics_rep m \<longleftrightarrow> pred_option ServiceMetrics_rep (ksm_Metrics m)"

lemma KeyedServiceMetrics_size: "length (KeyedServiceMetrics_MarshalToSizedBufferVT m) = KeyedServiceMetrics_SizeVT m"
  by (simp add: KeyedServiceMetrics_MarshalToSizedBufferVT_def KeyedServiceMetrics_SizeVT_def wire_sizes
      put_msg_size ServiceAggregationKey_size ServiceMetrics_size)

lemma KeyedServiceMetrics_steps:
  "l < 2 ^ 63 \<Longrightarrow> ksm_Key m = None \<Longrightarrow> size_msg 1 ServiceAggregationKey_SizeVT v1 < 2 ^ 63 \<Longrightarrow> unmarshal l (KeyedServiceMetrics_fields l) (put_msg [0xA] ServiceAggregationKey_MarshalToSizedBufferVT v1 d) m
     = unmarshal l (KeyedServiceMetrics_fields l) d (m\<lparr>ksm_Key := v1\<rparr>)"
  "l < 2 ^ 63 \<Longrightarrow> ksm_Metrics m = None \<Longrightarrow> pred_option ServiceMetrics_rep v2 \<Longrightarrow> size_msg 1 ServiceMetrics_SizeVT v2 < 2 ^ 63 \<Longrightarrow> unmarshal l (KeyedServiceMetrics_fields l) (put_msg [0x12] ServiceMetrics_MarshalToSizedBufferVT v2 d) m
     = unmarshal l (KeyedServiceMetrics_fields l) d (m\<lparr>ksm_Metrics := v2\<rparr>)"
  by (rule ServiceAggregationKey_un ServiceMetrics_un;
      simp add: KeyedServiceMetrics_fields_def tag_field_def Let_def wire_sizes; fail)+

lemma KeyedServiceMetrics_rt:
  assumes "KeyedServiceMetrics_rep m" and "KeyedServiceMetrics_SizeVT m < 2 ^ 63"
  shows "KeyedServiceMetrics_UnmarshalVT (KeyedServiceMetrics_MarshalToSizedBufferVT m) zero_KeyedServiceMetrics = Inr m"
  using assms unfolding KeyedServiceMetrics_UnmarshalVT_def KeyedServiceMetrics_size
  by (simp add: KeyedServiceMetrics_steps KeyedServiceMetrics_MarshalToSizedBufferVT_def zero_KeyedServiceMetrics_def KeyedServiceMetrics_SizeVT_def KeyedServiceMetrics_rep_def)

lemmas KeyedServiceMetrics_uns = un_msgs [OF KeyedServiceMetrics_size KeyedServiceMetrics_rt]

section \<open>CombinedMetrics\<close>

definition CombinedMetrics_rep :: "CombinedMetrics \<Rightarrow> bool" where
  "CombinedMetrics_rep m \<longleftrightarrow> list_all KeyedServiceMetrics_rep (pbcm_ServiceMetrics m)
     \<and> pred_option Overflow_rep (pbcm_OverflowServices m)
     \<and> is_f64 (pbcm_EventsTotal m)"

lemma CombinedMetrics_size: "length (CombinedMetrics_MarshalToSizedBufferVT m) = CombinedMetrics_SizeVT m"
  by (simp add: CombinedMetrics_MarshalToSizedBufferVT_def CombinedMetrics_SizeVT_def wire_sizes
      put_msg_size put_msgs_size KeyedServiceMetrics_size Overflow_size)

lemma CombinedMetrics_steps:
  "l < 2 ^ 63 \<Longrightarrow> list_all KeyedServiceMetrics_rep v1 \<Longrightarrow> size_msgs 1 KeyedServiceMetrics_SizeVT v1 < 2 ^ 63 \<Longrightarrow> unmarshal l (CombinedMetrics_fields l) (put_msgs [0xA] KeyedServiceMetrics_MarshalToSizedBufferVT v1 d) m
     = unmarshal l (CombinedMetrics_fields l) d (m\<lparr>pbcm_ServiceMetrics := pbcm_ServiceMetrics m @ v1\<rparr>)"
  "l < 2 ^ 63 \<Longrightarrow> pbcm_OverflowServices m = None \<Longrightarrow> pred_option Overflow_rep v2 \<Longrightarrow> size_msg 1 Overflow_SizeVT v2 < 2 ^ 63 \<Longrightarrow> unmarshal l (CombinedMetrics_fields l) (put_msg [0x12] Overflow_MarshalToSizedBufferVT v2 d) m
     = unmarshal l (CombinedMetrics_fields l) d (m\<lparr>pbcm_OverflowServices := v2\<rparr>)"
  "l < 2 ^ 63 \<Longrightarrow> pbcm_OverflowServiceInstancesEstimator m = [] \<Longrightarrow> size_bytes 1 (length v3) < 2 ^ 63 \<Longrightarrow> unmarshal l (CombinedMetrics_fields l) (put_bytes [0x1A] v3 d) m
     = unmarshal l (CombinedMetrics_fields l) d (m\<lparr>pbcm_OverflowServiceInstancesEstimator := v3\<rparr>)"
  "l < 2 ^ 63 \<Longrightarrow> pbcm_EventsTotal m = Fin 0 \<Longrightarrow> is_f64 v4 \<Longrightarrow> unmarshal l (CombinedMetrics_fields l) (put_double [0x21] v4 d) m
     = unmarshal l (CombinedMetrics_fields l) d (m\<lparr>pbcm_EventsTotal := v4\<rparr>)"
  "l < 2 ^ 63 \<Longrightarrow> pbcm_YoungestEventTimestamp m = 0 \<Longrightarrow> unmarshal l (CombinedMetrics_fields l) (put_varint [0x28] v5 d) m
     = unmarshal l (CombinedMetrics_fields l) d (m\<lparr>pbcm_YoungestEventTimestamp := v5\<rparr>)"
  by (rule KeyedServiceMetrics_uns Overflow_un un_raw un_double un_uint64;
      simp add: CombinedMetrics_fields_def tag_field_def Let_def wire_sizes; fail)+

lemma CombinedMetrics_rt:
  assumes "CombinedMetrics_rep m" and "CombinedMetrics_SizeVT m < 2 ^ 63"
  shows "CombinedMetrics_UnmarshalVT (CombinedMetrics_MarshalToSizedBufferVT m) zero_CombinedMetrics = Inr m"
  using assms unfolding CombinedMetrics_UnmarshalVT_def CombinedMetrics_size
  by (simp add: CombinedMetrics_steps CombinedMetrics_MarshalToSizedBufferVT_def zero_CombinedMetrics_def CombinedMetrics_SizeVT_def CombinedMetrics_rep_def)

section \<open>Label\<close>

lemma Label_size: "length (Label_MarshalToSizedBufferVT m) = Label_SizeVT m"
  by (simp add: Label_MarshalToSizedBufferVT_def Label_SizeVT_def wire_sizes
      put_msgs_size)

lemma Label_steps:
  "l < 2 ^ 63 \<Longrightarrow> lb_Key m = [] \<Longrightarrow> size_bytes 1 (length v1) < 2 ^ 63 \<Longrightarrow> unmarshal l (Label_fields l) (put_bytes [0xA] (bytes_of_string v1) d) m
     = unmarshal l (Label_fields l) d (m\<lparr>lb_Key := v1\<rparr>)"
  "l < 2 ^ 63 \<Longrightarrow> lb_Value m = [] \<Longrightarrow> size_bytes 1 (length v2) < 2 ^ 63 \<Longrightarrow> unmarshal l (Label_fields l) (put_bytes [0x12] (bytes_of_string v2) d) m
     = unmarshal l (Label_fields l) d (m\<lparr>lb_Value := v2\<rparr>)"
  "l < 2 ^ 63 \<Longrightarrow> size_msgs 1 length v3 < 2 ^ 63 \<Longrightarrow> unmarshal l (Label_fields l) (put_msgs [0x1A] bytes_of_string v3 d) m
     = unmarshal l (Label_fields l) d (m\<lparr>lb_Values := lb_Values m @ v3\<rparr>)"
  by (rule un_string un_strings;
      simp add: Label_fields_def tag_field_def Let_def wire_sizes; fail)+

lemma Label_rt:
  assumes "Label_SizeVT m < 2 ^ 63"
  shows "Label_UnmarshalVT (Label_MarshalToSizedBufferVT m) zero_Label = Inr m"
  using assms unfolding Label_UnmarshalVT_def Label_size
  by (simp add: Label_steps Label_MarshalToSizedBufferVT_def zero_Label_def Label_SizeVT_def)

lemmas Label_uns = un_plain_msgs [OF Label_size Label_rt]

section \<open>NumericLabel\<close>

definition NumericLabel_rep :: "NumericLabel \<Rightarrow> bool" where
  "NumericLabel_rep m \<longleftrightarrow> is_f64 (nl_Value m)
     \<and> list_all is_f64 (nl_Values m)"

lemma NumericLabel_size: "length (NumericLabel_MarshalToSizedBufferVT m) = NumericLabel_SizeVT m"
  by (simp add: NumericLabel_MarshalToSizedBufferVT_def NumericLabel_SizeVT_def wire_sizes)

lemma NumericLabel_steps:
  "l < 2 ^ 63 \<Longrightarrow> nl_Key m = [] \<Longrightarrow> size_bytes 1 (length v1) < 2 ^ 63 \<Longrightarrow> unmarshal l (NumericLabel_fields l) (put_bytes [0xA] (bytes_of_string v1) d) m
     = unmarshal l (NumericLabel_fields l) d (m\<lparr>nl_Key := v1\<rparr>)"
  "l < 2 ^ 63 \<Longrightarrow> nl_Value m = Fin 0 \<Longrightarrow> is_f64 v2 \<Longrightarrow> unmarshal l (NumericLabel_fields l) (put_double [0x11] v2 d) m
     = unmarshal l (NumericLabel_fields l) d (m\<lparr>nl_Value := v2\<rparr>)"
  "l < 2 ^ 63 \<Longrightarrow> list_all is_f64 v3 \<Longrightarrow> size_packed_double 1 v3 < 2 ^ 63 \<Longrightarrow> unmarshal l (NumericLabel_fields l) (put_packed_double [0x1A] v3 d) m
     = unmarshal l (NumericLabel_fields l) d (m\<lparr>nl_Values := nl_Values m @ v3\<rparr>)"
  by (rule un_string un_double un_packed_double;
      simp add: NumericLabel_fields_def tag_field_def Let_def wire_sizes; fail)+

lemma NumericLabel_rt:
  assumes "NumericLabel_rep m" and "NumericLabel_SizeVT m < 2 ^ 63"
  shows "NumericLabel_UnmarshalVT (NumericLabel_MarshalToSizedBufferVT m) zero_NumericLabel = Inr m"
  using assms unfolding NumericLabel_UnmarshalVT_def NumericLabel_size
  by (simp add: NumericLabel_steps NumericLabel_MarshalToSizedBufferVT_def zero_NumericLabel_def NumericLabel_SizeVT_def NumericLabel_rep_def)

lemmas NumericLabel_uns = un_msgs [OF NumericLabel_size NumericLabel_rt]

section \<open>GlobalLabels\<close>

definition GlobalLabels_rep :: "GlobalLabels \<Rightarrow> bool" where
  "GlobalLabels_rep m \<longleftrightarrow> list_all NumericLabel_rep (gl_NumericLabels m)"

lemma GlobalLabels_size: "length (GlobalLabels_MarshalToSizedBufferVT m) = GlobalLabels_SizeVT m"
  by (simp add: GlobalLabels_MarshalToSizedBufferVT_def GlobalLabels_SizeVT_def wire_sizes
      put_msgs_size Label_size NumericLabel_size)

lemma GlobalLabels_steps:
  "l < 2 ^ 63 \<Longrightarrow> size_msgs 1 Label_SizeVT v1 < 2 ^ 63 \<Longrightarrow> unmarshal l (GlobalLabels_fields l) (put_msgs [0xA] Label_MarshalToSizedBufferVT v1 d) m
     = unmarshal l (GlobalLabels_fields l) d (m\<lparr>gl_Labels := gl_Labels m @ v1\<rparr>)"
  "l < 2 ^ 63 \<Longrightarrow> list_all NumericLabel_rep v2 \<Longrightarrow> size_msgs 1 NumericLabel_SizeVT v2 < 2 ^ 63 \<Longrightarrow> unmarshal l (GlobalLabels_fields l) (put_msgs [0x12] NumericLabel_MarshalToSizedBufferVT v2 d) m
     = unmarshal l (GlobalLabels_fields l) d (m\<lparr>gl_NumericLabels := gl_NumericLabels m @ v2\<rparr>)"
  by (rule Label_uns NumericLabel_uns;
      simp add: GlobalLabels_fields_def tag_field_def Let_def wire_sizes; fail)+

lemma GlobalLabels_rt:
  assumes "GlobalLabels_rep m" and "GlobalLabels_SizeVT m < 2 ^ 63"
  shows "GlobalLabels_UnmarshalVT (GlobalLabels_MarshalToSizedBufferVT m) zero_GlobalLabels = Inr m"
  using assms unfolding GlobalLabels_UnmarshalVT_def GlobalLabels_size
  by (simp add: GlobalLabels_steps GlobalLabels_MarshalToSizedBufferVT_def zero_GlobalLabels_def GlobalLabels_SizeVT_def GlobalLabels_rep_def)

end
