(* ===== verification/GlobalLabels.thy ===== *)
theory GlobalLabels
  imports ModelPB VtprotoRT "HOL-Library.List_Lexorder" "HOL-Library.Char_ord"
begin

text \<open>
  Global labels: \<^verbatim>\<open>GlobalLabels\<close> of \<^verbatim>\<open>aggregators/models.go\<close> and \<^verbatim>\<open>aggregators/codec.go\<close>, and
  \<^verbatim>\<open>marshalEventGlobalLabels\<close> of \<^verbatim>\<open>aggregators/converter.go\<close>. Their encoding is the key of a
  service instance, so it has to depend on the labels alone and not on the order in which a map is
  visited. Go compares strings byte by byte, the lexicographic order of \<open>List_Lexorder\<close>; the keys of
  a map are distinct, so every sorting function gives the list that \<^const>\<open>sort_key\<close> gives.
\<close>

record globalLabels =
  gls_Labels :: "(string, LabelValue) gomap option"
  gls_NumericLabels :: "(string, NumericLabelValue) gomap option"

text \<open>Ranging over a nil map visits nothing.\<close>

definition entries :: "('k, 'v) gomap option \<Rightarrow> ('k, 'v) gomap" where
  "entries m = (case m of None \<Rightarrow> [] | Some m \<Rightarrow> m)"

definition label_msg :: "string \<times> LabelValue \<Rightarrow> Label" where
  "label_msg kv = \<lparr>lb_Key = fst kv, lb_Value = lv_Value (snd kv), lb_Values = lv_Values (snd kv)\<rparr>"

definition numeric_label_msg :: "string \<times> NumericLabelValue \<Rightarrow> NumericLabel" where
  "numeric_label_msg kv = \<lparr>nl_Key = fst kv, nl_Value = nlv_Value (snd kv), nl_Values = nlv_Values (snd kv)\<rparr>"

definition GlobalLabels_ToProto :: "globalLabels \<Rightarrow> GlobalLabels" where
  "GlobalLabels_ToProto gl =
     \<lparr>gl_Labels = sort_key lb_Key (map label_msg (entries (gls_Labels gl))),
      gl_NumericLabels = sort_key nl_Key (map numeric_label_msg (entries (gls_NumericLabels gl)))\<rparr>"

definition GlobalLabels_FromProto :: "GlobalLabels \<Rightarrow> globalLabels" where
  "GlobalLabels_FromProto pb =
     \<lparr>gls_Labels = Some (fold (\<lambda>l m. gm_put m (lb_Key l)
        \<lparr>lv_Value = lb_Value l, lv_Values = lb_Values l, lv_Global = True\<rparr>) (gl_Labels pb) []),
      gls_NumericLabels = Some (fold (\<lambda>l m. gm_put m (nl_Key l)
        \<lparr>nlv_Value = nl_Value l, nlv_Values = nl_Values l, nlv_Global = True\<rparr>) (gl_NumericLabels pb) [])\<rparr>"

definition GlobalLabels_MarshalBinary :: "globalLabels \<Rightarrow> bytes option" where
  "GlobalLabels_MarshalBinary gl =
     (if gls_Labels gl = None \<and> gls_NumericLabels gl = None then Some []
      else MarshalVT GlobalLabels_SizeVT GlobalLabels_MarshalToSizedBufferVT (GlobalLabels_ToProto gl))"

definition GlobalLabels_MarshalString :: "globalLabels \<Rightarrow> string option" where
  "GlobalLabels_MarshalString gl = map_option string_of_bytes (GlobalLabels_MarshalBinary gl)"

definition GlobalLabels_UnmarshalBinary :: "bytes \<Rightarrow> wire_error + globalLabels" where
  "GlobalLabels_UnmarshalBinary data =
     (if length data = 0 then Inr \<lparr>gls_Labels = None, gls_NumericLabels = None\<rparr>
      else case GlobalLabels_UnmarshalVT data zero_GlobalLabels of
             Inl e \<Rightarrow> Inl e
           | Inr pb \<Rightarrow> Inr (GlobalLabels_FromProto pb))"

definition GlobalLabels_UnmarshalString :: "string \<Rightarrow> wire_error + globalLabels" where
  "GlobalLabels_UnmarshalString data = GlobalLabels_UnmarshalBinary (bytes_of_string data)"

definition marshalEventGlobalLabels :: "APMEvent \<Rightarrow> bytes option" where
  "marshalEventGlobalLabels e =
     (if entries (ae_Labels e) = [] \<and> entries (ae_NumericLabels e) = [] then Some []
      else let labels = map label_msg (filter (lv_Global \<circ> snd) (entries (ae_Labels e)));
               numerics = map numeric_label_msg (filter (nlv_Global \<circ> snd) (entries (ae_NumericLabels e)))
           in if labels = [] \<and> numerics = [] then Some []
              else MarshalVT GlobalLabels_SizeVT GlobalLabels_MarshalToSizedBufferVT
                     \<lparr>gl_Labels = sort_key lb_Key labels, gl_NumericLabels = sort_key nl_Key numerics\<rparr>)"

section \<open>Lemmas\<close>

lemma MarshalVT_GlobalLabels [simp]:
  "MarshalVT GlobalLabels_SizeVT GlobalLabels_MarshalToSizedBufferVT x = Some (GlobalLabels_MarshalToSizedBufferVT x)"
  by (rule MarshalVT_exact [where sz = GlobalLabels_SizeVT, OF GlobalLabels_size])

text \<open>Filling a map from a list of distinct keys.\<close>

lemma map_of_fold_put:
  "gm_get (fold (\<lambda>x m. gm_put m (f x) (g x)) xs m) k
     = (case gm_get (map (\<lambda>x. (f x, g x)) (rev xs)) k of None \<Rightarrow> gm_get m k | Some v \<Rightarrow> Some v)"
  by (induction xs arbitrary: m) (auto simp: gomap_simps map_of_append split: option.splits)

lemma map_of_fold_distinct:
  assumes "distinct (map f xs)"
  shows "gm_get (fold (\<lambda>x m. gm_put m (f x) (g x)) xs []) = gm_get (map (\<lambda>x. (f x, g x)) xs)"
proof -
  have "gm_get (map (\<lambda>x. (f x, g x)) (rev xs)) = gm_get (map (\<lambda>x. (f x, g x)) xs)"
    using assms by (subst map_of_inject_set) (simp_all add: comp_def distinct_rev flip: rev_map)
  then show ?thesis by (intro ext) (simp add: map_of_fold_put split: option.splits)
qed

text \<open>Sorting by the keys: only the contents of the map matter, not the order in which it was visited.\<close>

lemma sort_key_perm:
  assumes "distinct (map f xs)" and "distinct (map f ys)" and "set xs = set ys"
  shows "sort_key f xs = sort_key f ys"
proof -
  have d: "distinct (map f (sort_key f zs))" if "distinct (map f zs)" for zs
    using that by (simp add: distinct_map)
  have "map f (sort_key f xs) = map f (sort_key f ys)"
    using assms by (intro sorted_distinct_set_unique d) simp_all
  moreover have "inj_on f (set (sort_key f xs) \<union> set (sort_key f ys))" using assms by (simp add: distinct_map)
  ultimately show ?thesis by (metis map_inj_on)
qed

lemma sort_key_eq_Nil: "sort_key f xs = [] \<longleftrightarrow> xs = []"
  by (metis length_0_conv length_sort)

section \<open>Labels of an event\<close>

definition event_labels :: "APMEvent \<Rightarrow> (string, LabelValue) gomap" where
  "event_labels e = filter (lv_Global \<circ> snd) (entries (ae_Labels e))"

definition event_numeric_labels :: "APMEvent \<Rightarrow> (string, NumericLabelValue) gomap" where
  "event_numeric_labels e = filter (nlv_Global \<circ> snd) (entries (ae_NumericLabels e))"

definition event_labels_msg :: "APMEvent \<Rightarrow> GlobalLabels" where
  "event_labels_msg e =
     \<lparr>gl_Labels = sort_key lb_Key (map label_msg (event_labels e)),
      gl_NumericLabels = sort_key nl_Key (map numeric_label_msg (event_numeric_labels e))\<rparr>"

text \<open>Maps with distinct keys, binary64 label values, and an encoding that fits a byte slice.\<close>

definition labels_ok :: "APMEvent \<Rightarrow> bool" where
  "labels_ok e \<longleftrightarrow> gm_ok (entries (ae_Labels e)) \<and> gm_ok (entries (ae_NumericLabels e))
     \<and> GlobalLabels_rep (event_labels_msg e) \<and> GlobalLabels_SizeVT (event_labels_msg e) < 2 ^ 63"

lemma marshalEventGlobalLabels_eq:
  "marshalEventGlobalLabels e =
     Some (if event_labels e = [] \<and> event_numeric_labels e = [] then []
           else GlobalLabels_MarshalToSizedBufferVT (event_labels_msg e))"
  by (auto simp: marshalEventGlobalLabels_def event_labels_def event_numeric_labels_def event_labels_msg_def Let_def)

lemma GlobalLabels_empty_iff:
  "GlobalLabels_MarshalToSizedBufferVT m = [] \<longleftrightarrow> gl_Labels m = [] \<and> gl_NumericLabels m = []"
  by (cases "gl_Labels m"; cases "gl_NumericLabels m")
    (simp_all add: GlobalLabels_MarshalToSizedBufferVT_def put_msgs_def)

lemma label_keys: "lb_Key \<circ> label_msg = fst" "nl_Key \<circ> numeric_label_msg = fst"
  by (auto simp: label_msg_def numeric_label_msg_def)

lemma distinct_event_labels:
  assumes "labels_ok e"
  shows "distinct (map fst (event_labels e))" and "distinct (map fst (event_numeric_labels e))"
  using assms by (auto simp: labels_ok_def gm_ok_def event_labels_def event_numeric_labels_def distinct_map_filter)

lemma distinct_sorted_labels:
  assumes "labels_ok e"
  shows "distinct (map lb_Key (gl_Labels (event_labels_msg e)))"
    and "distinct (map nl_Key (gl_NumericLabels (event_labels_msg e)))"
  using distinct_event_labels [OF assms]
  by (auto simp: event_labels_msg_def distinct_map inj_on_def label_msg_def numeric_label_msg_def)

text \<open>Decoding the labels of an event gives back the global ones, and nothing else.\<close>

lemma FromProto_event_labels:
  assumes "labels_ok e"
  shows "gm_get (entries (gls_Labels (GlobalLabels_FromProto (event_labels_msg e)))) = gm_get (event_labels e)"
    and "gm_get (entries (gls_NumericLabels (GlobalLabels_FromProto (event_labels_msg e)))) = gm_get (event_numeric_labels e)"
proof -
  let ?m = "event_labels_msg e"
  have *: "(fst kv, \<lparr>lv_Value = lv_Value (snd kv), lv_Values = lv_Values (snd kv), lv_Global = True\<rparr>) = kv"
    if "kv \<in> set (event_labels e)" for kv
    using that by (cases "snd kv"; cases kv rule: prod.exhaust) (auto simp: event_labels_def)
  have **: "(fst kv, \<lparr>nlv_Value = nlv_Value (snd kv), nlv_Values = nlv_Values (snd kv), nlv_Global = True\<rparr>) = kv"
    if "kv \<in> set (event_numeric_labels e)" for kv
    using that by (cases "snd kv"; cases kv rule: prod.exhaust) (auto simp: event_numeric_labels_def)
  have "gm_get (map (\<lambda>l. (lb_Key l, \<lparr>lv_Value = lb_Value l, lv_Values = lb_Values l, lv_Global = True\<rparr>)) (gl_Labels ?m))
      = gm_get (event_labels e)"
    using distinct_event_labels(1) [OF assms] distinct_sorted_labels(1) [OF assms]
    by (subst map_of_inject_set)
      (simp_all add: comp_def event_labels_msg_def label_msg_def image_image * cong: image_cong)
  moreover have "gm_get (map (\<lambda>l. (nl_Key l, \<lparr>nlv_Value = nl_Value l, nlv_Values = nl_Values l, nlv_Global = True\<rparr>)) (gl_NumericLabels ?m))
      = gm_get (event_numeric_labels e)"
    using distinct_event_labels(2) [OF assms] distinct_sorted_labels(2) [OF assms]
    by (subst map_of_inject_set)
      (simp_all add: comp_def event_labels_msg_def numeric_label_msg_def image_image ** cong: image_cong)
  ultimately show "gm_get (entries (gls_Labels (GlobalLabels_FromProto ?m))) = gm_get (event_labels e)"
    and "gm_get (entries (gls_NumericLabels (GlobalLabels_FromProto ?m))) = gm_get (event_numeric_labels e)"
    using distinct_sorted_labels [OF assms]
    by (simp_all add: GlobalLabels_FromProto_def entries_def map_of_fold_distinct)
qed

lemma UnmarshalBinary_event_labels:
  assumes "labels_ok e"
  obtains bs gl where "marshalEventGlobalLabels e = Some bs" and "GlobalLabels_UnmarshalBinary bs = Inr gl"
    and "gm_get (entries (gls_Labels gl)) = gm_get (event_labels e)"
    and "gm_get (entries (gls_NumericLabels gl)) = gm_get (event_numeric_labels e)"
proof (cases "event_labels e = [] \<and> event_numeric_labels e = []")
  case True
  show ?thesis
    by (rule that [of "[]" "\<lparr>gls_Labels = None, gls_NumericLabels = None\<rparr>"])
      (use True in \<open>simp_all add: marshalEventGlobalLabels_eq GlobalLabels_UnmarshalBinary_def entries_def\<close>)
next
  case False
  let ?m = "event_labels_msg e"
  have "GlobalLabels_UnmarshalVT (GlobalLabels_MarshalToSizedBufferVT ?m) zero_GlobalLabels = Inr ?m"
    using assms by (intro GlobalLabels_rt) (simp_all add: labels_ok_def)
  moreover have "GlobalLabels_MarshalToSizedBufferVT ?m \<noteq> []"
    using False by (auto simp: GlobalLabels_empty_iff event_labels_msg_def sort_key_eq_Nil)
  ultimately have "GlobalLabels_UnmarshalBinary (GlobalLabels_MarshalToSizedBufferVT ?m) = Inr (GlobalLabels_FromProto ?m)"
    by (simp add: GlobalLabels_UnmarshalBinary_def)
  then show ?thesis
    using False by (intro that [OF _ _ FromProto_event_labels [OF assms]]) (auto simp: marshalEventGlobalLabels_eq)
qed

end
