(* ===== verification/CountsRep.thy ===== *)
theory CountsRep
  imports Prelude
begin

text \<open>
  The sparse counts representation of \<^verbatim>\<open>aggregators/internal/hdrhistogram\<close>
  (\<^verbatim>\<open>HybridCountsRep\<close>): one bar held inline, promoted to a slice of bars sorted by bucket
  when a second bar arrives. The nil slice is \<^term>\<open>None\<close>. The interface \<open>counts_adt\<close> states
  what its clients use: a histogram is a function from buckets to 64-bit counts.
\<close>

section \<open>Data and operations\<close>

record bar =
  Bucket :: int32
  Count :: int64

record HybridCountsRep =
  hc_bucket :: int32
  hc_value :: int64
  hc_s :: "bar list option"

definition hc_zero :: HybridCountsRep where
  "hc_zero = \<lparr>hc_bucket = 0, hc_value = 0, hc_s = None\<rparr>"

definition compareBar :: "bar \<Rightarrow> bar \<Rightarrow> int" where
  "compareBar a b =
     (if Bucket a = Bucket b then 0 else if sint (Bucket a) > sint (Bucket b) then 1 else - 1)"

definition slices_Insert :: "'a list \<Rightarrow> nat \<Rightarrow> 'a \<Rightarrow> 'a list" where
  "slices_Insert xs i x = take i xs @ x # drop i xs"

definition hc_Add :: "HybridCountsRep \<Rightarrow> int32 \<Rightarrow> int64 \<Rightarrow> HybridCountsRep" where
  "hc_Add c bucket val =
     (if hc_s c = None \<and> hc_bucket c = 0 \<and> hc_value c = 0
      then c\<lparr>hc_bucket := bucket, hc_value := val\<rparr>
      else
        let (c', s) =
              (case hc_s c of
                 None \<Rightarrow> (c\<lparr>hc_bucket := 0, hc_value := 0\<rparr>,
                          slices_Insert [] 0 \<lparr>Bucket = hc_bucket c, Count = hc_value c\<rparr>)
               | Some s \<Rightarrow> (c, s));
            (pos, found) = BinarySearchFunc s \<lparr>Bucket = bucket, Count = 0\<rparr> compareBar
        in if found
           then c'\<lparr>hc_s := Some (s[pos := (s ! pos)\<lparr>Count := Count (s ! pos) + val\<rparr>])\<rparr>
           else c'\<lparr>hc_s := Some (slices_Insert s pos \<lparr>Bucket = bucket, Count = val\<rparr>)\<rparr>)"

text \<open>\<^verbatim>\<open>ForEach\<close>: the callback transforms a state; the bars are visited in slice order.\<close>

definition hc_ForEach :: "(int32 \<Rightarrow> int64 \<Rightarrow> 'a \<Rightarrow> 'a) \<Rightarrow> HybridCountsRep \<Rightarrow> 'a \<Rightarrow> 'a" where
  "hc_ForEach f c st =
     (if hc_s c = None \<and> (hc_bucket c \<noteq> 0 \<or> hc_value c \<noteq> 0)
      then f (hc_bucket c) (hc_value c) st
      else fold (\<lambda>b. f (Bucket b) (Count b)) (case hc_s c of None \<Rightarrow> [] | Some s \<Rightarrow> s) st)"

definition hc_Len :: "HybridCountsRep \<Rightarrow> nat" where
  "hc_Len c =
     (case hc_s c of
        Some s \<Rightarrow> length s
      | None \<Rightarrow> if hc_bucket c \<noteq> 0 \<or> hc_value c \<noteq> 0 then 1 else 0)"

definition hc_Get :: "HybridCountsRep \<Rightarrow> int32 \<Rightarrow> int64 \<times> bool" where
  "hc_Get c bucket =
     (case hc_s c of
        None \<Rightarrow> if hc_bucket c = bucket then (hc_value c, True) else (0, False)
      | Some s \<Rightarrow>
          let (pos, found) = BinarySearchFunc s \<lparr>Bucket = bucket, Count = 0\<rparr> compareBar
          in if found then (Count (s ! pos), True) else (0, False))"

definition hc_Reset :: "HybridCountsRep \<Rightarrow> HybridCountsRep" where
  "hc_Reset c =
     c\<lparr>hc_bucket := 0, hc_value := 0, hc_s := map_option (take 0) (hc_s c)\<rparr>"

definition hc_Equal :: "HybridCountsRep \<Rightarrow> HybridCountsRep \<Rightarrow> bool" where
  "hc_Equal c h =
     (if hc_Len c \<noteq> hc_Len h then False
      else if hc_Len c = 0 then True
      else hc_ForEach
             (\<lambda>bucket value1 equal.
                let (value2, ok) = hc_Get h bucket
                in if \<not> ok \<or> value1 \<noteq> value2 then False else equal)
             c True)"

section \<open>Invariant and abstraction\<close>

definition hc_bars :: "HybridCountsRep \<Rightarrow> bar list" where
  "hc_bars c =
     (case hc_s c of
        Some s \<Rightarrow> s
      | None \<Rightarrow> if hc_bucket c \<noteq> 0 \<or> hc_value c \<noteq> 0
               then [\<lparr>Bucket = hc_bucket c, Count = hc_value c\<rparr>] else [])"

abbreviation buckets_of :: "bar list \<Rightarrow> int list" where
  "buckets_of bs \<equiv> map (\<lambda>b. sint (Bucket b)) bs"

definition bars_ok :: "bar list \<Rightarrow> bool" where
  "bars_ok bs \<longleftrightarrow> sorted_wrt (<) (buckets_of bs)"

definition hc_ok :: "HybridCountsRep \<Rightarrow> bool" where
  "hc_ok c \<longleftrightarrow> (\<forall>s. hc_s c = Some s \<longrightarrow> hc_bucket c = 0 \<and> hc_value c = 0 \<and> bars_ok s)"

definition bars_count :: "bar list \<Rightarrow> int32 \<Rightarrow> int64" where
  "bars_count bs bucket = sum_list (map Count (filter (\<lambda>b. Bucket b = bucket) bs))"

definition hc_count :: "HybridCountsRep \<Rightarrow> int32 \<Rightarrow> int64" where
  "hc_count c = bars_count (hc_bars c)"

lemma hc_bars_ok: "hc_ok c \<Longrightarrow> bars_ok (hc_bars c)"
  by (auto simp: hc_ok_def hc_bars_def bars_ok_def split: option.splits)

lemma hc_ok_zero [simp]: "hc_ok hc_zero"
  by (simp add: hc_ok_def hc_zero_def)

lemma hc_bars_zero [simp]: "hc_bars hc_zero = []"
  by (simp add: hc_bars_def hc_zero_def)

lemma hc_ForEach_bars: "hc_ForEach f c st = fold (\<lambda>b. f (Bucket b) (Count b)) (hc_bars c) st"
  by (auto simp: hc_ForEach_def hc_bars_def split: option.splits)

lemma hc_Len_bars: "hc_Len c = length (hc_bars c)"
  by (auto simp: hc_Len_def hc_bars_def split: option.splits)

lemma hc_bars_Reset [simp]: "hc_bars (hc_Reset c) = []"
  by (auto simp: hc_bars_def hc_Reset_def split: option.splits)

lemma hc_ok_Reset [simp]: "hc_ok (hc_Reset c)"
  by (auto simp: hc_ok_def hc_Reset_def bars_ok_def)

section \<open>Searching sorted bars\<close>

lemma bars_ok_sorted: "bars_ok bs \<Longrightarrow> sorted (buckets_of bs)"
  unfolding bars_ok_def by (rule strict_sorted_imp_sorted)

lemma bars_ok_distinct: "bars_ok bs \<Longrightarrow> distinct (map Bucket bs)"
  unfolding bars_ok_def
  by (induction bs) (auto dest: strict_sorted_imp_sorted)

lemma bars_count_Nil [simp]: "bars_count [] b = 0"
  by (simp add: bars_count_def)

lemma bars_count_Cons:
  "bars_count (x # bs) b = (if Bucket x = b then Count x else 0) + bars_count bs b"
  by (simp add: bars_count_def)

lemma bars_count_append: "bars_count (xs @ ys) b = bars_count xs b + bars_count ys b"
  by (simp add: bars_count_def)

lemma bars_count_notin: "b \<notin> Bucket ` set bs \<Longrightarrow> bars_count bs b = 0"
  by (induction bs) (auto simp: bars_count_Cons)

lemma bars_count_nth:
  "distinct (map Bucket bs) \<Longrightarrow> i < length bs \<Longrightarrow> bars_count bs (Bucket (bs ! i)) = Count (bs ! i)"
proof (induction bs arbitrary: i)
  case (Cons x bs)
  then show ?case
    by (cases i) (force simp: bars_count_Cons bars_count_notin)+
qed simp

text \<open>Where the search of a sorted slice ends, and what it reports.\<close>

definition bar_point :: "bar list \<Rightarrow> int32 \<Rightarrow> nat" where
  "bar_point bs bucket = lower_point (buckets_of bs) (sint bucket)"

lemma BinarySearchFunc_bars:
  assumes "bars_ok bs"
  shows "BinarySearchFunc bs \<lparr>Bucket = bucket, Count = 0\<rparr> compareBar =
     (bar_point bs bucket,
      bar_point bs bucket < length bs \<and> Bucket (bs ! bar_point bs bucket) = bucket)"
proof -
  have "bsearch (\<lambda>h. compareBar (bs ! h) \<lparr>Bucket = bucket, Count = 0\<rparr> < 0) 0 (length bs)
      = bar_point bs bucket"
    unfolding bar_point_def
  proof (rule bsearch_sorted [OF bars_ok_sorted [OF assms]])
    fix h
    show "compareBar (bs ! h) \<lparr>Bucket = bucket, Count = 0\<rparr> < 0 \<longleftrightarrow> sint (Bucket (bs ! h)) < sint bucket"
      by (auto simp: compareBar_def intro: sint_less_total)
  qed
  then show ?thesis
    by (auto simp: BinarySearchFunc_def Let_def compareBar_def)
qed

lemma bar_point_less:
  assumes "bars_ok bs" and "h < length bs"
  shows "sint (Bucket (bs ! h)) < sint bucket \<longleftrightarrow> h < bar_point bs bucket"
  using lower_point_nth [OF bars_ok_sorted [OF assms(1)], of h "sint bucket"] assms(2)
  by (simp add: bar_point_def)

lemma bar_point_le [simp]: "bar_point bs bucket \<le> length bs"
  using lower_point_le [of "buckets_of bs" "sint bucket"] by (simp add: bar_point_def)

lemma bar_point_found:
  assumes ok: "bars_ok bs"
  shows "bar_point bs b < length bs \<and> Bucket (bs ! bar_point bs b) = b \<longleftrightarrow> b \<in> Bucket ` set bs"
proof
  assume "bar_point bs b < length bs \<and> Bucket (bs ! bar_point bs b) = b"
  then have "bs ! bar_point bs b \<in> set bs" and "Bucket (bs ! bar_point bs b) = b" by auto
  then show "b \<in> Bucket ` set bs" by (metis imageI)
next
  assume "b \<in> Bucket ` set bs"
  then obtain i where i: "i < length bs" "Bucket (bs ! i) = b"
    by (auto simp: in_set_conv_nth)
  have "\<not> i < bar_point bs b" using bar_point_less [OF ok i(1), of b] i(2) by simp
  moreover have "\<not> bar_point bs b < i"
  proof
    assume lt: "bar_point bs b < i"
    then have "sint (Bucket (bs ! bar_point bs b)) < sint (Bucket (bs ! i))"
      using ok i(1) by (auto simp: bars_ok_def sorted_wrt_iff_nth_less)
    then show False using bar_point_less [OF ok, of "bar_point bs b" b] lt i by simp
  qed
  ultimately have "bar_point bs b = i" by simp
  with i show "bar_point bs b < length bs \<and> Bucket (bs ! bar_point bs b) = b" by simp
qed

text \<open>Inserting at the reported point keeps the slice strictly sorted.\<close>

lemma bars_ok_insert:
  assumes ok: "bars_ok bs" and new: "b \<notin> Bucket ` set bs"
  shows "bars_ok (slices_Insert bs (bar_point bs b) \<lparr>Bucket = b, Count = v\<rparr>)"
proof -
  let ?k = "bar_point bs b"
  have left: "sint (Bucket x) < sint b" if "x \<in> set (take ?k bs)" for x
  proof -
    from that obtain i where i: "i < ?k" "x = bs ! i"
      by (auto simp: in_set_conv_nth)
    then have "i < length bs" using bar_point_le [of bs b] by (meson less_le_trans)
    then show ?thesis using bar_point_less [OF ok, of i b] i by simp
  qed
  have right: "sint b < sint (Bucket x)" if "x \<in> set (drop ?k bs)" for x
  proof -
    from that obtain i where i: "i < length bs - ?k" "x = bs ! (?k + i)"
      by (auto simp: in_set_conv_nth)
    then have "\<not> sint (Bucket x) < sint b" using bar_point_less [OF ok, of "?k + i" b] by simp
    moreover have "Bucket x \<noteq> b" using new that by (auto dest: in_set_dropD)
    ultimately show ?thesis by (intro sint_less_total)
  qed
  have "sorted_wrt (<) (buckets_of (take ?k bs) @ buckets_of (drop ?k bs))"
    using ok by (simp add: bars_ok_def flip: map_append)
  then show ?thesis
    using left right by (auto simp: bars_ok_def slices_Insert_def sorted_wrt_append)
qed

lemma bars_count_insert:
  "bars_count (slices_Insert bs k x) b = (if Bucket x = b then Count x else 0) + bars_count bs b"
  using bars_count_append [of "take k bs" "drop k bs" b]
  by (simp add: slices_Insert_def bars_count_append bars_count_Cons)

lemma bars_ok_update: "bars_ok bs \<Longrightarrow> bars_ok (bs[i := (bs ! i)\<lparr>Count := n\<rparr>])"
proof -
  have "buckets_of (bs[i := (bs ! i)\<lparr>Count := n\<rparr>]) = buckets_of bs"
    by (cases "i < length bs") (simp_all add: map_update list_update_beyond list_update_same_conv)
  then show "bars_ok bs \<Longrightarrow> ?thesis" by (simp add: bars_ok_def)
qed

lemma bars_count_update:
  assumes "i < length bs"
  shows "bars_count (bs[i := (bs ! i)\<lparr>Count := Count (bs ! i) + v\<rparr>]) b =
     (if Bucket (bs ! i) = b then v else 0) + bars_count bs b"
proof -
  have "bs = take i bs @ bs ! i # drop (Suc i) bs" by (rule id_take_nth_drop [OF assms])
  then have "bars_count bs b = bars_count (take i bs @ bs ! i # drop (Suc i) bs) b" by simp
  then show ?thesis
    using assms
    by (simp add: upd_conv_take_nth_drop bars_count_append bars_count_Cons algebra_simps)
qed

section \<open>Correctness of the operations\<close>

text \<open>The slice \<^verbatim>\<open>Add\<close> works on, after the promotion of an inline bar.\<close>

lemma hc_Add_slice:
  assumes "hc_ok c" and "hc_bars c \<noteq> [] \<or> hc_s c \<noteq> None"
  shows "hc_Add c b v =
    \<lparr>hc_bucket = 0, hc_value = 0,
     hc_s = Some (let s = hc_bars c; k = bar_point s b
                  in if b \<in> Bucket ` set s
                     then s[k := (s ! k)\<lparr>Count := Count (s ! k) + v\<rparr>]
                     else slices_Insert s k \<lparr>Bucket = b, Count = v\<rparr>)\<rparr>"
proof (cases "hc_s c")
  case None
  then have ne: "hc_bucket c \<noteq> 0 \<or> hc_value c \<noteq> 0"
    and bars: "hc_bars c = [\<lparr>Bucket = hc_bucket c, Count = hc_value c\<rparr>]"
    using assms(2) by (auto simp: hc_bars_def split: if_splits)
  have ok: "bars_ok (hc_bars c)" using assms(1) by (rule hc_bars_ok)
  have ins: "slices_Insert [] 0 \<lparr>Bucket = hc_bucket c, Count = hc_value c\<rparr> = hc_bars c"
    by (simp add: bars slices_Insert_def)
  have guard: "(hc_s c = None \<and> hc_bucket c = 0 \<and> hc_value c = 0) = False" using ne by auto
  show ?thesis
    by (simp only: hc_Add_def guard if_False None option.case ins prod.case Let_def
        BinarySearchFunc_bars [OF ok] bar_point_found [OF ok]) (use ne in auto)
next
  case (Some s)
  then have bars: "hc_bars c = s" by (simp add: hc_bars_def)
  have ok: "bars_ok s" using hc_bars_ok [OF assms(1)] by (simp add: bars)
  have "hc_bucket c = 0" "hc_value c = 0" using assms(1) Some by (auto simp: hc_ok_def)
  then have c: "c = \<lparr>hc_bucket = 0, hc_value = 0, hc_s = Some s\<rparr>" using Some by simp
  have guard: "(hc_s c = None \<and> hc_bucket c = 0 \<and> hc_value c = 0) = False" using Some by auto
  show ?thesis
    by (simp only: hc_Add_def guard if_False Some option.case bars prod.case Let_def
        BinarySearchFunc_bars [OF ok] bar_point_found [OF ok]) (simp add: c)
qed

lemma hc_Add_first:
  assumes "hc_bars c = []" and "hc_s c = None"
  shows "hc_Add c b v = \<lparr>hc_bucket = b, hc_value = v, hc_s = None\<rparr>"
  using assms by (cases c) (auto simp: hc_bars_def hc_Add_def split: if_splits)

lemma hc_ok_Add [simp]:
  assumes "hc_ok c"
  shows "hc_ok (hc_Add c b v)"
proof (cases "hc_bars c \<noteq> [] \<or> hc_s c \<noteq> None")
  case True
  then show ?thesis
    using hc_bars_ok [OF assms]
    by (auto simp: hc_Add_slice [OF assms] hc_ok_def Let_def intro: bars_ok_insert bars_ok_update)
next
  case False
  then show ?thesis by (simp add: hc_Add_first hc_ok_def)
qed

lemma hc_count_Add:
  assumes "hc_ok c"
  shows "hc_count (hc_Add c b v) = (hc_count c)(b := hc_count c b + v)"
proof
  fix b'
  have ok: "bars_ok (hc_bars c)" using assms by (rule hc_bars_ok)
  show "hc_count (hc_Add c b v) b' = ((hc_count c)(b := hc_count c b + v)) b'"
  proof (cases "hc_bars c \<noteq> [] \<or> hc_s c \<noteq> None")
    case True
    show ?thesis
    proof (cases "b \<in> Bucket ` set (hc_bars c)")
      case mem: True
      then have k: "bar_point (hc_bars c) b < length (hc_bars c)"
          "Bucket (hc_bars c ! bar_point (hc_bars c) b) = b"
        using bar_point_found [OF ok, of b] by auto
      have "hc_bars (hc_Add c b v) = (hc_bars c)[bar_point (hc_bars c) b :=
          (hc_bars c ! bar_point (hc_bars c) b)
            \<lparr>Count := Count (hc_bars c ! bar_point (hc_bars c) b) + v\<rparr>]"
        using mem by (simp add: hc_Add_slice [OF assms True] hc_bars_def [of "\<lparr>hc_bucket = 0, hc_value = 0, hc_s = _\<rparr>"] Let_def)
      then show ?thesis
        by (simp add: hc_count_def bars_count_update [OF k(1)] k(2))
    next
      case False
      then have "hc_bars (hc_Add c b v) =
          slices_Insert (hc_bars c) (bar_point (hc_bars c) b) \<lparr>Bucket = b, Count = v\<rparr>"
        by (simp add: hc_Add_slice [OF assms True] hc_bars_def [of "\<lparr>hc_bucket = 0, hc_value = 0, hc_s = _\<rparr>"] Let_def)
      then show ?thesis
        by (simp add: hc_count_def bars_count_insert)
    qed
  next
    case False
    then show ?thesis
      by (simp add: hc_Add_first hc_count_def hc_bars_def [of "\<lparr>hc_bucket = b, hc_value = v, hc_s = None\<rparr>"]
          bars_count_Cons)
  qed
qed

lemma hc_count_Reset [simp]: "hc_count (hc_Reset c) = (\<lambda>_. 0)"
  by (auto simp: hc_count_def)

lemma hc_count_zero [simp]: "hc_count hc_zero = (\<lambda>_. 0)"
  by (auto simp: hc_count_def)

text \<open>\<^verbatim>\<open>Get\<close> returns the count of a bucket. On a representation with no bar at all it
  reports bucket 0 as found, since the inline bar is (0, 0) there.\<close>

lemma hc_Get_count:
  assumes "hc_ok c"
  shows "hc_Get c b =
    (hc_count c b, b \<in> Bucket ` set (hc_bars c) \<or> hc_s c = None \<and> hc_bars c = [] \<and> b = 0)"
proof (cases "hc_s c")
  case None
  then show ?thesis
    by (auto simp: hc_Get_def hc_count_def hc_bars_def bars_count_Cons)
next
  case (Some s)
  then have bars: "hc_bars c = s" by (simp add: hc_bars_def)
  have ok: "bars_ok s" using hc_bars_ok [OF assms] by (simp add: bars)
  have dist: "distinct (map Bucket s)" using ok by (rule bars_ok_distinct)
  show ?thesis
  proof (cases "b \<in> Bucket ` set s")
    case True
    then have k: "bar_point s b < length s \<and> Bucket (s ! bar_point s b) = b"
      using bar_point_found [OF ok, of b] by simp
    then have "bars_count s b = Count (s ! bar_point s b)"
      using bars_count_nth [OF dist, of "bar_point s b"] by simp
    with True k Some show ?thesis
      by (simp add: hc_Get_def BinarySearchFunc_bars [OF ok] hc_count_def bars)
  next
    case False
    then have "\<not> (bar_point s b < length s \<and> Bucket (s ! bar_point s b) = b)"
      using bar_point_found [OF ok, of b] by simp
    with False Some show ?thesis
      by (simp add: hc_Get_def BinarySearchFunc_bars [OF ok] hc_count_def bars bars_count_notin)
  qed
qed

lemma hc_Equal_forall:
  "hc_Equal c h \<longleftrightarrow> length (hc_bars c) = length (hc_bars h) \<and>
     (\<forall>x \<in> set (hc_bars c). hc_Get h (Bucket x) = (Count x, True))"
proof -
  have "fold (\<lambda>x equal. let (value2, ok) = hc_Get h (Bucket x)
                        in if \<not> ok \<or> Count x \<noteq> value2 then False else equal) bs e
      \<longleftrightarrow> e \<and> (\<forall>x \<in> set bs. hc_Get h (Bucket x) = (Count x, True))" for bs e
    by (induction bs arbitrary: e) (auto simp: Let_def split: prod.splits)
  note loop = this
  show ?thesis
    unfolding hc_Equal_def hc_ForEach_bars hc_Len_bars loop by auto
qed

text \<open>Equal representations are those that visit the same bars.\<close>

lemma hc_Equal_iff:
  assumes c: "hc_ok c" and h: "hc_ok h"
  shows "hc_Equal c h \<longleftrightarrow> hc_bars c = hc_bars h"
proof
  assume eq: "hc_bars c = hc_bars h"
  have "hc_Get h (Bucket x) = (Count x, True)" if "x \<in> set (hc_bars h)" for x
  proof -
    from that obtain i where i: "i < length (hc_bars h)" "x = hc_bars h ! i"
      by (auto simp: in_set_conv_nth)
    have "hc_count h (Bucket x) = Count x"
      using bars_count_nth [OF bars_ok_distinct [OF hc_bars_ok [OF h]] i(1)] i(2)
      by (simp add: hc_count_def)
    then show ?thesis using that by (simp add: hc_Get_count [OF h])
  qed
  with eq show "hc_Equal c h" by (simp add: hc_Equal_forall)
next
  assume E: "hc_Equal c h"
  have len: "length (hc_bars c) = length (hc_bars h)" using E by (simp add: hc_Equal_forall)
  have get: "hc_Get h (Bucket x) = (Count x, True)" if "x \<in> set (hc_bars c)" for x
    using E that by (simp add: hc_Equal_forall)
  have mem: "x \<in> set (hc_bars h)" if x: "x \<in> set (hc_bars c)" for x
  proof -
    have "hc_bars h \<noteq> []" using len x by auto
    then have "Bucket x \<in> Bucket ` set (hc_bars h)" and n: "hc_count h (Bucket x) = Count x"
      using get [OF x] by (auto simp: hc_Get_count [OF h])
    then obtain i where i: "i < length (hc_bars h)" "Bucket (hc_bars h ! i) = Bucket x"
      by (metis (no_types, lifting) imageE in_set_conv_nth)
    have "Count (hc_bars h ! i) = Count x"
      using bars_count_nth [OF bars_ok_distinct [OF hc_bars_ok [OF h]] i(1)] i(2) n
      by (simp add: hc_count_def)
    then have "hc_bars h ! i = x" using i(2) by simp
    then show ?thesis using i(1) nth_mem by metis
  qed
  have dc: "distinct (hc_bars c)" and dh: "distinct (hc_bars h)"
    using bars_ok_distinct [OF hc_bars_ok [OF c]] bars_ok_distinct [OF hc_bars_ok [OF h]]
    by (simp_all add: distinct_map)
  then have "set (hc_bars c) = set (hc_bars h)"
    using len mem by (intro card_subset_eq) (auto simp: distinct_card)
  then have "set (buckets_of (hc_bars c)) = set (buckets_of (hc_bars h))" by simp
  then have eqb: "buckets_of (hc_bars c) = buckets_of (hc_bars h)"
    using hc_bars_ok [OF c] hc_bars_ok [OF h] by (intro strict_sorted_equal) (auto simp: bars_ok_def)
  show "hc_bars c = hc_bars h"
  proof (rule nth_equalityI [OF len])
    fix i assume i: "i < length (hc_bars c)"
    let ?x = "hc_bars c ! i"
    from i have "?x \<in> set (hc_bars h)" by (intro mem) simp
    then obtain j where j: "j < length (hc_bars h)" "hc_bars h ! j = ?x"
      by (auto simp: in_set_conv_nth)
    have "buckets_of (hc_bars h) ! j = buckets_of (hc_bars h) ! i"
      using i j len arg_cong [OF eqb, of "\<lambda>l. l ! i"] by simp
    then have "j = i"
      using i j(1) len hc_bars_ok [OF h]
      by (auto simp: bars_ok_def strict_sorted_iff distinct_conv_nth)
    then show "?x = hc_bars h ! i" using j by simp
  qed
qed

section \<open>The interface\<close>

text \<open>
  What a client of a counts representation relies on: a value counts, per bucket, the sum
  (with 64-bit wrap-around) of what was added to it.
\<close>

locale counts_adt =
  fixes add :: "'c \<Rightarrow> int32 \<Rightarrow> int64 \<Rightarrow> 'c"
    and count :: "'c \<Rightarrow> int32 \<Rightarrow> int64"
    and visited :: "'c \<Rightarrow> bar list"
    and invar :: "'c \<Rightarrow> bool"
  assumes invar_add: "invar c \<Longrightarrow> invar (add c b v)"
    and count_add: "invar c \<Longrightarrow> count (add c b v) = (count c)(b := count c b + v)"
    and count_visited: "invar c \<Longrightarrow> count c = bars_count (visited c)"
    and visited_sorted: "invar c \<Longrightarrow> bars_ok (visited c)"
begin

definition add_all :: "'c \<Rightarrow> bar list \<Rightarrow> 'c" where
  "add_all c bs = fold (\<lambda>b c. add c (Bucket b) (Count b)) bs c"

lemma add_all_simps [simp]:
  "add_all c [] = c"
  "add_all c (x # bs) = add_all (add c (Bucket x) (Count x)) bs"
  by (simp_all add: add_all_def)

lemma invar_add_all: "invar c \<Longrightarrow> invar (add_all c bs)"
  by (induction bs arbitrary: c) (simp_all add: invar_add)

lemma count_add_all: "invar c \<Longrightarrow> count (add_all c bs) b = count c b + bars_count bs b"
  by (induction bs arbitrary: c) (auto simp: invar_add count_add bars_count_Cons)

text \<open>Adding the bars of one value to another adds the counts pointwise.\<close>

lemma count_merge:
  "invar c \<Longrightarrow> invar d \<Longrightarrow> count (add_all c (visited d)) b = count c b + count d b"
  by (simp add: count_add_all count_visited)

end

interpretation hybrid: counts_adt hc_Add hc_count hc_bars hc_ok
  by unfold_locales (rule hc_ok_Add hc_count_Add hc_count_def hc_bars_ok, assumption?)+

end
