(* ===== verification/HdrHistogram.thy ===== *)
theory HdrHistogram
  imports CountsRep GoTime
begin

unbundle bit_operations_syntax

text \<open>
  Package \<^verbatim>\<open>aggregators/internal/hdrhistogram\<close>: the logarithmic bucket arithmetic of an HDR
  histogram with 2 significant figures over 1 microsecond to 1 hour, recording of durations,
  merging, and the conversion to ordered slices by an incremental iterator. Bucket indices are
  \<^verbatim>\<open>int32\<close> words and values \<^verbatim>\<open>int64\<close> words, as in the source.
\<close>

section \<open>Parameters\<close>

definition lowestTrackableValue :: int where "lowestTrackableValue = 1"
definition highestTrackableValue :: int where "highestTrackableValue = 3600000000"
definition significantFigures :: int where "significantFigures = 2"
definition histogramCountScale :: int where "histogramCountScale = 1000"

text \<open>\<^verbatim>\<open>int32(math.Ceil(math.Log2(x)))\<close> and \<^verbatim>\<open>int32(math.Floor(math.Log2(x)))\<close> of a
  positive integer; the lemmas \<open>ceil_Log2\<close> and \<open>floor_Log2\<close> relate them to the logarithm.\<close>

definition ceil_Log2 :: "int \<Rightarrow> int32" where
  "ceil_Log2 x = word_of_int (bitlen (x - 1))"

definition floor_Log2 :: "int \<Rightarrow> int32" where
  "floor_Log2 x = word_of_int (bitlen x - 1)"

definition getSubBucketHalfCountMagnitude :: int32 where
  "getSubBucketHalfCountMagnitude =
     (let largetValueWithSingleUnitResolution = 2 * 10 ^ nat significantFigures;
          subBucketCountMagnitude = ceil_Log2 largetValueWithSingleUnitResolution
      in if sint subBucketCountMagnitude < 1 then 0 else subBucketCountMagnitude - 1)"

definition getUnitMagnitude :: int32 where
  "getUnitMagnitude =
     (let unitMag = floor_Log2 lowestTrackableValue
      in if sint unitMag < 0 then 0 else unitMag)"

definition getSubBucketCount :: int32 where
  "getSubBucketCount = 2 ^ unat (getSubBucketHalfCountMagnitude + 1)"

definition getSubBucketHalfCount :: int32 where
  "getSubBucketHalfCount = word_of_int (sint getSubBucketCount sdiv 2)"

definition getSubBucketMask :: int64 where
  "getSubBucketMask = push_bit (unat getUnitMagnitude) (scast (getSubBucketCount - 1))"

text \<open>The loop of \<^verbatim>\<open>getBucketCount\<close>; \<^term>\<open>None\<close> would mean that it does not end.\<close>

partial_function (option) bucketCount_loop :: "int64 \<Rightarrow> int32 \<Rightarrow> int32 option" where
  "bucketCount_loop smallestUntrackableValue bucketsNeeded =
     (if sint smallestUntrackableValue < highestTrackableValue
      then (if sint smallestUntrackableValue > (2 ^ 63 - 1) div 2
            then Some (bucketsNeeded + 1)
            else bucketCount_loop (push_bit 1 smallestUntrackableValue) (bucketsNeeded + 1))
      else Some bucketsNeeded)"

definition getBucketCount :: "int32 option" where
  "getBucketCount = bucketCount_loop (push_bit (unat getUnitMagnitude) (scast getSubBucketCount)) 1"

definition getCountsLen :: "int64 option" where
  "getCountsLen =
     map_option (\<lambda>n. scast ((n + 1) * word_of_int (sint getSubBucketCount sdiv 2))) getBucketCount"

text \<open>The package variables, evaluated once when the package is loaded.\<close>

definition unitMagnitude :: int32 where "unitMagnitude = getUnitMagnitude"
definition bucketCount :: int32 where "bucketCount = the getBucketCount"
definition subBucketCount :: int32 where "subBucketCount = getSubBucketCount"
definition subBucketHalfCountMagnitude :: int32 where
  "subBucketHalfCountMagnitude = getSubBucketHalfCountMagnitude"
definition subBucketHalfCount :: int32 where "subBucketHalfCount = getSubBucketHalfCount"
definition subBucketMask :: int64 where "subBucketMask = getSubBucketMask"
definition countsLen :: int64 where "countsLen = the getCountsLen"

section \<open>Bucket arithmetic\<close>

text \<open>\<^verbatim>\<open>bits.LeadingZeros64\<close>\<close>

definition LeadingZeros64 :: "uint64 \<Rightarrow> int" where
  "LeadingZeros64 x = 64 - bitlen (uint x)"

definition getBucketIndex :: "int64 \<Rightarrow> int32" where
  "getBucketIndex v =
     (let pow2Ceiling = word_of_int (64 - LeadingZeros64 (v OR subBucketMask)) :: int64
      in ucast (pow2Ceiling - scast unitMagnitude - scast (subBucketHalfCountMagnitude + 1)))"

text \<open>A shift count is converted to the unsigned 64-bit \<^verbatim>\<open>uint\<close> first; \<^verbatim>\<open>>>\<close> on a signed
  integer is arithmetic.\<close>

definition getSubBucketIdx :: "int64 \<Rightarrow> int32 \<Rightarrow> int32" where
  "getSubBucketIdx v idx =
     ucast (signed_drop_bit (unat (scast idx + scast unitMagnitude :: uint64)) v)"

definition countsIndex :: "int32 \<Rightarrow> int32 \<Rightarrow> int32" where
  "countsIndex bucketIdx subBucketIdx =
     (let baseBucketIdx = push_bit (unat (scast subBucketHalfCountMagnitude :: uint64)) (bucketIdx + 1)
      in baseBucketIdx + subBucketIdx - subBucketHalfCount)"

definition countsIndexFor :: "int64 \<Rightarrow> int32" where
  "countsIndexFor v =
     (let bucketIdx = getBucketIndex v; subBucketIdx = getSubBucketIdx v bucketIdx
      in countsIndex bucketIdx subBucketIdx)"

definition valueFromIndex :: "int32 \<Rightarrow> int32 \<Rightarrow> int64" where
  "valueFromIndex bucketIdx subBucketIdx =
     push_bit (unat (scast (bucketIdx + unitMagnitude) :: uint64)) (scast subBucketIdx)"

definition lowestEquivalentValueGivenBucketIdx :: "int64 \<Rightarrow> int32 \<Rightarrow> int64" where
  "lowestEquivalentValueGivenBucketIdx v bucketIdx =
     (let subBucketIdx = getSubBucketIdx v bucketIdx in valueFromIndex bucketIdx subBucketIdx)"

definition sizeOfEquivalentValueRangeGivenBucketIdx :: "int64 \<Rightarrow> int32 \<Rightarrow> int64" where
  "sizeOfEquivalentValueRangeGivenBucketIdx v bucketIdx =
     (let subBucketIdx = getSubBucketIdx v bucketIdx;
          adjustedBucket =
            (if sint subBucketIdx \<ge> sint subBucketCount then bucketIdx + 1 else bucketIdx)
      in push_bit (unat (scast (unitMagnitude + adjustedBucket) :: uint64)) 1)"

definition nextNonEquivalentValue :: "int64 \<Rightarrow> int64" where
  "nextNonEquivalentValue v =
     (let bucketIdx = getBucketIndex v
      in lowestEquivalentValueGivenBucketIdx v bucketIdx +
         sizeOfEquivalentValueRangeGivenBucketIdx v bucketIdx)"

definition highestEquivalentValue :: "int64 \<Rightarrow> int64" where
  "highestEquivalentValue v = nextNonEquivalentValue v - 1"

section \<open>The iterator\<close>

record iterator =
  it_bucketIdx :: int32
  it_subBucketIdx :: int32
  it_valueFromIdx :: int64
  it_highestEquivalentValue :: int64

definition new_iterator :: iterator where
  "new_iterator = \<lparr>it_bucketIdx = 0, it_subBucketIdx = - 1, it_valueFromIdx = 0,
     it_highestEquivalentValue = 0\<rparr>"

definition nextCountAtIdx :: "iterator \<Rightarrow> iterator \<times> bool" where
  "nextCountAtIdx i =
     (let i = i\<lparr>it_subBucketIdx := it_subBucketIdx i + 1\<rparr>;
          i = (if sint (it_subBucketIdx i) \<ge> sint subBucketCount
               then i\<lparr>it_subBucketIdx := subBucketHalfCount, it_bucketIdx := it_bucketIdx i + 1\<rparr>
               else i)
      in if sint (it_bucketIdx i) \<ge> sint bucketCount then (i, False)
         else (i\<lparr>it_valueFromIdx := valueFromIndex (it_bucketIdx i) (it_subBucketIdx i)\<rparr>, True))"

fun advance_loop :: "nat \<Rightarrow> iterator \<Rightarrow> iterator \<times> bool" where
  "advance_loop 0 i = (i, True)"
| "advance_loop (Suc n) i =
     (let (i', ok) = nextCountAtIdx i in if \<not> ok then (i', False) else advance_loop n i')"

definition advance :: "iterator \<Rightarrow> int \<Rightarrow> iterator \<times> bool" where
  "advance i count =
     (let (i', ok) = advance_loop (nat count) i
      in if \<not> ok then (i', False)
         else (i'\<lparr>it_highestEquivalentValue := highestEquivalentValue (it_valueFromIdx i')\<rparr>, True))"

section \<open>Histograms\<close>

record HistogramRepresentation =
  LowestTrackableValue :: int64
  HighestTrackableValue :: int64
  SignificantFigures :: int64
  CountsRep :: HybridCountsRep

definition hist_New :: HistogramRepresentation where
  "hist_New = \<lparr>LowestTrackableValue = word_of_int lowestTrackableValue,
     HighestTrackableValue = word_of_int highestTrackableValue,
     SignificantFigures = word_of_int significantFigures, CountsRep = hc_zero\<rparr>"

datatype hist_error = ValueTooLarge int64

definition RecordValues ::
  "HistogramRepresentation \<Rightarrow> int64 \<Rightarrow> int64 \<Rightarrow> HistogramRepresentation \<times> hist_error option" where
  "RecordValues h v n =
     (let idx = countsIndexFor v
      in if sint idx < 0 \<or> sint (ucast countsLen :: int32) \<le> sint idx
         then (h, Some (ValueTooLarge v))
         else (h\<lparr>CountsRep := hc_Add (CountsRep h) idx n\<rparr>, None))"

definition RecordDuration ::
  "HistogramRepresentation \<Rightarrow> duration \<Rightarrow> float64 \<Rightarrow> HistogramRepresentation \<times> hist_error option" where
  "RecordDuration h d n =
     (let count = f64_to_int64 (math_Round (fmul n (f64_of_int histogramCountScale)));
          v = Microseconds d
      in RecordValues h v count)"

definition hist_Merge ::
  "HistogramRepresentation \<Rightarrow> HistogramRepresentation option \<Rightarrow> HistogramRepresentation" where
  "hist_Merge h from =
     (case from of None \<Rightarrow> h
      | Some from \<Rightarrow>
          hc_ForEach (\<lambda>bucket val h. h\<lparr>CountsRep := hc_Add (CountsRep h) bucket val\<rparr>)
            (CountsRep from) h)"

text \<open>The variables the callback of \<^verbatim>\<open>Buckets\<close> updates.\<close>

record buckets_state =
  bs_counts :: "uint64 list"
  bs_values :: "float64 list"
  bs_totalCount :: uint64
  bs_prevBucket :: int32
  bs_iter :: iterator

definition scaled_count :: "int64 \<Rightarrow> uint64" where
  "scaled_count scaledCounts =
     f64_to_uint64 (math_Round (fdiv (f64_of_int (sint scaledCounts)) (f64_of_int histogramCountScale)))"

definition buckets_callback :: "int32 \<Rightarrow> int64 \<Rightarrow> buckets_state \<Rightarrow> buckets_state" where
  "buckets_callback bucket scaledCounts st =
     (if sint scaledCounts \<le> 0 then st
      else
        let (iter, ok) = advance (bs_iter st) (sint (bucket - bs_prevBucket st));
            st = st\<lparr>bs_iter := iter\<rparr>;
            st = (if ok
                  then let count = scaled_count scaledCounts
                       in st\<lparr>bs_counts := bs_counts st @ [count],
                             bs_values := bs_values st @ [f64_of_int (sint (it_highestEquivalentValue iter))],
                             bs_totalCount := bs_totalCount st + count\<rparr>
                  else st)
        in st\<lparr>bs_prevBucket := bucket\<rparr>)"

definition hist_Buckets :: "HistogramRepresentation \<Rightarrow> uint64 \<times> uint64 list \<times> float64 list" where
  "hist_Buckets h =
     (let iter = fst (nextCountAtIdx new_iterator);
          st = hc_ForEach buckets_callback (CountsRep h)
                 \<lparr>bs_counts = [], bs_values = [], bs_totalCount = 0, bs_prevBucket = 0, bs_iter = iter\<rparr>
      in (bs_totalCount st, bs_counts st, bs_values st))"

section \<open>The parameters evaluated\<close>

lemma ceil_Log2:
  assumes "1 \<le> n"
  shows "ceil_Log2 n = word_of_int \<lceil>log 2 (of_int n)\<rceil>"
proof (cases "n = 1")
  case True
  then show ?thesis by (simp add: ceil_Log2_def)
next
  case False
  then have n: "1 \<le> n - 1" "0 < n - 1" using assms by auto
  define b where "b = bitlen (n - 1)"
  have b1: "1 \<le> b" using n by (simp add: b_def bitlen_ge_iff_power)
  have bnd: "2 ^ nat (b - 1) \<le> n - 1 \<and> n - 1 < 2 ^ nat b"
    using bitlen_bounds [OF n(2)] by (simp add: b_def)
  have "\<lceil>log 2 (of_int n)\<rceil> = b"
  proof (rule ceiling_unique)
    have "2 ^ nat (b - 1) < n" using bnd by simp
    then have "real_of_int (2 ^ nat (b - 1)) < of_int n" by (simp only: of_int_less_iff)
    then have "real (nat (b - 1)) < log 2 (of_int n)"
      using assms by (subst less_log_iff) (simp_all add: powr_realpow)
    then show "real_of_int b - 1 < log 2 (of_int n)" using b1 by (simp add: of_nat_nat)
    have "n \<le> 2 ^ nat b" using bnd by simp
    then have "real_of_int n \<le> of_int (2 ^ nat b)" by (simp only: of_int_le_iff)
    then have "log 2 (of_int n) \<le> real (nat b)"
      using assms by (subst log_le_iff) (simp_all add: powr_realpow)
    then show "log 2 (of_int n) \<le> real_of_int b" using b1 by (simp add: of_nat_nat)
  qed
  then show ?thesis by (simp add: ceil_Log2_def b_def)
qed

lemma floor_Log2:
  assumes "1 \<le> n"
  shows "floor_Log2 n = word_of_int \<lfloor>log 2 (of_int n)\<rfloor>"
  using assms by (simp add: floor_Log2_def bitlen_alt_def)

lemma SubBucketHalfCountMagnitude_eq: "getSubBucketHalfCountMagnitude = 7"
  by code_simp

lemma UnitMagnitude_eq: "getUnitMagnitude = 0"
  by code_simp

lemma SubBucketCount_eq: "getSubBucketCount = 256"
  by (simp add: getSubBucketCount_def SubBucketHalfCountMagnitude_eq)

lemma SubBucketHalfCount_eq: "getSubBucketHalfCount = 128"
  by (simp add: getSubBucketHalfCount_def SubBucketCount_eq signed_divide_int_def)

lemma SubBucketMask_eq: "getSubBucketMask = 255"
  by (simp add: getSubBucketMask_def SubBucketCount_eq UnitMagnitude_eq)

text \<open>The loop ends: 25 buckets cover the trackable range.\<close>

lemma BucketCount_eq: "getBucketCount = Some 25"
  by (simp add: getBucketCount_def SubBucketCount_eq UnitMagnitude_eq bucketCount_loop.simps
      highestTrackableValue_def push_bit_eq_mult)

lemma CountsLen_eq: "getCountsLen = Some 3328"
  by (simp add: getCountsLen_def BucketCount_eq SubBucketCount_eq signed_divide_int_def)

lemma package_vars [simp]:
  "unitMagnitude = 0" "bucketCount = 25" "subBucketCount = 256"
  "subBucketHalfCountMagnitude = 7" "subBucketHalfCount = 128" "subBucketMask = 255"
  "countsLen = 3328"
  by (simp_all add: unitMagnitude_def bucketCount_def subBucketCount_def
      subBucketHalfCountMagnitude_def subBucketHalfCount_def subBucketMask_def countsLen_def
      SubBucketHalfCountMagnitude_eq UnitMagnitude_eq SubBucketCount_eq SubBucketHalfCount_eq
      SubBucketMask_eq BucketCount_eq CountsLen_eq)

end
