(* ===== verification/Codec.thy ===== *)
theory Codec
  imports Models HdrHistogram
begin

text \<open>
  \<^verbatim>\<open>aggregators/codec.go\<close>: the conversions between the in-memory types and the messages
  (\<^verbatim>\<open>ToProto\<close>, \<^verbatim>\<open>FromProto\<close>), of histograms and of cardinality sketches. The binary form of
  the database key is in theory \<open>KeyCodec\<close>.
\<close>

section \<open>Aggregation keys\<close>

definition serviceAggregationKey_ToProto :: "serviceAggregationKey \<Rightarrow> ServiceAggregationKey" where
  "serviceAggregationKey_ToProto k =
     \<lparr>pbsk_Timestamp = TimeToPBTimestamp (sk_Timestamp k),
      pbsk_ServiceName = sk_ServiceName k,
      pbsk_ServiceEnvironment = sk_ServiceEnvironment k,
      pbsk_ServiceLanguageName = sk_ServiceLanguageName k,
      pbsk_AgentName = sk_AgentName k\<rparr>"

definition serviceAggregationKey_FromProto :: "ServiceAggregationKey \<Rightarrow> serviceAggregationKey" where
  "serviceAggregationKey_FromProto pb =
     \<lparr>sk_Timestamp = PBTimestampToTime (pbsk_Timestamp pb),
      sk_ServiceName = pbsk_ServiceName pb,
      sk_ServiceEnvironment = pbsk_ServiceEnvironment pb,
      sk_ServiceLanguageName = pbsk_ServiceLanguageName pb,
      sk_AgentName = pbsk_AgentName pb\<rparr>"

definition serviceInstanceAggregationKey_ToProto ::
  "serviceInstanceAggregationKey \<Rightarrow> ServiceInstanceAggregationKey" where
  "serviceInstanceAggregationKey_ToProto k =
     \<lparr>pbsik_GlobalLabelsStr = bytes_of_string (sik_GlobalLabelsStr k)\<rparr>"

definition serviceInstanceAggregationKey_FromProto ::
  "ServiceInstanceAggregationKey \<Rightarrow> serviceInstanceAggregationKey" where
  "serviceInstanceAggregationKey_FromProto pb =
     \<lparr>sik_GlobalLabelsStr = string_of_bytes (pbsik_GlobalLabelsStr pb)\<rparr>"

definition transactionAggregationKey_ToProto ::
  "transactionAggregationKey \<Rightarrow> TransactionAggregationKey" where
  "transactionAggregationKey_ToProto k =
     \<lparr>pbtk_TraceRoot = tk_TraceRoot k,
      pbtk_ContainerId = tk_ContainerID k,
      pbtk_KubernetesPodName = tk_KubernetesPodName k,
      pbtk_ServiceVersion = tk_ServiceVersion k,
      pbtk_ServiceNodeName = tk_ServiceNodeName k,
      pbtk_ServiceRuntimeName = tk_ServiceRuntimeName k,
      pbtk_ServiceRuntimeVersion = tk_ServiceRuntimeVersion k,
      pbtk_ServiceLanguageVersion = tk_ServiceLanguageVersion k,
      pbtk_HostHostname = tk_HostHostname k,
      pbtk_HostName = tk_HostName k,
      pbtk_HostOsPlatform = tk_HostOSPlatform k,
      pbtk_EventOutcome = tk_EventOutcome k,
      pbtk_TransactionName = tk_TransactionName k,
      pbtk_TransactionType = tk_TransactionType k,
      pbtk_TransactionResult = tk_TransactionResult k,
      pbtk_FaasColdstart = tk_FAASColdstart k,
      pbtk_FaasId = tk_FAASID k,
      pbtk_FaasName = tk_FAASName k,
      pbtk_FaasVersion = tk_FAASVersion k,
      pbtk_FaasTriggerType = tk_FAASTriggerType k,
      pbtk_CloudProvider = tk_CloudProvider k,
      pbtk_CloudRegion = tk_CloudRegion k,
      pbtk_CloudAvailabilityZone = tk_CloudAvailabilityZone k,
      pbtk_CloudServiceName = tk_CloudServiceName k,
      pbtk_CloudAccountId = tk_CloudAccountID k,
      pbtk_CloudAccountName = tk_CloudAccountName k,
      pbtk_CloudMachineType = tk_CloudMachineType k,
      pbtk_CloudProjectId = tk_CloudProjectID k,
      pbtk_CloudProjectName = tk_CloudProjectName k\<rparr>"

definition transactionAggregationKey_FromProto ::
  "TransactionAggregationKey \<Rightarrow> transactionAggregationKey" where
  "transactionAggregationKey_FromProto pb =
     \<lparr>tk_TraceRoot = pbtk_TraceRoot pb,
      tk_ContainerID = pbtk_ContainerId pb,
      tk_KubernetesPodName = pbtk_KubernetesPodName pb,
      tk_ServiceVersion = pbtk_ServiceVersion pb,
      tk_ServiceNodeName = pbtk_ServiceNodeName pb,
      tk_ServiceRuntimeName = pbtk_ServiceRuntimeName pb,
      tk_ServiceRuntimeVersion = pbtk_ServiceRuntimeVersion pb,
      tk_ServiceLanguageVersion = pbtk_ServiceLanguageVersion pb,
      tk_HostHostname = pbtk_HostHostname pb,
      tk_HostName = pbtk_HostName pb,
      tk_HostOSPlatform = pbtk_HostOsPlatform pb,
      tk_EventOutcome = pbtk_EventOutcome pb,
      tk_TransactionName = pbtk_TransactionName pb,
      tk_TransactionType = pbtk_TransactionType pb,
      tk_TransactionResult = pbtk_TransactionResult pb,
      tk_FAASColdstart = pbtk_FaasColdstart pb,
      tk_FAASID = pbtk_FaasId pb,
      tk_FAASName = pbtk_FaasName pb,
      tk_FAASVersion = pbtk_FaasVersion pb,
      tk_FAASTriggerType = pbtk_FaasTriggerType pb,
      tk_CloudProvider = pbtk_CloudProvider pb,
      tk_CloudRegion = pbtk_CloudRegion pb,
      tk_CloudAvailabilityZone = pbtk_CloudAvailabilityZone pb,
      tk_CloudServiceName = pbtk_CloudServiceName pb,
      tk_CloudAccountID = pbtk_CloudAccountId pb,
      tk_CloudAccountName = pbtk_CloudAccountName pb,
      tk_CloudMachineType = pbtk_CloudMachineType pb,
      tk_CloudProjectID = pbtk_CloudProjectId pb,
      tk_CloudProjectName = pbtk_CloudProjectName pb\<rparr>"

definition serviceTransactionAggregationKey_ToProto ::
  "serviceTransactionAggregationKey \<Rightarrow> ServiceTransactionAggregationKey" where
  "serviceTransactionAggregationKey_ToProto k =
     \<lparr>pbstk_TransactionType = stk_TransactionType k\<rparr>"

definition serviceTransactionAggregationKey_FromProto ::
  "ServiceTransactionAggregationKey \<Rightarrow> serviceTransactionAggregationKey" where
  "serviceTransactionAggregationKey_FromProto pb =
     \<lparr>stk_TransactionType = pbstk_TransactionType pb\<rparr>"

definition spanAggregationKey_ToProto :: "spanAggregationKey \<Rightarrow> SpanAggregationKey" where
  "spanAggregationKey_ToProto k =
     \<lparr>pbspk_SpanName = spk_SpanName k, pbspk_Outcome = spk_Outcome k,
      pbspk_TargetType = spk_TargetType k, pbspk_TargetName = spk_TargetName k,
      pbspk_Resource = spk_Resource k\<rparr>"

definition spanAggregationKey_FromProto :: "SpanAggregationKey \<Rightarrow> spanAggregationKey" where
  "spanAggregationKey_FromProto pb =
     \<lparr>spk_SpanName = pbspk_SpanName pb, spk_Outcome = pbspk_Outcome pb,
      spk_TargetType = pbspk_TargetType pb, spk_TargetName = pbspk_TargetName pb,
      spk_Resource = pbspk_Resource pb\<rparr>"

section \<open>Sketches and overflow buckets\<close>

definition hllBytes :: "'sk hll_ops \<Rightarrow> 'sk option \<Rightarrow> bytes" where
  "hllBytes H estimator = (case estimator of None \<Rightarrow> [] | Some s \<Rightarrow> hll_MarshalBinary H s)"

definition hllSketch :: "'sk hll_ops \<Rightarrow> bytes \<Rightarrow> 'sk option" where
  "hllSketch H estimator =
     (if length estimator = 0 then None else Some (hll_UnmarshalBinary H estimator))"

definition ot_Empty :: "'sk overflowTransaction \<Rightarrow> bool" where
  "ot_Empty ob \<longleftrightarrow> ot_Estimator ob = None"

definition ost_Empty :: "'sk overflowServiceTransaction \<Rightarrow> bool" where
  "ost_Empty ob \<longleftrightarrow> ost_Estimator ob = None"

definition osp_Empty :: "'sk overflowSpan \<Rightarrow> bool" where
  "osp_Empty ob \<longleftrightarrow> osp_Estimator ob = None"

definition overflow_ToProto :: "'sk hll_ops \<Rightarrow> 'sk overflow \<Rightarrow> Overflow" where
  "overflow_ToProto H ov =
     (let pb = zero_Overflow;
          pb = (if \<not> ot_Empty (OverflowTransaction ov)
                then pb\<lparr>pbo_OverflowTransactions := ot_Metrics (OverflowTransaction ov),
                        pbo_OverflowTransactionsEstimator :=
                          hllBytes H (ot_Estimator (OverflowTransaction ov))\<rparr>
                else pb);
          pb = (if \<not> ost_Empty (OverflowServiceTransaction ov)
                then pb\<lparr>pbo_OverflowServiceTransactions := ost_Metrics (OverflowServiceTransaction ov),
                        pbo_OverflowServiceTransactionsEstimator :=
                          hllBytes H (ost_Estimator (OverflowServiceTransaction ov))\<rparr>
                else pb);
          pb = (if \<not> osp_Empty (OverflowSpan ov)
                then pb\<lparr>pbo_OverflowSpans := osp_Metrics (OverflowSpan ov),
                        pbo_OverflowSpansEstimator := hllBytes H (osp_Estimator (OverflowSpan ov))\<rparr>
                else pb)
      in pb)"

text \<open>\<^verbatim>\<open>FromProto\<close> fills the receiver, which its only caller passes as the zero value.\<close>

definition overflow_FromProto :: "'sk hll_ops \<Rightarrow> 'sk overflow \<Rightarrow> Overflow \<Rightarrow> 'sk overflow" where
  "overflow_FromProto H ov pb =
     (let ov = (if pbo_OverflowTransactions pb \<noteq> None
                then ov\<lparr>OverflowTransaction :=
                       \<lparr>ot_Metrics = pbo_OverflowTransactions pb,
                        ot_Estimator = hllSketch H (pbo_OverflowTransactionsEstimator pb)\<rparr>\<rparr>
                else ov);
          ov = (if pbo_OverflowServiceTransactions pb \<noteq> None
                then ov\<lparr>OverflowServiceTransaction :=
                       \<lparr>ost_Metrics = pbo_OverflowServiceTransactions pb,
                        ost_Estimator = hllSketch H (pbo_OverflowServiceTransactionsEstimator pb)\<rparr>\<rparr>
                else ov);
          ov = (if pbo_OverflowSpans pb \<noteq> None
                then ov\<lparr>OverflowSpan :=
                       \<lparr>osp_Metrics = pbo_OverflowSpans pb,
                        osp_Estimator = hllSketch H (pbo_OverflowSpansEstimator pb)\<rparr>\<rparr>
                else ov)
      in ov)"

section \<open>Metrics\<close>

definition serviceInstanceMetrics_ToProto :: "serviceInstanceMetrics \<Rightarrow> ServiceInstanceMetrics" where
  "serviceInstanceMetrics_ToProto m =
     \<lparr>pbsim_TransactionMetrics = map snd (TransactionGroups m),
      pbsim_ServiceTransactionMetrics = map snd (ServiceTransactionGroups m),
      pbsim_SpanMetrics = map snd (SpanGroups m)\<rparr>"

definition serviceMetrics_ToProto :: "'sk hll_ops \<Rightarrow> 'sk serviceMetrics \<Rightarrow> ServiceMetrics" where
  "serviceMetrics_ToProto H m =
     \<lparr>pbsm_ServiceInstanceMetrics =
        map (\<lambda>(k, m). \<lparr>ksim_Key = Some (serviceInstanceAggregationKey_ToProto k),
                       ksim_Metrics = Some (serviceInstanceMetrics_ToProto m)\<rparr>)
          (ServiceInstanceGroups m),
      pbsm_OverflowGroups = Some (overflow_ToProto H (OverflowGroups m))\<rparr>"

definition combinedMetrics_ToProto :: "'sk hll_ops \<Rightarrow> 'sk combinedMetrics \<Rightarrow> CombinedMetrics" where
  "combinedMetrics_ToProto H m =
     (let pb = \<lparr>pbcm_ServiceMetrics =
                  map (\<lambda>(k, m). \<lparr>ksm_Key = Some (serviceAggregationKey_ToProto k),
                                 ksm_Metrics = Some (serviceMetrics_ToProto H m)\<rparr>) (Services m),
                pbcm_OverflowServices = None, pbcm_OverflowServiceInstancesEstimator = [],
                pbcm_EventsTotal = Fin 0, pbcm_YoungestEventTimestamp = 0\<rparr>;
          pb = (if OverflowServiceInstancesEstimator m \<noteq> None
                then pb\<lparr>pbcm_OverflowServices := Some (overflow_ToProto H (OverflowServices m)),
                        pbcm_OverflowServiceInstancesEstimator :=
                          hllBytes H (OverflowServiceInstancesEstimator m)\<rparr>
                else pb)
      in pb\<lparr>pbcm_EventsTotal := EventsTotal m, pbcm_YoungestEventTimestamp := YoungestEventTimestamp m\<rparr>)"

section \<open>Histograms\<close>

text \<open>Reading a count beyond the end of \<^verbatim>\<open>Counts\<close> panics.\<close>

fun add_wire_bars :: "HybridCountsRep \<Rightarrow> int32 list \<Rightarrow> int64 list \<Rightarrow> HybridCountsRep option" where
  "add_wire_bars c [] cs = Some c"
| "add_wire_bars c (b # bs) [] = None"
| "add_wire_bars c (b # bs) (n # cs) = add_wire_bars (hc_Add c b n) bs cs"

definition histogramFromProto ::
  "HistogramRepresentation \<Rightarrow> HDRHistogram option \<Rightarrow> HistogramRepresentation option" where
  "histogramFromProto h pb =
     (case pb of None \<Rightarrow> Some h
      | Some pb \<Rightarrow>
          do { c \<leftarrow> add_wire_bars (hc_Reset (CountsRep h)) (hdr_Buckets pb) (hdr_Counts pb);
               Some (h\<lparr>LowestTrackableValue := hdr_LowestTrackableValue pb,
                       HighestTrackableValue := hdr_HighestTrackableValue pb,
                       SignificantFigures := hdr_SignificantFigures pb,
                       CountsRep := c\<rparr>) })"

definition setHistogramProto :: "HistogramRepresentation \<Rightarrow> HDRHistogram \<Rightarrow> HDRHistogram" where
  "setHistogramProto h pb =
     (let pb = pb\<lparr>hdr_LowestTrackableValue := LowestTrackableValue h,
                  hdr_HighestTrackableValue := HighestTrackableValue h,
                  hdr_SignificantFigures := SignificantFigures h,
                  hdr_Buckets := [], hdr_Counts := []\<rparr>
      in hc_ForEach (\<lambda>bucket count pb.
            pb\<lparr>hdr_Buckets := hdr_Buckets pb @ [bucket], hdr_Counts := hdr_Counts pb @ [count]\<rparr>)
          (CountsRep h) pb)"

definition histogramToProto :: "HistogramRepresentation option \<Rightarrow> HDRHistogram option" where
  "histogramToProto h =
     (case h of None \<Rightarrow> None | Some h \<Rightarrow> Some (setHistogramProto h zero_HDRHistogram))"

section \<open>Round trips of the keys\<close>

text \<open>A conversion pair: reading back what was written gives the value, for the values that
  \<open>ok\<close> admits. Then writing loses nothing and is injective.\<close>

locale proto_pair =
  fixes to_proto :: "'a \<Rightarrow> 'p" and from_proto :: "'p \<Rightarrow> 'a" and ok :: "'a \<Rightarrow> bool"
  assumes from_to: "ok a \<Longrightarrow> from_proto (to_proto a) = a"
begin

lemma to_inject: "ok a \<Longrightarrow> ok b \<Longrightarrow> to_proto a = to_proto b \<longleftrightarrow> a = b"
  by (metis from_to)

lemma map_from_to: "\<forall>p \<in> set m. ok (fst p) \<Longrightarrow> map (\<lambda>p. (from_proto (to_proto (fst p)), snd p)) m = m"
  by (induction m) (auto simp: from_to)

end

text \<open>Service keys carry a timestamp that must fit the wire's 64-bit nanoseconds.\<close>

definition sk_ok :: "serviceAggregationKey \<Rightarrow> bool" where
  "sk_ok k \<longleftrightarrow> - (2 ^ 63) \<le> sk_Timestamp k \<and> sk_Timestamp k < 2 ^ 63"

interpretation skp: proto_pair serviceAggregationKey_ToProto serviceAggregationKey_FromProto sk_ok
  by unfold_locales
    (simp add: serviceAggregationKey_ToProto_def serviceAggregationKey_FromProto_def sk_ok_def
      PBTimestampToTime_inverse)

interpretation sikp: proto_pair serviceInstanceAggregationKey_ToProto
  serviceInstanceAggregationKey_FromProto "\<lambda>_. True"
  by unfold_locales
    (simp add: serviceInstanceAggregationKey_ToProto_def serviceInstanceAggregationKey_FromProto_def)

interpretation tkp: proto_pair transactionAggregationKey_ToProto
  transactionAggregationKey_FromProto "\<lambda>_. True"
  by unfold_locales
    (simp add: transactionAggregationKey_ToProto_def transactionAggregationKey_FromProto_def)

interpretation stkp: proto_pair serviceTransactionAggregationKey_ToProto
  serviceTransactionAggregationKey_FromProto "\<lambda>_. True"
  by unfold_locales
    (simp add: serviceTransactionAggregationKey_ToProto_def
      serviceTransactionAggregationKey_FromProto_def)

interpretation spkp: proto_pair spanAggregationKey_ToProto spanAggregationKey_FromProto "\<lambda>_. True"
  by unfold_locales (simp add: spanAggregationKey_ToProto_def spanAggregationKey_FromProto_def)

lemma sk_ok_FromProto [simp]: "sk_ok (serviceAggregationKey_FromProto pb)"
proof -
  have "- (2 ^ 63) \<le> sint (pbsk_Timestamp pb)" "sint (pbsk_Timestamp pb) < 2 ^ 63"
    using sint_ge [of "pbsk_Timestamp pb"] sint_lt [of "pbsk_Timestamp pb"] by simp_all
  then show ?thesis
    by (simp add: sk_ok_def serviceAggregationKey_FromProto_def PBTimestampToTime_def time_Unix_def)
qed

lemma serviceAggregationKey_ToProto_FromProto [simp]:
  "serviceAggregationKey_ToProto (serviceAggregationKey_FromProto pb) = pb"
  by (simp add: serviceAggregationKey_ToProto_def serviceAggregationKey_FromProto_def)

section \<open>Histogram round trip\<close>

lemma setHistogramProto_bars:
  "hdr_Buckets (setHistogramProto h pb) = map Bucket (hc_bars (CountsRep h))"
  "hdr_Counts (setHistogramProto h pb) = map Count (hc_bars (CountsRep h))"
proof -
  have "hdr_Buckets (fold (\<lambda>b pb. pb\<lparr>hdr_Buckets := hdr_Buckets pb @ [Bucket b],
            hdr_Counts := hdr_Counts pb @ [Count b]\<rparr>) bs p) = hdr_Buckets p @ map Bucket bs
      \<and> hdr_Counts (fold (\<lambda>b pb. pb\<lparr>hdr_Buckets := hdr_Buckets pb @ [Bucket b],
            hdr_Counts := hdr_Counts pb @ [Count b]\<rparr>) bs p) = hdr_Counts p @ map Count bs"
    for bs :: "bar list" and p :: HDRHistogram
    by (induction bs arbitrary: p) auto
  then show "hdr_Buckets (setHistogramProto h pb) = map Bucket (hc_bars (CountsRep h))"
    and "hdr_Counts (setHistogramProto h pb) = map Count (hc_bars (CountsRep h))"
    by (simp_all add: setHistogramProto_def hc_ForEach_bars)
qed

lemma add_wire_bars_maps:
  "add_wire_bars c (map Bucket bs) (map Count bs) = Some (hybrid.add_all c bs)"
  by (induction bs arbitrary: c) simp_all

lemma add_wire_bars_eq:
  "length cs = length bs \<Longrightarrow>
   add_wire_bars c bs cs = Some (hybrid.add_all c (map2 (\<lambda>b n. \<lparr>Bucket = b, Count = n\<rparr>) bs cs))"
  by (induction bs cs arbitrary: c rule: list_induct2') simp_all

end
