(* ===== verification/Protohash.thy ===== *)
theory Protohash
  imports Models
begin

text \<open>
  Package \<^verbatim>\<open>aggregators/internal/protohash\<close>: hashing of the aggregation keys with a streaming
  xxhash digest. A digest is passed by value, so hashing a key extends a copy of the digest
  it is given. The digest operations are the parameter \<^typ>\<open>'d xxhash_ops\<close>.
\<close>

section \<open>Operations\<close>

definition writeUint32 :: "'d xxhash_ops \<Rightarrow> 'd \<Rightarrow> uint32 \<Rightarrow> 'd" where
  "writeUint32 X h v = xx_Write X h (PutUint32_LE v)"

definition writeUint64 :: "'d xxhash_ops \<Rightarrow> 'd \<Rightarrow> uint64 \<Rightarrow> 'd" where
  "writeUint64 X h v = xx_Write X h (PutUint64_LE v)"

definition HashServiceAggregationKey ::
  "'d xxhash_ops \<Rightarrow> 'd \<Rightarrow> ServiceAggregationKey \<Rightarrow> 'd" where
  "HashServiceAggregationKey X h k =
     (let h = writeUint64 X h (pbsk_Timestamp k);
          h = xx_WriteString X h (pbsk_ServiceName k);
          h = xx_WriteString X h (pbsk_ServiceEnvironment k);
          h = xx_WriteString X h (pbsk_ServiceLanguageName k);
          h = xx_WriteString X h (pbsk_AgentName k)
      in h)"

definition HashServiceInstanceAggregationKey ::
  "'d xxhash_ops \<Rightarrow> 'd \<Rightarrow> ServiceInstanceAggregationKey \<Rightarrow> 'd" where
  "HashServiceInstanceAggregationKey X h k = xx_Write X h (pbsik_GlobalLabelsStr k)"

definition HashServiceTransactionAggregationKey ::
  "'d xxhash_ops \<Rightarrow> 'd \<Rightarrow> ServiceTransactionAggregationKey \<Rightarrow> 'd" where
  "HashServiceTransactionAggregationKey X h k = xx_WriteString X h (pbstk_TransactionType k)"

definition HashSpanAggregationKey :: "'d xxhash_ops \<Rightarrow> 'd \<Rightarrow> SpanAggregationKey \<Rightarrow> 'd" where
  "HashSpanAggregationKey X h k =
     (let h = xx_WriteString X h (pbspk_SpanName k);
          h = xx_WriteString X h (pbspk_Outcome k);
          h = xx_WriteString X h (pbspk_TargetType k);
          h = xx_WriteString X h (pbspk_TargetName k);
          h = xx_WriteString X h (pbspk_Resource k)
      in h)"

definition HashTransactionAggregationKey ::
  "'d xxhash_ops \<Rightarrow> 'd \<Rightarrow> TransactionAggregationKey \<Rightarrow> 'd" where
  "HashTransactionAggregationKey X h k =
     (let h = (if pbtk_TraceRoot k then xx_WriteString X h ''1'' else h);
          h = xx_WriteString X h (pbtk_ContainerId k);
          h = xx_WriteString X h (pbtk_KubernetesPodName k);
          h = xx_WriteString X h (pbtk_ServiceVersion k);
          h = xx_WriteString X h (pbtk_ServiceNodeName k);
          h = xx_WriteString X h (pbtk_ServiceRuntimeName k);
          h = xx_WriteString X h (pbtk_ServiceRuntimeVersion k);
          h = xx_WriteString X h (pbtk_ServiceLanguageVersion k);
          h = xx_WriteString X h (pbtk_HostHostname k);
          h = xx_WriteString X h (pbtk_HostName k);
          h = xx_WriteString X h (pbtk_HostOsPlatform k);
          h = xx_WriteString X h (pbtk_EventOutcome k);
          h = xx_WriteString X h (pbtk_TransactionName k);
          h = xx_WriteString X h (pbtk_TransactionType k);
          h = xx_WriteString X h (pbtk_TransactionResult k);
          h = writeUint32 X h (pbtk_FaasColdstart k);
          h = xx_WriteString X h (pbtk_FaasId k);
          h = xx_WriteString X h (pbtk_FaasName k);
          h = xx_WriteString X h (pbtk_FaasVersion k);
          h = xx_WriteString X h (pbtk_FaasTriggerType k);
          h = xx_WriteString X h (pbtk_CloudProvider k);
          h = xx_WriteString X h (pbtk_CloudRegion k);
          h = xx_WriteString X h (pbtk_CloudAvailabilityZone k);
          h = xx_WriteString X h (pbtk_CloudServiceName k);
          h = xx_WriteString X h (pbtk_CloudAccountId k);
          h = xx_WriteString X h (pbtk_CloudAccountName k);
          h = xx_WriteString X h (pbtk_CloudMachineType k);
          h = xx_WriteString X h (pbtk_CloudProjectId k);
          h = xx_WriteString X h (pbtk_CloudProjectName k)
      in h)"

section \<open>Streams\<close>

text \<open>
  The documented contract of a streaming hash: writes accumulate, and writing a string is
  writing its bytes. Under it a key is hashed as one byte string.
\<close>

definition streaming :: "'d xxhash_ops \<Rightarrow> bool" where
  "streaming X \<longleftrightarrow>
     (\<forall>d a b. xx_Write X (xx_Write X d a) b = xx_Write X d (a @ b))
     \<and> (\<forall>d s. xx_WriteString X d s = xx_Write X d (bytes_of_string s))"

text \<open>The instance that keeps what was written; its sum adds up the bytes.\<close>

definition log_xxhash :: "bytes xxhash_ops" where
  "log_xxhash = \<lparr>xx_Digest0 = [], xx_Write = (\<lambda>d b. d @ b),
     xx_WriteString = (\<lambda>d s. d @ bytes_of_string s), xx_Sum64 = (\<lambda>d. sum_list (map ucast d))\<rparr>"

lemma streaming_log [simp]: "streaming log_xxhash"
  by (simp add: streaming_def log_xxhash_def)

definition span_stream :: "SpanAggregationKey \<Rightarrow> string" where
  "span_stream k = pbspk_SpanName k @ pbspk_Outcome k @ pbspk_TargetType k @ pbspk_TargetName k
     @ pbspk_Resource k"

definition service_stream :: "ServiceAggregationKey \<Rightarrow> bytes" where
  "service_stream k = PutUint64_LE (pbsk_Timestamp k)
     @ bytes_of_string (pbsk_ServiceName k @ pbsk_ServiceEnvironment k @ pbsk_ServiceLanguageName k
         @ pbsk_AgentName k)"

lemma bytes_of_string_append [simp]: "bytes_of_string (a @ b) = bytes_of_string a @ bytes_of_string b"
  by (simp add: bytes_of_string_def)

lemma HashSpan_stream:
  "streaming X \<Longrightarrow> HashSpanAggregationKey X h k = xx_Write X h (bytes_of_string (span_stream k))"
  by (simp add: HashSpanAggregationKey_def streaming_def span_stream_def)

lemma HashService_stream:
  "streaming X \<Longrightarrow> HashServiceAggregationKey X h k = xx_Write X h (service_stream k)"
  by (simp add: HashServiceAggregationKey_def streaming_def service_stream_def writeUint64_def)

end
