(* ===== verification/EventConv.thy ===== *)
theory EventConv
  imports GlobalLabels Codec Protohash
begin

text \<open>
  From events to combined metrics, the first half of \<^verbatim>\<open>aggregators/converter.go\<close>: the metrics of one
  event are collected in builders, one per partition that the hash of a group selects, and handed to a
  callback partition by partition. Builders come from a pool and may carry what an earlier event left
  in them; \<open>pool n\<close> is what the pool returns for the \<open>n\<close>-th builder of the event, \<^term>\<open>None\<close> when it is
  empty. A panic is \<^term>\<open>None\<close>.
\<close>

section \<open>Keys\<close>

definition setTransactionKey :: "APMEvent \<Rightarrow> TransactionAggregationKey" where
  "setTransactionKey e =
     (let faas = ae_Faas e;
          faasColdstart = (case faas of None \<Rightarrow> NB_Nil | Some f \<Rightarrow> ParseBoolPtr (faas_ColdStart f));
          service = ae_Service e; host = ae_Host e; tx = ae_Transaction e; cloud = ae_Cloud e
      in \<lparr>pbtk_TraceRoot = (ae_ParentId e = ''''),
          pbtk_ContainerId = getf ctr_Id [] (ae_Container e),
          pbtk_KubernetesPodName = getf k8s_PodName [] (ae_Kubernetes e),
          pbtk_ServiceVersion = getf svc_Version [] service,
          pbtk_ServiceNodeName = getf sn_Name [] (getf svc_Node None service),
          pbtk_ServiceRuntimeName = getf rt_Name [] (getf svc_Runtime None service),
          pbtk_ServiceRuntimeVersion = getf rt_Version [] (getf svc_Runtime None service),
          pbtk_ServiceLanguageVersion = getf lang_Version [] (getf svc_Language None service),
          pbtk_HostHostname = getf host_Hostname [] host,
          pbtk_HostName = getf host_Name [] host,
          pbtk_HostOsPlatform = getf os_Platform [] (getf host_Os None host),
          pbtk_EventOutcome = getf ev_Outcome [] (ae_Event e),
          pbtk_TransactionName = getf tx_Name [] tx,
          pbtk_TransactionType = getf tx_Type [] tx,
          pbtk_TransactionResult = getf tx_Result [] tx,
          pbtk_FaasColdstart = faasColdstart,
          pbtk_FaasId = getf faas_Id [] faas,
          pbtk_FaasName = getf faas_Name [] faas,
          pbtk_FaasVersion = getf faas_Version [] faas,
          pbtk_FaasTriggerType = getf faas_TriggerType [] faas,
          pbtk_CloudProvider = getf cl_Provider [] cloud,
          pbtk_CloudRegion = getf cl_Region [] cloud,
          pbtk_CloudAvailabilityZone = getf cl_AvailabilityZone [] cloud,
          pbtk_CloudServiceName = getf cl_ServiceName [] cloud,
          pbtk_CloudAccountId = getf cl_AccountId [] cloud,
          pbtk_CloudAccountName = getf cl_AccountName [] cloud,
          pbtk_CloudMachineType = getf cl_MachineType [] cloud,
          pbtk_CloudProjectId = getf cl_ProjectId [] cloud,
          pbtk_CloudProjectName = getf cl_ProjectName [] cloud\<rparr>)"

definition setServiceTransactionKey :: "APMEvent \<Rightarrow> ServiceTransactionAggregationKey" where
  "setServiceTransactionKey e = \<lparr>pbstk_TransactionType = getf tx_Type [] (ae_Transaction e)\<rparr>"

definition setSpanKey :: "APMEvent \<Rightarrow> SpanAggregationKey" where
  "setSpanKey e =
     (let target = getf svc_Target None (ae_Service e);
          destSvc = getf sp_DestinationService None (ae_Span e)
      in \<lparr>pbspk_SpanName = getf sp_Name [] (ae_Span e), pbspk_Outcome = getf ev_Outcome [] (ae_Event e),
          pbspk_TargetType = getf tgt_Type [] target, pbspk_TargetName = getf tgt_Name [] target,
          pbspk_Resource = getf ds_Resource [] destSvc\<rparr>)"

definition setDroppedSpanStatsKey :: "DroppedSpanStats \<Rightarrow> SpanAggregationKey" where
  "setDroppedSpanStatsKey dss =
     \<lparr>pbspk_SpanName = [], pbspk_Outcome = dss_Outcome dss, pbspk_TargetType = dss_ServiceTargetType dss,
      pbspk_TargetName = dss_ServiceTargetName dss, pbspk_Resource = dss_DestinationServiceResource dss\<rparr>"

section \<open>Span metrics\<close>

definition setSpanMetrics :: "APMEvent \<Rightarrow> float64 \<Rightarrow> SpanMetrics" where
  "setSpanMetrics e repCount =
     (let (count, duration) =
        (case getf sp_Composite None (ae_Span e) of
           None \<Rightarrow> (1 :: uint32, AsDuration (getf ev_Duration None (ae_Event e)))
         | Some composite \<Rightarrow>
             (comp_Count composite, sint (f64_to_int64 (fmul (comp_Sum composite) (f64_of_int Millisecond)))))
      in \<lparr>spm_Count = fmul (f64_of_int (uint count)) repCount, spm_Sum = fmul (f64_of_int duration) repCount\<rparr>)"

definition setDroppedSpanStatsMetrics :: "DroppedSpanStats \<Rightarrow> float64 \<Rightarrow> SpanMetrics" where
  "setDroppedSpanStatsMetrics dss repCount =
     \<lparr>spm_Count = fmul (f64_of_int (uint (getf ad_Count 0 (dss_Duration dss)))) repCount,
      spm_Sum = fmul (f64_of_int (AsDuration (getf ad_Sum None (dss_Duration dss)))) repCount\<rparr>"

section \<open>Builders\<close>

text \<open>
  \<^verbatim>\<open>eventMetricsBuilder\<close> holds the memory of the metrics of one partition. The two histogram
  pointers are nil or point to \<open>mb_transactionHistogram\<close>: they are truth values here. The slices are
  prefixes of the arrays: only their lengths are kept.
\<close>

record eventMetricsBuilder =
  mb_partition :: uint16
  mb_transactionHistogram :: HDRHistogram
  mb_transactionAggregationKey :: TransactionAggregationKey
  mb_transactionMetrics_Histogram :: bool
  mb_keyedTransactionMetricsSlice :: nat
  mb_serviceTransactionAggregationKey :: ServiceTransactionAggregationKey
  mb_serviceTransactionMetrics_Histogram :: bool
  mb_SuccessCount :: float64
  mb_FailureCount :: float64
  mb_keyedServiceTransactionMetricsSlice :: nat
  mb_spanAggregationKey :: "SpanAggregationKey list"
  mb_spanMetrics :: "SpanMetrics list"
  mb_keyedSpanMetricsSlice :: nat

definition zero_eventMetricsBuilder :: eventMetricsBuilder where
  "zero_eventMetricsBuilder = \<lparr>mb_partition = 0, mb_transactionHistogram = zero_HDRHistogram,
     mb_transactionAggregationKey = zero_TransactionAggregationKey, mb_transactionMetrics_Histogram = False,
     mb_keyedTransactionMetricsSlice = 0,
     mb_serviceTransactionAggregationKey = zero_ServiceTransactionAggregationKey,
     mb_serviceTransactionMetrics_Histogram = False, mb_SuccessCount = Fin 0, mb_FailureCount = Fin 0,
     mb_keyedServiceTransactionMetricsSlice = 0,
     mb_spanAggregationKey = replicate 128 zero_SpanAggregationKey,
     mb_spanMetrics = replicate 128 zero_SpanMetrics, mb_keyedSpanMetricsSlice = 0\<rparr>"

definition getEventMetricsBuilder :: "eventMetricsBuilder option \<Rightarrow> uint16 \<Rightarrow> eventMetricsBuilder" where
  "getEventMetricsBuilder pooled pid =
     (case pooled of
        Some mb \<Rightarrow>
          mb\<lparr>mb_partition := pid,
             mb_serviceTransactionMetrics_Histogram := False, mb_SuccessCount := Fin 0, mb_FailureCount := Fin 0,
             mb_transactionMetrics_Histogram := False,
             mb_spanMetrics := map (\<lambda>_. zero_SpanMetrics) (mb_spanMetrics mb),
             mb_keyedServiceTransactionMetricsSlice := 0, mb_keyedTransactionMetricsSlice := 0,
             mb_keyedSpanMetricsSlice := 0\<rparr>
      | None \<Rightarrow> zero_eventMetricsBuilder\<lparr>mb_partition := pid\<rparr>)"

record 'd partitionedMetricsBuilder =
  pm_partitions :: uint16
  pm_serviceInstanceHash :: 'd
  pm_serviceAggregationKey :: ServiceAggregationKey
  pm_serviceInstanceAggregationKey :: ServiceInstanceAggregationKey
  pm_builders :: "eventMetricsBuilder list"

definition getPartitionedMetricsBuilder ::
  "'d xxhash_ops \<Rightarrow> ServiceAggregationKey \<Rightarrow> ServiceInstanceAggregationKey \<Rightarrow> uint16 \<Rightarrow> 'd partitionedMetricsBuilder" where
  "getPartitionedMetricsBuilder X sk sik partitions =
     \<lparr>pm_partitions = partitions,
      pm_serviceInstanceHash = HashServiceInstanceAggregationKey X (HashServiceAggregationKey X (xx_Digest0 X) sk) sik,
      pm_serviceAggregationKey = sk, pm_serviceInstanceAggregationKey = sik, pm_builders = []\<rparr>"

fun builder_index :: "uint16 \<Rightarrow> eventMetricsBuilder list \<Rightarrow> nat option" where
  "builder_index pid [] = None"
| "builder_index pid (mb # mbs) =
     (if mb_partition mb = pid then Some 0 else map_option Suc (builder_index pid mbs))"

text \<open>\<^verbatim>\<open>get\<close>: the index of the builder of the partition that \<open>h\<close> selects, added when there is none.
  Reducing modulo zero partitions is a panic.\<close>

definition pm_get ::
  "'d xxhash_ops \<Rightarrow> (nat \<Rightarrow> eventMetricsBuilder option) \<Rightarrow> 'd partitionedMetricsBuilder \<Rightarrow> 'd
   \<Rightarrow> ('d partitionedMetricsBuilder \<times> nat) option" where
  "pm_get X pool p h =
     (if pm_partitions p = 0 then None
      else let pid = ucast (xx_Sum64 X h mod ucast (pm_partitions p))
           in case builder_index pid (pm_builders p) of
                Some i \<Rightarrow> Some (p, i)
              | None \<Rightarrow>
                  let n = length (pm_builders p)
                  in Some (p\<lparr>pm_builders := pm_builders p @ [getEventMetricsBuilder (pool n) pid]\<rparr>, n))"

definition set_builder :: "'d partitionedMetricsBuilder \<Rightarrow> nat \<Rightarrow> eventMetricsBuilder \<Rightarrow> 'd partitionedMetricsBuilder" where
  "set_builder p i mb = p\<lparr>pm_builders := (pm_builders p)[i := mb]\<rparr>"

section \<open>Adding metrics\<close>

definition record_histogram :: "duration \<Rightarrow> float64 \<Rightarrow> HDRHistogram \<Rightarrow> HDRHistogram" where
  "record_histogram d count pb = setHistogramProto (fst (RecordDuration hist_New d count)) pb"

definition addTransactionMetrics ::
  "'d xxhash_ops \<Rightarrow> (nat \<Rightarrow> eventMetricsBuilder option) \<Rightarrow> APMEvent \<Rightarrow> float64 \<Rightarrow> duration
   \<Rightarrow> 'd partitionedMetricsBuilder \<Rightarrow> 'd partitionedMetricsBuilder option" where
  "addTransactionMetrics X pool e count d p =
     do { let key = setTransactionKey e;
          (p, i) \<leftarrow> pm_get X pool p (HashTransactionAggregationKey X (pm_serviceInstanceHash p) key);
          let mb = pm_builders p ! i;
          Some (set_builder p i
            (mb\<lparr>mb_transactionAggregationKey := key,
                mb_transactionHistogram := record_histogram d count (mb_transactionHistogram mb),
                mb_transactionMetrics_Histogram := True,
                mb_keyedTransactionMetricsSlice := 1\<rparr>)) }"

definition addServiceTransactionMetrics ::
  "'d xxhash_ops \<Rightarrow> (nat \<Rightarrow> eventMetricsBuilder option) \<Rightarrow> APMEvent \<Rightarrow> float64 \<Rightarrow> duration
   \<Rightarrow> 'd partitionedMetricsBuilder \<Rightarrow> 'd partitionedMetricsBuilder option" where
  "addServiceTransactionMetrics X pool e count d p =
     do { let key = setServiceTransactionKey e;
          (p, i) \<leftarrow> pm_get X pool p (HashServiceTransactionAggregationKey X (pm_serviceInstanceHash p) key);
          let mb = pm_builders p ! i;
          let mb = mb\<lparr>mb_serviceTransactionAggregationKey := key\<rparr>;
          let mb = (if \<not> mb_transactionMetrics_Histogram mb
                    then mb\<lparr>mb_transactionHistogram := record_histogram d count (mb_transactionHistogram mb)\<rparr>
                    else mb);
          let outcome = getf ev_Outcome [] (ae_Event e);
          let mb = mb\<lparr>mb_serviceTransactionMetrics_Histogram := True,
                      mb_SuccessCount := (if outcome = ''success'' then count else Fin 0),
                      mb_FailureCount := (if outcome = ''failure'' then count else Fin 0)\<rparr>;
          Some (set_builder p i (mb\<lparr>mb_keyedServiceTransactionMetricsSlice := 1\<rparr>)) }"

text \<open>The writes to the arrays that both span functions end with; an index out of range is a panic.\<close>

definition store_span :: "eventMetricsBuilder \<Rightarrow> SpanAggregationKey \<Rightarrow> SpanMetrics \<Rightarrow> eventMetricsBuilder option" where
  "store_span mb key m =
     do { let i = int (mb_keyedSpanMetricsSlice mb);
          ks \<leftarrow> store_at (mb_spanAggregationKey mb) i key;
          ms \<leftarrow> store_at (mb_spanMetrics mb) i m;
          Some (mb\<lparr>mb_spanAggregationKey := ks, mb_spanMetrics := ms,
                   mb_keyedSpanMetricsSlice := Suc (mb_keyedSpanMetricsSlice mb)\<rparr>) }"

definition addDroppedSpanStatsMetrics ::
  "'d xxhash_ops \<Rightarrow> (nat \<Rightarrow> eventMetricsBuilder option) \<Rightarrow> DroppedSpanStats \<Rightarrow> float64
   \<Rightarrow> 'd partitionedMetricsBuilder \<Rightarrow> 'd partitionedMetricsBuilder option" where
  "addDroppedSpanStatsMetrics X pool dss repCount p =
     do { let key = setDroppedSpanStatsKey dss;
          (p, i) \<leftarrow> pm_get X pool p (HashSpanAggregationKey X (pm_serviceInstanceHash p) key);
          let mb = pm_builders p ! i;
          if mb_keyedSpanMetricsSlice mb = 128 then Some p
          else do { mb \<leftarrow> store_span mb key (setDroppedSpanStatsMetrics dss repCount);
                    Some (set_builder p i mb) } }"

definition addSpanMetrics ::
  "'d xxhash_ops \<Rightarrow> (nat \<Rightarrow> eventMetricsBuilder option) \<Rightarrow> APMEvent \<Rightarrow> float64
   \<Rightarrow> 'd partitionedMetricsBuilder \<Rightarrow> 'd partitionedMetricsBuilder option" where
  "addSpanMetrics X pool e repCount p =
     do { let key = setSpanKey e;
          (p, i) \<leftarrow> pm_get X pool p (HashSpanAggregationKey X (pm_serviceInstanceHash p) key);
          mb \<leftarrow> store_span (pm_builders p ! i) key (setSpanMetrics e repCount);
          Some (set_builder p i mb) }"

definition addServiceSummaryMetrics ::
  "'d xxhash_ops \<Rightarrow> (nat \<Rightarrow> eventMetricsBuilder option) \<Rightarrow> 'd partitionedMetricsBuilder
   \<Rightarrow> 'd partitionedMetricsBuilder option" where
  "addServiceSummaryMetrics X pool p = map_option fst (pm_get X pool p (pm_serviceInstanceHash p))"

fun addDroppedSpans ::
  "'d xxhash_ops \<Rightarrow> (nat \<Rightarrow> eventMetricsBuilder option) \<Rightarrow> DroppedSpanStats list \<Rightarrow> float64
   \<Rightarrow> 'd partitionedMetricsBuilder \<Rightarrow> 'd partitionedMetricsBuilder option" where
  "addDroppedSpans X pool [] repCount p = Some p"
| "addDroppedSpans X pool (dss # dsss) repCount p =
     do { p \<leftarrow> addDroppedSpanStatsMetrics X pool dss repCount p; addDroppedSpans X pool dsss repCount p }"

text \<open>The type of an event is given by a method of the event library.\<close>

definition processEvent ::
  "'d xxhash_ops \<Rightarrow> (APMEvent \<Rightarrow> APMEventType) \<Rightarrow> (nat \<Rightarrow> eventMetricsBuilder option) \<Rightarrow> APMEvent
   \<Rightarrow> 'd partitionedMetricsBuilder \<Rightarrow> 'd partitionedMetricsBuilder option" where
  "processEvent X etype pool e p =
     (case etype e of
        TransactionEventType \<Rightarrow>
          (let repCount = getf tx_RepresentativeCount (Fin 0) (ae_Transaction e)
           in if fle repCount (Fin 0) then Some p
              else let d = AsDuration (getf ev_Duration None (ae_Event e))
                   in do { p \<leftarrow> addTransactionMetrics X pool e repCount d p;
                           p \<leftarrow> addServiceTransactionMetrics X pool e repCount d p;
                           addDroppedSpans X pool (getf tx_DroppedSpansStats [] (ae_Transaction e)) repCount p })
      | SpanEventType \<Rightarrow>
          (let target = getf svc_Target None (ae_Service e);
               repCount = getf sp_RepresentativeCount (Fin 0) (ae_Span e);
               destSvc = getf ds_Resource [] (getf sp_DestinationService None (ae_Span e))
           in if fle repCount (Fin 0) \<or> target = None \<and> destSvc = '''' then Some p
              else addSpanMetrics X pool e repCount p)
      | OtherEventType \<Rightarrow> addServiceSummaryMetrics X pool p)"

section \<open>The messages of an event\<close>

definition mb_histogram :: "eventMetricsBuilder \<Rightarrow> bool \<Rightarrow> HDRHistogram option" where
  "mb_histogram mb ptr = (if ptr then Some (mb_transactionHistogram mb) else None)"

definition mb_transactions :: "eventMetricsBuilder \<Rightarrow> KeyedTransactionMetrics list" where
  "mb_transactions mb = take (mb_keyedTransactionMetricsSlice mb)
     [\<lparr>ktm_Key = Some (mb_transactionAggregationKey mb),
       ktm_Metrics = Some \<lparr>tm_Histogram = mb_histogram mb (mb_transactionMetrics_Histogram mb)\<rparr>\<rparr>]"

definition mb_serviceTransactions :: "eventMetricsBuilder \<Rightarrow> KeyedServiceTransactionMetrics list" where
  "mb_serviceTransactions mb = take (mb_keyedServiceTransactionMetricsSlice mb)
     [\<lparr>kstm_Key = Some (mb_serviceTransactionAggregationKey mb),
       kstm_Metrics = Some \<lparr>stm_Histogram = mb_histogram mb (mb_serviceTransactionMetrics_Histogram mb),
                            stm_FailureCount = mb_FailureCount mb, stm_SuccessCount = mb_SuccessCount mb\<rparr>\<rparr>]"

definition mb_spans :: "eventMetricsBuilder \<Rightarrow> KeyedSpanMetrics list" where
  "mb_spans mb = take (mb_keyedSpanMetricsSlice mb)
     (map (\<lambda>(k, m). \<lparr>kspm_Key = Some k, kspm_Metrics = Some m\<rparr>) (zip (mb_spanAggregationKey mb) (mb_spanMetrics mb)))"

definition builder_message ::
  "'d partitionedMetricsBuilder \<Rightarrow> eventMetricsBuilder \<Rightarrow> float64 \<Rightarrow> uint64 \<Rightarrow> CombinedMetrics" where
  "builder_message p mb evTotal ts =
     \<lparr>pbcm_ServiceMetrics =
        [\<lparr>ksm_Key = Some (pm_serviceAggregationKey p),
          ksm_Metrics = Some \<lparr>
            pbsm_ServiceInstanceMetrics =
              [\<lparr>ksim_Key = Some (pm_serviceInstanceAggregationKey p),
                ksim_Metrics = Some \<lparr>pbsim_TransactionMetrics = mb_transactions mb,
                  pbsim_ServiceTransactionMetrics = mb_serviceTransactions mb,
                  pbsim_SpanMetrics = mb_spans mb\<rparr>\<rparr>],
            pbsm_OverflowGroups = None\<rparr>\<rparr>],
      pbcm_OverflowServices = None, pbcm_OverflowServiceInstancesEstimator = [],
      pbcm_EventsTotal = evTotal, pbcm_YoungestEventTimestamp = ts\<rparr>"

text \<open>The pairs that the callback is called with, in order.\<close>

definition event_messages ::
  "'d xxhash_ops \<Rightarrow> (APMEvent \<Rightarrow> APMEventType) \<Rightarrow> (nat \<Rightarrow> eventMetricsBuilder option) \<Rightarrow> APMEvent
   \<Rightarrow> CombinedMetricsKey \<Rightarrow> uint16 \<Rightarrow> (CombinedMetricsKey \<times> CombinedMetrics) list option" where
  "event_messages X etype pool e unpartitionedKey partitions =
     do { globalLabels \<leftarrow> marshalEventGlobalLabels e;
          let pmb = getPartitionedMetricsBuilder X
            \<lparr>pbsk_Timestamp = TimeToPBTimestamp (Truncate (AsTime (ae_Timestamp e)) (cmk_Interval unpartitionedKey)),
             pbsk_ServiceName = getf svc_Name [] (ae_Service e),
             pbsk_ServiceEnvironment = getf svc_Environment [] (ae_Service e),
             pbsk_ServiceLanguageName = getf lang_Name [] (getf svc_Language None (ae_Service e)),
             pbsk_AgentName = getf ag_Name [] (ae_Agent e)\<rparr>
            \<lparr>pbsik_GlobalLabelsStr = globalLabels\<rparr> partitions;
          pmb \<leftarrow> processEvent X etype pool e pmb;
          let evTotal = fdiv (Fin 1) (f64_of_int (int (length (pm_builders pmb))));
          let ts = TimeToPBTimestamp (AsTime (getf ev_Received None (ae_Event e)));
          Some (map (\<lambda>mb. (unpartitionedKey\<lparr>cmk_PartitionID := mb_partition mb\<rparr>, builder_message pmb mb evTotal ts))
                  (pm_builders pmb)) }"

text \<open>
  \<^verbatim>\<open>EventToCombinedMetrics\<close> with a callback that changes a state; it goes on after an error and
  returns the errors.
\<close>

fun run_callbacks ::
  "(CombinedMetricsKey \<Rightarrow> CombinedMetrics \<Rightarrow> 's \<Rightarrow> ('s \<times> 'e option) option)
   \<Rightarrow> (CombinedMetricsKey \<times> CombinedMetrics) list \<Rightarrow> 's \<Rightarrow> ('s \<times> 'e list) option" where
  "run_callbacks callback [] s = Some (s, [])"
| "run_callbacks callback ((key, cm) # kms) s =
     do { (s, err) \<leftarrow> callback key cm s;
          (s, errs) \<leftarrow> run_callbacks callback kms s;
          Some (s, (case err of None \<Rightarrow> errs | Some err \<Rightarrow> err # errs)) }"

definition EventToCombinedMetrics ::
  "'d xxhash_ops \<Rightarrow> (APMEvent \<Rightarrow> APMEventType) \<Rightarrow> (nat \<Rightarrow> eventMetricsBuilder option) \<Rightarrow> APMEvent
   \<Rightarrow> CombinedMetricsKey \<Rightarrow> uint16
   \<Rightarrow> (CombinedMetricsKey \<Rightarrow> CombinedMetrics \<Rightarrow> 's \<Rightarrow> ('s \<times> 'e option) option)
   \<Rightarrow> 's \<Rightarrow> ('s \<times> 'e list) option" where
  "EventToCombinedMetrics X etype pool e unpartitionedKey partitions callback s =
     do { kms \<leftarrow> event_messages X etype pool e unpartitionedKey partitions;
          run_callbacks callback kms s }"

end
