(* ===== verification/KeyCodec.thy ===== *)
theory KeyCodec
  imports Models
begin

unbundle bit_operations_syntax

text \<open>
  The database key of \<^verbatim>\<open>aggregators/codec.go\<close>: 28 bytes, the interval in seconds, the processing
  time in Unix seconds, the ID and the partition, all big-endian, so that the byte order of pebble's
  default comparer is the order of interval, time, ID and partition.
\<close>

section \<open>Big-endian integers\<close>

text \<open>\<^verbatim>\<open>binary.BigEndian\<close>\<close>

definition PutUint16_BE :: "uint16 \<Rightarrow> bytes" where
  "PutUint16_BE v = map (\<lambda>i. ucast (drop_bit (8 * (1 - i)) v)) [0..<2]"

definition PutUint64_BE :: "uint64 \<Rightarrow> bytes" where
  "PutUint64_BE v = map (\<lambda>i. ucast (drop_bit (8 * (7 - i)) v)) [0..<8]"

definition be_nat :: "bytes \<Rightarrow> nat" where
  "be_nat bs = foldl (\<lambda>a b. a * 256 + unat b) 0 bs"

definition Uint16_BE :: "bytes \<Rightarrow> uint16" where
  "Uint16_BE bs = of_nat (be_nat (take 2 bs))"

definition Uint64_BE :: "bytes \<Rightarrow> uint64" where
  "Uint64_BE bs = of_nat (be_nat (take 8 bs))"

section \<open>The key\<close>

datatype key_error = IncorrectSizedBuffer | InsufficientLength

definition CombinedMetricsKeyEncodedSize :: nat where
  "CombinedMetricsKeyEncodedSize = 28"

text \<open>Writing \<open>src\<close> at an offset of a buffer, as far as there is room.\<close>

definition write_at :: "nat \<Rightarrow> bytes \<Rightarrow> bytes \<Rightarrow> bytes" where
  "write_at offset src data =
     (let n = min (length src) (length data - offset) in take offset data @ take n src @ drop (offset + n) data)"

definition MarshalBinaryToSizedBuffer :: "CombinedMetricsKey \<Rightarrow> bytes \<Rightarrow> key_error + bytes" where
  "MarshalBinaryToSizedBuffer k data =
     (let ivlSeconds = f64_to_uint16 (Seconds (cmk_Interval k))
      in if length data \<noteq> CombinedMetricsKeyEncodedSize then Inl IncorrectSizedBuffer
         else let data = write_at 0 (PutUint16_BE ivlSeconds) data;
                  data = write_at 2 (PutUint64_BE (Unix (cmk_ProcessingTime k))) data;
                  data = write_at 10 (take 16 (cmk_ID k)) data;
                  data = write_at 26 (PutUint16_BE (cmk_PartitionID k)) data
              in Inr data)"

text \<open>
  Slice expressions: behind the slice \<open>data\<close> its array has the bytes \<open>tail\<close>, up to the capacity.
  \<^verbatim>\<open>data[lo:hi]\<close> may reach into them, \<^verbatim>\<open>data[lo:]\<close> ends where the slice ends. \<^term>\<open>None\<close> is the
  panic of a slice expression or an index that is out of range.
\<close>

definition slice_range :: "bytes \<Rightarrow> bytes \<Rightarrow> nat \<Rightarrow> nat \<Rightarrow> bytes option" where
  "slice_range tail data lo hi =
     (if lo \<le> hi \<and> hi \<le> length (data @ tail) then Some (take (hi - lo) (drop lo (data @ tail))) else None)"

definition slice_from :: "bytes \<Rightarrow> nat \<Rightarrow> bytes option" where
  "slice_from data lo = (if lo \<le> length data then Some (drop lo data) else None)"

text \<open>\<^verbatim>\<open>binary.BigEndian.Uint16\<close> and \<^verbatim>\<open>Uint64\<close> access the last byte they need first.\<close>

definition read_Uint16 :: "bytes \<Rightarrow> uint16 option" where
  "read_Uint16 b = do { _ \<leftarrow> index_at b 1; Some (Uint16_BE b) }"

definition read_Uint64 :: "bytes \<Rightarrow> uint64 option" where
  "read_Uint64 b = do { _ \<leftarrow> index_at b 7; Some (Uint64_BE b) }"

definition UnmarshalBinary_in :: "bytes \<Rightarrow> bytes \<Rightarrow> (key_error + CombinedMetricsKey) option" where
  "UnmarshalBinary_in tail data =
     (if length data < 12 then Some (Inl InsufficientLength)
      else do { let offset = 0;
                b \<leftarrow> slice_range tail data offset 2;
                ivl \<leftarrow> read_Uint16 b;
                let offset = offset + 2;
                b \<leftarrow> slice_range tail data offset (offset + 8);
                secs \<leftarrow> read_Uint64 b;
                let offset = offset + 8;
                i \<leftarrow> slice_range tail data offset (offset + 16);
                let offset = offset + 16;
                b \<leftarrow> slice_from data offset;
                partitionID \<leftarrow> read_Uint16 b;
                Some (Inr \<lparr>cmk_Interval = int (unat ivl) * Second, cmk_ProcessingTime = time_Unix secs 0,
                           cmk_PartitionID = partitionID, cmk_ID = i\<rparr>) })"

text \<open>For a slice that fills its array.\<close>

definition UnmarshalBinary :: "bytes \<Rightarrow> (key_error + CombinedMetricsKey) option" where
  "UnmarshalBinary data = UnmarshalBinary_in [] data"

definition SizeBinary :: "CombinedMetricsKey \<Rightarrow> nat" where
  "SizeBinary k = CombinedMetricsKeyEncodedSize"

definition GetEncodedCombinedMetricsKeyWithoutPartitionID :: "bytes \<Rightarrow> bytes" where
  "GetEncodedCombinedMetricsKeyWithoutPartitionID src =
     (let buf = replicate CombinedMetricsKeyEncodedSize 0; n = min (length src) (CombinedMetricsKeyEncodedSize - 2)
      in take n src @ drop n buf)"

section \<open>What the reads come to\<close>

text \<open>
  The length check admits 12 bytes, the last read needs the slice to have 28, whatever its capacity.
\<close>

lemma UnmarshalBinary_in_eq:
  "UnmarshalBinary_in tail data =
     (if length data < 12 then Some (Inl InsufficientLength)
      else if length data < 28 then None
      else Some (Inr \<lparr>cmk_Interval = int (unat (Uint16_BE data)) * Second,
                      cmk_ProcessingTime = time_Unix (Uint64_BE (drop 2 data)) 0,
                      cmk_PartitionID = Uint16_BE (drop 26 data),
                      cmk_ID = take 16 (drop 10 data)\<rparr>))"
proof (cases "length data < 28")
  case True
  have "read_Uint16 b = None" if "slice_from data 26 = Some b" for b
    using True that by (auto simp: slice_from_def read_Uint16_def index_at_def split: if_splits)
  then show ?thesis using True by (auto simp: UnmarshalBinary_in_def split: bind_splits)
next
  case False
  then show ?thesis
    by (auto simp: UnmarshalBinary_in_def slice_range_def slice_from_def read_Uint16_def read_Uint64_def index_at_def
        Uint16_BE_def Uint64_BE_def numeral_2_eq_2)
qed

lemmas UnmarshalBinary_eq = UnmarshalBinary_in_eq [of "[]", folded UnmarshalBinary_def]

lemma length_write_at [simp]: "offset \<le> length data \<Longrightarrow> length (write_at offset src data) = length data"
  by (simp add: write_at_def Let_def)

lemma write_at_append:
  "length xs = offset \<Longrightarrow> length src \<le> length ys \<Longrightarrow> write_at offset src (xs @ ys) = xs @ src @ drop (length src) ys"
  by (simp add: write_at_def)

section \<open>Byte order\<close>

text \<open>\<^verbatim>\<open>bytes.Compare(a, b) < 0\<close>, the order of pebble's default comparer.\<close>

fun bytes_less :: "bytes \<Rightarrow> bytes \<Rightarrow> bool" where
  "bytes_less [] ys \<longleftrightarrow> ys \<noteq> []"
| "bytes_less (x # xs) [] \<longleftrightarrow> False"
| "bytes_less (x # xs) (y # ys) \<longleftrightarrow> x < y \<or> x = y \<and> bytes_less xs ys"

lemma be_nat_Nil [simp]: "be_nat [] = 0"
  by (simp add: be_nat_def)

lemma foldl_be: "foldl (\<lambda>a b. a * 256 + unat b) n bs = n * 256 ^ length bs + be_nat bs" for bs :: bytes
proof (induction bs arbitrary: n)
  case (Cons b bs)
  have "be_nat (b # bs) = unat b * 256 ^ length bs + be_nat bs"
    using Cons.IH [of "unat b"] by (simp add: be_nat_def)
  with Cons.IH [of "n * 256 + unat b"] show ?case by (simp add: algebra_simps)
qed simp

lemma be_nat_Cons [simp]: "be_nat (b # bs) = unat b * 256 ^ length bs + be_nat bs"
  using foldl_be [of "unat b" bs] by (simp add: be_nat_def)

lemma be_nat_append: "be_nat (xs @ ys) = be_nat xs * 256 ^ length ys + be_nat ys"
  by (induction xs) (simp_all add: algebra_simps power_add)

lemma unat_byte: "unat (b :: byte) < 256"
proof -
  have "unat b < 2 ^ LENGTH(8)" by (rule unsigned_less)
  then show ?thesis by simp
qed

lemma be_nat_less: "be_nat bs < 256 ^ length bs"
proof (induction bs)
  case (Cons b bs)
  have "unat b * 256 ^ length bs + be_nat bs < (unat b + 1) * 256 ^ length bs" using Cons by simp
  also have "\<dots> \<le> 256 * 256 ^ length bs" using unat_byte [of b] by (intro mult_right_mono) auto
  finally show ?case by simp
qed simp

text \<open>On strings of the same length the byte order is the order of the numbers.\<close>

lemma digits_less:
  fixes x y a b w :: nat
  assumes "a < w" and "b < w"
  shows "x * w + a < y * w + b \<longleftrightarrow> x < y \<or> x = y \<and> a < b"
proof -
  have "x * w + a < y * w + b" if "x < y"
  proof -
    have "(x + 1) * w \<le> y * w" using that by (intro mult_right_mono) auto
    then show ?thesis using assms(1) by simp
  qed
  moreover have "\<not> x * w + a < y * w + b" if "y < x"
  proof -
    have "(y + 1) * w \<le> x * w" using that by (intro mult_right_mono) auto
    then show ?thesis using assms(2) by simp
  qed
  ultimately show ?thesis by (metis add_less_cancel_left linorder_neqE_nat less_asym)
qed

lemma digits_eq:
  fixes x y a b w :: nat
  assumes "a < w" and "b < w"
  shows "x * w + a = y * w + b \<longleftrightarrow> x = y \<and> a = b"
  using digits_less [OF assms, of x y] digits_less [OF assms(2,1), of y x] by auto

lemma bytes_less_iff: "length xs = length ys \<Longrightarrow> bytes_less xs ys \<longleftrightarrow> be_nat xs < be_nat ys"
proof (induction xs ys rule: list_induct2)
  case (Cons x xs y ys)
  have "be_nat (x # xs) < be_nat (y # ys) \<longleftrightarrow> unat x < unat y \<or> unat x = unat y \<and> be_nat xs < be_nat ys"
    using digits_less [OF be_nat_less [of xs], of "be_nat ys" "unat x" "unat y"] be_nat_less [of ys] Cons.hyps by simp
  with Cons.IH show ?case by (simp add: word_less_nat_alt word_unat_eq_iff)
qed simp

lemma be_nat_parts: "be_nat (b # bs) div 256 ^ length bs = unat b" "be_nat (b # bs) mod 256 ^ length bs = be_nat bs"
  using be_nat_less [of bs] by simp_all

lemma be_nat_inject: "length xs = length ys \<Longrightarrow> be_nat xs = be_nat ys \<longleftrightarrow> xs = ys"
proof (induction xs ys rule: list_induct2)
  case (Cons x xs y ys)
  have "unat x = unat y \<and> be_nat xs = be_nat ys" if "be_nat (x # xs) = be_nat (y # ys)"
  proof -
    have "be_nat (x # xs) div 256 ^ length xs = be_nat (y # ys) div 256 ^ length ys"
      "be_nat (x # xs) mod 256 ^ length xs = be_nat (y # ys) mod 256 ^ length ys"
      using that Cons.hyps by (simp_all only:)
    then show ?thesis by (simp only: be_nat_parts)
  qed
  with Cons.IH show ?case by (auto simp del: be_nat_Cons dest: unsigned_word_eqI)
qed simp

section \<open>Encoded integers\<close>

lemma length_Put_BE [simp]: "length (PutUint16_BE v) = 2" "length (PutUint64_BE w) = 8"
  by (simp_all add: PutUint16_BE_def PutUint64_BE_def)

lemma unat_ucast_byte: "unat (ucast (v :: 'a::len word) :: byte) = unat v mod 256"
  by (simp add: unsigned_ucast_eq take_bit_eq_mod)

lemma unat_drop_bit: "unat (drop_bit n (v :: 'a::len word)) = unat v div 2 ^ n"
  unfolding unsigned_drop_bit_eq by (simp add: drop_bit_eq_div take_bit_nat_eq_self [OF unsigned_less])

lemma be_nat_digits:
  "be_nat (map (\<lambda>i. ucast (drop_bit (8 * (n - 1 - i)) (v :: 'a::len word))) [0..<n]) = unat v mod 256 ^ n"
proof (induction n)
  case (Suc n)
  have "map (\<lambda>i. ucast (drop_bit (8 * (Suc n - 1 - i)) v) :: byte) [0..<Suc n]
      = ucast (drop_bit (8 * n) v) # map (\<lambda>i. ucast (drop_bit (8 * (n - 1 - i)) v)) [0..<n]"
    by (simp add: upt_conv_Cons map_Suc_upt [symmetric] comp_def del: upt_Suc)
  moreover have "unat v mod 256 ^ Suc n = unat v div 256 ^ n mod 256 * 256 ^ n + unat v mod 256 ^ n"
    using mod_mult2_eq [of "unat v" "256 ^ n" 256] by (simp add: mult.commute)
  moreover have "(2 :: nat) ^ (8 * n) = 256 ^ n" by (simp add: power_mult)
  ultimately show ?case using Suc by (simp add: unat_ucast_byte unat_drop_bit)
qed simp

lemma be_nat_Put16 [simp]: "be_nat (PutUint16_BE v) = unat v"
proof -
  have "unat v < 2 ^ LENGTH(16)" by (rule unsigned_less)
  then show ?thesis using be_nat_digits [of 2 v] by (simp add: PutUint16_BE_def)
qed

lemma be_nat_Put64 [simp]: "be_nat (PutUint64_BE v) = unat v"
proof -
  have "unat v < 2 ^ LENGTH(64)" by (rule unsigned_less)
  then show ?thesis using be_nat_digits [of 8 v] by (simp add: PutUint64_BE_def)
qed

lemma Uint_BE_Put [simp]: "Uint16_BE (PutUint16_BE v @ r) = v" "Uint16_BE (PutUint16_BE v) = v"
  "Uint64_BE (PutUint64_BE w @ r) = w"
  by (simp_all add: Uint16_BE_def Uint64_BE_def)

section \<open>Keys the aggregator uses\<close>

text \<open>
  Intervals and times of whole seconds, an interval that fits 16 bits, a time after the Unix epoch
  that fits 63 bits, and an ID of 16 bytes.
\<close>

definition key_secs :: "CombinedMetricsKey \<Rightarrow> nat" where
  "key_secs k = nat (cmk_Interval k div Second)"

definition key_unix :: "CombinedMetricsKey \<Rightarrow> nat" where
  "key_unix k = nat (cmk_ProcessingTime k div Second)"

definition key_ok :: "CombinedMetricsKey \<Rightarrow> bool" where
  "key_ok k \<longleftrightarrow> cmk_Interval k = int (key_secs k) * Second \<and> key_secs k < 2 ^ 16
     \<and> cmk_ProcessingTime k = int (key_unix k) * Second \<and> key_unix k < 2 ^ 63 \<and> length (cmk_ID k) = 16"

text \<open>The bytes of a key, as they are stored.\<close>

definition enc_key :: "CombinedMetricsKey \<Rightarrow> bytes" where
  "enc_key k = PutUint16_BE (of_nat (key_secs k)) @ PutUint64_BE (of_nat (key_unix k))
     @ cmk_ID k @ PutUint16_BE (cmk_PartitionID k)"

lemma f64_to_uint16_nat:
  assumes "n < 2 ^ 16"
  shows "f64_to_uint16 (Seconds (int n * Second)) = of_nat n"
proof -
  have n: "int n < 2 ^ 16" using assms by (metis of_nat_less_iff of_nat_numeral of_nat_power)
  have "Seconds (int n * Second) = Fin (of_int (int n))" using n by (intro Seconds_whole) simp
  moreover have "cvtt 32 (Fin (of_int (int n))) = int n" using n by (simp only: cvtt.simps trunc_of_int) simp
  ultimately show ?thesis by (simp add: f64_to_uint16_def)
qed

lemma MarshalBinary_parts:
  assumes "length data = 28" and "length (cmk_ID k) = 16"
  shows "MarshalBinaryToSizedBuffer k data = Inr (PutUint16_BE (f64_to_uint16 (Seconds (cmk_Interval k)))
    @ PutUint64_BE (Unix (cmk_ProcessingTime k)) @ cmk_ID k @ PutUint16_BE (cmk_PartitionID k))"
  using assms by (simp add: MarshalBinaryToSizedBuffer_def CombinedMetricsKeyEncodedSize_def Let_def
      write_at_append [where xs = "[]", simplified] write_at_append drop_drop flip: append_assoc)

lemma MarshalBinary_length:
  "(\<exists>d. MarshalBinaryToSizedBuffer k data = Inr d) \<longleftrightarrow> length data = 28"
  by (simp add: MarshalBinaryToSizedBuffer_def CombinedMetricsKeyEncodedSize_def Let_def)

text \<open>The bytes of a decoded key are the first 28 that were read.\<close>

lemma Put_Uint16_BE:
  assumes "2 \<le> length a"
  shows "PutUint16_BE (Uint16_BE a) = take 2 a"
proof -
  have "be_nat (take 2 a) < 2 ^ 16" using be_nat_less [of "take 2 a"] assms by simp
  then have "be_nat (PutUint16_BE (Uint16_BE a)) = be_nat (take 2 a)" by (simp add: Uint16_BE_def unat_of_nat)
  with be_nat_inject [of "PutUint16_BE (Uint16_BE a)" "take 2 a"] show ?thesis using assms by simp
qed

lemma Put_Uint64_BE:
  assumes "8 \<le> length b"
  shows "PutUint64_BE (Uint64_BE b) = take 8 b"
proof -
  have "be_nat (take 8 b) < 2 ^ 64" using be_nat_less [of "take 8 b"] assms by simp
  then have "be_nat (PutUint64_BE (Uint64_BE b)) = be_nat (take 8 b)" by (simp add: Uint64_BE_def unat_of_nat)
  with be_nat_inject [of "PutUint64_BE (Uint64_BE b)" "take 8 b"] show ?thesis using assms by simp
qed

lemma Unmarshal_Marshal:
  assumes "28 \<le> length data" and "length buf = 28"
  shows "\<exists>k. UnmarshalBinary_in tail data = Some (Inr k) \<and> MarshalBinaryToSizedBuffer k buf = Inr (take 28 data)"
proof -
  define k where "k = \<lparr>cmk_Interval = int (unat (Uint16_BE data)) * Second,
    cmk_ProcessingTime = time_Unix (Uint64_BE (drop 2 data)) 0, cmk_PartitionID = Uint16_BE (drop 26 data),
    cmk_ID = take 16 (drop 10 data)\<rparr>"
  have u: "UnmarshalBinary_in tail data = Some (Inr k)" using assms(1) by (simp add: UnmarshalBinary_in_eq k_def)
  have "unat (Uint16_BE data) < 2 ^ LENGTH(16)" by (rule unsigned_less)
  then have i: "f64_to_uint16 (Seconds (cmk_Interval k)) = Uint16_BE data"
    using f64_to_uint16_nat [of "unat (Uint16_BE data)"] by (simp add: k_def)
  have t: "Unix (cmk_ProcessingTime k) = Uint64_BE (drop 2 data)" by (simp add: k_def Unix_def time_Unix_def)
  have "take 28 data = take 2 data @ take 8 (drop 2 data) @ take 16 (drop 10 data) @ take 2 (drop 26 data)"
    using take_add [of 2 26 data] take_add [of 8 18 "drop 2 data"] take_add [of 16 2 "drop 10 data"] by simp
  then show ?thesis
    using u assms MarshalBinary_parts [of buf k] i t Put_Uint16_BE [of data] Put_Uint64_BE [of "drop 2 data"]
      Put_Uint16_BE [of "drop 26 data"]
    by (intro exI [of _ k]) (simp add: k_def)
qed

lemma MarshalBinary_ok:
  assumes "key_ok k" and "length data = 28"
  shows "MarshalBinaryToSizedBuffer k data = Inr (enc_key k)"
proof -
  have k: "cmk_Interval k = int (key_secs k) * Second" "key_secs k < 2 ^ 16"
    "cmk_ProcessingTime k = int (key_unix k) * Second"
    using assms(1) by (auto simp: key_ok_def)
  have "Unix (cmk_ProcessingTime k) = of_nat (key_unix k)"
    unfolding k(3) by (simp add: Unix_def Second_def)
  moreover have "f64_to_uint16 (Seconds (cmk_Interval k)) = of_nat (key_secs k)"
    unfolding k(1) by (rule f64_to_uint16_nat [OF k(2)])
  moreover have "length (cmk_ID k) = 16" using assms(1) by (simp add: key_ok_def)
  ultimately show ?thesis
    using assms(2) by (simp add: MarshalBinary_parts enc_key_def)
qed

lemma length_enc_key [simp]: "key_ok k \<Longrightarrow> length (enc_key k) = 28"
  by (simp add: enc_key_def key_ok_def)

lemma UnmarshalBinary_enc:
  assumes "key_ok k"
  shows "UnmarshalBinary (enc_key k @ rest) = Some (Inr k)"
proof -
  have k: "cmk_Interval k = int (key_secs k) * Second" "key_secs k < 2 ^ 16"
    "cmk_ProcessingTime k = int (key_unix k) * Second" "key_unix k < 2 ^ 63" "length (cmk_ID k) = 16"
    using assms by (auto simp: key_ok_def)
  have u: "sint (of_nat (key_unix k) :: int64) = int (key_unix k)"
    using k(4) by (subst sint64_unat) (simp_all add: unat_of_nat64)
  have s: "unat (of_nat (key_secs k) :: uint16) = key_secs k"
    using k(2) by (simp add: unsigned_of_nat take_bit_nat_eq_self)
  have t: "time_Unix (of_nat (key_unix k)) 0 = cmk_ProcessingTime k"
    using u k(3) by (simp add: time_Unix_def Second_def)
  show ?thesis using k(1,5) s t by (simp add: UnmarshalBinary_eq enc_key_def)
qed

lemma be_nat_enc_key:
  assumes "key_ok k"
  shows "be_nat (enc_key k)
    = ((key_secs k * 2 ^ 64 + key_unix k) * 2 ^ 128 + be_nat (cmk_ID k)) * 2 ^ 16 + unat (cmk_PartitionID k)"
proof -
  have k: "key_secs k < 2 ^ 16" "key_unix k < 2 ^ 63" "length (cmk_ID k) = 16"
    using assms by (auto simp: key_ok_def)
  have "unat (of_nat (key_secs k) :: uint16) = key_secs k" "unat (of_nat (key_unix k) :: uint64) = key_unix k"
    using k by (simp_all add: unsigned_of_nat take_bit_nat_eq_self)
  then show ?thesis using k(3) by (simp add: enc_key_def be_nat_append algebra_simps)
qed

lemma key_parts:
  assumes "key_ok k"
  shows "key_unix k < 2 ^ 64" and "be_nat (cmk_ID k) < 2 ^ 128" and "unat (cmk_PartitionID k) < 2 ^ 16"
proof -
  show "key_unix k < 2 ^ 64" using assms by (simp add: key_ok_def)
  show "be_nat (cmk_ID k) < 2 ^ 128" using assms be_nat_less [of "cmk_ID k"] by (simp add: key_ok_def)
  have "unat (cmk_PartitionID k) < 2 ^ LENGTH(16)" by (rule unsigned_less)
  then show "unat (cmk_PartitionID k) < 2 ^ 16" by simp
qed

section \<open>Order of keys\<close>

text \<open>The order the key is designed for: by interval, time, ID and partition.\<close>

definition key_less :: "CombinedMetricsKey \<Rightarrow> CombinedMetricsKey \<Rightarrow> bool" where
  "key_less k k' \<longleftrightarrow> cmk_Interval k < cmk_Interval k' \<or> cmk_Interval k = cmk_Interval k'
     \<and> (cmk_ProcessingTime k < cmk_ProcessingTime k' \<or> cmk_ProcessingTime k = cmk_ProcessingTime k'
       \<and> (bytes_less (cmk_ID k) (cmk_ID k') \<or> cmk_ID k = cmk_ID k' \<and> cmk_PartitionID k < cmk_PartitionID k'))"

lemma key_cmp:
  assumes "key_ok k" and "key_ok k'"
  shows "cmk_Interval k < cmk_Interval k' \<longleftrightarrow> key_secs k < key_secs k'"
    and "cmk_Interval k = cmk_Interval k' \<longleftrightarrow> key_secs k = key_secs k'"
    and "cmk_ProcessingTime k < cmk_ProcessingTime k' \<longleftrightarrow> key_unix k < key_unix k'"
    and "cmk_ProcessingTime k = cmk_ProcessingTime k' \<longleftrightarrow> key_unix k = key_unix k'"
  using assms by (auto simp: key_ok_def Second_def)

lemma bytes_less_enc_key:
  assumes k: "key_ok k" and k': "key_ok k'"
  shows "bytes_less (enc_key k) (enc_key k') \<longleftrightarrow> key_less k k'"
proof -
  have len: "length (cmk_ID k) = length (cmk_ID k')" using k k' by (simp add: key_ok_def)
  have "bytes_less (enc_key k) (enc_key k') \<longleftrightarrow> be_nat (enc_key k) < be_nat (enc_key k')"
    using k k' by (intro bytes_less_iff) simp
  also have "\<dots> \<longleftrightarrow> key_secs k < key_secs k' \<or> key_secs k = key_secs k' \<and>
      (key_unix k < key_unix k' \<or> key_unix k = key_unix k' \<and>
        (be_nat (cmk_ID k) < be_nat (cmk_ID k') \<or> be_nat (cmk_ID k) = be_nat (cmk_ID k')
          \<and> unat (cmk_PartitionID k) < unat (cmk_PartitionID k')))"
    unfolding be_nat_enc_key [OF k] be_nat_enc_key [OF k']
      digits_less [OF key_parts(3) [OF k] key_parts(3) [OF k']]
      digits_less [OF key_parts(2) [OF k] key_parts(2) [OF k']]
      digits_less [OF key_parts(1) [OF k] key_parts(1) [OF k']]
    using key_parts(1,2) [OF k] key_parts(1,2) [OF k'] digits_eq [OF key_parts(1) [OF k] key_parts(1) [OF k']]
      digits_eq [OF key_parts(2) [OF k] key_parts(2) [OF k']] by auto
  finally show ?thesis
    by (simp add: key_less_def key_cmp [OF k k'] bytes_less_iff [OF len] be_nat_inject [OF len] word_less_nat_alt)
qed

text \<open>
  The bounds of \<^verbatim>\<open>harvestForInterval\<close>: keys with the zero ID and partition at the start and the end
  of an interval.
\<close>

definition bound_key :: "duration \<Rightarrow> gotime \<Rightarrow> CombinedMetricsKey" where
  "bound_key ivl t = \<lparr>cmk_Interval = ivl, cmk_ProcessingTime = t, cmk_PartitionID = 0, cmk_ID = replicate 16 0\<rparr>"

lemma be_nat_replicate_0 [simp]: "be_nat (replicate n 0) = 0"
  by (induction n) simp_all

lemma not_key_less_bound:
  assumes "key_ok k" and "key_ok (bound_key ivl t)"
  shows "key_less k (bound_key ivl t)
    \<longleftrightarrow> cmk_Interval k < ivl \<or> cmk_Interval k = ivl \<and> cmk_ProcessingTime k < t"
proof -
  have "length (cmk_ID k) = length (replicate 16 (0 :: byte))" using assms(1) by (simp add: key_ok_def)
  from bytes_less_iff [OF this] show ?thesis
    by (auto simp: key_less_def bound_key_def)
qed

lemma harvest_range:
  assumes "key_ok k" and "key_ok (bound_key ivl start)" and "key_ok (bound_key ivl stop)"
  shows "\<not> bytes_less (enc_key k) (enc_key (bound_key ivl start))
      \<and> bytes_less (enc_key k) (enc_key (bound_key ivl stop))
    \<longleftrightarrow> cmk_Interval k = ivl \<and> start \<le> cmk_ProcessingTime k \<and> cmk_ProcessingTime k < stop"
  using assms by (auto simp: bytes_less_enc_key not_key_less_bound)

lemma strip_partition:
  assumes "key_ok k"
  shows "GetEncodedCombinedMetricsKeyWithoutPartitionID (enc_key k) = enc_key (k\<lparr>cmk_PartitionID := 0\<rparr>)"
proof -
  have "PutUint16_BE 0 = replicate 2 0" by (simp add: PutUint16_BE_def upt_rec numeral_2_eq_2)
  moreover have "length (cmk_ID k) = 16" using assms by (simp add: key_ok_def)
  ultimately show ?thesis
    by (simp add: GetEncodedCombinedMetricsKeyWithoutPartitionID_def CombinedMetricsKeyEncodedSize_def enc_key_def
        key_secs_def key_unix_def)
qed

end
