(* ===== verification/Config.thy ===== *)
theory Config
  imports Models
begin

text \<open>
  Configuration, \<^verbatim>\<open>aggregators/config.go\<close>. The processor and the telemetry handles (attributes,
  meter, tracer, logger) belong to the embedding program: they are values of type parameters, and
  what \<^verbatim>\<open>defaultCfg\<close> takes from the otel and zap packages is an argument. A panic is
  \<^term>\<open>None\<close>.
\<close>

section \<open>Data\<close>

record ('p, 'kv, 'h) Config =
  cfg_DataDir :: string
  cfg_Limits :: Limits
  cfg_Processor :: "'p option"
  cfg_Partitions :: uint16
  cfg_AggregationIntervals :: "duration list"
  cfg_HarvestDelay :: duration
  cfg_CombinedMetricsIDToKVs :: "bytes \<Rightarrow> 'kv list"
  cfg_InMemory :: bool
  cfg_Meter :: 'h
  cfg_Tracer :: 'h
  cfg_Logger :: 'h

datatype config_error =
    DataDirRequired
  | ProcessorRequired
  | PartitionsZero
  | NoAggregationInterval
  | IntervalsNotAscending
  | IntervalsNotFactor
  | IntervalTooSmall
  | IntervalTooLarge

text \<open>The values of the libraries' globals that \<^verbatim>\<open>defaultCfg\<close> picks up.\<close>

record ('p, 'h) cfg_globals =
  gl_stdoutProcessor :: 'p
  gl_Meter :: 'h
  gl_Tracer :: 'h
  gl_Logger :: 'h

definition zero_Limits :: Limits where
  "zero_Limits = \<lparr>MaxServices = 0, MaxServiceInstanceGroupsPerService = 0, MaxSpanGroups = 0,
     MaxSpanGroupsPerService = 0, MaxTransactionGroups = 0, MaxTransactionGroupsPerService = 0,
     MaxServiceTransactionGroups = 0, MaxServiceTransactionGroupsPerService = 0\<rparr>"

definition defaultCfg :: "('p, 'h) cfg_globals \<Rightarrow> ('p, 'kv, 'h) Config" where
  "defaultCfg G = \<lparr>cfg_DataDir = ''/tmp'', cfg_Limits = zero_Limits, cfg_Processor = Some (gl_stdoutProcessor G),
     cfg_Partitions = 1, cfg_AggregationIntervals = [Minute], cfg_HarvestDelay = 0,
     cfg_CombinedMetricsIDToKVs = (\<lambda>_. []), cfg_InMemory = False,
     cfg_Meter = gl_Meter G, cfg_Tracer = gl_Tracer G, cfg_Logger = gl_Logger G\<rparr>"

section \<open>Options\<close>

type_synonym ('p, 'kv, 'h) Option = "('p, 'kv, 'h) Config \<Rightarrow> ('p, 'kv, 'h) Config"

definition WithDataDir :: "string \<Rightarrow> ('p, 'kv, 'h) Option" where
  "WithDataDir dataDir c = c\<lparr>cfg_DataDir := dataDir\<rparr>"

definition WithLimits :: "Limits \<Rightarrow> ('p, 'kv, 'h) Option" where
  "WithLimits lims c = c\<lparr>cfg_Limits := lims\<rparr>"

definition WithProcessor :: "'p option \<Rightarrow> ('p, 'kv, 'h) Option" where
  "WithProcessor processor c = c\<lparr>cfg_Processor := processor\<rparr>"

definition WithPartitions :: "uint16 \<Rightarrow> ('p, 'kv, 'h) Option" where
  "WithPartitions n c = c\<lparr>cfg_Partitions := n\<rparr>"

definition WithAggregationIntervals :: "duration list \<Rightarrow> ('p, 'kv, 'h) Option" where
  "WithAggregationIntervals aggIvls c = c\<lparr>cfg_AggregationIntervals := aggIvls\<rparr>"

definition WithHarvestDelay :: "duration \<Rightarrow> ('p, 'kv, 'h) Option" where
  "WithHarvestDelay delay c = c\<lparr>cfg_HarvestDelay := delay\<rparr>"

definition WithMeter :: "'h \<Rightarrow> ('p, 'kv, 'h) Option" where
  "WithMeter meter c = c\<lparr>cfg_Meter := meter\<rparr>"

definition WithTracer :: "'h \<Rightarrow> ('p, 'kv, 'h) Option" where
  "WithTracer tracer c = c\<lparr>cfg_Tracer := tracer\<rparr>"

definition WithCombinedMetricsIDToKVs :: "(bytes \<Rightarrow> 'kv list) \<Rightarrow> ('p, 'kv, 'h) Option" where
  "WithCombinedMetricsIDToKVs f c = c\<lparr>cfg_CombinedMetricsIDToKVs := f\<rparr>"

definition WithLogger :: "'h \<Rightarrow> ('p, 'kv, 'h) Option" where
  "WithLogger logger c = c\<lparr>cfg_Logger := logger\<rparr>"

definition WithInMemory :: "bool \<Rightarrow> ('p, 'kv, 'h) Option" where
  "WithInMemory enabled c = c\<lparr>cfg_InMemory := enabled\<rparr>"

section \<open>Validation\<close>

text \<open>\<^verbatim>\<open>sort.SliceIsSorted\<close>: from the back, no element is less than its predecessor.\<close>

definition SliceIsSorted :: "('a \<Rightarrow> 'a \<Rightarrow> bool) \<Rightarrow> 'a list \<Rightarrow> bool" where
  "SliceIsSorted lt xs \<longleftrightarrow> list_all (\<lambda>i. \<not> lt (xs ! i) (xs ! (i - 1))) (rev [1..<length xs])"

text \<open>The loop over the intervals after the first; Go's \<^verbatim>\<open>%\<close> panics on a zero divisor.\<close>

fun check_multiples :: "duration \<Rightarrow> duration list \<Rightarrow> (config_error + unit) option" where
  "check_multiples lowest [] = Some (Inr ())"
| "check_multiples lowest (ivl # ivls) =
     (if lowest = 0 then None
      else if ivl smod lowest \<noteq> 0 then Some (Inl IntervalsNotFactor)
      else check_multiples lowest ivls)"

definition validateCfg :: "('p, 'kv, 'h) Config \<Rightarrow> (config_error + unit) option" where
  "validateCfg cfg =
     (if cfg_DataDir cfg = '''' then Some (Inl DataDirRequired)
      else if cfg_Processor cfg = None then Some (Inl ProcessorRequired)
      else if cfg_Partitions cfg = 0 then Some (Inl PartitionsZero)
      else if length (cfg_AggregationIntervals cfg) = 0 then Some (Inl NoAggregationInterval)
      else if \<not> SliceIsSorted (<) (cfg_AggregationIntervals cfg) then Some (Inl IntervalsNotAscending)
      else let lowest = hd (cfg_AggregationIntervals cfg); highest = last (cfg_AggregationIntervals cfg)
           in (case check_multiples lowest (tl (cfg_AggregationIntervals cfg)) of
                 None \<Rightarrow> None
               | Some (Inl e) \<Rightarrow> Some (Inl e)
               | Some (Inr _) \<Rightarrow>
                   if lowest < Second then Some (Inl IntervalTooSmall)
                   else if highest > 18 * Hour then Some (Inl IntervalTooLarge)
                   else Some (Inr ())))"

text \<open>The configuration is returned also with an error; a panic returns nothing.\<close>

definition NewConfig ::
  "('p, 'h) cfg_globals \<Rightarrow> ('p, 'kv, 'h) Option list
   \<Rightarrow> (('p, 'kv, 'h) Config \<times> (config_error + unit)) option" where
  "NewConfig G opts =
     (let cfg = fold (\<lambda>opt cfg. opt cfg) opts (defaultCfg G)
      in case validateCfg cfg of None \<Rightarrow> None | Some r \<Rightarrow> Some (cfg, r))"

section \<open>What validation establishes\<close>

lemma SliceIsSorted_sorted: "SliceIsSorted (<) xs \<longleftrightarrow> sorted xs" for xs :: "'a::linorder list"
proof
  assume "SliceIsSorted (<) xs"
  then have "xs ! i \<le> xs ! Suc i" if "Suc i < length xs" for i
    using that by (auto simp: SliceIsSorted_def list_all_iff dest: bspec [of _ _ "Suc i"])
  then show "sorted xs" by (simp add: sorted_iff_nth_Suc)
next
  assume "sorted xs"
  then show "SliceIsSorted (<) xs"
    by (auto simp: SliceIsSorted_def list_all_iff not_less intro: sorted_nth_mono)
qed

lemma smod_zero_iff: "a smod b = 0 \<longleftrightarrow> b dvd a" for a b :: int
  by (auto simp: signed_modulo_int_def sgn_0_0 simp flip: dvd_eq_mod_eq_0)

lemma check_multiples_ok:
  "lowest \<noteq> 0 \<Longrightarrow> check_multiples lowest ivls
     = Some (if \<forall>ivl \<in> set ivls. lowest dvd ivl then Inr () else Inl IntervalsNotFactor)"
  by (induction ivls) (auto simp: smod_zero_iff)

end
