(* ===== verification/CachedEvents.thy ===== *)
theory CachedEvents
  imports Models
begin

text \<open>
  The counts of cached events, \<^verbatim>\<open>aggregators/cachedeventsmap.go\<close>, keyed by interval and ID. A count
  is a \<^verbatim>\<open>uint64\<close> scaled by the largest number of partitions. \<^verbatim>\<open>add\<close> is called under the
  aggregator's lock, so the map is a plain map here; the pool of counters only recycles memory.
\<close>

record cachedEventsStatsKey =
  ck_interval :: duration
  ck_id :: bytes

type_synonym cachedEventsMap = "(cachedEventsStatsKey, uint64) gomap"

definition MaxUint16 :: nat where
  "MaxUint16 = 65535"

definition scaled :: "float64 \<Rightarrow> uint64" where
  "scaled n = f64_to_uint64 (fmul n (Fin (of_nat MaxUint16)))"

definition ce_add :: "cachedEventsMap \<Rightarrow> duration \<Rightarrow> bytes \<Rightarrow> float64 \<Rightarrow> cachedEventsMap" where
  "ce_add m interval i n =
     (let nscaled = scaled n; key = \<lparr>ck_interval = interval, ck_id = i\<rparr>
      in case gm_get m key of
           None \<Rightarrow> gm_put m key nscaled
         | Some old \<Rightarrow> gm_put m key (old + nscaled))"

text \<open>
  \<^verbatim>\<open>loadAndDelete\<close> visits the entries in the order of the map, moves those whose interval ends at
  \<open>stop\<close> to the result and deletes them.
\<close>

definition unscaled :: "uint64 \<Rightarrow> float64" where
  "unscaled v = f64_of_int (uint (v div of_nat MaxUint16))"

definition ce_load ::
  "gotime \<Rightarrow> cachedEventsStatsKey \<times> uint64 \<Rightarrow> cachedEventsMap \<times> (duration, (bytes, float64) gomap) gomap
   \<Rightarrow> cachedEventsMap \<times> (duration, (bytes, float64) gomap) gomap" where
  "ce_load stop kv acc =
     (let (k, v) = kv; (m, loaded) = acc
      in if Truncate stop (ck_interval k) \<noteq> stop then acc
         else let intervalMetrics = (case gm_get loaded (ck_interval k) of None \<Rightarrow> [] | Some im \<Rightarrow> im)
              in (AList.delete k m, gm_put loaded (ck_interval k) (gm_put intervalMetrics (ck_id k) (unscaled v))))"

definition ce_loadAndDelete ::
  "cachedEventsMap \<Rightarrow> gotime \<Rightarrow> cachedEventsMap \<times> (duration, (bytes, float64) gomap) gomap" where
  "ce_loadAndDelete m stop = fold (ce_load stop) m (m, [])"

section \<open>Counting\<close>

text \<open>What the map holds for a key: the scaled count, zero when the key is absent.\<close>

definition ce_count :: "cachedEventsMap \<Rightarrow> duration \<Rightarrow> bytes \<Rightarrow> uint64" where
  "ce_count m interval i = (case gm_get m \<lparr>ck_interval = interval, ck_id = i\<rparr> of None \<Rightarrow> 0 | Some v \<Rightarrow> v)"

lemma ce_add_ok [simp]: "gm_ok m \<Longrightarrow> gm_ok (ce_add m ivl i n)"
  by (simp add: ce_add_def Let_def split: option.splits)

lemma ce_count_add:
  "ce_count (ce_add m ivl i n) ivl' i'
     = ce_count m ivl' i' + (if ivl' = ivl \<and> i' = i then scaled n else 0)"
  by (auto simp: ce_count_def ce_add_def Let_def gomap_simps split: option.splits)

lemma f64_to_uint64_of_nat:
  assumes "n \<le> 2 ^ 53"
  shows "f64_to_uint64 (Fin (of_nat n)) = of_nat n"
proof -
  have "flt (Fin (of_nat n)) (Fin (2 ^ 63))"
  proof -
    have "rat_of_nat n \<le> 2 ^ 53" using assms by (metis of_nat_le_iff of_nat_numeral of_nat_power)
    then show ?thesis by simp
  qed
  moreover have "cvtt 64 (Fin (of_int (int n))) = int n"
  proof -
    have "int n \<le> 2 ^ 53" using assms by (metis of_nat_le_iff of_nat_numeral of_nat_power)
    then show ?thesis by (simp only: cvtt.simps trunc_of_int) simp
  qed
  ultimately show ?thesis by (simp add: f64_to_uint64_def)
qed

text \<open>A whole count below \<open>2 ^ 37\<close> scales exactly.\<close>

lemma scaled_of_nat:
  assumes "n < 2 ^ 37"
  shows "scaled (Fin (of_nat n)) = of_nat (n * MaxUint16)"
proof -
  have le: "n * MaxUint16 \<le> 2 ^ 53" using assms by (simp add: MaxUint16_def)
  then have "\<bar>int n * int MaxUint16\<bar> \<le> 2 ^ 53"
    by (metis abs_of_nat of_nat_le_iff of_nat_mult of_nat_numeral of_nat_power)
  then have "fmul (Fin (of_nat n)) (Fin (of_nat MaxUint16)) = Fin (of_nat (n * MaxUint16))"
    using fmul_ints [of "int n" "int MaxUint16"] by simp
  then show ?thesis using f64_to_uint64_of_nat [OF le] by (simp add: scaled_def)
qed

lemma unscaled_of_nat:
  assumes "n < 2 ^ 37"
  shows "unscaled (of_nat (n * MaxUint16)) = Fin (of_nat n)"
proof -
  have "n * MaxUint16 < 2 ^ 64" using assms by (simp add: MaxUint16_def)
  then have "unat (of_nat (n * MaxUint16) :: uint64) = n * MaxUint16" by (rule unat_of_nat64)
  moreover have "unat (of_nat MaxUint16 :: uint64) = MaxUint16" by (rule unat_of_nat64) (simp add: MaxUint16_def)
  ultimately have "unat ((of_nat (n * MaxUint16) :: uint64) div of_nat MaxUint16) = n"
    by (simp add: unat_div MaxUint16_def del: of_nat_mult)
  then have "uint ((of_nat (n * MaxUint16) :: uint64) div of_nat MaxUint16) = int n" by (simp only: uint_nat)
  moreover have "\<bar>int n\<bar> \<le> 2 ^ 53"
  proof -
    have "n \<le> 2 ^ 53" using assms by simp
    then show ?thesis by (metis abs_of_nat of_nat_le_iff of_nat_numeral of_nat_power)
  qed
  ultimately show ?thesis using f64_of_int_exact [of "int n"] by (simp add: unscaled_def)
qed

section \<open>Loading\<close>

lemma fold_ce_load:
  "gm_ok kvs \<Longrightarrow> gm_ok m \<Longrightarrow> fold (ce_load stop) kvs (m, loaded) = (m', loaded') \<Longrightarrow>
     (\<forall>k. gm_get m' k = (if k \<in> fst ` set kvs \<and> Truncate stop (ck_interval k) = stop then None else gm_get m k))
     \<and> (\<forall>ivl i. (case gm_get loaded' ivl of None \<Rightarrow> None | Some im \<Rightarrow> gm_get im i)
          = (if Truncate stop ivl = stop \<and> gm_get kvs \<lparr>ck_interval = ivl, ck_id = i\<rparr> \<noteq> None
             then map_option unscaled (gm_get kvs \<lparr>ck_interval = ivl, ck_id = i\<rparr>)
             else (case gm_get loaded ivl of None \<Rightarrow> None | Some im \<Rightarrow> gm_get im i)))"
proof (induction kvs arbitrary: m loaded)
  case (Cons kv kvs)
  obtain k v where kv: "kv = (k, v)" by (cases kv)
  obtain m1 l1 where 1: "ce_load stop kv (m, loaded) = (m1, l1)" by (cases "ce_load stop kv (m, loaded)")
  have kvs: "gm_ok kvs" "k \<notin> fst ` set kvs" using Cons.prems(1) by (auto simp: gm_ok_def kv)
  have get1: "gm_get m1 k' = (if k' = k \<and> Truncate stop (ck_interval k) = stop then None else gm_get m k')" for k'
    using 1 by (auto simp: ce_load_def kv Let_def delete_conv' split: if_splits)
  have ok1: "gm_ok m1"
    using 1 Cons.prems(2) by (auto simp: ce_load_def kv Let_def gm_ok_def distinct_delete split: if_splits)
  have l1: "(case gm_get l1 ivl of None \<Rightarrow> None | Some im \<Rightarrow> gm_get im i)
      = (if Truncate stop ivl = stop \<and> k = \<lparr>ck_interval = ivl, ck_id = i\<rparr> then Some (unscaled v)
         else (case gm_get loaded ivl of None \<Rightarrow> None | Some im \<Rightarrow> gm_get im i))" for ivl i
    using 1 by (cases k) (auto simp: ce_load_def kv Let_def gomap_simps split: if_splits option.splits)
  have none: "gm_get kvs k = None" using kvs(2) by (simp add: map_of_eq_None_iff)
  have "fold (ce_load stop) kvs (m1, l1) = (m', loaded')" using Cons.prems(3) 1 by simp
  from Cons.IH [OF kvs(1) ok1 this] show ?case
    using none by (auto simp: get1 l1 kv)
qed simp

end
