(* ===== verification/HistMerge.thy ===== *)
theory HistMerge
  imports Models
begin

text \<open>
  \<^verbatim>\<open>mergeHistogram\<close> of \<^verbatim>\<open>aggregators/merger.go\<close>: the in-place merge of two histograms in
  their wire form, parallel slices of buckets and counts sorted by bucket. It finds where the
  merge starts by binary search, counts the buckets of the result, grows both slices and fills
  them from the back. \<^term>\<open>None\<close> is a panic. The slots that growing exposes hold whatever the
  backing arrays held before: the parameters \<open>jb\<close> and \<open>jc\<close> give those stale contents.
  The result is shown to be the sorted merge with pointwise added counts.
\<close>

section \<open>The code\<close>

text \<open>\<^verbatim>\<open>slices.Grow(xs, n - len(xs))[:n]\<close>: growing by a negative amount panics.\<close>

definition grow_to :: "(nat \<Rightarrow> 'a) \<Rightarrow> 'a list \<Rightarrow> int \<Rightarrow> 'a list option" where
  "grow_to junk xs n =
     (if n < int (length xs) then None
      else Some (xs @ map junk [length xs ..< nat n]))"

text \<open>\<^verbatim>\<open>copy(dst[lo:hi], src[0:m])\<close>\<close>

definition copy_slice :: "'a list \<Rightarrow> int \<Rightarrow> int \<Rightarrow> 'a list \<Rightarrow> int \<Rightarrow> 'a list option" where
  "copy_slice dst lo hi src m =
     (if 0 \<le> lo \<and> lo \<le> hi \<and> hi \<le> int (length dst) \<and> 0 \<le> m \<and> m \<le> int (length src)
      then let n = min (nat (hi - lo)) (nat m)
           in Some (take (nat lo) dst @ take n src @ drop (nat lo + n) dst)
      else None)"

text \<open>The loop that counts the buckets of the result.\<close>

function required_len :: "int32 list \<Rightarrow> int32 list \<Rightarrow> nat \<Rightarrow> nat \<Rightarrow> int \<Rightarrow> int" where
  "required_len toB fromB toIdx fromIdx requiredLen =
     (if toIdx < length toB \<and> fromIdx < length fromB
      then let v = toB ! toIdx - fromB ! fromIdx
           in if v = 0 then required_len toB fromB (Suc toIdx) (Suc fromIdx) (requiredLen - 1)
              else if sint v < 0 then required_len toB fromB (Suc toIdx) fromIdx requiredLen
              else required_len toB fromB toIdx (Suc fromIdx) requiredLen
      else requiredLen)"
  by pat_completeness auto
termination
  by (relation "measure (\<lambda>(toB, fromB, i, j, r). (length toB - i) + (length fromB - j))") auto

declare required_len.simps [simp del]

text \<open>The loop that fills the grown slices from the back; the first argument is
  \<^verbatim>\<open>idx + 1\<close>.\<close>

fun fill_back ::
  "nat \<Rightarrow> nat \<Rightarrow> int32 list \<Rightarrow> int64 list \<Rightarrow> int32 list \<Rightarrow> int64 list \<Rightarrow> int \<Rightarrow> int
   \<Rightarrow> (int32 list \<times> int64 list) option" where
  "fill_back 0 startToIdx toB toC fromB fromC toIdx fromIdx = Some (toB, toC)"
| "fill_back (Suc idx) startToIdx toB toC fromB fromC toIdx fromIdx =
     (if fromIdx < 0 then Some (toB, toC)
      else if toIdx < int startToIdx then
        do { toC \<leftarrow> copy_slice toC (int startToIdx) (int idx + 1) fromC (fromIdx + 1);
             toB \<leftarrow> copy_slice toB (int startToIdx) (int idx + 1) fromB (fromIdx + 1);
             Some (toB, toC) }
      else
        do { tb \<leftarrow> index_at toB toIdx;
             fb \<leftarrow> index_at fromB fromIdx;
             if tb - fb = 0 then
               do { tc \<leftarrow> index_at toC toIdx;
                    fc \<leftarrow> index_at fromC fromIdx;
                    toC \<leftarrow> store_at toC (int idx) (tc + fc);
                    toB \<leftarrow> store_at toB (int idx) tb;
                    fill_back idx startToIdx toB toC fromB fromC (toIdx - 1) (fromIdx - 1) }
             else if sint (tb - fb) > 0 then
               do { tc \<leftarrow> index_at toC toIdx;
                    toC \<leftarrow> store_at toC (int idx) tc;
                    toB \<leftarrow> store_at toB (int idx) tb;
                    fill_back idx startToIdx toB toC fromB fromC (toIdx - 1) fromIdx }
             else
               do { fc \<leftarrow> index_at fromC fromIdx;
                    toC \<leftarrow> store_at toC (int idx) fc;
                    toB \<leftarrow> store_at toB (int idx) fb;
                    fill_back idx startToIdx toB toC fromB fromC toIdx (fromIdx - 1) } })"

definition mergeHistogram ::
  "(nat \<Rightarrow> int32) \<Rightarrow> (nat \<Rightarrow> int64) \<Rightarrow> HDRHistogram \<Rightarrow> HDRHistogram \<Rightarrow> HDRHistogram option" where
  "mergeHistogram jb jc to from =
     (if length (hdr_Buckets from) = 0 then Some to
      else if length (hdr_Buckets to) = 0 then
        Some (to\<lparr>hdr_Buckets := hdr_Buckets to @ hdr_Buckets from,
                 hdr_Counts := hdr_Counts to @ hdr_Counts from\<rparr>)
      else
        let (startToIdx, found) =
              sort_Find (length (hdr_Buckets to))
                (\<lambda>i. sint (hdr_Buckets from ! 0 - hdr_Buckets to ! i))
        in if found \<and> length (hdr_Buckets from) = 1 then
             do { tc \<leftarrow> index_at (hdr_Counts to) (int startToIdx);
                  fc \<leftarrow> index_at (hdr_Counts from) 0;
                  cs \<leftarrow> store_at (hdr_Counts to) (int startToIdx) (tc + fc);
                  Some (to\<lparr>hdr_Counts := cs\<rparr>) }
           else
             let requiredLen =
                   required_len (hdr_Buckets to) (hdr_Buckets from) startToIdx 0
                     (int (length (hdr_Buckets to)) + int (length (hdr_Buckets from)));
                 toIdx = int (length (hdr_Buckets to)) - 1;
                 fromIdx = int (length (hdr_Buckets from)) - 1
             in do { toB \<leftarrow> grow_to jb (hdr_Buckets to) requiredLen;
                     toC \<leftarrow> grow_to jc (hdr_Counts to) requiredLen;
                     (toB, toC) \<leftarrow> fill_back (length toB) startToIdx toB toC
                         (hdr_Buckets from) (hdr_Counts from) toIdx fromIdx;
                     Some (to\<lparr>hdr_Buckets := toB, hdr_Counts := toC\<rparr>) })"

section \<open>The reference merge\<close>

type_synonym bars = "(int32 \<times> int64) list"

fun merge_bars :: "bars \<Rightarrow> bars \<Rightarrow> bars" where
  "merge_bars [] ys = ys"
| "merge_bars xs [] = xs"
| "merge_bars (x # xs) (y # ys) =
     (if fst x = fst y then (fst x, snd x + snd y) # merge_bars xs ys
      else if sint (fst x) < sint (fst y) then x # merge_bars xs (y # ys)
      else y # merge_bars (x # xs) ys)"

definition bars_sorted :: "bars \<Rightarrow> bool" where
  "bars_sorted xs \<longleftrightarrow> sorted_wrt (\<lambda>x y. sint (fst x) < sint (fst y)) xs"

definition hdr_bars :: "HDRHistogram \<Rightarrow> bars" where
  "hdr_bars h = zip (hdr_Buckets h) (hdr_Counts h)"

text \<open>Well-formed: slices of one length, buckets strictly increasing and not negative.\<close>

definition hdr_ok :: "HDRHistogram \<Rightarrow> bool" where
  "hdr_ok h \<longleftrightarrow> length (hdr_Counts h) = length (hdr_Buckets h) \<and> bars_sorted (hdr_bars h)
     \<and> (\<forall>b \<in> set (hdr_Buckets h). 0 \<le> sint b)"

text \<open>The abstraction: the count of every bucket.\<close>

definition bars_at :: "bars \<Rightarrow> int32 \<Rightarrow> int64" where
  "bars_at xs b = sum_list (map snd (filter (\<lambda>x. fst x = b) xs))"

definition hdr_count :: "HDRHistogram \<Rightarrow> int32 \<Rightarrow> int64" where
  "hdr_count h = bars_at (hdr_bars h)"

definition hdr_total :: "HDRHistogram \<Rightarrow> int64" where
  "hdr_total h = sum_list (map snd (hdr_bars h))"

lemma merge_bars_Nil2 [simp]: "merge_bars xs [] = xs"
  by (cases xs) auto

lemma bars_at_Nil [simp]: "bars_at [] b = 0"
  by (simp add: bars_at_def)

lemma bars_at_Cons [simp]: "bars_at (x # xs) b = (if fst x = b then snd x else 0) + bars_at xs b"
  by (simp add: bars_at_def)

lemma bars_at_merge: "bars_at (merge_bars xs ys) b = bars_at xs b + bars_at ys b"
  by (induction xs ys rule: merge_bars.induct) auto

lemma sum_merge_bars:
  "sum_list (map snd (merge_bars xs ys)) = sum_list (map snd xs) + sum_list (map snd ys)"
  by (induction xs ys rule: merge_bars.induct) (auto simp: algebra_simps)

lemma fst_merge_bars: "fst ` set (merge_bars xs ys) = fst ` set xs \<union> fst ` set ys"
  by (induction xs ys rule: merge_bars.induct) auto

lemma merge_bars_sorted:
  "bars_sorted xs \<Longrightarrow> bars_sorted ys \<Longrightarrow> bars_sorted (merge_bars xs ys)"
proof (induction xs ys rule: merge_bars.induct)
  case (3 x xs y ys)
  have mem: "P (fst z)" if "z \<in> set (merge_bars us vs)" "\<forall>b \<in> fst ` set us \<union> fst ` set vs. P b"
    for us vs z and P :: "int32 \<Rightarrow> bool"
    using that fst_merge_bars [of us vs] by (metis imageI)
  have xs: "bars_sorted xs" "\<forall>z \<in> set xs. sint (fst x) < sint (fst z)"
    and ys: "bars_sorted ys" "\<forall>z \<in> set ys. sint (fst y) < sint (fst z)"
    using "3.prems" by (auto simp: bars_sorted_def)
  consider "fst x = fst y" | "fst x \<noteq> fst y" "sint (fst x) < sint (fst y)"
    | "fst x \<noteq> fst y" "sint (fst y) < sint (fst x)"
    using sint_less_total by blast
  then show ?case
  proof cases
    case 1
    then have "\<forall>z \<in> set (merge_bars xs ys). sint (fst x) < sint (fst z)"
      using mem [of _ xs ys "\<lambda>b. sint (fst x) < sint b"] xs ys by auto
    with 1 "3.IH"(1) xs ys show ?thesis by (simp add: bars_sorted_def)
  next
    case 2
    then have "\<forall>z \<in> set (merge_bars xs (y # ys)). sint (fst x) < sint (fst z)"
      using mem [of _ xs "y # ys" "\<lambda>b. sint (fst x) < sint b"] xs ys by force
    with 2 "3.IH"(2) xs "3.prems" show ?thesis by (simp add: bars_sorted_def)
  next
    case 3
    then have "\<forall>z \<in> set (merge_bars (x # xs) ys). sint (fst y) < sint (fst z)"
      using mem [of _ "x # xs" ys "\<lambda>b. sint (fst y) < sint b"] xs ys by force
    with 3 "3.IH"(3) ys "3.prems" show ?thesis by (simp add: bars_sorted_def)
  qed
qed auto

text \<open>Elements below everything on the other side come first.\<close>

lemma merge_bars_prefix:
  assumes "\<forall>x \<in> set ps. \<forall>y \<in> set ys. sint (fst x) < sint (fst y)"
  shows "merge_bars (ps @ xs) ys = ps @ merge_bars xs ys"
  using assms
proof (induction ps)
  case (Cons p ps)
  then show ?case by (cases ys) auto
qed simp

text \<open>The merge seen from the back, as the code performs it.\<close>

lemma merge_bars_single_left:
  assumes "bars_sorted (ys @ [y])"
  shows "merge_bars [x] (ys @ [y]) =
    (if fst x = fst y then ys @ [(fst x, snd x + snd y)]
     else if sint (fst y) < sint (fst x) then ys @ [y, x]
     else merge_bars [x] ys @ [y])"
  using assms
proof (induction ys)
  case Nil
  then show ?case by (auto dest: signed_word_eqI)
next
  case (Cons a ys)
  then have "bars_sorted (ys @ [y])" "sint (fst a) < sint (fst y)"
    by (auto simp: bars_sorted_def)
  with Cons.IH show ?case by auto
qed

lemma merge_bars_single_right:
  assumes "bars_sorted (xs @ [x])"
  shows "merge_bars (xs @ [x]) [y] =
    (if fst x = fst y then xs @ [(fst x, snd x + snd y)]
     else if sint (fst y) < sint (fst x) then merge_bars xs [y] @ [x]
     else xs @ [x, y])"
  using assms
proof (induction xs)
  case Nil
  then show ?case by (auto dest: signed_word_eqI)
next
  case (Cons a xs)
  then have "bars_sorted (xs @ [x])" "sint (fst a) < sint (fst x)"
    by (auto simp: bars_sorted_def)
  with Cons.IH show ?case by (auto dest: signed_word_eqI)
qed

lemma merge_bars_snoc:
  assumes "bars_sorted (xs @ [x])" and "bars_sorted (ys @ [y])"
  shows "merge_bars (xs @ [x]) (ys @ [y]) =
    (if fst x = fst y then merge_bars xs ys @ [(fst x, snd x + snd y)]
     else if sint (fst y) < sint (fst x) then merge_bars xs (ys @ [y]) @ [x]
     else merge_bars (xs @ [x]) ys @ [y])"
  using assms
proof (induction xs ys rule: merge_bars.induct)
  case (1 ys)
  then show ?case by (simp add: merge_bars_single_left)
next
  case (2 v va)
  then show ?case using merge_bars_single_right [of "v # va" x y] by simp
next
  case (3 u xs w ys)
  have "bars_sorted (xs @ [x])" "bars_sorted (ys @ [y])"
      "sint (fst u) < sint (fst x)" "sint (fst w) < sint (fst y)"
    using "3.prems" by (auto simp: bars_sorted_def)
  with "3.IH" "3.prems" show ?case by auto
qed

section \<open>Comparing buckets\<close>

lemma sint_diff_nonneg:
  assumes "0 \<le> sint a" and "0 \<le> sint b"
  shows "sint (a - b :: int32) = sint a - sint b"
proof -
  have a: "sint a < 2 ^ 31" and b: "sint b < 2 ^ 31"
    using sint_lt [of a] sint_lt [of b] by simp_all
  have "a - b = word_of_int (sint a - sint b)" by simp
  then show ?thesis
    using assms a b sint32_word_of_int [of "sint a - sint b"] by (simp only:)
qed

lemma diff_zero_iff: "(a - b = 0) \<longleftrightarrow> a = (b :: int32)"
  by (rule right_minus_eq)

section \<open>The number of buckets\<close>

lemma required_len_merge:
  assumes "\<forall>b \<in> set toB. 0 \<le> sint b" and "\<forall>b \<in> set fromB. 0 \<le> sint b"
    and "length toC = length toB" and "length fromC = length fromB"
    and "i \<le> length toB" and "j \<le> length fromB"
  shows "required_len toB fromB i j r =
    r + int (length (merge_bars (drop i (zip toB toC)) (drop j (zip fromB fromC))))
      - int (length toB - i) - int (length fromB - j)"
  using assms
proof (induction toB fromB i j r rule: required_len.induct)
  case (1 toB fromB i j r)
  show ?case
  proof (cases "i < length toB \<and> j < length fromB")
    case False
    then have "drop i (zip toB toC) = [] \<or> drop j (zip fromB fromC) = []"
      using "1.prems" by auto
    with False "1.prems" show ?thesis
      by (auto simp: required_len.simps [of toB fromB i j r])
  next
    case True
    then have di: "drop i (zip toB toC) = (toB ! i, toC ! i) # drop (Suc i) (zip toB toC)"
      and dj: "drop j (zip fromB fromC) = (fromB ! j, fromC ! j) # drop (Suc j) (zip fromB fromC)"
      using "1.prems" by (simp_all add: Cons_nth_drop_Suc [symmetric])
    have diff: "sint (toB ! i - fromB ! j) = sint (toB ! i) - sint (fromB ! j)"
      using True "1.prems" by (intro sint_diff_nonneg) auto
    have unf: "required_len toB fromB i j r =
        (if toB ! i = fromB ! j then required_len toB fromB (Suc i) (Suc j) (r - 1)
         else if sint (toB ! i) < sint (fromB ! j) then required_len toB fromB (Suc i) j r
         else required_len toB fromB i (Suc j) r)"
      using True diff
      by (simp add: required_len.simps [of toB fromB i j r] Let_def)
    let ?D = "drop i (zip toB toC)" and ?E = "drop j (zip fromB fromC)"
    let ?D' = "drop (Suc i) (zip toB toC)" and ?E' = "drop (Suc j) (zip fromB fromC)"
    have len: "length (merge_bars ?D ?E) = Suc (length
        (if toB ! i = fromB ! j then merge_bars ?D' ?E'
         else if sint (toB ! i) < sint (fromB ! j) then merge_bars ?D' ?E
         else merge_bars ?D ?E'))"
      by (simp only: di dj merge_bars.simps fst_conv split: if_split) simp
    show ?thesis
      unfolding unf len using True "1.prems" "1.IH" [OF True refl] diff by auto
  qed
qed

section \<open>Filling from the back\<close>

lemma length_merge_bars_ge: "length xs \<le> length (merge_bars xs ys)"
  by (induction xs ys rule: merge_bars.induct) auto

lemma bars_sorted_take: "bars_sorted xs \<Longrightarrow> bars_sorted (take n xs)"
  unfolding bars_sorted_def by (rule sorted_wrt_take)

text \<open>What is settled before the slot \<^term>\<open>n\<close> is written: the first \<^term>\<open>a\<close> bars of \<open>to\<close> are
  still in place, and merging them with the first \<^term>\<open>b\<close> bars of \<open>from\<close> takes \<^term>\<open>n\<close> slots.\<close>

definition fill_inv :: "bars \<Rightarrow> bars \<Rightarrow> nat \<Rightarrow> nat \<Rightarrow> nat \<Rightarrow> nat \<Rightarrow> bars \<Rightarrow> bool" where
  "fill_inv T F st n a b B \<longleftrightarrow>
     st \<le> a \<and> a \<le> length T \<and> b \<le> length F \<and> take a B = take a T
     \<and> n = length (merge_bars (take a T) (take b F)) \<and> n \<le> length B"

lemma fill_inv_step:
  assumes inv: "fill_inv T F st (Suc n) a b B"
    and eq: "merge_bars (take a T) (take b F) = merge_bars (take a' T) (take b' F) @ [z]"
    and le: "st \<le> a'" "a' \<le> a" "b' \<le> b"
  shows "fill_inv T F st n a' b' (B[n := z])"
proof -
  have n: "n = length (merge_bars (take a' T) (take b' F))"
    using inv arg_cong [OF eq, of length] by (simp add: fill_inv_def)
  have "length (take a' T) \<le> n" unfolding n by (rule length_merge_bars_ge)
  then have a': "a' \<le> n" using inv le by (simp add: fill_inv_def)
  have "take a B = take a T" using inv by (simp add: fill_inv_def)
  then have "take a' (take a B) = take a' (take a T)" by (rule arg_cong)
  then have "take a' B = take a' T" using le(2) by (simp add: min.absorb1)
  then have "take a' (B[n := z]) = take a' T" using a' by (simp add: take_update_cancel)
  with inv le n show ?thesis by (simp add: fill_inv_def)
qed

lemma copy_tail:
  assumes "b \<le> length src" and "n = st + b" and "n \<le> length dst"
  shows "copy_slice dst (int st) (int n) src (int b) = Some (take st dst @ take b src @ drop n dst)"
  using assms by (simp add: copy_slice_def Let_def)

lemma fill_back_correct:
  fixes T F :: bars
  assumes T: "bars_sorted T" "\<forall>x \<in> set T. 0 \<le> sint (fst x)"
    and F: "bars_sorted F" "\<forall>x \<in> set F. 0 \<le> sint (fst x)"
    and FF: "F = zip fromB fromC" "length fromC = length fromB"
    and pre: "\<forall>x \<in> set (take st T). \<forall>y \<in> set F. sint (fst x) < sint (fst y)"
    and inv: "fill_inv T F st n a b (zip toB toC)" and len: "length toB = length toC"
  shows "\<exists>B C. fill_back n st toB toC fromB fromC (int a - 1) (int b - 1) = Some (B, C)
    \<and> length B = length C
    \<and> zip B C = merge_bars (take a T) (take b F) @ drop n (zip toB toC)"
  using inv len
proof (induction n arbitrary: a b toB toC)
  case 0
  then show ?case by (simp add: fill_inv_def)
next
  case (Suc n)
  note inv = Suc.prems(1) and len = Suc.prems(2)
  have a: "st \<le> a" "a \<le> length T" "b \<le> length F" "take a (zip toB toC) = take a T"
    and n: "Suc n = length (merge_bars (take a T) (take b F))" and nl: "Suc n \<le> length toB"
    using inv len by (auto simp: fill_inv_def)
  show ?case
  proof (cases "b = 0")
    case True
    then have "Suc n = a" using n a(2) by simp
    then have "take a T @ drop (Suc n) (zip toB toC) = zip toB toC"
      using a(4) by (metis append_take_drop_id)
    then show ?thesis using True len by simp
  next
    case b: False
    show ?thesis
    proof (cases "a = st")
      case True
      have "merge_bars (take a T @ []) (take b F) = take a T @ merge_bars [] (take b F)"
        by (rule merge_bars_prefix) (use pre True in \<open>auto dest: in_set_takeD\<close>)
      then have m: "merge_bars (take a T) (take b F) = take st T @ take b F" using True by simp
      have nst: "Suc n = st + b" using n m a True by simp
      have bl: "b \<le> length fromB" "b \<le> length fromC" using a FF by auto
      have "fill_back (Suc n) st toB toC fromB fromC (int a - 1) (int b - 1) =
          Some (take st toB @ take b fromB @ drop (Suc n) toB, take st toC @ take b fromC @ drop (Suc n) toC)"
        using b True copy_tail [OF bl(1) nst, of toB] copy_tail [OF bl(2) nst, of toC] nl len
        by (simp add: add.commute)
      moreover have "zip (take st toB @ take b fromB @ drop (Suc n) toB)
          (take st toC @ take b fromC @ drop (Suc n) toC) =
          take st (zip toB toC) @ take b F @ drop (Suc n) (zip toB toC)"
        using len FF by (simp add: take_zip drop_zip)
      ultimately show ?thesis using m a(4) True FF len by simp
    next
      case False
      then have sta: "st < a" "0 < a" using a by auto
      define x y where "x = T ! (a - 1)" and "y = F ! (b - 1)"
      have ta: "take a T = take (a - 1) T @ [x]"
        using sta a by (simp add: x_def take_Suc_conv_app_nth [symmetric])
      have tb: "take b F = take (b - 1) F @ [y]"
        using b a by (simp add: y_def take_Suc_conv_app_nth [symmetric])
      have "zip toB toC ! (a - 1) = x"
        using arg_cong [OF a(4), of "\<lambda>l. l ! (a - 1)"] sta by (simp add: x_def)
      moreover have al: "a \<le> length toB"
        using arg_cong [OF a(4), of length] a(2) len by simp
      ultimately have xx: "toB ! (a - 1) = fst x" "toC ! (a - 1) = snd x"
        using sta len by (auto simp: nth_zip)
      have yy: "fromB ! (b - 1) = fst y" "fromC ! (b - 1) = snd y"
        using b a FF by (auto simp: y_def)
      have bl: "b \<le> length fromB" using a FF by simp
      have srt: "bars_sorted (take (a - 1) T @ [x])" "bars_sorted (take (b - 1) F @ [y])"
        using bars_sorted_take [OF T(1), of a] bars_sorted_take [OF F(1), of b]
        by (simp_all only: ta tb)
      have xs: "0 \<le> sint (fst x)" and ys: "0 \<le> sint (fst y)"
        using T(2) F(2) sta a b by (auto simp: x_def y_def)
      have diff: "sint (fst x - fst y) = sint (fst x) - sint (fst y)"
        by (rule sint_diff_nonneg [OF xs ys])
      have ia: "index_at toB (int a - 1) = Some (fst x)" "index_at toC (int a - 1) = Some (snd x)"
        using index_at_int [of "a - 1" toB] index_at_int [of "a - 1" toC] sta al len xx
        by (simp_all add: of_nat_diff)
      have ib: "index_at fromB (int b - 1) = Some (fst y)" "index_at fromC (int b - 1) = Some (snd y)"
        using index_at_int [of "b - 1" fromB] index_at_int [of "b - 1" fromC] b bl FF yy
        by (simp_all add: of_nat_diff)
      have st: "store_at toB (int n) v = Some (toB[n := v])"
          "store_at toC (int n) w = Some (toC[n := w])" for v w
        using nl len by (simp_all add: store_at_int)
      have guard: "\<not> int b - 1 < 0" "\<not> int a - 1 < int st" using b sta by auto
      have key: "\<exists>B C. fill_back n st (toB[n := fst z]) (toC[n := snd z]) fromB fromC
            (int a' - 1) (int b' - 1) = Some (B, C)
          \<and> length B = length C
          \<and> zip B C = merge_bars (take a T) (take b F) @ drop (Suc n) (zip toB toC)"
        if "merge_bars (take a T) (take b F) = merge_bars (take a' T) (take b' F) @ [z]"
          and "st \<le> a'" "a' \<le> a" "b' \<le> b" for a' b' z
      proof -
        have z: "zip (toB[n := fst z]) (toC[n := snd z]) = (zip toB toC)[n := z]"
          by (simp add: update_zip)
        have "drop n ((zip toB toC)[n := z]) = z # drop (Suc n) (zip toB toC)"
          using nl len by (simp add: drop_update_swap Cons_nth_drop_Suc [symmetric])
        with Suc.IH [of a' b' "toB[n := fst z]" "toC[n := snd z]"] fill_inv_step [OF inv that] that(1) len z
        show ?thesis by simp
      qed
      consider (eq) "fst x = fst y" | (gt) "fst x \<noteq> fst y" "sint (fst y) < sint (fst x)"
        | (lt) "fst x \<noteq> fst y" "sint (fst x) < sint (fst y)"
        using sint_less_total by blast
      then show ?thesis
      proof cases
        case eq
        have "merge_bars (take a T) (take b F) =
            merge_bars (take (a - 1) T) (take (b - 1) F) @ [(fst x, snd x + snd y)]"
          using merge_bars_snoc [OF srt] eq by (simp add: ta tb)
        from key [OF this] show ?thesis
          using guard ia ib st eq sta b by (simp add: of_nat_diff)
      next
        case gt
        have "merge_bars (take a T) (take b F) = merge_bars (take (a - 1) T) (take b F) @ [x]"
          using merge_bars_snoc [OF srt] gt by (simp add: ta tb)
        from key [OF this] show ?thesis
          using guard ia ib st gt diff sta b by (simp add: of_nat_diff)
      next
        case lt
        have "merge_bars (take a T) (take b F) = merge_bars (take a T) (take (b - 1) F) @ [y]"
          using merge_bars_snoc [OF srt] lt by (simp add: ta tb)
        from key [OF this] show ?thesis
          using guard ia ib st lt diff sta b by (simp add: of_nat_diff)
      qed
    qed
  qed
qed

section \<open>Correctness\<close>

lemma hdr_okD:
  assumes "hdr_ok h"
  shows "length (hdr_Counts h) = length (hdr_Buckets h)" and "bars_sorted (hdr_bars h)"
    and "\<forall>b \<in> set (hdr_Buckets h). 0 \<le> sint b" and "\<forall>x \<in> set (hdr_bars h). 0 \<le> sint (fst x)"
    and "length (hdr_bars h) = length (hdr_Buckets h)" and "map fst (hdr_bars h) = hdr_Buckets h"
  using assms by (auto simp: hdr_ok_def hdr_bars_def dest: set_zip_leftD)

lemma hdr_ok_sorted: "hdr_ok h \<Longrightarrow> sorted (map sint (hdr_Buckets h))"
proof -
  assume h: "hdr_ok h"
  have "sorted_wrt (<) (map (sint \<circ> fst) (hdr_bars h))"
    using hdr_okD(2) [OF h] by (simp add: bars_sorted_def sorted_wrt_map)
  also have "map (sint \<circ> fst) (hdr_bars h) = map sint (hdr_Buckets h)"
    by (simp add: hdr_okD(6) [OF h] flip: map_map)
  finally show ?thesis by (rule strict_sorted_imp_sorted)
qed

lemma hdr_okI:
  assumes "length B = length C" and "bars_sorted (zip B C)" and "\<forall>x \<in> set (zip B C). 0 \<le> sint (fst x)"
  shows "hdr_ok (h\<lparr>hdr_Buckets := B, hdr_Counts := C\<rparr>)"
proof -
  have "map fst (zip B C) = B" using assms(1) by simp
  then have "set B = fst ` set (zip B C)" by (metis set_map)
  then have "\<forall>b \<in> set B. 0 \<le> sint b" using assms(3) by auto
  then show ?thesis using assms by (simp add: hdr_ok_def hdr_bars_def)
qed

text \<open>Where the search starts the merge.\<close>

lemma sort_Find_hdr:
  assumes to: "hdr_ok to" and f0: "0 \<le> sint f0"
  defines "st \<equiv> lower_point (map sint (hdr_Buckets to)) (sint f0)"
  shows "sort_Find (length (hdr_Buckets to)) (\<lambda>i. sint (f0 - hdr_Buckets to ! i)) =
      (st, st < length (hdr_Buckets to) \<and> hdr_Buckets to ! st = f0)"
    and "st \<le> length (hdr_Buckets to)"
    and "\<forall>x \<in> set (take st (hdr_bars to)). sint (fst x) < sint f0"
proof -
  let ?T = "hdr_Buckets to"
  have diff: "sint (f0 - ?T ! i) = sint f0 - sint (?T ! i)" if "i < length ?T" for i
    using hdr_okD(3) [OF to] f0 that by (intro sint_diff_nonneg) auto
  have bs: "bsearch (\<lambda>h. sint (f0 - ?T ! h) > 0) 0 (length ?T) = st"
    unfolding st_def by (rule bsearch_sorted [OF hdr_ok_sorted [OF to]]) (use diff in auto)
  have "st < length ?T \<Longrightarrow> sint (f0 - ?T ! st) = 0 \<longleftrightarrow> ?T ! st = f0"
    using diff [of st] sint_inject [of f0 "?T ! st"] by (simp only: right_minus_eq) blast
  then show "sort_Find (length ?T) (\<lambda>i. sint (f0 - ?T ! i)) =
      (st, st < length ?T \<and> ?T ! st = f0)"
    unfolding sort_Find_def bs Let_def by (simp cong: conj_cong)
  show st: "st \<le> length ?T"
    unfolding st_def using lower_point_le [of "map sint ?T" "sint f0"] by simp
  show "\<forall>x \<in> set (take st (hdr_bars to)). sint (fst x) < sint f0"
  proof
    fix x assume "x \<in> set (take st (hdr_bars to))"
    then obtain i where i: "i < st" "i < length ?T" "x = hdr_bars to ! i"
      using st hdr_okD(5) [OF to] by (auto simp: in_set_conv_nth)
    then have "fst x = ?T ! i"
      using hdr_okD(6) [OF to] by (metis hdr_okD(5) [OF to] nth_map)
    then show "sint (fst x) < sint f0"
      using lower_point_nth [OF hdr_ok_sorted [OF to], of i "sint f0"] i by (simp add: st_def)
  qed
qed

lemma merge_len_ge_1: "length (merge_bars xs ys) \<le> length xs + length ys"
  by (induction xs ys rule: merge_bars.induct) auto

lemma mergeHistogram_bars:
  assumes to: "hdr_ok to" and fr: "hdr_ok from"
  obtains B C where "mergeHistogram jb jc to from = Some (to\<lparr>hdr_Buckets := B, hdr_Counts := C\<rparr>)"
    and "length B = length C" and "zip B C = merge_bars (hdr_bars to) (hdr_bars from)"
proof -
  let ?T = "hdr_bars to" and ?F = "hdr_bars from"
  note T = hdr_okD [OF to] and F = hdr_okD [OF fr]
  consider (nofrom) "hdr_Buckets from = []" | (noto) "hdr_Buckets from \<noteq> []" "hdr_Buckets to = []"
    | (both) "hdr_Buckets from \<noteq> []" "hdr_Buckets to \<noteq> []"
    by blast
  then show ?thesis
  proof cases
    case nofrom
    then show ?thesis
      using T by (intro that [where B = "hdr_Buckets to" and C = "hdr_Counts to"])
        (simp_all add: mergeHistogram_def hdr_bars_def)
  next
    case noto
    then show ?thesis
      using T F by (intro that [where B = "hdr_Buckets from" and C = "hdr_Counts from"])
        (simp_all add: mergeHistogram_def hdr_bars_def)
  next
    case both
    define f0 where "f0 = hdr_Buckets from ! 0"
    have f0: "0 \<le> sint f0" using F(3) both by (simp add: f0_def)
    define st where "st = lower_point (map sint (hdr_Buckets to)) (sint f0)"
    note find = sort_Find_hdr [OF to f0, folded st_def]
    have fge: "sint f0 \<le> sint (fst y)" if "y \<in> set ?F" for y
    proof -
      from that obtain j where j: "j < length ?F" "y = ?F ! j" by (auto simp: in_set_conv_nth)
      then have "fst y = hdr_Buckets from ! j" by (metis F(5,6) nth_map)
      then show ?thesis
        using sorted_nth_mono [OF hdr_ok_sorted [OF fr], of 0 j] j F(5) both
        by (simp add: f0_def nth_map [of 0])
    qed
    have pre: "\<forall>x \<in> set (take st ?T). \<forall>y \<in> set ?F. sint (fst x) < sint (fst y)"
      using find(3) fge by fastforce
    have mpre: "merge_bars ?T ?F = take st ?T @ merge_bars (drop st ?T) ?F"
      using merge_bars_prefix [OF pre, of "drop st ?T"] by simp
    show ?thesis
    proof (cases "(st < length (hdr_Buckets to) \<and> hdr_Buckets to ! st = f0) \<and> length (hdr_Buckets from) = 1")
      case True
      then obtain c where Fe: "hdr_Buckets from = [f0]" "hdr_Counts from = [c]"
        using F(1) by (auto simp: f0_def length_Suc_conv)
      have stl: "st < length (hdr_Buckets to)" "st < length (hdr_Counts to)" using True T(1) by auto
      let ?C = "(hdr_Counts to)[st := hdr_Counts to ! st + c]"
      have res: "mergeHistogram jb jc to from = Some (to\<lparr>hdr_Buckets := hdr_Buckets to, hdr_Counts := ?C\<rparr>)"
        using both True find(1) stl Fe
        by (simp add: mergeHistogram_def f0_def [symmetric] index_at_int store_at_int index_at_def)
      have nth: "?T ! st = (f0, hdr_Counts to ! st)" using stl True by (simp add: hdr_bars_def)
      have dr: "drop st ?T = (f0, hdr_Counts to ! st) # drop (Suc st) ?T"
        using stl T(5) by (simp add: Cons_nth_drop_Suc [symmetric] nth)
      have "zip (hdr_Buckets to) ?C = ?T[st := (f0, hdr_Counts to ! st + c)]"
        using stl True list_update_same_conv [of st "hdr_Buckets to" f0]
        by (simp add: hdr_bars_def update_zip)
      also have "\<dots> = take st ?T @ (f0, hdr_Counts to ! st + c) # drop (Suc st) ?T"
        using stl T(5) by (simp add: upd_conv_take_nth_drop)
      also have "\<dots> = merge_bars ?T ?F"
        unfolding mpre dr by (simp add: hdr_bars_def Fe)
      finally show ?thesis using T(1) by (intro that [OF res]) auto
    next
      case False
      define R where "R = length (merge_bars ?T ?F)"
      have "required_len (hdr_Buckets to) (hdr_Buckets from) st 0
          (int (length (hdr_Buckets to)) + int (length (hdr_Buckets from))) = int R"
        using required_len_merge [OF T(3) F(3) T(1) F(1) find(2)] find(2) T(5)
        by (simp add: R_def mpre flip: hdr_bars_def)
      moreover have RT: "length ?T \<le> R" unfolding R_def by (rule length_merge_bars_ge)
      moreover define gB where "gB = hdr_Buckets to @ map jb [length (hdr_Buckets to) ..< R]"
      moreover define gC where "gC = hdr_Counts to @ map jc [length (hdr_Counts to) ..< R]"
      ultimately have res: "mergeHistogram jb jc to from =
          do { (toB, toC) \<leftarrow> fill_back R st gB gC (hdr_Buckets from) (hdr_Counts from)
                 (int (length (hdr_Buckets to)) - 1) (int (length (hdr_Buckets from)) - 1);
               Some (to\<lparr>hdr_Buckets := toB, hdr_Counts := toC\<rparr>) }"
        using both False find(1) T(1,5)
        by (auto simp: mergeHistogram_def f0_def [symmetric] grow_to_def Let_def)
      have gl: "length gB = R" "length gC = R" using RT T by (simp_all add: gB_def gC_def)
      have "take (length ?T) (zip gB gC) = ?T"
        using T by (simp add: gB_def gC_def hdr_bars_def)
      then have "fill_inv ?T ?F st R (length ?T) (length ?F) (zip gB gC)"
        using find(2) T(5) RT gl by (simp add: fill_inv_def R_def)
      then obtain B C where "fill_back R st gB gC (hdr_Buckets from) (hdr_Counts from)
            (int (length (hdr_Buckets to)) - 1) (int (length (hdr_Buckets from)) - 1) = Some (B, C)"
          "length B = length C" "zip B C = merge_bars ?T ?F"
        using fill_back_correct [OF T(2,4) F(2,4) hdr_bars_def F(1) pre, of R "length ?T" "length ?F" gB gC]
          gl T(5) F(5) by auto
      then show ?thesis by (intro that [where B = B and C = C]) (simp_all add: res)
    qed
  qed
qed

theorem mergeHistogram_correct:
  assumes "hdr_ok to" and "hdr_ok from"
  shows "\<exists>r. mergeHistogram jb jc to from = Some r \<and> hdr_ok r
    \<and> hdr_bars r = merge_bars (hdr_bars to) (hdr_bars from)"
proof -
  obtain B C where res: "mergeHistogram jb jc to from = Some (to\<lparr>hdr_Buckets := B, hdr_Counts := C\<rparr>)"
    and len: "length B = length C" and z: "zip B C = merge_bars (hdr_bars to) (hdr_bars from)"
    by (rule mergeHistogram_bars [OF assms])
  have "bars_sorted (zip B C)"
    unfolding z by (rule merge_bars_sorted [OF hdr_okD(2) [OF assms(1)] hdr_okD(2) [OF assms(2)]])
  moreover have "\<forall>x \<in> set (zip B C). 0 \<le> sint (fst x)"
  proof
    fix x assume "x \<in> set (zip B C)"
    then have "fst x \<in> fst ` set (hdr_bars to) \<union> fst ` set (hdr_bars from)"
      unfolding z fst_merge_bars [symmetric] by (rule imageI)
    then show "0 \<le> sint (fst x)" using hdr_okD(4) [OF assms(1)] hdr_okD(4) [OF assms(2)] by auto
  qed
  ultimately have "hdr_ok (to\<lparr>hdr_Buckets := B, hdr_Counts := C\<rparr>)" by (rule hdr_okI [OF len])
  with res z show ?thesis by (simp add: hdr_bars_def [of "to\<lparr>hdr_Buckets := B, hdr_Counts := C\<rparr>"])
qed

end
