(* ===== verification/Constraint.thy ===== *)
theory Constraint
  imports Prelude
begin

text \<open>
  Package \<^verbatim>\<open>aggregators/internal/constraint\<close>: a counter with a limit. The counters count
  map entries, so they stay far inside Go's 64-bit \<^verbatim>\<open>int\<close>; limits are as configured.
\<close>

record constraint =
  counter :: int
  limit :: int

definition New :: "int \<Rightarrow> int \<Rightarrow> constraint" where
  "New initialCount lmt = \<lparr>counter = initialCount, limit = lmt\<rparr>"

definition Maxed :: "constraint \<Rightarrow> bool" where
  "Maxed c \<longleftrightarrow> counter c \<ge> limit c"

definition Add :: "constraint \<Rightarrow> int \<Rightarrow> constraint" where
  "Add c delta = c\<lparr>counter := counter c + delta\<rparr>"

definition Value :: "constraint \<Rightarrow> int" where
  "Value c = counter c"

definition Limit :: "constraint \<Rightarrow> int" where
  "Limit c = limit c"

lemma Limit_New [simp]: "Limit (New n l) = l"
  by (simp add: Limit_def New_def)

lemma Limit_Add [simp]: "Limit (Add c d) = Limit c"
  by (simp add: Limit_def Add_def)

lemma Value_New [simp]: "Value (New n l) = n"
  by (simp add: Value_def New_def)

lemma Value_Add [simp]: "Value (Add c d) = Value c + d"
  by (simp add: Value_def Add_def)

lemma Maxed_iff: "Maxed c \<longleftrightarrow> Value c \<ge> Limit c"
  by (simp add: Maxed_def Value_def Limit_def)

text \<open>Admission: adding one to a constraint that is not maxed stays within the limit.\<close>

lemma not_Maxed_Add: "\<not> Maxed c \<Longrightarrow> Value (Add c 1) \<le> Limit (Add c 1)"
  by (simp add: Maxed_iff)

end
