(* ===== verification/Merger.thy ===== *)
theory Merger
  imports Codec Protohash HistMerge Constraint
begin

text \<open>
  \<^verbatim>\<open>aggregators/merger.go\<close>: merging of combined metrics under cardinality limits, as pebble's
  merge operator runs it. A message pointer that is nil is \<^term>\<open>None\<close>; following a nil pointer is
  a panic, and an operation that panics returns \<^term>\<open>None\<close>. Constraints are shared through
  pointers in the code, here they are passed along and returned.
\<close>

section \<open>Parameters of the run\<close>

text \<open>
  The third-party sketch and digest operations, and the contents of the spare capacity that
  growing the slices of a histogram exposes before it is overwritten.
\<close>

record ('sk, 'd) env =
  hll :: "'sk hll_ops"
  xx :: "'d xxhash_ops"
  junk_buckets :: "nat \<Rightarrow> int32"
  junk_counts :: "nat \<Rightarrow> int64"

section \<open>Metrics\<close>

definition mergeTransactionMetrics ::
  "('sk, 'd) env \<Rightarrow> TransactionMetrics \<Rightarrow> TransactionMetrics option \<Rightarrow> TransactionMetrics option" where
  "mergeTransactionMetrics E to from =
     do { from \<leftarrow> from;
          let to = (if tm_Histogram to = None \<and> tm_Histogram from \<noteq> None
                    then to\<lparr>tm_Histogram := Some zero_HDRHistogram\<rparr> else to);
          case (tm_Histogram to, tm_Histogram from) of
            (Some th, Some fh) \<Rightarrow>
              do { r \<leftarrow> mergeHistogram (junk_buckets E) (junk_counts E) th fh;
                   Some (to\<lparr>tm_Histogram := Some r\<rparr>) }
          | _ \<Rightarrow> Some to }"

definition mergeServiceTransactionMetrics ::
  "('sk, 'd) env \<Rightarrow> ServiceTransactionMetrics \<Rightarrow> ServiceTransactionMetrics option
   \<Rightarrow> ServiceTransactionMetrics option" where
  "mergeServiceTransactionMetrics E to from =
     do { from \<leftarrow> from;
          let to = (if stm_Histogram to = None \<and> stm_Histogram from \<noteq> None
                    then to\<lparr>stm_Histogram := Some zero_HDRHistogram\<rparr> else to);
          to \<leftarrow> (case (stm_Histogram to, stm_Histogram from) of
                  (Some th, Some fh) \<Rightarrow>
                    do { r \<leftarrow> mergeHistogram (junk_buckets E) (junk_counts E) th fh;
                         Some (to\<lparr>stm_Histogram := Some r\<rparr>) }
                | _ \<Rightarrow> Some to);
          Some (to\<lparr>stm_FailureCount := fadd (stm_FailureCount to) (stm_FailureCount from),
                   stm_SuccessCount := fadd (stm_SuccessCount to) (stm_SuccessCount from)\<rparr>) }"

definition mergeSpanMetrics :: "SpanMetrics \<Rightarrow> SpanMetrics option \<Rightarrow> SpanMetrics option" where
  "mergeSpanMetrics to from =
     do { from \<leftarrow> from;
          Some (to\<lparr>spm_Count := fadd (spm_Count to) (spm_Count from),
                   spm_Sum := fadd (spm_Sum to) (spm_Sum from)\<rparr>) }"

definition mergeKeyedTransactionMetrics ::
  "('sk, 'd) env \<Rightarrow> KeyedTransactionMetrics \<Rightarrow> KeyedTransactionMetrics \<Rightarrow> KeyedTransactionMetrics option" where
  "mergeKeyedTransactionMetrics E to from =
     (if ktm_Metrics from = None then Some to
      else let tm = (case ktm_Metrics to of None \<Rightarrow> zero_TransactionMetrics | Some m \<Rightarrow> m)
           in do { r \<leftarrow> mergeTransactionMetrics E tm (ktm_Metrics from);
                   Some (to\<lparr>ktm_Metrics := Some r\<rparr>) })"

definition mergeKeyedServiceTransactionMetrics ::
  "('sk, 'd) env \<Rightarrow> KeyedServiceTransactionMetrics \<Rightarrow> KeyedServiceTransactionMetrics
   \<Rightarrow> KeyedServiceTransactionMetrics option" where
  "mergeKeyedServiceTransactionMetrics E to from =
     (if kstm_Metrics from = None then Some to
      else let tm = (case kstm_Metrics to of None \<Rightarrow> zero_ServiceTransactionMetrics | Some m \<Rightarrow> m)
           in do { r \<leftarrow> mergeServiceTransactionMetrics E tm (kstm_Metrics from);
                   Some (to\<lparr>kstm_Metrics := Some r\<rparr>) })"

definition mergeKeyedSpanMetrics ::
  "KeyedSpanMetrics \<Rightarrow> KeyedSpanMetrics \<Rightarrow> KeyedSpanMetrics option" where
  "mergeKeyedSpanMetrics to from =
     (if kspm_Metrics from = None then Some to
      else let tm = (case kspm_Metrics to of None \<Rightarrow> zero_SpanMetrics | Some m \<Rightarrow> m)
           in do { r \<leftarrow> mergeSpanMetrics tm (kspm_Metrics from);
                   Some (to\<lparr>kspm_Metrics := Some r\<rparr>) })"

section \<open>Overflow buckets\<close>

definition ot_Merge ::
  "('sk, 'd) env \<Rightarrow> 'sk overflowTransaction \<Rightarrow> TransactionMetrics option \<Rightarrow> uint64
   \<Rightarrow> 'sk overflowTransaction option" where
  "ot_Merge E ob from hash =
     do { let tm = (case ot_Metrics ob of None \<Rightarrow> zero_TransactionMetrics | Some m \<Rightarrow> m);
          r \<leftarrow> mergeTransactionMetrics E tm from;
          Some (ob\<lparr>ot_Metrics := Some r, ot_Estimator := insertHash (hll E) (ot_Estimator ob) hash\<rparr>) }"

definition ot_MergeOverflow ::
  "('sk, 'd) env \<Rightarrow> 'sk overflowTransaction \<Rightarrow> 'sk overflowTransaction \<Rightarrow> 'sk overflowTransaction option" where
  "ot_MergeOverflow E ob from =
     (case ot_Estimator from of None \<Rightarrow> Some ob
      | Some s \<Rightarrow>
          do { let tm = (case ot_Metrics ob of None \<Rightarrow> zero_TransactionMetrics | Some m \<Rightarrow> m);
               r \<leftarrow> mergeTransactionMetrics E tm (ot_Metrics from);
               Some (ob\<lparr>ot_Metrics := Some r, ot_Estimator := mergeEstimator (hll E) (ot_Estimator ob) s\<rparr>) })"

definition ost_Merge ::
  "('sk, 'd) env \<Rightarrow> 'sk overflowServiceTransaction \<Rightarrow> ServiceTransactionMetrics option \<Rightarrow> uint64
   \<Rightarrow> 'sk overflowServiceTransaction option" where
  "ost_Merge E ob from hash =
     do { let tm = (case ost_Metrics ob of None \<Rightarrow> zero_ServiceTransactionMetrics | Some m \<Rightarrow> m);
          r \<leftarrow> mergeServiceTransactionMetrics E tm from;
          Some (ob\<lparr>ost_Metrics := Some r, ost_Estimator := insertHash (hll E) (ost_Estimator ob) hash\<rparr>) }"

definition ost_MergeOverflow ::
  "('sk, 'd) env \<Rightarrow> 'sk overflowServiceTransaction \<Rightarrow> 'sk overflowServiceTransaction
   \<Rightarrow> 'sk overflowServiceTransaction option" where
  "ost_MergeOverflow E ob from =
     (case ost_Estimator from of None \<Rightarrow> Some ob
      | Some s \<Rightarrow>
          do { let tm = (case ost_Metrics ob of None \<Rightarrow> zero_ServiceTransactionMetrics | Some m \<Rightarrow> m);
               r \<leftarrow> mergeServiceTransactionMetrics E tm (ost_Metrics from);
               Some (ob\<lparr>ost_Metrics := Some r, ost_Estimator := mergeEstimator (hll E) (ost_Estimator ob) s\<rparr>) })"

definition osp_Merge ::
  "('sk, 'd) env \<Rightarrow> 'sk overflowSpan \<Rightarrow> SpanMetrics option \<Rightarrow> uint64 \<Rightarrow> 'sk overflowSpan option" where
  "osp_Merge E ob from hash =
     do { let tm = (case osp_Metrics ob of None \<Rightarrow> zero_SpanMetrics | Some m \<Rightarrow> m);
          r \<leftarrow> mergeSpanMetrics tm from;
          Some (ob\<lparr>osp_Metrics := Some r, osp_Estimator := insertHash (hll E) (osp_Estimator ob) hash\<rparr>) }"

definition osp_MergeOverflow ::
  "('sk, 'd) env \<Rightarrow> 'sk overflowSpan \<Rightarrow> 'sk overflowSpan \<Rightarrow> 'sk overflowSpan option" where
  "osp_MergeOverflow E ob from =
     (case osp_Estimator from of None \<Rightarrow> Some ob
      | Some s \<Rightarrow>
          do { let tm = (case osp_Metrics ob of None \<Rightarrow> zero_SpanMetrics | Some m \<Rightarrow> m);
               r \<leftarrow> mergeSpanMetrics tm (osp_Metrics from);
               Some (ob\<lparr>osp_Metrics := Some r, osp_Estimator := mergeEstimator (hll E) (osp_Estimator ob) s\<rparr>) })"

definition mergeOverflow ::
  "('sk, 'd) env \<Rightarrow> 'sk overflow \<Rightarrow> Overflow option \<Rightarrow> 'sk overflow option" where
  "mergeOverflow E to fromproto =
     (case fromproto of None \<Rightarrow> Some to
      | Some fromproto \<Rightarrow>
          do { let from = overflow_FromProto (hll E) zero_overflow fromproto;
               t \<leftarrow> ot_MergeOverflow E (OverflowTransaction to) (OverflowTransaction from);
               s \<leftarrow> ost_MergeOverflow E (OverflowServiceTransaction to) (OverflowServiceTransaction from);
               p \<leftarrow> osp_MergeOverflow E (OverflowSpan to) (OverflowSpan from);
               Some (to\<lparr>OverflowTransaction := t, OverflowServiceTransaction := s, OverflowSpan := p\<rparr>) })"

text \<open>The three loops of \<^verbatim>\<open>mergeToOverflowFromSIM\<close>.\<close>

fun overflow_txns ::
  "('sk, 'd) env \<Rightarrow> 'd \<Rightarrow> KeyedTransactionMetrics list \<Rightarrow> 'sk overflowTransaction
   \<Rightarrow> 'sk overflowTransaction option" where
  "overflow_txns E hash [] ob = Some ob"
| "overflow_txns E hash (ktm # ktms) ob =
     do { k \<leftarrow> ktm_Key ktm;
          let ktmKeyHash = HashTransactionAggregationKey (xx E) hash k;
          ob \<leftarrow> ot_Merge E ob (ktm_Metrics ktm) (xx_Sum64 (xx E) ktmKeyHash);
          overflow_txns E hash ktms ob }"

fun overflow_svctxns ::
  "('sk, 'd) env \<Rightarrow> 'd \<Rightarrow> KeyedServiceTransactionMetrics list \<Rightarrow> 'sk overflowServiceTransaction
   \<Rightarrow> 'sk overflowServiceTransaction option" where
  "overflow_svctxns E hash [] ob = Some ob"
| "overflow_svctxns E hash (kstm # kstms) ob =
     do { k \<leftarrow> kstm_Key kstm;
          let kstmKeyHash = HashServiceTransactionAggregationKey (xx E) hash k;
          ob \<leftarrow> ost_Merge E ob (kstm_Metrics kstm) (xx_Sum64 (xx E) kstmKeyHash);
          overflow_svctxns E hash kstms ob }"

fun overflow_spans ::
  "('sk, 'd) env \<Rightarrow> 'd \<Rightarrow> KeyedSpanMetrics list \<Rightarrow> 'sk overflowSpan \<Rightarrow> 'sk overflowSpan option" where
  "overflow_spans E hash [] ob = Some ob"
| "overflow_spans E hash (ksm # ksms) ob =
     do { k \<leftarrow> kspm_Key ksm;
          let ksmKeyHash = HashSpanAggregationKey (xx E) hash k;
          ob \<leftarrow> osp_Merge E ob (kspm_Metrics ksm) (xx_Sum64 (xx E) ksmKeyHash);
          overflow_spans E hash ksms ob }"

definition mergeToOverflowFromSIM ::
  "('sk, 'd) env \<Rightarrow> 'sk overflow \<Rightarrow> KeyedServiceInstanceMetrics \<Rightarrow> 'd \<Rightarrow> 'sk overflow option" where
  "mergeToOverflowFromSIM E to from hash =
     (case ksim_Metrics from of None \<Rightarrow> Some to
      | Some m \<Rightarrow>
          do { t \<leftarrow> overflow_txns E hash (pbsim_TransactionMetrics m) (OverflowTransaction to);
               s \<leftarrow> overflow_svctxns E hash (pbsim_ServiceTransactionMetrics m)
                      (OverflowServiceTransaction to);
               p \<leftarrow> overflow_spans E hash (pbsim_SpanMetrics m) (OverflowSpan to);
               Some (to\<lparr>OverflowTransaction := t, OverflowServiceTransaction := s, OverflowSpan := p\<rparr>) })"

section \<open>Groups\<close>

text \<open>Each loop returns the map, both constraints and the overflow bucket.\<close>

fun mergeTransactionGroups ::
  "('sk, 'd) env \<Rightarrow> 'd \<Rightarrow> KeyedTransactionMetrics list
   \<Rightarrow> (transactionAggregationKey, KeyedTransactionMetrics) gomap \<Rightarrow> constraint \<Rightarrow> constraint
   \<Rightarrow> 'sk overflowTransaction
   \<Rightarrow> ((transactionAggregationKey, KeyedTransactionMetrics) gomap \<times> constraint \<times> constraint
       \<times> 'sk overflowTransaction) option" where
  "mergeTransactionGroups E hash [] to perSvc global overflowTo = Some (to, perSvc, global, overflowTo)"
| "mergeTransactionGroups E hash (fromTxn # from) to perSvc global overflowTo =
     do { key \<leftarrow> ktm_Key fromTxn;
          let tk = transactionAggregationKey_FromProto key;
          case gm_get to tk of
            None \<Rightarrow>
              (let overflowed = Maxed perSvc \<or> Maxed global
               in if overflowed then
                    do { let fromTxnKeyHash = HashTransactionAggregationKey (xx E) hash key;
                         overflowTo \<leftarrow> ot_Merge E overflowTo (ktm_Metrics fromTxn)
                                        (xx_Sum64 (xx E) fromTxnKeyHash);
                         mergeTransactionGroups E hash from to perSvc global overflowTo }
                  else mergeTransactionGroups E hash from (gm_put to tk fromTxn)
                         (Add perSvc 1) (Add global 1) overflowTo)
          | Some toTxn \<Rightarrow>
              do { toTxn \<leftarrow> mergeKeyedTransactionMetrics E toTxn fromTxn;
                   mergeTransactionGroups E hash from (gm_put to tk toTxn) perSvc global overflowTo } }"

fun mergeServiceTransactionGroups ::
  "('sk, 'd) env \<Rightarrow> 'd \<Rightarrow> KeyedServiceTransactionMetrics list
   \<Rightarrow> (serviceTransactionAggregationKey, KeyedServiceTransactionMetrics) gomap \<Rightarrow> constraint \<Rightarrow> constraint
   \<Rightarrow> 'sk overflowServiceTransaction
   \<Rightarrow> ((serviceTransactionAggregationKey, KeyedServiceTransactionMetrics) gomap \<times> constraint \<times> constraint
       \<times> 'sk overflowServiceTransaction) option" where
  "mergeServiceTransactionGroups E hash [] to perSvc global overflowTo =
     Some (to, perSvc, global, overflowTo)"
| "mergeServiceTransactionGroups E hash (fromSvcTxn # from) to perSvc global overflowTo =
     do { key \<leftarrow> kstm_Key fromSvcTxn;
          let stk = serviceTransactionAggregationKey_FromProto key;
          case gm_get to stk of
            None \<Rightarrow>
              (let overflowed = Maxed perSvc \<or> Maxed global
               in if overflowed then
                    do { let fromSvcTxnKeyHash = HashServiceTransactionAggregationKey (xx E) hash key;
                         overflowTo \<leftarrow> ost_Merge E overflowTo (kstm_Metrics fromSvcTxn)
                                        (xx_Sum64 (xx E) fromSvcTxnKeyHash);
                         mergeServiceTransactionGroups E hash from to perSvc global overflowTo }
                  else mergeServiceTransactionGroups E hash from (gm_put to stk fromSvcTxn)
                         (Add perSvc 1) (Add global 1) overflowTo)
          | Some toSvcTxn \<Rightarrow>
              do { toSvcTxn \<leftarrow> mergeKeyedServiceTransactionMetrics E toSvcTxn fromSvcTxn;
                   mergeServiceTransactionGroups E hash from (gm_put to stk toSvcTxn)
                     perSvc global overflowTo } }"

text \<open>
  Spans: once half of the per-service limit is in use, the span name of a new group is
  dropped, from the lookup key and from the message itself. \<^verbatim>\<open>/\<close> truncates towards zero.
\<close>

definition half_of :: "int \<Rightarrow> int" where
  "half_of n = (if n < 0 then - ((- n) div 2) else n div 2)"

definition drop_span_name :: "constraint \<Rightarrow> KeyedSpanMetrics \<Rightarrow> KeyedSpanMetrics" where
  "drop_span_name perSvc fromSpan =
     (if Value perSvc \<ge> half_of (Limit perSvc)
      then fromSpan\<lparr>kspm_Key := map_option (\<lambda>k. k\<lparr>pbspk_SpanName := []\<rparr>) (kspm_Key fromSpan)\<rparr>
      else fromSpan)"

fun mergeSpanGroups ::
  "('sk, 'd) env \<Rightarrow> 'd \<Rightarrow> KeyedSpanMetrics list
   \<Rightarrow> (spanAggregationKey, KeyedSpanMetrics) gomap \<Rightarrow> constraint \<Rightarrow> constraint \<Rightarrow> 'sk overflowSpan
   \<Rightarrow> ((spanAggregationKey, KeyedSpanMetrics) gomap \<times> constraint \<times> constraint \<times> 'sk overflowSpan) option" where
  "mergeSpanGroups E hash [] to perSvc global overflowTo = Some (to, perSvc, global, overflowTo)"
| "mergeSpanGroups E hash (fromSpan # from) to perSvc global overflowTo =
     do { key \<leftarrow> kspm_Key fromSpan;
          let spk = spanAggregationKey_FromProto key;
          case gm_get to spk of
            None \<Rightarrow>
              do { let fromSpan = drop_span_name perSvc fromSpan;
                   key \<leftarrow> kspm_Key fromSpan;
                   let spk = spanAggregationKey_FromProto key;
                   case gm_get to spk of
                     None \<Rightarrow>
                       (let overflowed = Maxed perSvc \<or> Maxed global
                        in if overflowed then
                             do { let fromSpanKeyHash = HashSpanAggregationKey (xx E) hash key;
                                  overflowTo \<leftarrow> osp_Merge E overflowTo (kspm_Metrics fromSpan)
                                                 (xx_Sum64 (xx E) fromSpanKeyHash);
                                  mergeSpanGroups E hash from to perSvc global overflowTo }
                           else mergeSpanGroups E hash from (gm_put to spk fromSpan)
                                  (Add perSvc 1) (Add global 1) overflowTo)
                   | Some toSpan \<Rightarrow>
                       do { toSpan \<leftarrow> mergeKeyedSpanMetrics toSpan fromSpan;
                            mergeSpanGroups E hash from (gm_put to spk toSpan) perSvc global overflowTo } }
          | Some toSpan \<Rightarrow>
              do { toSpan \<leftarrow> mergeKeyedSpanMetrics toSpan fromSpan;
                   mergeSpanGroups E hash from (gm_put to spk toSpan) perSvc global overflowTo } }"

section \<open>Service instances and services\<close>

record constraints =
  totalTransactionGroups :: constraint
  totalServiceTransactionGroups :: constraint
  totalSpanGroups :: constraint

definition newConstraints :: "Limits \<Rightarrow> constraints" where
  "newConstraints limits =
     \<lparr>totalTransactionGroups = New 0 (MaxTransactionGroups limits),
      totalServiceTransactionGroups = New 0 (MaxServiceTransactionGroups limits),
      totalSpanGroups = New 0 (MaxSpanGroups limits)\<rparr>"

definition newServiceInstanceMetrics :: serviceInstanceMetrics where
  "newServiceInstanceMetrics = \<lparr>TransactionGroups = [], ServiceTransactionGroups = [], SpanGroups = []\<rparr>"

definition newServiceMetrics :: "'sk serviceMetrics" where
  "newServiceMetrics = \<lparr>ServiceInstanceGroups = [], OverflowGroups = zero_overflow\<rparr>"

text \<open>\<^term>\<open>None\<close> is the flag that the limit is reached, with which no metrics are returned.\<close>

definition getServiceInstanceMetrics ::
  "'sk serviceMetrics \<Rightarrow> serviceInstanceAggregationKey \<Rightarrow> int \<Rightarrow> serviceInstanceMetrics option" where
  "getServiceInstanceMetrics sm siKey maxSvcInstancePerSvc =
     (case gm_get (ServiceInstanceGroups sm) siKey of
        None \<Rightarrow> if int (gm_len (ServiceInstanceGroups sm)) < maxSvcInstancePerSvc
                then Some newServiceInstanceMetrics else None
      | Some sim \<Rightarrow> Some sim)"

definition getServiceMetrics ::
  "'sk combinedMetrics \<Rightarrow> serviceAggregationKey \<Rightarrow> int \<Rightarrow> 'sk serviceMetrics option" where
  "getServiceMetrics cm svcKey maxSvcs =
     (case gm_get (Services cm) svcKey of
        None \<Rightarrow> if int (gm_len (Services cm)) < maxSvcs then Some newServiceMetrics else None
      | Some srcSvc \<Rightarrow> Some srcSvc)"

text \<open>The three group merges of one service instance, inside the loop.\<close>

definition mergeInstance ::
  "('sk, 'd) env \<Rightarrow> Limits \<Rightarrow> 'd \<Rightarrow> ServiceInstanceMetrics \<Rightarrow> serviceInstanceMetrics \<Rightarrow> constraints
   \<Rightarrow> 'sk overflow \<Rightarrow> (serviceInstanceMetrics \<times> constraints \<times> 'sk overflow) option" where
  "mergeInstance E limits hash from toSvcIns g ov =
     do { (t, _, gt, ovt) \<leftarrow> mergeTransactionGroups E hash (pbsim_TransactionMetrics from)
             (TransactionGroups toSvcIns)
             (New (int (gm_len (TransactionGroups toSvcIns))) (MaxTransactionGroupsPerService limits))
             (totalTransactionGroups g) (OverflowTransaction ov);
          (s, _, gs, ovs) \<leftarrow> mergeServiceTransactionGroups E hash (pbsim_ServiceTransactionMetrics from)
             (ServiceTransactionGroups toSvcIns)
             (New (int (gm_len (ServiceTransactionGroups toSvcIns)))
                (MaxServiceTransactionGroupsPerService limits))
             (totalServiceTransactionGroups g) (OverflowServiceTransaction ov);
          (p, _, gp, ovp) \<leftarrow> mergeSpanGroups E hash (pbsim_SpanMetrics from)
             (SpanGroups toSvcIns)
             (New (int (gm_len (SpanGroups toSvcIns))) (MaxSpanGroupsPerService limits))
             (totalSpanGroups g) (OverflowSpan ov);
          Some (\<lparr>TransactionGroups = t, ServiceTransactionGroups = s, SpanGroups = p\<rparr>,
                \<lparr>totalTransactionGroups = gt, totalServiceTransactionGroups = gs, totalSpanGroups = gp\<rparr>,
                \<lparr>OverflowTransaction = ovt, OverflowServiceTransaction = ovs, OverflowSpan = ovp\<rparr>) }"

fun mergeServiceInstanceGroups ::
  "('sk, 'd) env \<Rightarrow> Limits \<Rightarrow> 'd \<Rightarrow> KeyedServiceInstanceMetrics list \<Rightarrow> 'sk serviceMetrics \<Rightarrow> constraints
   \<Rightarrow> 'sk option \<Rightarrow> ('sk serviceMetrics \<times> constraints \<times> 'sk option) option" where
  "mergeServiceInstanceGroups E limits hash [] to g est = Some (to, g, est)"
| "mergeServiceInstanceGroups E limits hash (fromSvcIns # from) to g est =
     do { key \<leftarrow> ksim_Key fromSvcIns;
          let sik = serviceInstanceAggregationKey_FromProto key;
          let sikHash = HashServiceInstanceAggregationKey (xx E) hash key;
          case getServiceInstanceMetrics to sik (MaxServiceInstanceGroupsPerService limits) of
            None \<Rightarrow>
              do { ov \<leftarrow> mergeToOverflowFromSIM E (OverflowGroups to) fromSvcIns sikHash;
                   mergeServiceInstanceGroups E limits hash from (to\<lparr>OverflowGroups := ov\<rparr>) g
                     (insertHash (hll E) est (xx_Sum64 (xx E) sikHash)) }
          | Some toSvcIns \<Rightarrow>
              do { m \<leftarrow> ksim_Metrics fromSvcIns;
                   (toSvcIns, g, ov) \<leftarrow> mergeInstance E limits hash m toSvcIns g (OverflowGroups to);
                   mergeServiceInstanceGroups E limits hash from
                     (to\<lparr>ServiceInstanceGroups := gm_put (ServiceInstanceGroups to) sik toSvcIns,
                         OverflowGroups := ov\<rparr>) g est } }"

section \<open>Combined metrics\<close>

record 'sk combinedMetricsMerger =
  mg_limits :: Limits
  mg_constraints :: constraints
  mg_metrics :: "'sk combinedMetrics"

text \<open>A service that does not fit: all its instances go to the overflow services bucket.\<close>

fun overflow_instances ::
  "('sk, 'd) env \<Rightarrow> 'd \<Rightarrow> KeyedServiceInstanceMetrics list \<Rightarrow> 'sk overflow \<Rightarrow> 'sk option
   \<Rightarrow> ('sk overflow \<times> 'sk option) option" where
  "overflow_instances E serviceKeyHash [] ov est = Some (ov, est)"
| "overflow_instances E serviceKeyHash (ksim # ksims) ov est =
     do { key \<leftarrow> ksim_Key ksim;
          let serviceInstanceKeyHash = HashServiceInstanceAggregationKey (xx E) serviceKeyHash key;
          ov \<leftarrow> mergeToOverflowFromSIM E ov ksim serviceInstanceKeyHash;
          overflow_instances E serviceKeyHash ksims ov
            (insertHash (hll E) est (xx_Sum64 (xx E) serviceInstanceKeyHash)) }"

definition mergeService ::
  "('sk, 'd) env \<Rightarrow> Limits \<Rightarrow> KeyedServiceMetrics \<Rightarrow> constraints \<Rightarrow> 'sk combinedMetrics
   \<Rightarrow> (constraints \<times> 'sk combinedMetrics) option" where
  "mergeService E limits fromSvc g cm =
     do { key \<leftarrow> ksm_Key fromSvc;
          let serviceKeyHash = HashServiceAggregationKey (xx E) (xx_Digest0 (xx E)) key;
          let sk = serviceAggregationKey_FromProto key;
          case getServiceMetrics cm sk (MaxServices limits) of
            None \<Rightarrow>
              do { m \<leftarrow> ksm_Metrics fromSvc;
                   ov \<leftarrow> mergeOverflow E (OverflowServices cm) (pbsm_OverflowGroups m);
                   (ov, est) \<leftarrow> overflow_instances E serviceKeyHash (pbsm_ServiceInstanceMetrics m) ov
                                 (OverflowServiceInstancesEstimator cm);
                   Some (g, cm\<lparr>OverflowServices := ov, OverflowServiceInstancesEstimator := est\<rparr>) }
          | Some toSvc \<Rightarrow>
              (case ksm_Metrics fromSvc of
                 None \<Rightarrow> Some (g, cm\<lparr>Services := gm_put (Services cm) sk toSvc\<rparr>)
               | Some m \<Rightarrow>
                   do { ov \<leftarrow> mergeOverflow E (OverflowGroups toSvc) (pbsm_OverflowGroups m);
                        (toSvc, g, est) \<leftarrow> mergeServiceInstanceGroups E limits serviceKeyHash
                           (pbsm_ServiceInstanceMetrics m) (toSvc\<lparr>OverflowGroups := ov\<rparr>) g
                           (OverflowServiceInstancesEstimator cm);
                        Some (g, cm\<lparr>Services := gm_put (Services cm) sk toSvc,
                                    OverflowServiceInstancesEstimator := est\<rparr>) }) }"

fun merge_services ::
  "('sk, 'd) env \<Rightarrow> Limits \<Rightarrow> KeyedServiceMetrics list \<Rightarrow> constraints \<Rightarrow> 'sk combinedMetrics
   \<Rightarrow> (constraints \<times> 'sk combinedMetrics) option" where
  "merge_services E limits [] g cm = Some (g, cm)"
| "merge_services E limits (fromSvc # from) g cm =
     do { (g, cm) \<leftarrow> mergeService E limits fromSvc g cm;
          merge_services E limits from g cm }"

text \<open>The head of \<^verbatim>\<open>merge\<close>, before the services: totals, and the overflow of earlier merges.\<close>

definition merge_totals ::
  "('sk, 'd) env \<Rightarrow> CombinedMetrics \<Rightarrow> 'sk combinedMetrics \<Rightarrow> 'sk combinedMetrics option" where
  "merge_totals E from cm =
     do { let cm = cm\<lparr>EventsTotal := fadd (EventsTotal cm) (pbcm_EventsTotal from)\<rparr>;
          let cm = (if YoungestEventTimestamp cm < pbcm_YoungestEventTimestamp from
                    then cm\<lparr>YoungestEventTimestamp := pbcm_YoungestEventTimestamp from\<rparr> else cm);
          case hllSketch (hll E) (pbcm_OverflowServiceInstancesEstimator from) of
            None \<Rightarrow> Some cm
          | Some s \<Rightarrow>
              do { ov \<leftarrow> mergeOverflow E (OverflowServices cm) (pbcm_OverflowServices from);
                   Some (cm\<lparr>OverflowServices := ov,
                            OverflowServiceInstancesEstimator :=
                              mergeEstimator (hll E) (OverflowServiceInstancesEstimator cm) s\<rparr>) } }"

definition merge ::
  "('sk, 'd) env \<Rightarrow> 'sk combinedMetricsMerger \<Rightarrow> CombinedMetrics \<Rightarrow> 'sk combinedMetricsMerger option" where
  "merge E m from =
     do { cm \<leftarrow> merge_totals E from (mg_metrics m);
          (g, cm) \<leftarrow> merge_services E (mg_limits m) (pbcm_ServiceMetrics from) (mg_constraints m) cm;
          Some (m\<lparr>mg_constraints := g, mg_metrics := cm\<rparr>) }"

text \<open>The merger that pebble's merge function starts with, and merging a sequence into it.\<close>

definition new_merger :: "Limits \<Rightarrow> 'sk combinedMetricsMerger" where
  "new_merger limits =
     \<lparr>mg_limits = limits, mg_constraints = newConstraints limits, mg_metrics = zero_combinedMetrics\<rparr>"

fun merge_all ::
  "('sk, 'd) env \<Rightarrow> 'sk combinedMetricsMerger \<Rightarrow> CombinedMetrics list \<Rightarrow> 'sk combinedMetricsMerger option" where
  "merge_all E m [] = Some m"
| "merge_all E m (x # xs) = do { m \<leftarrow> merge E m x; merge_all E m xs }"

end
