(* ===== verification/GroupMerge.thy ===== *)
theory GroupMerge
  imports Merger
begin

text \<open>
  The contract that the three group loops of \<^verbatim>\<open>merger.go\<close> share, as locales: the loops admit
  new groups while neither constraint is maxed and send the rest to an overflow bucket. What
  follows from it is proved once and instantiated for transactions, service transactions and spans.
\<close>

lemma gm_put_set: "e \<in> set (gm_put m k v) \<Longrightarrow> e = (k, v) \<or> e \<in> set m"
  by (induction m) (auto split: if_splits)

text \<open>A group map is well-formed when each entry is and sits under its own key.\<close>

definition groups_ok :: "('x \<Rightarrow> 'k option) \<Rightarrow> ('x \<Rightarrow> bool) \<Rightarrow> ('k, 'x) gomap \<Rightarrow> bool" where
  "groups_ok key xok m \<longleftrightarrow> gm_ok m \<and> (\<forall>e \<in> set m. xok (snd e) \<and> key (snd e) = Some (fst e))"

text \<open>
  What one run of a loop promises: a well-formed map that keeps every group it had, both
  counters moved by the number of groups added, and neither pushed over its limit.
\<close>

definition run_ok :: "('x \<Rightarrow> 'k option) \<Rightarrow> ('x \<Rightarrow> bool)
   \<Rightarrow> ('k, 'x) gomap \<Rightarrow> constraint \<Rightarrow> constraint \<Rightarrow> ('k, 'x) gomap \<Rightarrow> constraint \<Rightarrow> constraint \<Rightarrow> bool" where
  "run_ok key xok m p g m' p' g' \<longleftrightarrow>
     groups_ok key xok m' \<and> (\<forall>k. gm_get m k \<noteq> None \<longrightarrow> gm_get m' k \<noteq> None)
     \<and> Limit p' = Limit p \<and> Limit g' = Limit g
     \<and> Value p' - Value p = int (gm_len m') - int (gm_len m) \<and> Value g' - Value g = Value p' - Value p
     \<and> Value p' \<le> max (Value p) (Limit p) \<and> Value g' \<le> max (Value g) (Limit g)"

definition all_vals :: "('x \<Rightarrow> bool) \<Rightarrow> ('k, 'x) gomap \<Rightarrow> bool" where
  "all_vals P m \<longleftrightarrow> (\<forall>e \<in> set m. P (snd e))"

lemma all_vals_put: "all_vals P m \<Longrightarrow> P v \<Longrightarrow> all_vals P (gm_put m k v)"
  unfolding all_vals_def by (rule gm_put_all)

lemma all_vals_get: "all_vals P m \<Longrightarrow> gm_get m k = Some v \<Longrightarrow> P v"
  unfolding all_vals_def by (rule gm_get_all)

lemma all_vals_Nil [simp]: "all_vals P []"
  by (simp add: all_vals_def)

section \<open>The shared loop\<close>

text \<open>
  \<open>key\<close> reads the key of a message (\<^term>\<open>None\<close> when it is nil), \<open>adjust\<close> is what is done to the
  message of an unknown group before it is looked up again (the identity but for spans), \<open>vmerge\<close>
  merges into a known group and \<open>omerge\<close> into the overflow bucket; \<open>oloop\<close> sends a whole list
  of messages to the overflow bucket and \<open>mo\<close> merges two overflow buckets. \<open>xok\<close> and \<open>ook\<close> are
  well-formedness of messages and of overflow buckets.
\<close>

locale group_loop =
  fixes key :: "'x \<Rightarrow> 'k option" and adjust :: "constraint \<Rightarrow> 'x \<Rightarrow> 'x"
    and vmerge :: "'x \<Rightarrow> 'x \<Rightarrow> 'x option" and omerge :: "'d \<Rightarrow> 'o \<Rightarrow> 'x \<Rightarrow> 'o option"
    and loop :: "'d \<Rightarrow> 'x list \<Rightarrow> ('k, 'x) gomap \<Rightarrow> constraint \<Rightarrow> constraint \<Rightarrow> 'o
                 \<Rightarrow> (('k, 'x) gomap \<times> constraint \<times> constraint \<times> 'o) option"
    and oloop :: "'d \<Rightarrow> 'x list \<Rightarrow> 'o \<Rightarrow> 'o option" and mo :: "'o \<Rightarrow> 'o \<Rightarrow> 'o option"
  assumes loop_Nil: "loop h [] m p g ob = Some (m, p, g, ob)"
    and loop_known: "key x = Some k \<Longrightarrow> gm_get m k = Some v \<Longrightarrow>
      loop h (x # xs) m p g ob = do { v \<leftarrow> vmerge v x; loop h xs (gm_put m k v) p g ob }"
    and loop_adjusted: "key x = Some k \<Longrightarrow> gm_get m k = None \<Longrightarrow>
      key (adjust p x) = Some k' \<Longrightarrow> gm_get m k' = Some v \<Longrightarrow>
      loop h (x # xs) m p g ob = do { v \<leftarrow> vmerge v (adjust p x); loop h xs (gm_put m k' v) p g ob }"
    and loop_overflow: "key x = Some k \<Longrightarrow> gm_get m k = None \<Longrightarrow>
      key (adjust p x) = Some k' \<Longrightarrow> gm_get m k' = None \<Longrightarrow> Maxed p \<or> Maxed g \<Longrightarrow>
      loop h (x # xs) m p g ob = do { ob \<leftarrow> omerge h ob (adjust p x); loop h xs m p g ob }"
    and loop_new: "key x = Some k \<Longrightarrow> gm_get m k = None \<Longrightarrow>
      key (adjust p x) = Some k' \<Longrightarrow> gm_get m k' = None \<Longrightarrow> \<not> Maxed p \<Longrightarrow> \<not> Maxed g \<Longrightarrow>
      loop h (x # xs) m p g ob = loop h xs (gm_put m k' (adjust p x)) (Add p 1) (Add g 1) ob"
    and oloop_Nil: "oloop h [] ob = Some ob"
    and oloop_Cons: "key x \<noteq> None \<Longrightarrow>
      oloop h (x # xs) ob = do { ob \<leftarrow> omerge h ob x; oloop h xs ob }"
    and key_adjust: "key x \<noteq> None \<Longrightarrow> key (adjust p x) \<noteq> None"
begin

text \<open>The four ways one message is handled, with the state the loop goes on with.\<close>

lemma loop_step:
  assumes "key x \<noteq> None"
  obtains (known) k x' v where "x' = x \<or> x' = adjust p x" and "key x' = Some k" and "gm_get m k = Some v"
      and "\<And>xs. loop h (x # xs) m p g ob = do { v \<leftarrow> vmerge v x'; loop h xs (gm_put m k v) p g ob }"
  | (overflow) k where "key x = Some k" and "gm_get m k = None" and "Maxed p \<or> Maxed g"
      and "\<And>xs. loop h (x # xs) m p g ob = do { ob \<leftarrow> omerge h ob (adjust p x); loop h xs m p g ob }"
  | (new) k where "key (adjust p x) = Some k" and "gm_get m k = None" and "\<not> Maxed p" and "\<not> Maxed g"
      and "\<And>xs. loop h (x # xs) m p g ob = loop h xs (gm_put m k (adjust p x)) (Add p 1) (Add g 1) ob"
proof -
  obtain k k' where k: "key x = Some k" "key (adjust p x) = Some k'"
    using assms key_adjust [of x p] by auto
  show ?thesis
  proof (cases "gm_get m k")
    case (Some v)
    show ?thesis by (rule known [OF _ k(1) Some loop_known [OF k(1) Some]]) simp
  next
    case None
    note miss = this
    show ?thesis
    proof (cases "gm_get m k'")
      case (Some v)
      show ?thesis by (rule known [OF _ k(2) Some loop_adjusted [OF k(1) miss k(2) Some]]) simp
    next
      case None
      show ?thesis
      proof (cases "Maxed p \<or> Maxed g")
        case True
        show ?thesis by (rule overflow [OF k(1) miss True loop_overflow [OF k(1) miss k(2) None True]])
      next
        case False
        then have f: "\<not> Maxed p" "\<not> Maxed g" by auto
        show ?thesis by (rule new [OF k(2) None f loop_new [OF k(1) miss k(2) None f]])
      qed
    qed
  qed
qed

end

section \<open>Limits and well-formedness\<close>

locale group_merge = group_loop key adjust vmerge omerge loop oloop mo
  for key :: "'x \<Rightarrow> 'k option" and adjust vmerge
    and omerge :: "'d \<Rightarrow> 'o \<Rightarrow> 'x \<Rightarrow> 'o option" and loop oloop mo +
  fixes xok :: "'x \<Rightarrow> bool" and ook :: "'o \<Rightarrow> bool"
  assumes xok_key: "xok x \<Longrightarrow> key x \<noteq> None"
    and xok_adjust: "xok x \<Longrightarrow> xok (adjust p x)"
    and vmerge_ok: "xok v \<Longrightarrow> xok x \<Longrightarrow> \<exists>v'. vmerge v x = Some v' \<and> xok v' \<and> key v' = key v"
    and omerge_ok: "ook ob \<Longrightarrow> xok x \<Longrightarrow> \<exists>ob'. omerge h ob x = Some ob' \<and> ook ob'"
    and mo_ok: "ook ob \<Longrightarrow> ook ob1 \<Longrightarrow> \<exists>ob'. mo ob ob1 = Some ob' \<and> ook ob'"
begin

lemma oloop_ok:
  "\<forall>x \<in> set xs. xok x \<Longrightarrow> ook ob \<Longrightarrow> \<exists>ob'. oloop h xs ob = Some ob' \<and> ook ob'"
proof (induction xs arbitrary: ob)
  case (Cons x xs)
  then have x: "xok x" and xs: "\<forall>x \<in> set xs. xok x" by auto
  from omerge_ok [OF Cons.prems(2) x] obtain ob1 where "omerge h ob x = Some ob1" "ook ob1" by blast
  with Cons.IH [OF xs, of ob1] show ?case by (simp add: oloop_Cons [OF xok_key [OF x]])
qed (simp add: oloop_Nil)

lemma groups_ok_put: "groups_ok key xok m \<Longrightarrow> xok v \<Longrightarrow> key v = Some k \<Longrightarrow> groups_ok key xok (gm_put m k v)"
  unfolding groups_ok_def by (auto dest!: gm_put_set)

lemma groups_ok_get: "groups_ok key xok m \<Longrightarrow> gm_get m k = Some v \<Longrightarrow> xok v \<and> key v = Some k"
  by (auto simp: groups_ok_def dest!: map_of_SomeD)

lemma loop_run_ok:
  "groups_ok key xok m \<Longrightarrow> \<forall>x \<in> set xs. xok x \<Longrightarrow> ook ob \<Longrightarrow>
   \<exists>m' p' g' ob'. loop h xs m p g ob = Some (m', p', g', ob') \<and> ook ob' \<and> run_ok key xok m p g m' p' g'"
proof (induction xs arbitrary: m p g ob)
  case Nil
  then show ?case by (simp add: loop_Nil run_ok_def)
next
  case (Cons x xs)
  from Cons.prems have x: "xok x" and xs: "\<forall>x \<in> set xs. xok x" by auto
  from xok_key [OF x] show ?case
  proof (cases rule: loop_step [of x p m h g ob])
    case (known k x' v)
    from known x have "xok x'" by (auto intro: xok_adjust)
    with known groups_ok_get [OF Cons.prems(1) known(3)] obtain v' where
      v': "vmerge v x' = Some v'" "xok v'" "key v' = Some k"
      by (metis vmerge_ok)
    with Cons.IH [OF groups_ok_put [OF Cons.prems(1) v'(2,3)] xs Cons.prems(3)]
    obtain m' p' g' ob' where "loop h xs (gm_put m k v') p g ob = Some (m', p', g', ob')" "ook ob'"
      "run_ok key xok (gm_put m k v') p g m' p' g'" by blast
    with known v' show ?thesis
      by (auto simp: run_ok_def gomap_simps split: if_splits)
  next
    case (overflow k)
    from omerge_ok [OF Cons.prems(3) xok_adjust [OF x]] obtain ob1 where
      "omerge h ob (adjust p x) = Some ob1" "ook ob1" by blast
    with Cons.IH [OF Cons.prems(1) xs] overflow(4) show ?thesis by simp
  next
    case (new k)
    from Cons.IH [OF groups_ok_put [OF Cons.prems(1) xok_adjust [OF x] new(1)] xs Cons.prems(3)]
    obtain m' p' g' ob' where "loop h xs (gm_put m k (adjust p x)) (Add p 1) (Add g 1) ob
        = Some (m', p', g', ob')" "ook ob'"
      "run_ok key xok (gm_put m k (adjust p x)) (Add p 1) (Add g 1) m' p' g'" by blast
    with new show ?thesis
      by (auto simp: run_ok_def gomap_simps Maxed_iff split: if_splits)
  qed
qed

text \<open>While the limits leave room for every message, nothing goes to the overflow bucket.\<close>

lemma loop_no_overflow:
  "groups_ok key xok m \<Longrightarrow> \<forall>x \<in> set xs. xok x \<Longrightarrow>
   Value p + int (length xs) \<le> Limit p \<Longrightarrow> Value g + int (length xs) \<le> Limit g \<Longrightarrow>
   \<exists>m' p' g'. loop h xs m p g ob = Some (m', p', g', ob)"
proof (induction xs arbitrary: m p g)
  case Nil
  then show ?case by (simp add: loop_Nil)
next
  case (Cons x xs)
  from Cons.prems have x: "xok x" and xs: "\<forall>x \<in> set xs. xok x" by auto
  from xok_key [OF x] show ?case
  proof (cases rule: loop_step [of x p m h g ob])
    case (known k x' v)
    from known x have "xok x'" by (auto intro: xok_adjust)
    with known groups_ok_get [OF Cons.prems(1) known(3)] obtain v' where
      v': "vmerge v x' = Some v'" "xok v'" "key v' = Some k"
      by (metis vmerge_ok)
    with Cons.IH [OF groups_ok_put [OF Cons.prems(1) v'(2,3)] xs, of p g] Cons.prems known
    show ?thesis by simp
  next
    case (overflow k)
    with Cons.prems(3,4) show ?thesis by (auto simp: Maxed_iff)
  next
    case (new k)
    with Cons.IH [OF groups_ok_put [OF Cons.prems(1) xok_adjust [OF x] new(1)] xs,
        of "Add p 1" "Add g 1"] Cons.prems
    show ?thesis by simp
  qed
qed

end

section \<open>Conservation\<close>

text \<open>
  A weight \<open>w\<close> of messages and \<open>ow\<close> of overflow buckets that both merges add up is conserved by
  the loop: whatever is not in a group is in the overflow bucket. \<open>exact\<close> and \<open>oexact\<close> are the
  values on which the weights are defined, \<open>fits\<close> the totals within which addition is exact.
\<close>

locale group_conserve = group_loop key adjust vmerge omerge loop oloop mo
  for key :: "'x \<Rightarrow> 'k option" and adjust vmerge
    and omerge :: "'d \<Rightarrow> 'o \<Rightarrow> 'x \<Rightarrow> 'o option" and loop oloop mo +
  fixes w :: "'x \<Rightarrow> 'c::cancel_comm_monoid_add" and ow :: "'o \<Rightarrow> 'c"
    and exact :: "'x \<Rightarrow> bool" and oexact :: "'o \<Rightarrow> bool" and fits :: "'c \<Rightarrow> bool"
  assumes fits_add: "fits (a + b) \<Longrightarrow> fits a"
    and exact_key: "exact x \<Longrightarrow> key x \<noteq> None"
    and exact_adjust: "exact x \<Longrightarrow> exact (adjust p x) \<and> w (adjust p x) = w x"
    and vmerge_exact: "exact v \<Longrightarrow> exact x \<Longrightarrow> fits (w v + w x) \<Longrightarrow> vmerge v x = Some v' \<Longrightarrow>
      exact v' \<and> w v' = w v + w x"
    and omerge_exact: "oexact ob \<Longrightarrow> exact x \<Longrightarrow> fits (ow ob + w x) \<Longrightarrow> omerge h ob x = Some ob' \<Longrightarrow>
      oexact ob' \<and> ow ob' = ow ob + w x"
    and mo_exact: "oexact ob \<Longrightarrow> oexact ob1 \<Longrightarrow> fits (ow ob + ow ob1) \<Longrightarrow> mo ob ob1 = Some ob' \<Longrightarrow>
      oexact ob' \<and> ow ob' = ow ob + ow ob1"
begin

lemma oloop_conserves:
  "\<forall>x \<in> set xs. exact x \<Longrightarrow> oexact ob \<Longrightarrow> fits (ow ob + sum_list (map w xs)) \<Longrightarrow>
   oloop h xs ob = Some ob' \<Longrightarrow> oexact ob' \<and> ow ob' = ow ob + sum_list (map w xs)"
proof (induction xs arbitrary: ob)
  case (Cons x xs)
  then have x: "exact x" and xs: "\<forall>x \<in> set xs. exact x" by auto
  from Cons.prems(4) obtain ob1 where ob1: "omerge h ob x = Some ob1"
    and lp: "oloop h xs ob1 = Some ob'"
    by (auto simp: oloop_Cons [OF exact_key [OF x]] split: bind_splits)
  have "fits (ow ob + w x)"
    using Cons.prems(3) by (auto simp: ac_simps intro: fits_add [of _ "sum_list (map w xs)"])
  with omerge_exact [OF Cons.prems(2) x _ ob1] have e: "oexact ob1" "ow ob1 = ow ob + w x" by auto
  from Cons.IH [OF xs e(1) _ lp] Cons.prems(3) show ?case by (simp add: e(2) ac_simps)
qed (simp add: oloop_Nil)

lemma gm_sum_split: "gm_get m k = Some v \<Longrightarrow> \<exists>r. gm_sum w m = w v + r"
proof (induction m)
  case (Cons e m)
  show ?case
  proof (cases "fst e = k")
    case True
    with Cons.prems show ?thesis by auto
  next
    case False
    with Cons obtain r where "gm_sum w m = w v + r" by auto
    then have "gm_sum w (e # m) = w v + (w (snd e) + r)" by (simp add: ac_simps)
    then show ?thesis by blast
  qed
qed simp

lemma loop_conserves:
  "all_vals exact m \<Longrightarrow> \<forall>x \<in> set xs. exact x \<Longrightarrow> oexact ob \<Longrightarrow>
   fits (gm_sum w m + ow ob + sum_list (map w xs)) \<Longrightarrow>
   loop h xs m p g ob = Some (m', p', g', ob') \<Longrightarrow>
   all_vals exact m' \<and> oexact ob' \<and> gm_sum w m' + ow ob' = gm_sum w m + ow ob + sum_list (map w xs)"
proof (induction xs arbitrary: m p g ob)
  case Nil
  then show ?case by (simp add: loop_Nil)
next
  case (Cons x xs)
  from Cons.prems have x: "exact x" and xs: "\<forall>x \<in> set xs. exact x" by auto
  from exact_key [OF x] show ?case
  proof (cases rule: loop_step [of x p m h g ob])
    case (known k x' v)
    have x': "exact x'" "w x' = w x" using known(1) x exact_adjust by auto
    from known Cons.prems(5) obtain v' where v': "vmerge v x' = Some v'"
      and lp: "loop h xs (gm_put m k v') p g ob = Some (m', p', g', ob')"
      by (auto split: bind_splits)
    from gm_sum_split [OF known(3)] obtain r where r: "gm_sum w m = w v + r" by blast
    have "exact v" by (rule all_vals_get [OF Cons.prems(1) known(3)])
    moreover have "fits (w v + w x')"
      using Cons.prems(4) x'(2) by (auto simp: r ac_simps intro: fits_add [of _ "r + ow ob + sum_list (map w xs)"])
    ultimately have e: "exact v'" "w v' = w v + w x"
      using vmerge_exact [OF _ x'(1) _ v'] x'(2) by auto
    have "gm_sum w (gm_put m k v') + w v = gm_sum w m + w v'" by (rule gm_sum_put_old [OF known(3)])
    then have s: "gm_sum w (gm_put m k v') = gm_sum w m + w x"
      unfolding e(2) by (metis add.assoc add.commute add_right_cancel)
    from Cons.IH [OF all_vals_put [OF Cons.prems(1) e(1)] xs Cons.prems(3) _ lp] Cons.prems(4)
    show ?thesis by (simp add: s ac_simps)
  next
    case (overflow k)
    have x': "exact (adjust p x)" "w (adjust p x) = w x" using x exact_adjust by auto
    from overflow Cons.prems(5) obtain ob1 where ob1: "omerge h ob (adjust p x) = Some ob1"
      and lp: "loop h xs m p g ob1 = Some (m', p', g', ob')"
      by (auto split: bind_splits)
    have "fits (ow ob + w (adjust p x))"
      using Cons.prems(4) x'(2) by (auto simp: ac_simps intro: fits_add [of _ "gm_sum w m + sum_list (map w xs)"])
    with omerge_exact [OF Cons.prems(3) x'(1) _ ob1] x'(2)
    have e: "oexact ob1" "ow ob1 = ow ob + w x" by auto
    from Cons.IH [OF Cons.prems(1) xs e(1) _ lp] Cons.prems(4)
    show ?thesis by (simp add: e(2) ac_simps)
  next
    case (new k)
    have x': "exact (adjust p x)" "w (adjust p x) = w x" using x exact_adjust by auto
    from new Cons.prems(5)
    have lp: "loop h xs (gm_put m k (adjust p x)) (Add p 1) (Add g 1) ob = Some (m', p', g', ob')" by simp
    from Cons.IH [OF all_vals_put [OF Cons.prems(1) x'(1)] xs Cons.prems(3) _ lp] Cons.prems(4)
    show ?thesis by (simp add: gm_sum_put_new [OF new(2)] x'(2) ac_simps)
  qed
qed

end

text \<open>A well-formed loop conserves the weight that is zero everywhere.\<close>

context group_merge
begin

lemma zero_conserve:
  fixes ok :: "'c::cancel_comm_monoid_add \<Rightarrow> bool"
  assumes "\<And>a b. ok (a + b) \<Longrightarrow> ok a"
  shows "group_conserve key adjust vmerge omerge loop oloop mo (\<lambda>_. 0) (\<lambda>_. 0) xok ook ok"
  by unfold_locales
    (use assms xok_key xok_adjust vmerge_ok omerge_ok mo_ok in \<open>auto, (metis option.inject)+\<close>)

end

end
