(* ===== verification/MergeKinds.thy ===== *)
theory MergeKinds
  imports GroupMerge
begin

text \<open>
  The three kinds of groups: well-formed messages, what merging two of them gives, and the
  interpretations of the loop contracts of theory \<open>GroupMerge\<close> on the loops of \<^verbatim>\<open>merger.go\<close>.
\<close>

section \<open>Well-formed messages\<close>

definition hist_ok :: "HDRHistogram option \<Rightarrow> bool" where
  "hist_ok h \<longleftrightarrow> (case h of None \<Rightarrow> True | Some h \<Rightarrow> hdr_ok h)"

definition ktm_ok :: "KeyedTransactionMetrics \<Rightarrow> bool" where
  "ktm_ok x \<longleftrightarrow> ktm_Key x \<noteq> None
     \<and> (case ktm_Metrics x of None \<Rightarrow> False | Some m \<Rightarrow> hist_ok (tm_Histogram m))"

definition kstm_ok :: "KeyedServiceTransactionMetrics \<Rightarrow> bool" where
  "kstm_ok x \<longleftrightarrow> kstm_Key x \<noteq> None
     \<and> (case kstm_Metrics x of None \<Rightarrow> False | Some m \<Rightarrow> hist_ok (stm_Histogram m))"

definition kspm_ok :: "KeyedSpanMetrics \<Rightarrow> bool" where
  "kspm_ok x \<longleftrightarrow> kspm_Key x \<noteq> None \<and> kspm_Metrics x \<noteq> None"

text \<open>An overflow bucket has metrics exactly when it has an estimator.\<close>

definition ot_ok :: "'sk overflowTransaction \<Rightarrow> bool" where
  "ot_ok ob \<longleftrightarrow> (case ot_Metrics ob of None \<Rightarrow> ot_Estimator ob = None
     | Some m \<Rightarrow> ot_Estimator ob \<noteq> None \<and> hist_ok (tm_Histogram m))"

definition ost_ok :: "'sk overflowServiceTransaction \<Rightarrow> bool" where
  "ost_ok ob \<longleftrightarrow> (case ost_Metrics ob of None \<Rightarrow> ost_Estimator ob = None
     | Some m \<Rightarrow> ost_Estimator ob \<noteq> None \<and> hist_ok (stm_Histogram m))"

definition osp_ok :: "'sk overflowSpan \<Rightarrow> bool" where
  "osp_ok ob \<longleftrightarrow> (osp_Metrics ob = None \<longleftrightarrow> osp_Estimator ob = None)"

text \<open>The count of a bucket in an optional histogram.\<close>

definition hist_count :: "int32 \<Rightarrow> HDRHistogram option \<Rightarrow> int64" where
  "hist_count b h = (case h of None \<Rightarrow> 0 | Some h \<Rightarrow> hdr_count h b)"

definition tm_count :: "int32 \<Rightarrow> TransactionMetrics option \<Rightarrow> int64" where
  "tm_count b m = (case m of None \<Rightarrow> 0 | Some m \<Rightarrow> hist_count b (tm_Histogram m))"

definition stm_count :: "int32 \<Rightarrow> ServiceTransactionMetrics option \<Rightarrow> int64" where
  "stm_count b m = (case m of None \<Rightarrow> 0 | Some m \<Rightarrow> hist_count b (stm_Histogram m))"

lemmas hist_defs = hist_ok_def hist_count_def tm_count_def stm_count_def

lemma hdr_ok_zero [simp]: "hdr_ok zero_HDRHistogram" "hdr_count zero_HDRHistogram b = 0"
  by (simp_all add: hdr_ok_def zero_HDRHistogram_def hdr_bars_def bars_sorted_def hdr_count_def)

lemma mergeHistogram_counts:
  assumes "hdr_ok to" and "hdr_ok from"
  obtains r where "mergeHistogram jb jc to from = Some r" and "hdr_ok r"
    and "\<And>b. hdr_count r b = hdr_count to b + hdr_count from b"
  using mergeHistogram_correct [OF assms, of jb jc] by (auto simp: hdr_count_def bars_at_merge)

section \<open>Merging metrics\<close>

lemma mergeTransactionMetrics_ok:
  assumes "hist_ok (tm_Histogram to)" and "hist_ok (tm_Histogram from)"
  obtains r where "mergeTransactionMetrics E to (Some from) = Some r" and "hist_ok (tm_Histogram r)"
    and "\<And>b. tm_count b (Some r) = tm_count b (Some to) + tm_count b (Some from)"
proof (cases "tm_Histogram from")
  case None
  show ?thesis by (rule that [of to]) (use assms None in \<open>auto simp: mergeTransactionMetrics_def hist_defs split: option.splits\<close>)
next
  case (Some fh)
  define th where "th = (case tm_Histogram to of None \<Rightarrow> zero_HDRHistogram | Some h \<Rightarrow> h)"
  have th: "hdr_ok th" "\<And>b. hdr_count th b = hist_count b (tm_Histogram to)"
    using assms(1) by (auto simp: th_def hist_defs split: option.splits)
  have "hdr_ok fh" using assms(2) Some by (simp add: hist_ok_def)
  from mergeHistogram_counts [OF th(1) this, of "junk_buckets E" "junk_counts E"] obtain r where
    r: "mergeHistogram (junk_buckets E) (junk_counts E) th fh = Some r" "hdr_ok r"
    "\<And>b. hdr_count r b = hdr_count th b + hdr_count fh b" by blast
  show ?thesis
    by (rule that [of "to\<lparr>tm_Histogram := Some r\<rparr>"])
      (use r th Some in \<open>auto simp: mergeTransactionMetrics_def Let_def th_def hist_defs split: option.splits\<close>)
qed

lemma mergeServiceTransactionMetrics_ok:
  assumes "hist_ok (stm_Histogram to)" and "hist_ok (stm_Histogram from)"
  obtains r where "mergeServiceTransactionMetrics E to (Some from) = Some r"
    and "hist_ok (stm_Histogram r)"
    and "\<And>b. stm_count b (Some r) = stm_count b (Some to) + stm_count b (Some from)"
    and "stm_FailureCount r = fadd (stm_FailureCount to) (stm_FailureCount from)"
    and "stm_SuccessCount r = fadd (stm_SuccessCount to) (stm_SuccessCount from)"
proof (cases "stm_Histogram from")
  case None
  show ?thesis
    by (rule that [of "to\<lparr>stm_FailureCount := fadd (stm_FailureCount to) (stm_FailureCount from),
          stm_SuccessCount := fadd (stm_SuccessCount to) (stm_SuccessCount from)\<rparr>"])
      (use assms None in \<open>auto simp: mergeServiceTransactionMetrics_def hist_defs split: option.splits\<close>)
next
  case (Some fh)
  define th where "th = (case stm_Histogram to of None \<Rightarrow> zero_HDRHistogram | Some h \<Rightarrow> h)"
  have th: "hdr_ok th" "\<And>b. hdr_count th b = hist_count b (stm_Histogram to)"
    using assms(1) by (auto simp: th_def hist_defs split: option.splits)
  have "hdr_ok fh" using assms(2) Some by (simp add: hist_ok_def)
  from mergeHistogram_counts [OF th(1) this, of "junk_buckets E" "junk_counts E"] obtain r where
    r: "mergeHistogram (junk_buckets E) (junk_counts E) th fh = Some r" "hdr_ok r"
    "\<And>b. hdr_count r b = hdr_count th b + hdr_count fh b" by blast
  show ?thesis
    by (rule that [of "to\<lparr>stm_Histogram := Some r,
          stm_FailureCount := fadd (stm_FailureCount to) (stm_FailureCount from),
          stm_SuccessCount := fadd (stm_SuccessCount to) (stm_SuccessCount from)\<rparr>"])
      (use r th Some in \<open>auto simp: mergeServiceTransactionMetrics_def Let_def th_def hist_defs split: option.splits\<close>)
qed

lemma hist_ok_zero [simp]:
  "hist_ok (tm_Histogram zero_TransactionMetrics)" "tm_count b (Some zero_TransactionMetrics) = 0"
  "hist_ok (stm_Histogram zero_ServiceTransactionMetrics)"
  "stm_count b (Some zero_ServiceTransactionMetrics) = 0"
  "tm_count b None = 0" "stm_count b None = 0"
  by (simp_all add: hist_defs zero_TransactionMetrics_def zero_ServiceTransactionMetrics_def)

section \<open>Transactions\<close>

definition txn_key :: "KeyedTransactionMetrics \<Rightarrow> transactionAggregationKey option" where
  "txn_key x = map_option transactionAggregationKey_FromProto (ktm_Key x)"

definition txn_overflow ::
  "('sk, 'd) env \<Rightarrow> 'd \<Rightarrow> 'sk overflowTransaction \<Rightarrow> KeyedTransactionMetrics \<Rightarrow> 'sk overflowTransaction option" where
  "txn_overflow E h ob x =
     do { k \<leftarrow> ktm_Key x;
          ot_Merge E ob (ktm_Metrics x) (xx_Sum64 (xx E) (HashTransactionAggregationKey (xx E) h k)) }"

lemma txn_group_loop:
  "group_loop txn_key (\<lambda>_ x. x) (mergeKeyedTransactionMetrics E) (txn_overflow E)
     (mergeTransactionGroups E) (overflow_txns E)"
  by unfold_locales (auto simp: txn_key_def txn_overflow_def Let_def)

lemma mergeKeyedTransactionMetrics_ok:
  assumes "ktm_ok v" and "ktm_ok x"
  obtains v' where "mergeKeyedTransactionMetrics E v x = Some v'" and "ktm_ok v'"
    and "txn_key v' = txn_key v"
    and "\<And>b. tm_count b (ktm_Metrics v') = tm_count b (ktm_Metrics v) + tm_count b (ktm_Metrics x)"
proof -
  obtain mv mx where m: "ktm_Metrics v = Some mv" "hist_ok (tm_Histogram mv)"
    "ktm_Metrics x = Some mx" "hist_ok (tm_Histogram mx)"
    using assms by (auto simp: ktm_ok_def split: option.splits)
  from mergeTransactionMetrics_ok [OF m(2,4), of E] obtain r where
    r: "mergeTransactionMetrics E mv (Some mx) = Some r" "hist_ok (tm_Histogram r)"
    "\<And>b. tm_count b (Some r) = tm_count b (Some mv) + tm_count b (Some mx)" by blast
  show ?thesis
    by (rule that [of "v\<lparr>ktm_Metrics := Some r\<rparr>"])
      (use m r assms(1) in \<open>simp_all add: mergeKeyedTransactionMetrics_def txn_key_def ktm_ok_def\<close>)
qed

lemma ot_Merge_ok:
  assumes "ot_ok ob" and "hist_ok (tm_Histogram mx)"
  obtains ob' where "ot_Merge E ob (Some mx) n = Some ob'" and "ot_ok ob'"
    and "\<And>b. tm_count b (ot_Metrics ob') = tm_count b (ot_Metrics ob) + tm_count b (Some mx)"
proof -
  define mv where "mv = (case ot_Metrics ob of None \<Rightarrow> zero_TransactionMetrics | Some m \<Rightarrow> m)"
  have mv: "hist_ok (tm_Histogram mv)" "\<And>b. tm_count b (Some mv) = tm_count b (ot_Metrics ob)"
    using assms(1) by (auto simp: mv_def ot_ok_def split: option.splits)
  from mergeTransactionMetrics_ok [OF mv(1) assms(2), of E] obtain r where
    r: "mergeTransactionMetrics E mv (Some mx) = Some r" "hist_ok (tm_Histogram r)"
    "\<And>b. tm_count b (Some r) = tm_count b (Some mv) + tm_count b (Some mx)" by blast
  show ?thesis
    by (rule that [of "ob\<lparr>ot_Metrics := Some r, ot_Estimator := insertHash (hll E) (ot_Estimator ob) n\<rparr>"])
      (use mv(2) r in \<open>simp_all add: ot_Merge_def mv_def Let_def insertHash_def ot_ok_def\<close>)
qed

lemma ot_MergeOverflow_ok:
  assumes "ot_ok ob" and "ot_ok ob1"
  obtains ob' where "ot_MergeOverflow E ob ob1 = Some ob'" and "ot_ok ob'"
    and "\<And>b. tm_count b (ot_Metrics ob') = tm_count b (ot_Metrics ob) + tm_count b (ot_Metrics ob1)"
proof (cases "ot_Metrics ob1")
  case None
  show ?thesis by (rule that [of ob]) (use assms None in \<open>auto simp: ot_ok_def ot_MergeOverflow_def\<close>)
next
  case (Some mx)
  then obtain s where s: "ot_Estimator ob1 = Some s" "hist_ok (tm_Histogram mx)"
    using assms(2) by (auto simp: ot_ok_def)
  define mv where "mv = (case ot_Metrics ob of None \<Rightarrow> zero_TransactionMetrics | Some m \<Rightarrow> m)"
  have mv: "hist_ok (tm_Histogram mv)" "\<And>b. tm_count b (Some mv) = tm_count b (ot_Metrics ob)"
    using assms(1) by (auto simp: mv_def ot_ok_def split: option.splits)
  from mergeTransactionMetrics_ok [OF mv(1) s(2), of E] obtain r where
    r: "mergeTransactionMetrics E mv (Some mx) = Some r" "hist_ok (tm_Histogram r)"
    "\<And>b. tm_count b (Some r) = tm_count b (Some mv) + tm_count b (Some mx)" by blast
  show ?thesis
    by (rule that [of "ob\<lparr>ot_Metrics := Some r, ot_Estimator := mergeEstimator (hll E) (ot_Estimator ob) s\<rparr>"])
      (use mv(2) r s Some in \<open>simp_all add: ot_MergeOverflow_def mv_def Let_def ot_ok_def mergeEstimator_def\<close>)
qed

lemma txn_overflow_ok:
  assumes "ot_ok ob" and "ktm_ok x"
  obtains ob' where "txn_overflow E h ob x = Some ob'" and "ot_ok ob'"
    and "\<And>b. tm_count b (ot_Metrics ob') = tm_count b (ot_Metrics ob) + tm_count b (ktm_Metrics x)"
proof -
  obtain k mx where x: "ktm_Key x = Some k" "ktm_Metrics x = Some mx" "hist_ok (tm_Histogram mx)"
    using assms(2) by (auto simp: ktm_ok_def split: option.splits)
  show ?thesis
    by (rule ot_Merge_ok [OF assms(1) x(3)], rule that) (auto simp: txn_overflow_def x)
qed

interpretation txn: group_merge txn_key "\<lambda>_ x. x" "mergeKeyedTransactionMetrics E" "txn_overflow E"
  "mergeTransactionGroups E" "overflow_txns E" "ot_MergeOverflow E" ktm_ok ot_ok
  for E :: "('sk, 'd) env"
proof (intro group_merge.intro txn_group_loop group_merge_axioms.intro)
  fix v x :: KeyedTransactionMetrics and ob ob1 :: "'sk overflowTransaction" and h :: 'd
  show "ktm_ok x \<Longrightarrow> txn_key x \<noteq> None" by (auto simp: ktm_ok_def txn_key_def)
  show "ktm_ok v \<Longrightarrow> ktm_ok x \<Longrightarrow> \<exists>v'. mergeKeyedTransactionMetrics E v x = Some v' \<and> ktm_ok v' \<and> txn_key v' = txn_key v"
    by (erule mergeKeyedTransactionMetrics_ok [of v x E]) auto
  show "ot_ok ob \<Longrightarrow> ktm_ok x \<Longrightarrow> \<exists>ob'. txn_overflow E h ob x = Some ob' \<and> ot_ok ob'"
    by (erule txn_overflow_ok [of ob x E h]) auto
  show "ot_ok ob \<Longrightarrow> ot_ok ob1 \<Longrightarrow> \<exists>ob'. ot_MergeOverflow E ob ob1 = Some ob' \<and> ot_ok ob'"
    by (erule ot_MergeOverflow_ok [of ob ob1 E]) auto
qed

lemma txn_conserve:
  "group_conserve txn_key (\<lambda>_ x. x) (mergeKeyedTransactionMetrics E) (txn_overflow E)
     (mergeTransactionGroups E) (overflow_txns E) (ot_MergeOverflow E)
     (\<lambda>x. tm_count b (ktm_Metrics x)) (\<lambda>ob. tm_count b (ot_Metrics ob)) ktm_ok ot_ok (\<lambda>_. True)"
  for E :: "('sk, 'd) env"
proof (intro group_conserve.intro txn_group_loop group_conserve_axioms.intro)
  fix v x v' :: KeyedTransactionMetrics and ob ob1 ob' :: "'sk overflowTransaction" and h :: 'd
  show "ktm_ok x \<Longrightarrow> txn_key x \<noteq> None" by (auto simp: ktm_ok_def txn_key_def)
  show "ktm_ok v \<Longrightarrow> ktm_ok x \<Longrightarrow> mergeKeyedTransactionMetrics E v x = Some v' \<Longrightarrow>
      ktm_ok v' \<and> tm_count b (ktm_Metrics v') = tm_count b (ktm_Metrics v) + tm_count b (ktm_Metrics x)"
    by (erule mergeKeyedTransactionMetrics_ok [of v x E]) auto
  show "ot_ok ob \<Longrightarrow> ktm_ok x \<Longrightarrow> txn_overflow E h ob x = Some ob' \<Longrightarrow>
      ot_ok ob' \<and> tm_count b (ot_Metrics ob') = tm_count b (ot_Metrics ob) + tm_count b (ktm_Metrics x)"
    by (erule txn_overflow_ok [of ob x E h]) auto
  show "ot_ok ob \<Longrightarrow> ot_ok ob1 \<Longrightarrow> ot_MergeOverflow E ob ob1 = Some ob' \<Longrightarrow>
      ot_ok ob' \<and> tm_count b (ot_Metrics ob') = tm_count b (ot_Metrics ob) + tm_count b (ot_Metrics ob1)"
    by (erule ot_MergeOverflow_ok [of ob ob1 E]) auto
qed auto

section \<open>Service transactions\<close>

definition svctxn_key :: "KeyedServiceTransactionMetrics \<Rightarrow> serviceTransactionAggregationKey option" where
  "svctxn_key x = map_option serviceTransactionAggregationKey_FromProto (kstm_Key x)"

definition svctxn_overflow ::
  "('sk, 'd) env \<Rightarrow> 'd \<Rightarrow> 'sk overflowServiceTransaction \<Rightarrow> KeyedServiceTransactionMetrics \<Rightarrow> 'sk overflowServiceTransaction option" where
  "svctxn_overflow E h ob x =
     do { k \<leftarrow> kstm_Key x;
          ost_Merge E ob (kstm_Metrics x) (xx_Sum64 (xx E) (HashServiceTransactionAggregationKey (xx E) h k)) }"

lemma svctxn_group_loop:
  "group_loop svctxn_key (\<lambda>_ x. x) (mergeKeyedServiceTransactionMetrics E) (svctxn_overflow E)
     (mergeServiceTransactionGroups E) (overflow_svctxns E)"
  by unfold_locales (auto simp: svctxn_key_def svctxn_overflow_def Let_def)

lemma mergeKeyedServiceTransactionMetrics_ok:
  assumes "kstm_ok v" and "kstm_ok x"
  obtains v' where "mergeKeyedServiceTransactionMetrics E v x = Some v'" and "kstm_ok v'"
    and "svctxn_key v' = svctxn_key v"
    and "\<And>b. stm_count b (kstm_Metrics v') = stm_count b (kstm_Metrics v) + stm_count b (kstm_Metrics x)"
proof -
  obtain mv mx where m: "kstm_Metrics v = Some mv" "hist_ok (stm_Histogram mv)"
    "kstm_Metrics x = Some mx" "hist_ok (stm_Histogram mx)"
    using assms by (auto simp: kstm_ok_def split: option.splits)
  from mergeServiceTransactionMetrics_ok [OF m(2,4), of E] obtain r where
    r: "mergeServiceTransactionMetrics E mv (Some mx) = Some r" "hist_ok (stm_Histogram r)"
    "\<And>b. stm_count b (Some r) = stm_count b (Some mv) + stm_count b (Some mx)" by blast
  show ?thesis
    by (rule that [of "v\<lparr>kstm_Metrics := Some r\<rparr>"])
      (use m r assms(1) in \<open>simp_all add: mergeKeyedServiceTransactionMetrics_def svctxn_key_def kstm_ok_def\<close>)
qed

lemma ost_Merge_ok:
  assumes "ost_ok ob" and "hist_ok (stm_Histogram mx)"
  obtains ob' where "ost_Merge E ob (Some mx) n = Some ob'" and "ost_ok ob'"
    and "\<And>b. stm_count b (ost_Metrics ob') = stm_count b (ost_Metrics ob) + stm_count b (Some mx)"
proof -
  define mv where "mv = (case ost_Metrics ob of None \<Rightarrow> zero_ServiceTransactionMetrics | Some m \<Rightarrow> m)"
  have mv: "hist_ok (stm_Histogram mv)" "\<And>b. stm_count b (Some mv) = stm_count b (ost_Metrics ob)"
    using assms(1) by (auto simp: mv_def ost_ok_def split: option.splits)
  from mergeServiceTransactionMetrics_ok [OF mv(1) assms(2), of E] obtain r where
    r: "mergeServiceTransactionMetrics E mv (Some mx) = Some r" "hist_ok (stm_Histogram r)"
    "\<And>b. stm_count b (Some r) = stm_count b (Some mv) + stm_count b (Some mx)" by blast
  show ?thesis
    by (rule that [of "ob\<lparr>ost_Metrics := Some r, ost_Estimator := insertHash (hll E) (ost_Estimator ob) n\<rparr>"])
      (use mv(2) r in \<open>simp_all add: ost_Merge_def mv_def Let_def insertHash_def ost_ok_def\<close>)
qed

lemma ost_MergeOverflow_ok:
  assumes "ost_ok ob" and "ost_ok ob1"
  obtains ob' where "ost_MergeOverflow E ob ob1 = Some ob'" and "ost_ok ob'"
    and "\<And>b. stm_count b (ost_Metrics ob') = stm_count b (ost_Metrics ob) + stm_count b (ost_Metrics ob1)"
proof (cases "ost_Metrics ob1")
  case None
  show ?thesis by (rule that [of ob]) (use assms None in \<open>auto simp: ost_ok_def ost_MergeOverflow_def\<close>)
next
  case (Some mx)
  then obtain s where s: "ost_Estimator ob1 = Some s" "hist_ok (stm_Histogram mx)"
    using assms(2) by (auto simp: ost_ok_def)
  define mv where "mv = (case ost_Metrics ob of None \<Rightarrow> zero_ServiceTransactionMetrics | Some m \<Rightarrow> m)"
  have mv: "hist_ok (stm_Histogram mv)" "\<And>b. stm_count b (Some mv) = stm_count b (ost_Metrics ob)"
    using assms(1) by (auto simp: mv_def ost_ok_def split: option.splits)
  from mergeServiceTransactionMetrics_ok [OF mv(1) s(2), of E] obtain r where
    r: "mergeServiceTransactionMetrics E mv (Some mx) = Some r" "hist_ok (stm_Histogram r)"
    "\<And>b. stm_count b (Some r) = stm_count b (Some mv) + stm_count b (Some mx)" by blast
  show ?thesis
    by (rule that [of "ob\<lparr>ost_Metrics := Some r, ost_Estimator := mergeEstimator (hll E) (ost_Estimator ob) s\<rparr>"])
      (use mv(2) r s Some in \<open>simp_all add: ost_MergeOverflow_def mv_def Let_def ost_ok_def mergeEstimator_def\<close>)
qed

lemma svctxn_overflow_ok:
  assumes "ost_ok ob" and "kstm_ok x"
  obtains ob' where "svctxn_overflow E h ob x = Some ob'" and "ost_ok ob'"
    and "\<And>b. stm_count b (ost_Metrics ob') = stm_count b (ost_Metrics ob) + stm_count b (kstm_Metrics x)"
proof -
  obtain k mx where x: "kstm_Key x = Some k" "kstm_Metrics x = Some mx" "hist_ok (stm_Histogram mx)"
    using assms(2) by (auto simp: kstm_ok_def split: option.splits)
  show ?thesis
    by (rule ost_Merge_ok [OF assms(1) x(3)], rule that) (auto simp: svctxn_overflow_def x)
qed

interpretation svctxn: group_merge svctxn_key "\<lambda>_ x. x" "mergeKeyedServiceTransactionMetrics E" "svctxn_overflow E"
  "mergeServiceTransactionGroups E" "overflow_svctxns E" "ost_MergeOverflow E" kstm_ok ost_ok
  for E :: "('sk, 'd) env"
proof (intro group_merge.intro svctxn_group_loop group_merge_axioms.intro)
  fix v x :: KeyedServiceTransactionMetrics and ob ob1 :: "'sk overflowServiceTransaction" and h :: 'd
  show "kstm_ok x \<Longrightarrow> svctxn_key x \<noteq> None" by (auto simp: kstm_ok_def svctxn_key_def)
  show "kstm_ok v \<Longrightarrow> kstm_ok x \<Longrightarrow> \<exists>v'. mergeKeyedServiceTransactionMetrics E v x = Some v' \<and> kstm_ok v' \<and> svctxn_key v' = svctxn_key v"
    by (erule mergeKeyedServiceTransactionMetrics_ok [of v x E]) auto
  show "ost_ok ob \<Longrightarrow> kstm_ok x \<Longrightarrow> \<exists>ob'. svctxn_overflow E h ob x = Some ob' \<and> ost_ok ob'"
    by (erule svctxn_overflow_ok [of ob x E h]) auto
  show "ost_ok ob \<Longrightarrow> ost_ok ob1 \<Longrightarrow> \<exists>ob'. ost_MergeOverflow E ob ob1 = Some ob' \<and> ost_ok ob'"
    by (erule ost_MergeOverflow_ok [of ob ob1 E]) auto
qed

lemma svctxn_conserve:
  "group_conserve svctxn_key (\<lambda>_ x. x) (mergeKeyedServiceTransactionMetrics E) (svctxn_overflow E)
     (mergeServiceTransactionGroups E) (overflow_svctxns E) (ost_MergeOverflow E)
     (\<lambda>x. stm_count b (kstm_Metrics x)) (\<lambda>ob. stm_count b (ost_Metrics ob)) kstm_ok ost_ok (\<lambda>_. True)"
  for E :: "('sk, 'd) env"
proof (intro group_conserve.intro svctxn_group_loop group_conserve_axioms.intro)
  fix v x v' :: KeyedServiceTransactionMetrics and ob ob1 ob' :: "'sk overflowServiceTransaction" and h :: 'd
  show "kstm_ok x \<Longrightarrow> svctxn_key x \<noteq> None" by (auto simp: kstm_ok_def svctxn_key_def)
  show "kstm_ok v \<Longrightarrow> kstm_ok x \<Longrightarrow> mergeKeyedServiceTransactionMetrics E v x = Some v' \<Longrightarrow>
      kstm_ok v' \<and> stm_count b (kstm_Metrics v') = stm_count b (kstm_Metrics v) + stm_count b (kstm_Metrics x)"
    by (erule mergeKeyedServiceTransactionMetrics_ok [of v x E]) auto
  show "ost_ok ob \<Longrightarrow> kstm_ok x \<Longrightarrow> svctxn_overflow E h ob x = Some ob' \<Longrightarrow>
      ost_ok ob' \<and> stm_count b (ost_Metrics ob') = stm_count b (ost_Metrics ob) + stm_count b (kstm_Metrics x)"
    by (erule svctxn_overflow_ok [of ob x E h]) auto
  show "ost_ok ob \<Longrightarrow> ost_ok ob1 \<Longrightarrow> ost_MergeOverflow E ob ob1 = Some ob' \<Longrightarrow>
      ost_ok ob' \<and> stm_count b (ost_Metrics ob') = stm_count b (ost_Metrics ob) + stm_count b (ost_Metrics ob1)"
    by (erule ost_MergeOverflow_ok [of ob ob1 E]) auto
qed auto

section \<open>Event counts\<close>

text \<open>
  A count that a float64 holds exactly: a natural number up to \<open>2\<^sup>5\<^sup>3\<close>. Sums that stay below
  that bound are exact.
\<close>

definition max_count :: nat where
  "max_count = 2 ^ 53"

definition fcount :: "float64 \<Rightarrow> nat" where
  "fcount f = (case f of Fin q \<Rightarrow> nat \<lfloor>q\<rfloor> | _ \<Rightarrow> 0)"

definition is_count :: "float64 \<Rightarrow> bool" where
  "is_count f \<longleftrightarrow> f = Fin (of_nat (fcount f)) \<and> fcount f \<le> max_count"

lemma fcount_Fin [simp]: "fcount (Fin (of_nat n)) = n"
  by (simp add: fcount_def)

lemma is_count_0 [simp]: "is_count (Fin 0)" "fcount (Fin 0) = 0"
  by (simp_all add: is_count_def fcount_def)

lemma fadd_count:
  assumes "is_count a" and "is_count b" and "fcount a + fcount b \<le> max_count"
  shows "is_count (fadd a b) \<and> fcount (fadd a b) = fcount a + fcount b"
proof -
  obtain m n where mn: "a = Fin (of_nat m)" "b = Fin (of_nat n)" "m + n \<le> max_count"
    using assms unfolding is_count_def by metis
  have "fadd (Fin (of_int (int m))) (Fin (of_int (int n))) = Fin (of_int (int m + int n))"
    using mn(3) by (intro fadd_ints) (simp add: max_count_def)
  then have "fadd a b = Fin (of_nat (m + n))" by (simp add: mn)
  then show ?thesis using mn by (simp only: is_count_def fcount_Fin)
qed


section \<open>Spans\<close>

definition span_key :: "KeyedSpanMetrics \<Rightarrow> spanAggregationKey option" where
  "span_key x = map_option spanAggregationKey_FromProto (kspm_Key x)"

definition span_overflow ::
  "('sk, 'd) env \<Rightarrow> 'd \<Rightarrow> 'sk overflowSpan \<Rightarrow> KeyedSpanMetrics \<Rightarrow> 'sk overflowSpan option" where
  "span_overflow E h ob x =
     do { k \<leftarrow> kspm_Key x;
          osp_Merge E ob (kspm_Metrics x) (xx_Sum64 (xx E) (HashSpanAggregationKey (xx E) h k)) }"

lemma span_group_loop:
  "group_loop span_key drop_span_name mergeKeyedSpanMetrics (span_overflow E)
     (mergeSpanGroups E) (overflow_spans E)"
  by unfold_locales (auto simp: span_key_def span_overflow_def Let_def drop_span_name_def)

text \<open>The span count of optional span metrics, and whether it is exact.\<close>

definition spm_count :: "SpanMetrics option \<Rightarrow> nat" where
  "spm_count m = (case m of None \<Rightarrow> 0 | Some m \<Rightarrow> fcount (spm_Count m))"

definition spm_exact :: "SpanMetrics option \<Rightarrow> bool" where
  "spm_exact m \<longleftrightarrow> (case m of None \<Rightarrow> True | Some m \<Rightarrow> is_count (spm_Count m))"

definition spm_merged :: "SpanMetrics option \<Rightarrow> SpanMetrics option \<Rightarrow> SpanMetrics" where
  "spm_merged to from =
     (let t = (case to of None \<Rightarrow> zero_SpanMetrics | Some m \<Rightarrow> m); f = the from
      in \<lparr>spm_Count = fadd (spm_Count t) (spm_Count f), spm_Sum = fadd (spm_Sum t) (spm_Sum f)\<rparr>)"

lemma spm_merged_count:
  assumes "from \<noteq> None" and "spm_exact to" and "spm_exact from" and "spm_count to + spm_count from \<le> max_count"
  shows "spm_exact (Some (spm_merged to from)) \<and> spm_count (Some (spm_merged to from)) = spm_count to + spm_count from"
  using assms fadd_count [of "Fin 0" "spm_Count (the from)"] fadd_count [of "spm_Count (the to)" "spm_Count (the from)"]
  by (cases to; cases "from") (auto simp: spm_exact_def spm_count_def spm_merged_def zero_SpanMetrics_def)

lemma mergeKeyedSpanMetrics_eq:
  "kspm_Metrics x \<noteq> None \<Longrightarrow>
   mergeKeyedSpanMetrics v x = Some (v\<lparr>kspm_Metrics := Some (spm_merged (kspm_Metrics v) (kspm_Metrics x))\<rparr>)"
  by (auto simp: mergeKeyedSpanMetrics_def mergeSpanMetrics_def spm_merged_def Let_def split: option.splits)

lemma osp_Merge_eq:
  "osp_Merge E ob (Some m) n = Some (ob\<lparr>osp_Metrics := Some (spm_merged (osp_Metrics ob) (Some m)),
     osp_Estimator := insertHash (hll E) (osp_Estimator ob) n\<rparr>)"
  by (auto simp: osp_Merge_def mergeSpanMetrics_def spm_merged_def Let_def split: option.splits)

lemma span_overflow_eq:
  "kspm_ok x \<Longrightarrow> span_overflow E h ob x = Some (ob\<lparr>osp_Metrics := Some (spm_merged (osp_Metrics ob) (kspm_Metrics x)),
     osp_Estimator := insertHash (hll E) (osp_Estimator ob)
       (xx_Sum64 (xx E) (HashSpanAggregationKey (xx E) h (the (kspm_Key x))))\<rparr>)"
  by (auto simp: span_overflow_def kspm_ok_def osp_Merge_eq)

lemma osp_MergeOverflow_eq:
  "osp_ok ob1 \<Longrightarrow> osp_MergeOverflow E ob ob1 =
     (case osp_Estimator ob1 of None \<Rightarrow> Some ob
      | Some s \<Rightarrow> Some (ob\<lparr>osp_Metrics := Some (spm_merged (osp_Metrics ob) (osp_Metrics ob1)),
                          osp_Estimator := mergeEstimator (hll E) (osp_Estimator ob) s\<rparr>))"
  by (auto simp: osp_MergeOverflow_def osp_ok_def mergeSpanMetrics_def spm_merged_def Let_def split: option.splits)

lemma span_key_drop: "span_key x \<noteq> None \<Longrightarrow> span_key (drop_span_name p x) \<noteq> None"
  by (auto simp: span_key_def drop_span_name_def)

lemma kspm_drop [simp]:
  "kspm_Metrics (drop_span_name p x) = kspm_Metrics x" "kspm_ok (drop_span_name p x) = kspm_ok x"
  by (auto simp: drop_span_name_def kspm_ok_def)

interpretation span: group_merge span_key drop_span_name mergeKeyedSpanMetrics "span_overflow E"
  "mergeSpanGroups E" "overflow_spans E" "osp_MergeOverflow E" kspm_ok osp_ok
  for E :: "('sk, 'd) env"
proof (intro group_merge.intro span_group_loop group_merge_axioms.intro)
  fix v x :: KeyedSpanMetrics and ob ob1 :: "'sk overflowSpan" and h :: 'd and p
  show "kspm_ok x \<Longrightarrow> span_key x \<noteq> None" by (auto simp: kspm_ok_def span_key_def)
  show "kspm_ok x \<Longrightarrow> kspm_ok (drop_span_name p x)" by simp
  show "kspm_ok v \<Longrightarrow> kspm_ok x \<Longrightarrow> \<exists>v'. mergeKeyedSpanMetrics v x = Some v' \<and> kspm_ok v' \<and> span_key v' = span_key v"
    by (auto simp: kspm_ok_def mergeKeyedSpanMetrics_eq span_key_def)
  show "osp_ok ob \<Longrightarrow> kspm_ok x \<Longrightarrow> \<exists>ob'. span_overflow E h ob x = Some ob' \<and> osp_ok ob'"
    by (simp add: span_overflow_eq osp_ok_def insertHash_def)
  show "osp_ok ob \<Longrightarrow> osp_ok ob1 \<Longrightarrow> \<exists>ob'. osp_MergeOverflow E ob ob1 = Some ob' \<and> osp_ok ob'"
    by (auto simp: osp_MergeOverflow_eq mergeEstimator_def split: option.splits) (auto simp: osp_ok_def)
qed

definition kspm_exact :: "KeyedSpanMetrics \<Rightarrow> bool" where
  "kspm_exact x \<longleftrightarrow> kspm_ok x \<and> spm_exact (kspm_Metrics x)"

definition osp_exact :: "'sk overflowSpan \<Rightarrow> bool" where
  "osp_exact ob \<longleftrightarrow> osp_ok ob \<and> spm_exact (osp_Metrics ob)"

lemma span_conserve:
  "group_conserve span_key drop_span_name mergeKeyedSpanMetrics (span_overflow E)
     (mergeSpanGroups E) (overflow_spans E) (osp_MergeOverflow E)
     (\<lambda>x. spm_count (kspm_Metrics x)) (\<lambda>ob. spm_count (osp_Metrics ob)) kspm_exact osp_exact
     (\<lambda>n. n \<le> max_count)"
  for E :: "('sk, 'd) env"
proof (intro group_conserve.intro span_group_loop group_conserve_axioms.intro)
  fix v x v' :: KeyedSpanMetrics and ob ob1 ob' :: "'sk overflowSpan" and h :: 'd and p
  show "kspm_exact x \<Longrightarrow> span_key x \<noteq> None" by (auto simp: kspm_exact_def kspm_ok_def span_key_def)
  show "kspm_exact x \<Longrightarrow> kspm_exact (drop_span_name p x)
      \<and> spm_count (kspm_Metrics (drop_span_name p x)) = spm_count (kspm_Metrics x)"
    by (simp add: kspm_exact_def)
  show "kspm_exact v \<Longrightarrow> kspm_exact x \<Longrightarrow> spm_count (kspm_Metrics v) + spm_count (kspm_Metrics x) \<le> max_count \<Longrightarrow>
      mergeKeyedSpanMetrics v x = Some v' \<Longrightarrow>
      kspm_exact v' \<and> spm_count (kspm_Metrics v') = spm_count (kspm_Metrics v) + spm_count (kspm_Metrics x)"
    using spm_merged_count [of "kspm_Metrics x" "kspm_Metrics v"]
    by (auto simp: kspm_exact_def kspm_ok_def mergeKeyedSpanMetrics_eq)
  show "osp_exact ob \<Longrightarrow> kspm_exact x \<Longrightarrow> spm_count (osp_Metrics ob) + spm_count (kspm_Metrics x) \<le> max_count \<Longrightarrow>
      span_overflow E h ob x = Some ob' \<Longrightarrow>
      osp_exact ob' \<and> spm_count (osp_Metrics ob') = spm_count (osp_Metrics ob) + spm_count (kspm_Metrics x)"
    using spm_merged_count [of "kspm_Metrics x" "osp_Metrics ob"]
    by (auto simp: kspm_exact_def osp_exact_def span_overflow_eq osp_ok_def kspm_ok_def insertHash_def)
  show "osp_exact ob \<Longrightarrow> osp_exact ob1 \<Longrightarrow> spm_count (osp_Metrics ob) + spm_count (osp_Metrics ob1) \<le> max_count \<Longrightarrow>
      osp_MergeOverflow E ob ob1 = Some ob' \<Longrightarrow>
      osp_exact ob' \<and> spm_count (osp_Metrics ob') = spm_count (osp_Metrics ob) + spm_count (osp_Metrics ob1)"
    using spm_merged_count [of "osp_Metrics ob1" "osp_Metrics ob"]
    by (auto simp: osp_exact_def osp_MergeOverflow_eq mergeEstimator_def split: option.splits)
      (auto simp: osp_ok_def spm_count_def)
qed auto

end
