(* ===== verification/MergeInv.thy ===== *)
theory MergeInv
  imports MergeKinds
begin

text \<open>
  The invariant of the merger and its preservation: every cardinality limit holds, the shared
  counters are the numbers of groups, all histograms are well-formed, and no operation panics
  on well-formed messages.
\<close>

section \<open>Well-formed messages\<close>

definition sim_msg_ok :: "ServiceInstanceMetrics \<Rightarrow> bool" where
  "sim_msg_ok m \<longleftrightarrow> list_all ktm_ok (pbsim_TransactionMetrics m)
     \<and> list_all kstm_ok (pbsim_ServiceTransactionMetrics m) \<and> list_all kspm_ok (pbsim_SpanMetrics m)"

definition ksim_ok :: "KeyedServiceInstanceMetrics \<Rightarrow> bool" where
  "ksim_ok x \<longleftrightarrow> ksim_Key x \<noteq> None \<and> (case ksim_Metrics x of None \<Rightarrow> False | Some m \<Rightarrow> sim_msg_ok m)"

definition pbo_ok :: "Overflow \<Rightarrow> bool" where
  "pbo_ok pb \<longleftrightarrow>
     (case pbo_OverflowTransactions pb of None \<Rightarrow> True
      | Some m \<Rightarrow> pbo_OverflowTransactionsEstimator pb \<noteq> [] \<and> hist_ok (tm_Histogram m))
     \<and> (case pbo_OverflowServiceTransactions pb of None \<Rightarrow> True
      | Some m \<Rightarrow> pbo_OverflowServiceTransactionsEstimator pb \<noteq> [] \<and> hist_ok (stm_Histogram m))
     \<and> (case pbo_OverflowSpans pb of None \<Rightarrow> True | Some m \<Rightarrow> pbo_OverflowSpansEstimator pb \<noteq> [])"

definition pbo_opt_ok :: "Overflow option \<Rightarrow> bool" where
  "pbo_opt_ok ob \<longleftrightarrow> (case ob of None \<Rightarrow> True | Some pb \<Rightarrow> pbo_ok pb)"

definition sm_msg_ok :: "ServiceMetrics \<Rightarrow> bool" where
  "sm_msg_ok m \<longleftrightarrow> list_all ksim_ok (pbsm_ServiceInstanceMetrics m) \<and> pbo_opt_ok (pbsm_OverflowGroups m)"

definition ksm_ok :: "KeyedServiceMetrics \<Rightarrow> bool" where
  "ksm_ok x \<longleftrightarrow> ksm_Key x \<noteq> None \<and> (case ksm_Metrics x of None \<Rightarrow> False | Some m \<Rightarrow> sm_msg_ok m)"

definition cm_msg_ok :: "CombinedMetrics \<Rightarrow> bool" where
  "cm_msg_ok m \<longleftrightarrow> list_all ksm_ok (pbcm_ServiceMetrics m) \<and> pbo_opt_ok (pbcm_OverflowServices m)"

section \<open>The invariant\<close>

definition ov_ok :: "'sk overflow \<Rightarrow> bool" where
  "ov_ok ov \<longleftrightarrow> ot_ok (OverflowTransaction ov) \<and> ost_ok (OverflowServiceTransaction ov)
     \<and> osp_ok (OverflowSpan ov)"

text \<open>Limits that are not positive admit nothing.\<close>

definition below_limit :: "nat \<Rightarrow> int \<Rightarrow> bool" where
  "below_limit n l \<longleftrightarrow> int n \<le> max 0 l"

definition sim_ok :: "Limits \<Rightarrow> serviceInstanceMetrics \<Rightarrow> bool" where
  "sim_ok l m \<longleftrightarrow>
     groups_ok txn_key ktm_ok (TransactionGroups m)
     \<and> groups_ok svctxn_key kstm_ok (ServiceTransactionGroups m)
     \<and> groups_ok span_key kspm_ok (SpanGroups m)
     \<and> below_limit (gm_len (TransactionGroups m)) (MaxTransactionGroupsPerService l)
     \<and> below_limit (gm_len (ServiceTransactionGroups m)) (MaxServiceTransactionGroupsPerService l)
     \<and> below_limit (gm_len (SpanGroups m)) (MaxSpanGroupsPerService l)"

definition sm_ok :: "Limits \<Rightarrow> 'sk serviceMetrics \<Rightarrow> bool" where
  "sm_ok l m \<longleftrightarrow> gm_ok (ServiceInstanceGroups m) \<and> all_vals (sim_ok l) (ServiceInstanceGroups m)
     \<and> below_limit (gm_len (ServiceInstanceGroups m)) (MaxServiceInstanceGroupsPerService l)
     \<and> ov_ok (OverflowGroups m)"

definition cm_ok :: "Limits \<Rightarrow> 'sk combinedMetrics \<Rightarrow> bool" where
  "cm_ok l m \<longleftrightarrow> gm_ok (Services m) \<and> all_vals (sm_ok l) (Services m)
     \<and> (\<forall>e \<in> set (Services m). sk_ok (fst e))
     \<and> below_limit (gm_len (Services m)) (MaxServices l) \<and> ov_ok (OverflowServices m)"

text \<open>How many groups of a kind there are in a service and overall.\<close>

definition sm_groups :: "(serviceInstanceMetrics \<Rightarrow> nat) \<Rightarrow> 'sk serviceMetrics \<Rightarrow> nat" where
  "sm_groups n m = gm_sum n (ServiceInstanceGroups m)"

definition cm_groups :: "(serviceInstanceMetrics \<Rightarrow> nat) \<Rightarrow> 'sk combinedMetrics \<Rightarrow> nat" where
  "cm_groups n m = gm_sum (sm_groups n) (Services m)"

abbreviation (input) n_txn :: "serviceInstanceMetrics \<Rightarrow> nat" where
  "n_txn s \<equiv> gm_len (TransactionGroups s)"
abbreviation (input) n_svctxn :: "serviceInstanceMetrics \<Rightarrow> nat" where
  "n_svctxn s \<equiv> gm_len (ServiceTransactionGroups s)"
abbreviation (input) n_span :: "serviceInstanceMetrics \<Rightarrow> nat" where
  "n_span s \<equiv> gm_len (SpanGroups s)"

text \<open>A shared counter within its limit, and the three of them.\<close>

definition g_ok :: "Limits \<Rightarrow> constraints \<Rightarrow> bool" where
  "g_ok l g \<longleftrightarrow>
     Limit (totalTransactionGroups g) = MaxTransactionGroups l
     \<and> Value (totalTransactionGroups g) \<le> max 0 (MaxTransactionGroups l)
     \<and> Limit (totalServiceTransactionGroups g) = MaxServiceTransactionGroups l
     \<and> Value (totalServiceTransactionGroups g) \<le> max 0 (MaxServiceTransactionGroups l)
     \<and> Limit (totalSpanGroups g) = MaxSpanGroups l
     \<and> Value (totalSpanGroups g) \<le> max 0 (MaxSpanGroups l)"

text \<open>The counters move as the numbers of groups do, from \<open>f\<close> to \<open>f'\<close>.\<close>

definition g_moves :: "constraints \<Rightarrow> constraints \<Rightarrow> ((serviceInstanceMetrics \<Rightarrow> nat) \<Rightarrow> nat)
   \<Rightarrow> ((serviceInstanceMetrics \<Rightarrow> nat) \<Rightarrow> nat) \<Rightarrow> bool" where
  "g_moves g g' f f' \<longleftrightarrow>
     Value (totalTransactionGroups g') - Value (totalTransactionGroups g)
       = int (f' (\<lambda>s. n_txn s)) - int (f (\<lambda>s. n_txn s))
     \<and> Value (totalServiceTransactionGroups g') - Value (totalServiceTransactionGroups g)
       = int (f' (\<lambda>s. n_svctxn s)) - int (f (\<lambda>s. n_svctxn s))
     \<and> Value (totalSpanGroups g') - Value (totalSpanGroups g)
       = int (f' (\<lambda>s. n_span s)) - int (f (\<lambda>s. n_span s))"

definition merger_ok :: "'sk combinedMetricsMerger \<Rightarrow> bool" where
  "merger_ok m \<longleftrightarrow> cm_ok (mg_limits m) (mg_metrics m) \<and> g_ok (mg_limits m) (mg_constraints m)
     \<and> Value (totalTransactionGroups (mg_constraints m)) = int (cm_groups (\<lambda>s. n_txn s) (mg_metrics m))
     \<and> Value (totalServiceTransactionGroups (mg_constraints m))
         = int (cm_groups (\<lambda>s. n_svctxn s) (mg_metrics m))
     \<and> Value (totalSpanGroups (mg_constraints m)) = int (cm_groups (\<lambda>s. n_span s) (mg_metrics m))"

section \<open>Overflow buckets\<close>

lemma ov_ok_zero [simp]: "ov_ok zero_overflow"
  by (simp add: ov_ok_def zero_overflow_def ot_ok_def ost_ok_def osp_ok_def)

lemma overflow_FromProto_ok: "pbo_ok pb \<Longrightarrow> ov_ok (overflow_FromProto H zero_overflow pb)"
  by (auto simp: overflow_FromProto_def Let_def pbo_ok_def hllSketch_def ov_ok_def zero_overflow_def
      ot_ok_def ost_ok_def osp_ok_def split: option.splits)

lemma mergeOverflow_ok:
  assumes "ov_ok ov" and "pbo_opt_ok pb"
  shows "\<exists>ov'. mergeOverflow E ov pb = Some ov' \<and> ov_ok ov'"
proof (cases pb)
  case None
  then show ?thesis using assms by (simp add: mergeOverflow_def)
next
  case (Some pb')
  then have f: "ov_ok (overflow_FromProto (hll E) zero_overflow pb')"
    using assms(2) overflow_FromProto_ok by (auto simp: pbo_opt_ok_def)
  show ?thesis
    using txn.mo_ok [of "OverflowTransaction ov" _ E] svctxn.mo_ok [of "OverflowServiceTransaction ov" _ E]
      span.mo_ok [of "OverflowSpan ov" _ E] assms(1) f
    by (simp add: mergeOverflow_def Some ov_ok_def Let_def) fastforce
qed

lemma mergeToOverflowFromSIM_ok:
  assumes "ov_ok ov" and "ksim_ok x"
  shows "\<exists>ov'. mergeToOverflowFromSIM E ov x h = Some ov' \<and> ov_ok ov'"
proof -
  obtain m where m: "ksim_Metrics x = Some m" "sim_msg_ok m"
    using assms(2) by (auto simp: ksim_ok_def split: option.splits)
  then have "\<forall>x \<in> set (pbsim_TransactionMetrics m). ktm_ok x"
    "\<forall>x \<in> set (pbsim_ServiceTransactionMetrics m). kstm_ok x" "\<forall>x \<in> set (pbsim_SpanMetrics m). kspm_ok x"
    by (auto simp: sim_msg_ok_def list_all_iff)
  note oks = txn.oloop_ok [OF this(1), of _ E h] svctxn.oloop_ok [OF this(2), of _ E h] span.oloop_ok [OF this(3), of _ E h]
  show ?thesis
    using oks(1) [of "OverflowTransaction ov"] oks(2) [of "OverflowServiceTransaction ov"]
      oks(3) [of "OverflowSpan ov"] assms(1)
    by (simp add: mergeToOverflowFromSIM_def m(1) ov_ok_def) fastforce
qed

section \<open>Service instances\<close>

lemma sim_ok_new [simp]: "sim_ok l newServiceInstanceMetrics"
  by (simp add: sim_ok_def newServiceInstanceMetrics_def groups_ok_def below_limit_def)

lemma max_chain: "a \<le> max b l \<Longrightarrow> b \<le> max 0 l \<Longrightarrow> a \<le> max 0 (l :: int)"
  by auto

lemma run_within:
  assumes "run_ok key xok m (New (int (gm_len m)) l) g m' p' g'" and "below_limit (gm_len m) l"
  shows "below_limit (gm_len m') l" and "groups_ok key xok m'"
    and "Value g' - Value g = int (gm_len m') - int (gm_len m)" and "Limit g' = Limit g"
    and "Value g' \<le> max (Value g) (Limit g)"
  using assms by (auto simp: run_ok_def below_limit_def)

lemma mergeInstance_ok:
  assumes s: "sim_ok l s" and m: "sim_msg_ok m" and ov: "ov_ok ov" and g: "g_ok l g"
  obtains s' g' ov' where "mergeInstance E l h m s g ov = Some (s', g', ov')"
    and "sim_ok l s'" and "ov_ok ov'" and "g_ok l g'" and "g_moves g g' (\<lambda>n. n s) (\<lambda>n. n s')"
proof -
  have t: "\<forall>x \<in> set (pbsim_TransactionMetrics m). ktm_ok x"
    and st: "\<forall>x \<in> set (pbsim_ServiceTransactionMetrics m). kstm_ok x"
    and sp: "\<forall>x \<in> set (pbsim_SpanMetrics m). kspm_ok x"
    using m by (auto simp: sim_msg_ok_def list_all_iff)
  have so: "groups_ok txn_key ktm_ok (TransactionGroups s)"
    "groups_ok svctxn_key kstm_ok (ServiceTransactionGroups s)" "groups_ok span_key kspm_ok (SpanGroups s)"
    "below_limit (n_txn s) (MaxTransactionGroupsPerService l)"
    "below_limit (n_svctxn s) (MaxServiceTransactionGroupsPerService l)"
    "below_limit (n_span s) (MaxSpanGroupsPerService l)"
    using s by (simp_all add: sim_ok_def)
  have oo: "ot_ok (OverflowTransaction ov)" "ost_ok (OverflowServiceTransaction ov)" "osp_ok (OverflowSpan ov)"
    using ov by (simp_all add: ov_ok_def)
  let ?pt = "New (int (n_txn s)) (MaxTransactionGroupsPerService l)"
  let ?ps = "New (int (n_svctxn s)) (MaxServiceTransactionGroupsPerService l)"
  let ?pp = "New (int (n_span s)) (MaxSpanGroupsPerService l)"
  from txn.loop_run_ok [OF so(1) t oo(1), of E h ?pt "totalTransactionGroups g"]
  obtain t' pt gt ovt where 1: "mergeTransactionGroups E h (pbsim_TransactionMetrics m)
      (TransactionGroups s) ?pt (totalTransactionGroups g) (OverflowTransaction ov)
      = Some (t', pt, gt, ovt)" and ovt: "ot_ok ovt"
    and r1: "run_ok txn_key ktm_ok (TransactionGroups s) ?pt (totalTransactionGroups g) t' pt gt"
    by blast
  from svctxn.loop_run_ok [OF so(2) st oo(2), of E h ?ps "totalServiceTransactionGroups g"]
  obtain s' ps gs ovs where 2: "mergeServiceTransactionGroups E h (pbsim_ServiceTransactionMetrics m)
      (ServiceTransactionGroups s) ?ps (totalServiceTransactionGroups g) (OverflowServiceTransaction ov)
      = Some (s', ps, gs, ovs)" and ovs: "ost_ok ovs"
    and r2: "run_ok svctxn_key kstm_ok (ServiceTransactionGroups s) ?ps
      (totalServiceTransactionGroups g) s' ps gs"
    by blast
  from span.loop_run_ok [OF so(3) sp oo(3), of E h ?pp "totalSpanGroups g"]
  obtain p' pp gp ovp where 3: "mergeSpanGroups E h (pbsim_SpanMetrics m) (SpanGroups s) ?pp
      (totalSpanGroups g) (OverflowSpan ov) = Some (p', pp, gp, ovp)" and ovp: "osp_ok ovp"
    and r3: "run_ok span_key kspm_ok (SpanGroups s) ?pp (totalSpanGroups g) p' pp gp"
    by blast
  note r = run_within [OF r1 so(4)] run_within [OF r2 so(5)] run_within [OF r3 so(6)]
  show ?thesis
  proof (rule that)
    show "mergeInstance E l h m s g ov = Some
        (\<lparr>TransactionGroups = t', ServiceTransactionGroups = s', SpanGroups = p'\<rparr>,
         \<lparr>totalTransactionGroups = gt, totalServiceTransactionGroups = gs, totalSpanGroups = gp\<rparr>,
         \<lparr>OverflowTransaction = ovt, OverflowServiceTransaction = ovs, OverflowSpan = ovp\<rparr>)"
      by (simp add: mergeInstance_def 1 2 3)
  qed (use r g ovt ovs ovp in \<open>auto simp: sim_ok_def ov_ok_def g_ok_def g_moves_def intro: max_chain\<close>)
qed

section \<open>Services\<close>

lemma sm_ok_new [simp]: "sm_ok l newServiceMetrics"
  by (simp add: sm_ok_def newServiceMetrics_def gm_ok_def below_limit_def)

lemma sm_groups_new [simp]: "sm_groups n newServiceMetrics = 0"
  by (simp add: sm_groups_def newServiceMetrics_def)

lemma sm_ok_overflow: "sm_ok l sm \<Longrightarrow> ov_ok ov \<Longrightarrow> sm_ok l (sm\<lparr>OverflowGroups := ov\<rparr>)"
  by (simp add: sm_ok_def)

lemma sm_groups_overflow [simp]: "sm_groups n (sm\<lparr>OverflowGroups := ov\<rparr>) = sm_groups n sm"
  by (simp add: sm_groups_def)

text \<open>What looking up an instance gives, and what storing it back does.\<close>

lemma getServiceInstanceMetrics_ok:
  assumes "sm_ok l sm" and "getServiceInstanceMetrics sm k (MaxServiceInstanceGroupsPerService l) = Some s"
  shows "sim_ok l s"
    and "sim_ok l s' \<Longrightarrow> ov_ok ov \<Longrightarrow>
      sm_ok l (sm\<lparr>ServiceInstanceGroups := gm_put (ServiceInstanceGroups sm) k s', OverflowGroups := ov\<rparr>)"
    and "n newServiceInstanceMetrics = 0 \<Longrightarrow>
      sm_groups n (sm\<lparr>ServiceInstanceGroups := gm_put (ServiceInstanceGroups sm) k s', OverflowGroups := ov\<rparr>)
        + n s = sm_groups n sm + n s'"
proof -
  let ?m = "ServiceInstanceGroups sm"
  have cases: "gm_get ?m k = Some s \<or> gm_get ?m k = None \<and> s = newServiceInstanceMetrics
      \<and> int (gm_len ?m) < MaxServiceInstanceGroupsPerService l"
    using assms(2) by (auto simp: getServiceInstanceMetrics_def split: option.splits if_splits)
  then show "sim_ok l s"
    using assms(1) by (auto simp: sm_ok_def intro: all_vals_get)
  show "sm_ok l (sm\<lparr>ServiceInstanceGroups := gm_put ?m k s', OverflowGroups := ov\<rparr>)"
    if "sim_ok l s'" "ov_ok ov"
    using assms(1) cases that
    by (auto simp: sm_ok_def gm_len_put below_limit_def intro: all_vals_put)
  show "sm_groups n (sm\<lparr>ServiceInstanceGroups := gm_put ?m k s', OverflowGroups := ov\<rparr>) + n s
      = sm_groups n sm + n s'" if "n newServiceInstanceMetrics = 0"
    using cases that by (auto simp: sm_groups_def gm_sum_put_new gm_sum_put_old)
qed

lemma g_moves_refl [simp]: "g_moves g g f f"
  by (simp add: g_moves_def)

lemma g_moves_trans: "g_moves g g1 f f1 \<Longrightarrow> g_moves g1 g2 f1 f2 \<Longrightarrow> g_moves g g2 f f2"
  unfolding g_moves_def by linarith

text \<open>A local move inside one entry is the same move of the sums.\<close>

lemma g_moves_lift:
  assumes "g_moves g g' f f'"
    and "\<And>n. n newServiceInstanceMetrics = 0 \<Longrightarrow> F' n + f n = F n + f' n"
  shows "g_moves g g' F F'"
proof -
  have "int (f' n) - int (f n) = int (F' n) - int (F n)" if "n newServiceInstanceMetrics = 0" for n
    using assms(2) [of n, OF that] by linarith
  then show ?thesis
    using assms(1) by (simp add: g_moves_def newServiceInstanceMetrics_def)
qed

lemma mergeServiceInstanceGroups_ok:
  assumes "sm_ok l sm" and "list_all ksim_ok xs" and "g_ok l g"
  shows "\<exists>sm' g' est'. mergeServiceInstanceGroups E l h xs sm g est = Some (sm', g', est')
    \<and> sm_ok l sm' \<and> g_ok l g' \<and> g_moves g g' (\<lambda>n. sm_groups n sm) (\<lambda>n. sm_groups n sm')"
  using assms
proof (induction xs arbitrary: sm g est)
  case (Cons x xs)
  then have x: "ksim_ok x" and xs: "list_all ksim_ok xs" by auto
  then obtain k m where k: "ksim_Key x = Some k" "ksim_Metrics x = Some m" "sim_msg_ok m"
    by (auto simp: ksim_ok_def split: option.splits)
  let ?k = "serviceInstanceAggregationKey_FromProto k"
  let ?h = "HashServiceInstanceAggregationKey (xx E) h k"
  show ?case
  proof (cases "getServiceInstanceMetrics sm ?k (MaxServiceInstanceGroupsPerService l)")
    case None
    from mergeToOverflowFromSIM_ok [OF _ x, of "OverflowGroups sm" E ?h] Cons.prems(1) obtain ov where
      ov: "mergeToOverflowFromSIM E (OverflowGroups sm) x ?h = Some ov" "ov_ok ov"
      by (auto simp: sm_ok_def)
    from Cons.IH [OF sm_ok_overflow [OF Cons.prems(1) ov(2)] xs Cons.prems(3)] ov(1)
    show ?thesis by (simp add: k None Let_def)
  next
    case (Some s)
    note get = getServiceInstanceMetrics_ok [OF Cons.prems(1) Some]
    have "ov_ok (OverflowGroups sm)" using Cons.prems(1) by (simp add: sm_ok_def)
    from mergeInstance_ok [OF get(1) k(3) this Cons.prems(3), of E h] obtain s' g1 ov where
      r: "mergeInstance E l h m s g (OverflowGroups sm) = Some (s', g1, ov)" "sim_ok l s'" "ov_ok ov"
        "g_ok l g1" "g_moves g g1 (\<lambda>n. n s) (\<lambda>n. n s')" by blast
    let ?sm = "sm\<lparr>ServiceInstanceGroups := gm_put (ServiceInstanceGroups sm) ?k s', OverflowGroups := ov\<rparr>"
    from Cons.IH [OF get(2) [OF r(2,3)] xs r(4)] obtain sm' g' est' where
      i: "mergeServiceInstanceGroups E l h xs ?sm g1 est = Some (sm', g', est')" "sm_ok l sm'" "g_ok l g'"
        "g_moves g1 g' (\<lambda>n. sm_groups n ?sm) (\<lambda>n. sm_groups n sm')" by blast
    have "g_moves g g1 (\<lambda>n. sm_groups n sm) (\<lambda>n. sm_groups n ?sm)"
      using r(5) by (rule g_moves_lift) (rule get(3))
    then have "g_moves g g' (\<lambda>n. sm_groups n sm) (\<lambda>n. sm_groups n sm')"
      using i(4) by (rule g_moves_trans)
    with i(1-3) r(1) show ?thesis by (simp add: k Some Let_def)
  qed
qed simp

section \<open>Combined metrics\<close>

lemma overflow_instances_ok:
  "list_all ksim_ok xs \<Longrightarrow> ov_ok ov \<Longrightarrow>
   \<exists>ov' est'. overflow_instances E h xs ov est = Some (ov', est') \<and> ov_ok ov'"
proof (induction xs arbitrary: ov est)
  case (Cons x xs)
  then have x: "ksim_ok x" and xs: "list_all ksim_ok xs" by auto
  then obtain k where k: "ksim_Key x = Some k" by (auto simp: ksim_ok_def)
  from mergeToOverflowFromSIM_ok [OF Cons.prems(2) x, of E "HashServiceInstanceAggregationKey (xx E) h k"]
    Cons.IH [OF xs] k show ?case by (auto simp: Let_def)
qed simp

lemma getServiceMetrics_ok:
  assumes "cm_ok l cm" and "getServiceMetrics cm k (MaxServices l) = Some sm"
  shows "sm_ok l sm"
    and "sm_ok l sm' \<Longrightarrow> sk_ok k \<Longrightarrow> cm_ok l (cm\<lparr>Services := gm_put (Services cm) k sm'\<rparr>)"
    and "cm_groups n (cm\<lparr>Services := gm_put (Services cm) k sm'\<rparr>) + sm_groups n sm
      = cm_groups n cm + sm_groups n sm'"
proof -
  let ?m = "Services cm"
  have cases: "gm_get ?m k = Some sm \<or> gm_get ?m k = None \<and> sm = newServiceMetrics
      \<and> int (gm_len ?m) < MaxServices l"
    using assms(2) by (auto simp: getServiceMetrics_def split: option.splits if_splits)
  then show "sm_ok l sm"
    using assms(1) by (auto simp: cm_ok_def intro: all_vals_get)
  show "cm_ok l (cm\<lparr>Services := gm_put ?m k sm'\<rparr>)" if "sm_ok l sm'" "sk_ok k"
    using assms(1) cases that
    by (auto simp: cm_ok_def gm_len_put below_limit_def intro: all_vals_put dest!: gm_put_set)
  show "cm_groups n (cm\<lparr>Services := gm_put ?m k sm'\<rparr>) + sm_groups n sm = cm_groups n cm + sm_groups n sm'"
    using cases gm_sum_put_old [of ?m k sm "sm_groups n"] gm_sum_put_new [of ?m k "sm_groups n"]
    by (auto simp: cm_groups_def)
qed

lemma cm_ok_est [simp]: "cm_ok l (cm\<lparr>OverflowServiceInstancesEstimator := e\<rparr>) = cm_ok l cm"
  "cm_groups n (cm\<lparr>OverflowServiceInstancesEstimator := e\<rparr>) = cm_groups n cm"
  by (simp_all add: cm_ok_def cm_groups_def)

lemma cm_ok_overflow: "cm_ok l cm \<Longrightarrow> ov_ok ov \<Longrightarrow> cm_ok l (cm\<lparr>OverflowServices := ov\<rparr>)"
  "cm_groups n (cm\<lparr>OverflowServices := ov\<rparr>) = cm_groups n cm"
  by (simp_all add: cm_ok_def cm_groups_def)

lemma mergeService_ok:
  assumes cm: "cm_ok l cm" and x: "ksm_ok x" and g: "g_ok l g"
  shows "\<exists>g' cm'. mergeService E l x g cm = Some (g', cm') \<and> cm_ok l cm' \<and> g_ok l g'
    \<and> g_moves g g' (\<lambda>n. cm_groups n cm) (\<lambda>n. cm_groups n cm')"
proof -
  obtain k m where k: "ksm_Key x = Some k" "ksm_Metrics x = Some m"
    "list_all ksim_ok (pbsm_ServiceInstanceMetrics m)" "pbo_opt_ok (pbsm_OverflowGroups m)"
    using x by (auto simp: ksm_ok_def sm_msg_ok_def split: option.splits)
  let ?h = "HashServiceAggregationKey (xx E) (xx_Digest0 (xx E)) k"
  let ?k = "serviceAggregationKey_FromProto k"
  show ?thesis
  proof (cases "getServiceMetrics cm ?k (MaxServices l)")
    case None
    have "ov_ok (OverflowServices cm)" using cm by (simp add: cm_ok_def)
    from mergeOverflow_ok [OF this k(4), of E] obtain ov where
      ov: "mergeOverflow E (OverflowServices cm) (pbsm_OverflowGroups m) = Some ov" "ov_ok ov" by blast
    from overflow_instances_ok [OF k(3) ov(2), of E ?h "OverflowServiceInstancesEstimator cm"] obtain ov' est' where
      "overflow_instances E ?h (pbsm_ServiceInstanceMetrics m) ov (OverflowServiceInstancesEstimator cm)
        = Some (ov', est')" "ov_ok ov'" by blast
    with ov cm g show ?thesis
      by (simp add: mergeService_def k None Let_def cm_ok_overflow)
  next
    case (Some sm)
    note get = getServiceMetrics_ok [OF cm Some]
    have "ov_ok (OverflowGroups sm)" using get(1) by (simp add: sm_ok_def)
    from mergeOverflow_ok [OF this k(4), of E] obtain ov where
      ov: "mergeOverflow E (OverflowGroups sm) (pbsm_OverflowGroups m) = Some ov" "ov_ok ov" by blast
    from mergeServiceInstanceGroups_ok [OF sm_ok_overflow [OF get(1) ov(2)] k(3) g,
        of E ?h "OverflowServiceInstancesEstimator cm"]
    obtain sm' g' est' where r: "mergeServiceInstanceGroups E l ?h (pbsm_ServiceInstanceMetrics m)
        (sm\<lparr>OverflowGroups := ov\<rparr>) g (OverflowServiceInstancesEstimator cm) = Some (sm', g', est')"
      "sm_ok l sm'" "g_ok l g'" "g_moves g g' (\<lambda>n. sm_groups n sm) (\<lambda>n. sm_groups n sm')"
      by auto
    have "g_moves g g' (\<lambda>n. cm_groups n cm) (\<lambda>n. cm_groups n (cm\<lparr>Services := gm_put (Services cm) ?k sm'\<rparr>))"
      using r(4) by (rule g_moves_lift) (rule get(3))
    with r(1-3) ov(1) get(2) [OF r(2) sk_ok_FromProto] show ?thesis
      by (simp add: mergeService_def k Some Let_def)
  qed
qed

lemma merge_services_ok:
  "cm_ok l cm \<Longrightarrow> list_all ksm_ok xs \<Longrightarrow> g_ok l g \<Longrightarrow>
   \<exists>g' cm'. merge_services E l xs g cm = Some (g', cm') \<and> cm_ok l cm' \<and> g_ok l g'
     \<and> g_moves g g' (\<lambda>n. cm_groups n cm) (\<lambda>n. cm_groups n cm')"
proof (induction xs arbitrary: g cm)
  case (Cons x xs)
  from mergeService_ok [OF Cons.prems(1) _ Cons.prems(3), of x E] Cons.prems(2) obtain g1 cm1 where
    1: "mergeService E l x g cm = Some (g1, cm1)" "cm_ok l cm1" "g_ok l g1"
      "g_moves g g1 (\<lambda>n. cm_groups n cm) (\<lambda>n. cm_groups n cm1)" by auto
  from Cons.IH [OF 1(2) _ 1(3)] Cons.prems(2) 1 show ?case by (auto intro: g_moves_trans)
qed simp

lemma merge_totals_ok:
  assumes "cm_ok l cm" and "pbo_opt_ok (pbcm_OverflowServices from)"
  shows "\<exists>cm'. merge_totals E from cm = Some cm' \<and> cm_ok l cm' \<and> (\<forall>n. cm_groups n cm' = cm_groups n cm)
    \<and> EventsTotal cm' = fadd (EventsTotal cm) (pbcm_EventsTotal from)
    \<and> YoungestEventTimestamp cm' = max (YoungestEventTimestamp cm) (pbcm_YoungestEventTimestamp from)"
proof -
  have "ov_ok (OverflowServices cm)" using assms(1) by (simp add: cm_ok_def)
  from mergeOverflow_ok [OF this assms(2), of E] obtain ov where
    "mergeOverflow E (OverflowServices cm) (pbcm_OverflowServices from) = Some ov" "ov_ok ov" by blast
  with assms(1) show ?thesis
    by (auto simp: merge_totals_def Let_def cm_ok_def cm_groups_def max_def split: option.splits)
qed

lemma mergeService_totals:
  "mergeService E l x g cm = Some (g', cm') \<Longrightarrow>
   EventsTotal cm' = EventsTotal cm \<and> YoungestEventTimestamp cm' = YoungestEventTimestamp cm"
  by (auto simp: mergeService_def Let_def split: option.splits bind_splits)

lemma merge_services_totals:
  "merge_services E l xs g cm = Some (g', cm') \<Longrightarrow>
   EventsTotal cm' = EventsTotal cm \<and> YoungestEventTimestamp cm' = YoungestEventTimestamp cm"
proof (induction xs arbitrary: g cm)
  case (Cons x xs)
  then show ?case by (fastforce dest!: mergeService_totals split: bind_splits)
qed simp

lemma merge_ok:
  assumes m: "merger_ok m" and x: "cm_msg_ok x"
  shows "\<exists>m'. merge E m x = Some m' \<and> merger_ok m' \<and> mg_limits m' = mg_limits m
    \<and> EventsTotal (mg_metrics m') = fadd (EventsTotal (mg_metrics m)) (pbcm_EventsTotal x)
    \<and> YoungestEventTimestamp (mg_metrics m')
        = max (YoungestEventTimestamp (mg_metrics m)) (pbcm_YoungestEventTimestamp x)"
proof -
  have cm: "cm_ok (mg_limits m) (mg_metrics m)" and g: "g_ok (mg_limits m) (mg_constraints m)"
    using m by (simp_all add: merger_ok_def)
  have xs: "list_all ksm_ok (pbcm_ServiceMetrics x)" and xo: "pbo_opt_ok (pbcm_OverflowServices x)"
    using x by (simp_all add: cm_msg_ok_def)
  from merge_totals_ok [OF cm xo, of E] obtain cm1 where
    1: "merge_totals E x (mg_metrics m) = Some cm1" "cm_ok (mg_limits m) cm1"
      "\<And>n. cm_groups n cm1 = cm_groups n (mg_metrics m)"
      "EventsTotal cm1 = fadd (EventsTotal (mg_metrics m)) (pbcm_EventsTotal x)"
      "YoungestEventTimestamp cm1
         = max (YoungestEventTimestamp (mg_metrics m)) (pbcm_YoungestEventTimestamp x)" by blast
  from merge_services_ok [OF 1(2) xs g, of E] obtain g2 cm2 where
    2: "merge_services E (mg_limits m) (pbcm_ServiceMetrics x) (mg_constraints m) cm1 = Some (g2, cm2)"
      "cm_ok (mg_limits m) cm2" "g_ok (mg_limits m) g2"
      "g_moves (mg_constraints m) g2 (\<lambda>n. cm_groups n cm1) (\<lambda>n. cm_groups n cm2)" by blast
  have "merger_ok (m\<lparr>mg_constraints := g2, mg_metrics := cm2\<rparr>)"
    using m 2(2,3,4) by (simp add: merger_ok_def g_moves_def 1(3))
  with 1 2(1) merge_services_totals [OF 2(1)] show ?thesis by (simp add: merge_def)
qed

lemma merger_ok_new [simp]: "merger_ok (new_merger l)"
  by (simp add: merger_ok_def new_merger_def cm_ok_def zero_combinedMetrics_def below_limit_def
      g_ok_def newConstraints_def cm_groups_def)

lemma merge_all_ok:
  "merger_ok m \<Longrightarrow> list_all cm_msg_ok xs \<Longrightarrow>
   \<exists>m'. merge_all E m xs = Some m' \<and> merger_ok m' \<and> mg_limits m' = mg_limits m"
proof (induction xs arbitrary: m)
  case (Cons x xs)
  then obtain m1 where "merge E m x = Some m1" "merger_ok m1" "mg_limits m1 = mg_limits m"
    using merge_ok [of m x E] by auto
  with Cons.IH [of m1] Cons.prems(2) show ?case by simp
qed simp

text \<open>The limits that the invariant implies, spelled out.\<close>

lemma cm_ok_limits:
  assumes "cm_ok l cm"
  shows "int (gm_len (Services cm)) \<le> max 0 (MaxServices l)"
    and "(k, sm) \<in> set (Services cm) \<Longrightarrow>
      int (gm_len (ServiceInstanceGroups sm)) \<le> max 0 (MaxServiceInstanceGroupsPerService l)"
    and "(k, sm) \<in> set (Services cm) \<Longrightarrow> (i, s) \<in> set (ServiceInstanceGroups sm) \<Longrightarrow>
      int (n_txn s) \<le> max 0 (MaxTransactionGroupsPerService l)
      \<and> int (n_svctxn s) \<le> max 0 (MaxServiceTransactionGroupsPerService l)
      \<and> int (n_span s) \<le> max 0 (MaxSpanGroupsPerService l)"
proof -
  have sm: "sm_ok l sm" if "(k, sm) \<in> set (Services cm)" for k sm
    using assms that by (force simp: cm_ok_def all_vals_def)
  show "int (gm_len (Services cm)) \<le> max 0 (MaxServices l)"
    using assms by (simp add: cm_ok_def below_limit_def)
  assume e: "(k, sm) \<in> set (Services cm)"
  show "int (gm_len (ServiceInstanceGroups sm)) \<le> max 0 (MaxServiceInstanceGroupsPerService l)"
    using sm [OF e] by (simp add: sm_ok_def below_limit_def)
  assume "(i, s) \<in> set (ServiceInstanceGroups sm)"
  then have "sim_ok l s" using sm [OF e] by (force simp: sm_ok_def all_vals_def)
  then show "int (n_txn s) \<le> max 0 (MaxTransactionGroupsPerService l)
      \<and> int (n_svctxn s) \<le> max 0 (MaxServiceTransactionGroupsPerService l)
      \<and> int (n_span s) \<le> max 0 (MaxSpanGroupsPerService l)"
    by (simp add: sim_ok_def below_limit_def)
qed

end
