(* ===== verification/MergeConserve.thy ===== *)
theory MergeConserve
  imports MergeInv
begin

text \<open>
  Conservation over the whole merge: a quantity that merging two metrics adds up (the count of
  one histogram bucket, the number of spans) is neither lost nor duplicated when combined metrics
  are merged, wherever the cardinality limits send the groups.
\<close>

section \<open>Quantities\<close>

text \<open>
  A quantity gives a weight to the messages of each kind and to the overflow buckets, the values
  for which it is defined, and the totals up to which the program's additions are exact.
\<close>

record ('sk, 'c) metric =
  mt_txn :: "KeyedTransactionMetrics \<Rightarrow> 'c"
  mt_otxn :: "'sk overflowTransaction \<Rightarrow> 'c"
  mt_svctxn :: "KeyedServiceTransactionMetrics \<Rightarrow> 'c"
  mt_osvctxn :: "'sk overflowServiceTransaction \<Rightarrow> 'c"
  mt_span :: "KeyedSpanMetrics \<Rightarrow> 'c"
  mt_ospan :: "'sk overflowSpan \<Rightarrow> 'c"
  ok_txn :: "KeyedTransactionMetrics \<Rightarrow> bool"
  ok_otxn :: "'sk overflowTransaction \<Rightarrow> bool"
  ok_svctxn :: "KeyedServiceTransactionMetrics \<Rightarrow> bool"
  ok_osvctxn :: "'sk overflowServiceTransaction \<Rightarrow> bool"
  ok_span :: "KeyedSpanMetrics \<Rightarrow> bool"
  ok_ospan :: "'sk overflowSpan \<Rightarrow> bool"
  mt_fits :: "'c \<Rightarrow> bool"

definition sim_weight :: "('sk, 'c::comm_monoid_add) metric \<Rightarrow> serviceInstanceMetrics \<Rightarrow> 'c" where
  "sim_weight M s = gm_sum (mt_txn M) (TransactionGroups s)
     + gm_sum (mt_svctxn M) (ServiceTransactionGroups s) + gm_sum (mt_span M) (SpanGroups s)"

definition sim_exact :: "('sk, 'c) metric \<Rightarrow> serviceInstanceMetrics \<Rightarrow> bool" where
  "sim_exact M s \<longleftrightarrow> all_vals (ok_txn M) (TransactionGroups s)
     \<and> all_vals (ok_svctxn M) (ServiceTransactionGroups s) \<and> all_vals (ok_span M) (SpanGroups s)"

definition ov_weight :: "('sk, 'c::comm_monoid_add) metric \<Rightarrow> 'sk overflow \<Rightarrow> 'c" where
  "ov_weight M ov = mt_otxn M (OverflowTransaction ov) + mt_osvctxn M (OverflowServiceTransaction ov)
     + mt_ospan M (OverflowSpan ov)"

definition ov_exact :: "('sk, 'c) metric \<Rightarrow> 'sk overflow \<Rightarrow> bool" where
  "ov_exact M ov \<longleftrightarrow> ok_otxn M (OverflowTransaction ov) \<and> ok_osvctxn M (OverflowServiceTransaction ov)
     \<and> ok_ospan M (OverflowSpan ov)"

definition sm_weight :: "('sk, 'c::comm_monoid_add) metric \<Rightarrow> 'sk serviceMetrics \<Rightarrow> 'c" where
  "sm_weight M sm = gm_sum (sim_weight M) (ServiceInstanceGroups sm) + ov_weight M (OverflowGroups sm)"

definition sm_exact :: "('sk, 'c) metric \<Rightarrow> 'sk serviceMetrics \<Rightarrow> bool" where
  "sm_exact M sm \<longleftrightarrow> all_vals (sim_exact M) (ServiceInstanceGroups sm) \<and> ov_exact M (OverflowGroups sm)"

definition cm_weight :: "('sk, 'c::comm_monoid_add) metric \<Rightarrow> 'sk combinedMetrics \<Rightarrow> 'c" where
  "cm_weight M cm = gm_sum (sm_weight M) (Services cm) + ov_weight M (OverflowServices cm)"

definition cm_exact :: "('sk, 'c) metric \<Rightarrow> 'sk combinedMetrics \<Rightarrow> bool" where
  "cm_exact M cm \<longleftrightarrow> all_vals (sm_exact M) (Services cm) \<and> ov_exact M (OverflowServices cm)"

text \<open>The same of messages.\<close>

definition sim_msg_weight :: "('sk, 'c::comm_monoid_add) metric \<Rightarrow> ServiceInstanceMetrics option \<Rightarrow> 'c" where
  "sim_msg_weight M x = (case x of None \<Rightarrow> 0
     | Some m \<Rightarrow> sum_list (map (mt_txn M) (pbsim_TransactionMetrics m))
         + sum_list (map (mt_svctxn M) (pbsim_ServiceTransactionMetrics m))
         + sum_list (map (mt_span M) (pbsim_SpanMetrics m)))"

definition sim_msg_exact :: "('sk, 'c) metric \<Rightarrow> ServiceInstanceMetrics option \<Rightarrow> bool" where
  "sim_msg_exact M x \<longleftrightarrow> (case x of None \<Rightarrow> True
     | Some m \<Rightarrow> list_all (ok_txn M) (pbsim_TransactionMetrics m)
         \<and> list_all (ok_svctxn M) (pbsim_ServiceTransactionMetrics m)
         \<and> list_all (ok_span M) (pbsim_SpanMetrics m))"

definition pbo_weight :: "'sk hll_ops \<Rightarrow> ('sk, 'c::comm_monoid_add) metric \<Rightarrow> Overflow option \<Rightarrow> 'c" where
  "pbo_weight H M x = (case x of None \<Rightarrow> 0 | Some pb \<Rightarrow> ov_weight M (overflow_FromProto H zero_overflow pb))"

definition pbo_exact :: "'sk hll_ops \<Rightarrow> ('sk, 'c) metric \<Rightarrow> Overflow option \<Rightarrow> bool" where
  "pbo_exact H M x \<longleftrightarrow> (case x of None \<Rightarrow> True | Some pb \<Rightarrow> ov_exact M (overflow_FromProto H zero_overflow pb))"

definition sm_msg_weight :: "'sk hll_ops \<Rightarrow> ('sk, 'c::comm_monoid_add) metric \<Rightarrow> ServiceMetrics option \<Rightarrow> 'c" where
  "sm_msg_weight H M x = (case x of None \<Rightarrow> 0
     | Some m \<Rightarrow> sum_list (map (\<lambda>k. sim_msg_weight M (ksim_Metrics k)) (pbsm_ServiceInstanceMetrics m))
         + pbo_weight H M (pbsm_OverflowGroups m))"

definition sm_msg_exact :: "'sk hll_ops \<Rightarrow> ('sk, 'c) metric \<Rightarrow> ServiceMetrics option \<Rightarrow> bool" where
  "sm_msg_exact H M x \<longleftrightarrow> (case x of None \<Rightarrow> True
     | Some m \<Rightarrow> list_all (\<lambda>k. sim_msg_exact M (ksim_Metrics k)) (pbsm_ServiceInstanceMetrics m)
         \<and> pbo_exact H M (pbsm_OverflowGroups m))"

text \<open>The overflow services bucket of a message counts only with an estimator.\<close>

definition cm_msg_weight :: "'sk hll_ops \<Rightarrow> ('sk, 'c::comm_monoid_add) metric \<Rightarrow> CombinedMetrics \<Rightarrow> 'c" where
  "cm_msg_weight H M x = sum_list (map (\<lambda>k. sm_msg_weight H M (ksm_Metrics k)) (pbcm_ServiceMetrics x))
     + (if pbcm_OverflowServiceInstancesEstimator x = [] then 0
        else pbo_weight H M (pbcm_OverflowServices x))"

definition cm_msg_exact :: "'sk hll_ops \<Rightarrow> ('sk, 'c) metric \<Rightarrow> CombinedMetrics \<Rightarrow> bool" where
  "cm_msg_exact H M x \<longleftrightarrow> list_all (\<lambda>k. sm_msg_exact H M (ksm_Metrics k)) (pbcm_ServiceMetrics x)
     \<and> pbo_exact H M (pbcm_OverflowServices x)"

section \<open>Conservation, once for all quantities\<close>

text \<open>Parts of a sum: what is below a total that fits also fits.\<close>

definition part :: "'c::comm_monoid_add \<Rightarrow> 'c \<Rightarrow> bool" where
  "part a n \<longleftrightarrow> (\<exists>b. n = a + b)"

named_theorems part_intros \<open>introduction rules for parts of sums\<close>

lemma part_refl [part_intros]: "part a a" and part_zero: "part 0 a"
  unfolding part_def by (metis add.right_neutral, metis add.left_neutral)

lemma part_left [part_intros]: "part a b \<Longrightarrow> part a (b + c)"
  and part_right [part_intros]: "part a c \<Longrightarrow> part a (b + c)"
  unfolding part_def by (metis add.assoc, metis add.left_commute)

lemma part_add [part_intros]: "part a b \<Longrightarrow> part c d \<Longrightarrow> part (a + c) (b + d)"
  unfolding part_def by (metis add.assoc add.left_commute)

lemma part_gm_sum: "gm_get m k = Some v \<Longrightarrow> part (f v) (gm_sum f m)"
  by (induction m) (auto split: if_splits intro: part_intros)

locale merge_weights =
  t: group_conserve txn_key "\<lambda>_ x. x" "mergeKeyedTransactionMetrics E" "txn_overflow E"
    "mergeTransactionGroups E" "overflow_txns E" "ot_MergeOverflow E"
    "mt_txn M" "mt_otxn M" "ok_txn M" "ok_otxn M" "mt_fits M" +
  s: group_conserve svctxn_key "\<lambda>_ x. x" "mergeKeyedServiceTransactionMetrics E" "svctxn_overflow E"
    "mergeServiceTransactionGroups E" "overflow_svctxns E" "ost_MergeOverflow E"
    "mt_svctxn M" "mt_osvctxn M" "ok_svctxn M" "ok_osvctxn M" "mt_fits M" +
  p: group_conserve span_key drop_span_name mergeKeyedSpanMetrics "span_overflow E"
    "mergeSpanGroups E" "overflow_spans E" "osp_MergeOverflow E"
    "mt_span M" "mt_ospan M" "ok_span M" "ok_ospan M" "mt_fits M"
  for E :: "('sk, 'd) env" and M :: "('sk, 'c::cancel_comm_monoid_add) metric" +
  assumes zero_weight: "ov_weight M zero_overflow = 0" and zero_exact: "ov_exact M zero_overflow"
begin

lemma fits_part: "mt_fits M n \<Longrightarrow> part a n \<Longrightarrow> mt_fits M a"
  using t.fits_add by (auto simp: part_def)

lemma mergeOverflow_conserves:
  assumes "mergeOverflow E ov pb = Some ov'" and "ov_exact M ov" and "pbo_exact (hll E) M pb"
    and fits: "mt_fits M (ov_weight M ov + pbo_weight (hll E) M pb)"
  shows "ov_exact M ov' \<and> ov_weight M ov' = ov_weight M ov + pbo_weight (hll E) M pb"
proof (cases pb)
  case None
  with assms show ?thesis by (simp add: mergeOverflow_def pbo_weight_def)
next
  case (Some pb')
  define fr where "fr = overflow_FromProto (hll E) zero_overflow pb'"
  have fr: "ov_exact M fr" "pbo_weight (hll E) M pb = ov_weight M fr"
    using assms(3) by (simp_all add: pbo_exact_def pbo_weight_def Some fr_def)
  obtain a b c where abc: "ot_MergeOverflow E (OverflowTransaction ov) (OverflowTransaction fr) = Some a"
    "ost_MergeOverflow E (OverflowServiceTransaction ov) (OverflowServiceTransaction fr) = Some b"
    "osp_MergeOverflow E (OverflowSpan ov) (OverflowSpan fr) = Some c"
    "ov' = ov\<lparr>OverflowTransaction := a, OverflowServiceTransaction := b, OverflowSpan := c\<rparr>"
    using assms(1) by (auto simp: mergeOverflow_def Some Let_def fr_def split: bind_splits)
  have "mt_fits M (mt_otxn M (OverflowTransaction ov) + mt_otxn M (OverflowTransaction fr))"
    "mt_fits M (mt_osvctxn M (OverflowServiceTransaction ov) + mt_osvctxn M (OverflowServiceTransaction fr))"
    "mt_fits M (mt_ospan M (OverflowSpan ov) + mt_ospan M (OverflowSpan fr))"
    by (rule fits_part [OF fits], unfold fr(2) ov_weight_def, fast intro: part_intros)+
  with t.mo_exact [OF _ _ _ abc(1)] s.mo_exact [OF _ _ _ abc(2)] p.mo_exact [OF _ _ _ abc(3)] fr(1) assms(2)
  show ?thesis by (simp add: ov_exact_def fr(2)) (simp add: ov_weight_def abc(4) ac_simps)
qed

lemma mergeToOverflowFromSIM_conserves:
  assumes res: "mergeToOverflowFromSIM E ov x h = Some ov'" and ov: "ov_exact M ov"
    and x: "sim_msg_exact M (ksim_Metrics x)"
    and fits: "mt_fits M (ov_weight M ov + sim_msg_weight M (ksim_Metrics x))"
  shows "ov_exact M ov' \<and> ov_weight M ov' = ov_weight M ov + sim_msg_weight M (ksim_Metrics x)"
proof (cases "ksim_Metrics x")
  case None
  with assms show ?thesis by (simp add: mergeToOverflowFromSIM_def sim_msg_weight_def)
next
  case (Some m)
  obtain a b c where abc:
    "overflow_txns E h (pbsim_TransactionMetrics m) (OverflowTransaction ov) = Some a"
    "overflow_svctxns E h (pbsim_ServiceTransactionMetrics m) (OverflowServiceTransaction ov) = Some b"
    "overflow_spans E h (pbsim_SpanMetrics m) (OverflowSpan ov) = Some c"
    "ov' = ov\<lparr>OverflowTransaction := a, OverflowServiceTransaction := b, OverflowSpan := c\<rparr>"
    using res by (auto simp: mergeToOverflowFromSIM_def Some split: bind_splits)
  have w: "sim_msg_weight M (ksim_Metrics x) = sum_list (map (mt_txn M) (pbsim_TransactionMetrics m))
      + sum_list (map (mt_svctxn M) (pbsim_ServiceTransactionMetrics m))
      + sum_list (map (mt_span M) (pbsim_SpanMetrics m))"
    by (simp add: sim_msg_weight_def Some)
  have f: "mt_fits M (mt_otxn M (OverflowTransaction ov) + sum_list (map (mt_txn M) (pbsim_TransactionMetrics m)))"
    "mt_fits M (mt_osvctxn M (OverflowServiceTransaction ov)
       + sum_list (map (mt_svctxn M) (pbsim_ServiceTransactionMetrics m)))"
    "mt_fits M (mt_ospan M (OverflowSpan ov) + sum_list (map (mt_span M) (pbsim_SpanMetrics m)))"
    by (rule fits_part [OF fits], unfold w ov_weight_def, fast intro: part_intros)+
  have x': "\<forall>x \<in> set (pbsim_TransactionMetrics m). ok_txn M x"
    "\<forall>x \<in> set (pbsim_ServiceTransactionMetrics m). ok_svctxn M x"
    "\<forall>x \<in> set (pbsim_SpanMetrics m). ok_span M x"
    using x by (simp_all add: sim_msg_exact_def Some list_all_iff)
  from t.oloop_conserves [OF x'(1) _ f(1) abc(1)] s.oloop_conserves [OF x'(2) _ f(2) abc(2)]
    p.oloop_conserves [OF x'(3) _ f(3) abc(3)] ov
  show ?thesis by (simp add: ov_exact_def w) (simp add: ov_weight_def abc(4) ac_simps)
qed

lemma mergeInstance_conserves:
  assumes res: "mergeInstance E l h m sim g ov = Some (sim', g', ov')"
    and sim: "sim_exact M sim" and ov: "ov_exact M ov" and m: "sim_msg_exact M (Some m)"
    and fits: "mt_fits M (sim_weight M sim + ov_weight M ov + sim_msg_weight M (Some m))"
  shows "sim_exact M sim' \<and> ov_exact M ov'
    \<and> sim_weight M sim' + ov_weight M ov' = sim_weight M sim + ov_weight M ov + sim_msg_weight M (Some m)"
proof -
  obtain ta pa ga oa tb pb gb ob tc pc gc oc where abc:
    "mergeTransactionGroups E h (pbsim_TransactionMetrics m) (TransactionGroups sim)
       (New (int (gm_len (TransactionGroups sim))) (MaxTransactionGroupsPerService l))
       (totalTransactionGroups g) (OverflowTransaction ov) = Some (ta, pa, ga, oa)"
    "mergeServiceTransactionGroups E h (pbsim_ServiceTransactionMetrics m) (ServiceTransactionGroups sim)
       (New (int (gm_len (ServiceTransactionGroups sim))) (MaxServiceTransactionGroupsPerService l))
       (totalServiceTransactionGroups g) (OverflowServiceTransaction ov) = Some (tb, pb, gb, ob)"
    "mergeSpanGroups E h (pbsim_SpanMetrics m) (SpanGroups sim)
       (New (int (gm_len (SpanGroups sim))) (MaxSpanGroupsPerService l))
       (totalSpanGroups g) (OverflowSpan ov) = Some (tc, pc, gc, oc)"
    "sim' = \<lparr>TransactionGroups = ta, ServiceTransactionGroups = tb, SpanGroups = tc\<rparr>"
    "ov' = \<lparr>OverflowTransaction = oa, OverflowServiceTransaction = ob, OverflowSpan = oc\<rparr>"
    using res by (auto simp: mergeInstance_def split: bind_splits)
  have w: "sim_msg_weight M (Some m) = sum_list (map (mt_txn M) (pbsim_TransactionMetrics m))
      + sum_list (map (mt_svctxn M) (pbsim_ServiceTransactionMetrics m))
      + sum_list (map (mt_span M) (pbsim_SpanMetrics m))"
    by (simp add: sim_msg_weight_def)
  have f: "mt_fits M (gm_sum (mt_txn M) (TransactionGroups sim) + mt_otxn M (OverflowTransaction ov)
       + sum_list (map (mt_txn M) (pbsim_TransactionMetrics m)))"
    "mt_fits M (gm_sum (mt_svctxn M) (ServiceTransactionGroups sim) + mt_osvctxn M (OverflowServiceTransaction ov)
       + sum_list (map (mt_svctxn M) (pbsim_ServiceTransactionMetrics m)))"
    "mt_fits M (gm_sum (mt_span M) (SpanGroups sim) + mt_ospan M (OverflowSpan ov)
       + sum_list (map (mt_span M) (pbsim_SpanMetrics m)))"
    by (rule fits_part [OF fits], unfold w ov_weight_def sim_weight_def, fast intro: part_intros)+
  have x': "\<forall>x \<in> set (pbsim_TransactionMetrics m). ok_txn M x"
    "\<forall>x \<in> set (pbsim_ServiceTransactionMetrics m). ok_svctxn M x"
    "\<forall>x \<in> set (pbsim_SpanMetrics m). ok_span M x"
    using m by (simp_all add: sim_msg_exact_def list_all_iff)
  note c = t.loop_conserves [OF _ x'(1) _ f(1) abc(1)] s.loop_conserves [OF _ x'(2) _ f(2) abc(2)]
    p.loop_conserves [OF _ x'(3) _ f(3) abc(3)]
  have "sim_exact M sim' \<and> ov_exact M ov'"
    using c sim ov by (simp add: sim_exact_def ov_exact_def abc(4,5))
  moreover have "sim_weight M sim' + ov_weight M ov'
      = (gm_sum (mt_txn M) ta + mt_otxn M oa) + (gm_sum (mt_svctxn M) tb + mt_osvctxn M ob)
        + (gm_sum (mt_span M) tc + mt_ospan M oc)"
    by (simp add: sim_weight_def ov_weight_def abc(4,5) ac_simps)
  ultimately show ?thesis
    using c sim ov unfolding w by (simp add: sim_exact_def ov_exact_def) (simp add: sim_weight_def ov_weight_def ac_simps)
qed

lemma sim_new [simp]: "sim_weight M newServiceInstanceMetrics = 0" "sim_exact M newServiceInstanceMetrics"
  by (simp_all add: sim_weight_def sim_exact_def newServiceInstanceMetrics_def)

lemma sm_new [simp]: "sm_weight M newServiceMetrics = 0" "sm_exact M newServiceMetrics"
  by (simp_all add: sm_weight_def sm_exact_def newServiceMetrics_def zero_weight zero_exact)

text \<open>Fetching an entry (or a new one) and storing it back, at the level of weights.\<close>

lemma put_weight:
  fixes f :: "'v \<Rightarrow> 'c"
  assumes "gm_get m k = Some v \<or> gm_get m k = None \<and> f v = 0"
  shows "gm_sum f (gm_put m k v') + f v = gm_sum f m + f v'" and "part (f v) (gm_sum f m)"
  using assms by (auto simp: gm_sum_put_old gm_sum_put_new intro: part_gm_sum part_zero)

lemma put_replace:
  fixes f :: "'v \<Rightarrow> 'c"
  assumes "gm_sum f (gm_put m k v') + f v = gm_sum f m + f v'" and "f v' + b = f v + a"
  shows "gm_sum f (gm_put m k v') + b = gm_sum f m + a"
proof -
  have "(gm_sum f (gm_put m k v') + b) + f v = (gm_sum f m + a) + f v"
    using assms by (metis add.assoc add.commute)
  then show ?thesis by simp
qed

lemma mergeServiceInstanceGroups_conserves:
  assumes "mergeServiceInstanceGroups E l h xs sm g est = Some (sm', g', est')"
    and "sm_exact M sm" and "list_all (\<lambda>k. sim_msg_exact M (ksim_Metrics k)) xs"
    and "mt_fits M (sm_weight M sm + sum_list (map (\<lambda>k. sim_msg_weight M (ksim_Metrics k)) xs))"
  shows "sm_exact M sm' \<and> sm_weight M sm'
    = sm_weight M sm + sum_list (map (\<lambda>k. sim_msg_weight M (ksim_Metrics k)) xs)"
  using assms
proof (induction xs arbitrary: sm g est)
  case (Cons x xs)
  let ?w = "\<lambda>k. sim_msg_weight M (ksim_Metrics k)"
  let ?G = "ServiceInstanceGroups sm"
  from Cons.prems(1) obtain key where key: "ksim_Key x = Some key" by (auto split: bind_splits)
  let ?k = "serviceInstanceAggregationKey_FromProto key"
  let ?h = "HashServiceInstanceAggregationKey (xx E) h key"
  have ex: "ov_exact M (OverflowGroups sm)" "all_vals (sim_exact M) ?G" "sim_msg_exact M (ksim_Metrics x)"
    "list_all (\<lambda>k. sim_msg_exact M (ksim_Metrics k)) xs"
    using Cons.prems(2,3) by (simp_all add: sm_exact_def)
  have fits: "mt_fits M (gm_sum (sim_weight M) ?G + ov_weight M (OverflowGroups sm) + (?w x + sum_list (map ?w xs)))"
    using Cons.prems(4) by (simp add: sm_weight_def)
  show ?case
  proof (cases "getServiceInstanceMetrics sm ?k (MaxServiceInstanceGroupsPerService l)")
    case None
    with Cons.prems(1) key obtain ov where ov: "mergeToOverflowFromSIM E (OverflowGroups sm) x ?h = Some ov"
      and r: "mergeServiceInstanceGroups E l h xs (sm\<lparr>OverflowGroups := ov\<rparr>) g
        (insertHash (hll E) est (xx_Sum64 (xx E) ?h)) = Some (sm', g', est')"
      by (auto simp: Let_def split: bind_splits)
    have "mt_fits M (ov_weight M (OverflowGroups sm) + ?w x)"
      by (rule fits_part [OF fits]) (fast intro: part_intros)
    from mergeToOverflowFromSIM_conserves [OF ov ex(1,3) this]
    have o: "ov_exact M ov" "ov_weight M ov = ov_weight M (OverflowGroups sm) + ?w x" by auto
    from Cons.IH [OF r _ ex(4)] o ex(2) Cons.prems(4) show ?thesis
      by (simp add: sm_exact_def sm_weight_def ac_simps)
  next
    case (Some s)
    from Cons.prems(1) key Some obtain m s' g1 ov where m: "ksim_Metrics x = Some m"
      and i: "mergeInstance E l h m s g (OverflowGroups sm) = Some (s', g1, ov)"
      and r: "mergeServiceInstanceGroups E l h xs
        (sm\<lparr>ServiceInstanceGroups := gm_put ?G ?k s', OverflowGroups := ov\<rparr>) g1 est = Some (sm', g', est')"
      by (auto simp: Let_def split: bind_splits)
    have c: "gm_get ?G ?k = Some s \<or> gm_get ?G ?k = None \<and> sim_weight M s = 0"
      and s: "sim_exact M s"
      using Some ex(2) by (auto simp: getServiceInstanceMetrics_def intro: all_vals_get split: option.splits if_splits)
    note pw = put_weight [where f = "sim_weight M", OF c]
    have "mt_fits M (sim_weight M s + ov_weight M (OverflowGroups sm) + ?w x)"
      by (rule fits_part [OF fits]) (use pw(2) in \<open>unfold add.assoc, fast intro: part_intros\<close>)
    with mergeInstance_conserves [OF i s ex(1)] ex(3) m
    have o: "sim_exact M s'" "ov_exact M ov"
      "sim_weight M s' + ov_weight M ov = sim_weight M s + (ov_weight M (OverflowGroups sm) + ?w x)"
      by (auto simp: ac_simps)
    from put_replace [OF pw(1) o(3)]
    have w: "sm_weight M (sm\<lparr>ServiceInstanceGroups := gm_put ?G ?k s', OverflowGroups := ov\<rparr>)
        = sm_weight M sm + ?w x"
      by (simp add: sm_weight_def ac_simps)
    have "sm_exact M (sm\<lparr>ServiceInstanceGroups := gm_put ?G ?k s', OverflowGroups := ov\<rparr>)"
      using o ex(2) by (simp add: sm_exact_def all_vals_put)
    from Cons.IH [OF r this ex(4)] Cons.prems(4) show ?thesis by (simp add: w ac_simps)
  qed
qed simp

lemma overflow_instances_conserves:
  assumes "overflow_instances E h xs ov est = Some (ov', est')" and "ov_exact M ov"
    and "list_all (\<lambda>k. sim_msg_exact M (ksim_Metrics k)) xs"
    and "mt_fits M (ov_weight M ov + sum_list (map (\<lambda>k. sim_msg_weight M (ksim_Metrics k)) xs))"
  shows "ov_exact M ov' \<and> ov_weight M ov'
    = ov_weight M ov + sum_list (map (\<lambda>k. sim_msg_weight M (ksim_Metrics k)) xs)"
  using assms
proof (induction xs arbitrary: ov est)
  case (Cons x xs)
  from Cons.prems(1) obtain h' ov1 est1 where o: "mergeToOverflowFromSIM E ov x h' = Some ov1"
    and r: "overflow_instances E h xs ov1 est1 = Some (ov', est')"
    by (auto simp: Let_def split: bind_splits)
  have f: "mt_fits M (ov_weight M ov + sim_msg_weight M (ksim_Metrics x))"
    by (rule fits_part [OF Cons.prems(4)]) (simp, fast intro: part_intros)
  from Cons.prems(3) have x: "sim_msg_exact M (ksim_Metrics x)"
    "list_all (\<lambda>k. sim_msg_exact M (ksim_Metrics k)) xs" by auto
  from mergeToOverflowFromSIM_conserves [OF o Cons.prems(2) x(1) f]
  have "ov_exact M ov1" "ov_weight M ov1 = ov_weight M ov + sim_msg_weight M (ksim_Metrics x)" by auto
  with Cons.IH [OF r _ x(2)] Cons.prems(4) show ?case by (simp add: ac_simps)
qed simp

lemma mergeService_conserves:
  assumes res: "mergeService E l x g cm = Some (g', cm')" and cm: "cm_exact M cm"
    and x: "sm_msg_exact (hll E) M (ksm_Metrics x)"
    and fits: "mt_fits M (cm_weight M cm + sm_msg_weight (hll E) M (ksm_Metrics x))"
  shows "cm_exact M cm' \<and> cm_weight M cm' = cm_weight M cm + sm_msg_weight (hll E) M (ksm_Metrics x)"
proof -
  let ?S = "Services cm"
  obtain key where key: "ksm_Key x = Some key" using res by (auto simp: mergeService_def split: bind_splits)
  let ?k = "serviceAggregationKey_FromProto key"
  let ?h = "HashServiceAggregationKey (xx E) (xx_Digest0 (xx E)) key"
  let ?W = "\<lambda>m. sum_list (map (\<lambda>k. sim_msg_weight M (ksim_Metrics k)) (pbsm_ServiceInstanceMetrics m))"
  have ex: "all_vals (sm_exact M) ?S" "ov_exact M (OverflowServices cm)"
    using cm by (simp_all add: cm_exact_def)
  show ?thesis
  proof (cases "getServiceMetrics cm ?k (MaxServices l)")
    case None
    with res key obtain m ov ov' est' where m: "ksm_Metrics x = Some m"
      and o: "mergeOverflow E (OverflowServices cm) (pbsm_OverflowGroups m) = Some ov"
      and i: "overflow_instances E ?h (pbsm_ServiceInstanceMetrics m) ov (OverflowServiceInstancesEstimator cm)
        = Some (ov', est')"
      and cm': "cm' = cm\<lparr>OverflowServices := ov', OverflowServiceInstancesEstimator := est'\<rparr>"
      by (auto simp: mergeService_def Let_def split: bind_splits)
    have xm: "pbo_exact (hll E) M (pbsm_OverflowGroups m)"
      "list_all (\<lambda>k. sim_msg_exact M (ksim_Metrics k)) (pbsm_ServiceInstanceMetrics m)"
      using x by (simp_all add: m sm_msg_exact_def)
    have w: "sm_msg_weight (hll E) M (ksm_Metrics x) = ?W m + pbo_weight (hll E) M (pbsm_OverflowGroups m)"
      by (simp add: sm_msg_weight_def m)
    have f1: "mt_fits M (ov_weight M (OverflowServices cm) + pbo_weight (hll E) M (pbsm_OverflowGroups m))"
      by (rule fits_part [OF fits]) (unfold w cm_weight_def, fast intro: part_intros)
    from mergeOverflow_conserves [OF o ex(2) xm(1) f1]
    have o': "ov_exact M ov" "ov_weight M ov = ov_weight M (OverflowServices cm) + pbo_weight (hll E) M (pbsm_OverflowGroups m)"
      by auto
    have "mt_fits M (ov_weight M ov + ?W m)"
      by (rule fits_part [OF fits])
        (unfold w cm_weight_def o'(2) add.assoc, subst add.commute [of "?W m"], fast intro: part_intros)
    from overflow_instances_conserves [OF i o'(1) xm(2) this] ex(1)
    show ?thesis by (simp add: cm' cm_exact_def cm_weight_def o'(2) w ac_simps)
  next
    case (Some sm)
    have c: "gm_get ?S ?k = Some sm \<or> gm_get ?S ?k = None \<and> sm_weight M sm = 0" and sm: "sm_exact M sm"
      using Some ex(1) by (auto simp: getServiceMetrics_def intro: all_vals_get split: option.splits if_splits)
    note pw = put_weight [where f = "sm_weight M", OF c]
    have smx: "all_vals (sim_exact M) (ServiceInstanceGroups sm)" "ov_exact M (OverflowGroups sm)"
      using sm by (simp_all add: sm_exact_def)
    obtain sm' est' where sm': "sm_exact M sm'"
      "sm_weight M sm' + 0 = sm_weight M sm + sm_msg_weight (hll E) M (ksm_Metrics x)"
      "cm' = cm\<lparr>Services := gm_put ?S ?k sm', OverflowServiceInstancesEstimator := est'\<rparr>"
    proof (cases "ksm_Metrics x")
      case None
      show ?thesis
        by (rule that [of sm "OverflowServiceInstancesEstimator cm"])
          (use res key Some None sm in \<open>auto simp: mergeService_def Let_def sm_msg_weight_def\<close>)
    next
      case m: (Some m)
      with res key Some obtain ov sm' est' where
        o: "mergeOverflow E (OverflowGroups sm) (pbsm_OverflowGroups m) = Some ov"
        and i: "mergeServiceInstanceGroups E l ?h (pbsm_ServiceInstanceMetrics m) (sm\<lparr>OverflowGroups := ov\<rparr>) g
          (OverflowServiceInstancesEstimator cm) = Some (sm', g', est')"
        and cm': "cm' = cm\<lparr>Services := gm_put ?S ?k sm', OverflowServiceInstancesEstimator := est'\<rparr>"
        by (auto simp: mergeService_def Let_def split: bind_splits)
      have xm: "pbo_exact (hll E) M (pbsm_OverflowGroups m)"
        "list_all (\<lambda>k. sim_msg_exact M (ksim_Metrics k)) (pbsm_ServiceInstanceMetrics m)"
        using x by (simp_all add: m sm_msg_exact_def)
      have w: "sm_msg_weight (hll E) M (ksm_Metrics x) = ?W m + pbo_weight (hll E) M (pbsm_OverflowGroups m)"
        by (simp add: sm_msg_weight_def m)
      have f: "mt_fits M (sm_weight M sm + (?W m + pbo_weight (hll E) M (pbsm_OverflowGroups m)))"
        by (rule fits_part [OF fits]) (use pw(2) in \<open>unfold w cm_weight_def, fast intro: part_intros\<close>)
      have f1: "mt_fits M (ov_weight M (OverflowGroups sm) + pbo_weight (hll E) M (pbsm_OverflowGroups m))"
        by (rule fits_part [OF f]) (unfold sm_weight_def, fast intro: part_intros)
      from mergeOverflow_conserves [OF o smx(2) xm(1) f1]
      have o': "ov_exact M ov" "ov_weight M ov = ov_weight M (OverflowGroups sm) + pbo_weight (hll E) M (pbsm_OverflowGroups m)"
        by auto
      have e: "sm_exact M (sm\<lparr>OverflowGroups := ov\<rparr>)" using smx(1) o'(1) by (simp add: sm_exact_def)
      have e': "sm_weight M (sm\<lparr>OverflowGroups := ov\<rparr>) + ?W m
          = sm_weight M sm + (?W m + pbo_weight (hll E) M (pbsm_OverflowGroups m))"
        by (simp add: sm_weight_def o'(2) ac_simps)
      from mergeServiceInstanceGroups_conserves [OF i e xm(2)] f e'
      show ?thesis by (intro that [of sm' est'] cm') (simp_all add: w)
    qed
    from put_replace [OF pw(1) sm'(2)] ex sm'(1)
    show ?thesis by (simp add: sm'(3) cm_weight_def cm_exact_def all_vals_put ac_simps)
  qed
qed

lemma merge_services_conserves:
  assumes "merge_services E l xs g cm = Some (g', cm')" and "cm_exact M cm"
    and "list_all (\<lambda>k. sm_msg_exact (hll E) M (ksm_Metrics k)) xs"
    and "mt_fits M (cm_weight M cm + sum_list (map (\<lambda>k. sm_msg_weight (hll E) M (ksm_Metrics k)) xs))"
  shows "cm_exact M cm' \<and> cm_weight M cm'
    = cm_weight M cm + sum_list (map (\<lambda>k. sm_msg_weight (hll E) M (ksm_Metrics k)) xs)"
  using assms
proof (induction xs arbitrary: g cm)
  case (Cons x xs)
  from Cons.prems(1) obtain g1 cm1 where 1: "mergeService E l x g cm = Some (g1, cm1)"
    and r: "merge_services E l xs g1 cm1 = Some (g', cm')" by (auto split: bind_splits)
  have x: "sm_msg_exact (hll E) M (ksm_Metrics x)"
    "list_all (\<lambda>k. sm_msg_exact (hll E) M (ksm_Metrics k)) xs" using Cons.prems(3) by auto
  have "mt_fits M (cm_weight M cm + sm_msg_weight (hll E) M (ksm_Metrics x))"
    by (rule fits_part [OF Cons.prems(4)]) (simp, fast intro: part_intros)
  from mergeService_conserves [OF 1 Cons.prems(2) x(1) this]
  have c: "cm_exact M cm1" "cm_weight M cm1 = cm_weight M cm + sm_msg_weight (hll E) M (ksm_Metrics x)" by auto
  from Cons.IH [OF r c(1) x(2)] Cons.prems(4) show ?case by (simp add: c(2) ac_simps)
qed simp

lemma merge_totals_conserves:
  assumes res: "merge_totals E x cm = Some cm'" and cm: "cm_exact M cm"
    and x: "pbo_exact (hll E) M (pbcm_OverflowServices x)"
    and fits: "mt_fits M (cm_weight M cm + (if pbcm_OverflowServiceInstancesEstimator x = [] then 0
       else pbo_weight (hll E) M (pbcm_OverflowServices x)))"
  shows "cm_exact M cm' \<and> cm_weight M cm' = cm_weight M cm
    + (if pbcm_OverflowServiceInstancesEstimator x = [] then 0
       else pbo_weight (hll E) M (pbcm_OverflowServices x))"
proof (cases "pbcm_OverflowServiceInstancesEstimator x = []")
  case True
  then have "Services cm' = Services cm \<and> OverflowServices cm' = OverflowServices cm"
    using res by (auto simp: merge_totals_def Let_def hllSketch_def split: if_splits)
  with True cm show ?thesis by (simp add: cm_exact_def cm_weight_def)
next
  case False
  then obtain ov where o: "mergeOverflow E (OverflowServices cm) (pbcm_OverflowServices x) = Some ov"
    and c: "Services cm' = Services cm" "OverflowServices cm' = ov"
    using res by (auto simp: merge_totals_def Let_def hllSketch_def split: if_splits bind_splits)
  have "ov_exact M (OverflowServices cm)" using cm by (simp add: cm_exact_def)
  moreover have "mt_fits M (ov_weight M (OverflowServices cm) + pbo_weight (hll E) M (pbcm_OverflowServices x))"
    by (rule fits_part [OF fits]) (use False in \<open>simp add: cm_weight_def\<close>, fast intro: part_intros)
  ultimately show ?thesis
    using mergeOverflow_conserves [OF o _ x] cm False by (simp add: cm_exact_def cm_weight_def c ac_simps)
qed

lemma merge_conserves:
  assumes res: "merge E m x = Some m'" and m: "cm_exact M (mg_metrics m)" and x: "cm_msg_exact (hll E) M x"
    and fits: "mt_fits M (cm_weight M (mg_metrics m) + cm_msg_weight (hll E) M x)"
  shows "cm_exact M (mg_metrics m')
    \<and> cm_weight M (mg_metrics m') = cm_weight M (mg_metrics m) + cm_msg_weight (hll E) M x"
proof -
  obtain cm g' where t: "merge_totals E x (mg_metrics m) = Some cm"
    and s: "merge_services E (mg_limits m) (pbcm_ServiceMetrics x) (mg_constraints m) cm = Some (g', mg_metrics m')"
    using res by (auto simp: merge_def split: bind_splits)
  have xx: "pbo_exact (hll E) M (pbcm_OverflowServices x)"
    "list_all (\<lambda>k. sm_msg_exact (hll E) M (ksm_Metrics k)) (pbcm_ServiceMetrics x)"
    using x by (simp_all add: cm_msg_exact_def)
  have "mt_fits M (cm_weight M (mg_metrics m) + (if pbcm_OverflowServiceInstancesEstimator x = [] then 0
       else pbo_weight (hll E) M (pbcm_OverflowServices x)))"
    by (rule fits_part [OF fits]) (unfold cm_msg_weight_def, fast intro: part_intros)
  from merge_totals_conserves [OF t m xx(1) this]
  have c: "cm_exact M cm" "cm_weight M cm + sum_list (map (\<lambda>k. sm_msg_weight (hll E) M (ksm_Metrics k)) (pbcm_ServiceMetrics x))
      = cm_weight M (mg_metrics m) + cm_msg_weight (hll E) M x"
    by (auto simp: cm_msg_weight_def ac_simps)
  from merge_services_conserves [OF s c(1) xx(2)] fits show ?thesis by (simp add: c(2))
qed

end

section \<open>Three quantities\<close>

text \<open>The count of histogram bucket \<open>b\<close> over all transaction groups.\<close>

definition txn_metric :: "int32 \<Rightarrow> ('sk, int64) metric" where
  "txn_metric b = \<lparr>mt_txn = (\<lambda>x. tm_count b (ktm_Metrics x)), mt_otxn = (\<lambda>ob. tm_count b (ot_Metrics ob)),
     mt_svctxn = (\<lambda>_. 0), mt_osvctxn = (\<lambda>_. 0), mt_span = (\<lambda>_. 0), mt_ospan = (\<lambda>_. 0),
     ok_txn = ktm_ok, ok_otxn = ot_ok, ok_svctxn = kstm_ok, ok_osvctxn = ost_ok,
     ok_span = kspm_ok, ok_ospan = osp_ok, mt_fits = (\<lambda>_. True)\<rparr>"

text \<open>The count of histogram bucket \<open>b\<close> over all service transaction groups.\<close>

definition svctxn_metric :: "int32 \<Rightarrow> ('sk, int64) metric" where
  "svctxn_metric b = \<lparr>mt_txn = (\<lambda>_. 0), mt_otxn = (\<lambda>_. 0),
     mt_svctxn = (\<lambda>x. stm_count b (kstm_Metrics x)), mt_osvctxn = (\<lambda>ob. stm_count b (ost_Metrics ob)),
     mt_span = (\<lambda>_. 0), mt_ospan = (\<lambda>_. 0),
     ok_txn = ktm_ok, ok_otxn = ot_ok, ok_svctxn = kstm_ok, ok_osvctxn = ost_ok,
     ok_span = kspm_ok, ok_ospan = osp_ok, mt_fits = (\<lambda>_. True)\<rparr>"

text \<open>The number of spans over all span groups, exact up to the precision of a float64.\<close>

definition span_metric :: "('sk, nat) metric" where
  "span_metric = \<lparr>mt_txn = (\<lambda>_. 0), mt_otxn = (\<lambda>_. 0), mt_svctxn = (\<lambda>_. 0), mt_osvctxn = (\<lambda>_. 0),
     mt_span = (\<lambda>x. spm_count (kspm_Metrics x)), mt_ospan = (\<lambda>ob. spm_count (osp_Metrics ob)),
     ok_txn = ktm_ok, ok_otxn = ot_ok, ok_svctxn = kstm_ok, ok_osvctxn = ost_ok,
     ok_span = kspm_exact, ok_ospan = osp_exact, mt_fits = (\<lambda>n. n \<le> max_count)\<rparr>"

lemma zero_overflow_parts [simp]:
  "ot_ok (OverflowTransaction zero_overflow)" "ost_ok (OverflowServiceTransaction zero_overflow)"
  "osp_ok (OverflowSpan zero_overflow)" "osp_exact (OverflowSpan zero_overflow)"
  "ot_Metrics (OverflowTransaction zero_overflow) = None"
  "ost_Metrics (OverflowServiceTransaction zero_overflow) = None"
  "osp_Metrics (OverflowSpan zero_overflow) = None" "spm_count None = 0"
  by (simp_all add: zero_overflow_def spm_count_def ot_ok_def ost_ok_def osp_ok_def osp_exact_def spm_exact_def)

interpretation txn_bucket: merge_weights E "txn_metric b"
  for E :: "('sk, 'd) env" and b
  by (intro merge_weights.intro merge_weights_axioms.intro)
    (simp_all add: txn_metric_def txn_conserve svctxn.zero_conserve span.zero_conserve ov_weight_def ov_exact_def)

interpretation svctxn_bucket: merge_weights E "svctxn_metric b"
  for E :: "('sk, 'd) env" and b
  by (intro merge_weights.intro merge_weights_axioms.intro)
    (simp_all add: svctxn_metric_def svctxn_conserve txn.zero_conserve span.zero_conserve ov_weight_def ov_exact_def)

interpretation span_number: merge_weights E span_metric
  for E :: "('sk, 'd) env"
  by (intro merge_weights.intro merge_weights_axioms.intro)
    (simp_all add: span_metric_def span_conserve txn.zero_conserve [where ok = "\<lambda>n. n \<le> max_count"]
      svctxn.zero_conserve [where ok = "\<lambda>n. n \<le> max_count"] ov_weight_def ov_exact_def)

text \<open>The invariant gives the exactness that the histogram quantities need.\<close>

lemma all_vals_mono: "all_vals P m \<Longrightarrow> (\<And>v. P v \<Longrightarrow> Q v) \<Longrightarrow> all_vals Q m"
  by (auto simp: all_vals_def)

definition plain :: "('sk, 'c) metric \<Rightarrow> bool" where
  "plain M \<longleftrightarrow> ok_txn M = ktm_ok \<and> ok_otxn M = ot_ok \<and> ok_svctxn M = kstm_ok \<and> ok_osvctxn M = ost_ok
     \<and> ok_span M = kspm_ok \<and> ok_ospan M = osp_ok"

lemma plain_metrics [simp]: "plain (txn_metric b)" "plain (svctxn_metric b)"
  by (simp_all add: plain_def txn_metric_def svctxn_metric_def)

lemma cm_ok_exact: "plain M \<Longrightarrow> cm_ok l cm \<Longrightarrow> cm_exact M cm"
  unfolding cm_ok_def cm_exact_def plain_def ov_exact_def
  by (auto simp: ov_ok_def sm_ok_def sm_exact_def sim_ok_def sim_exact_def groups_ok_def ov_exact_def all_vals_def)

lemma pbo_ok_exact: "plain M \<Longrightarrow> pbo_opt_ok pb \<Longrightarrow> pbo_exact H M pb"
  using overflow_FromProto_ok [of _ H]
  by (auto simp: pbo_opt_ok_def pbo_exact_def plain_def ov_exact_def ov_ok_def split: option.splits)

lemma sm_msg_ok_exact: "plain M \<Longrightarrow> sm_msg_ok m \<Longrightarrow> sm_msg_exact H M (Some m)"
  by (auto simp: sm_msg_ok_def sm_msg_exact_def pbo_ok_exact ksim_ok_def sim_msg_ok_def sim_msg_exact_def
      plain_def list_all_iff split: option.splits)

lemma cm_msg_ok_exact: "plain M \<Longrightarrow> cm_msg_ok x \<Longrightarrow> cm_msg_exact H M x"
  using sm_msg_ok_exact [of M _ H]
  by (fastforce simp: cm_msg_ok_def cm_msg_exact_def pbo_ok_exact ksm_ok_def list_all_iff split: option.splits)

lemma mt_fits_hist [simp]: "mt_fits (txn_metric b) n" "mt_fits (svctxn_metric b) n"
  by (simp_all add: txn_metric_def svctxn_metric_def)

end
