(* ===== verification/MergeFinish.thy ===== *)
theory MergeFinish
  imports MergeConserve
begin

text \<open>
  The result of a merge goes back to the database as a message (\<^verbatim>\<open>Finish\<close>) and is merged again
  later. The message of a well-formed state is well-formed and carries every quantity of the state.
\<close>

section \<open>What is used of the sketch library\<close>

text \<open>Encoding a sketch gives bytes that decode to the sketch.\<close>

definition hll_roundtrip :: "'sk hll_ops \<Rightarrow> bool" where
  "hll_roundtrip H \<longleftrightarrow> (\<forall>s. hll_MarshalBinary H s \<noteq> [] \<and> hll_UnmarshalBinary H (hll_MarshalBinary H s) = s)"

text \<open>An instance: the sketch that remembers the bytes of every hash.\<close>

definition log_hll :: "bytes hll_ops" where
  "log_hll = \<lparr>hll_New14 = [], hll_InsertHash = (\<lambda>s h. s @ PutUint64_LE h), hll_Merge = (@),
     hll_MarshalBinary = (\<lambda>s. 0 # s), hll_UnmarshalBinary = tl, hll_Estimate = (\<lambda>s. of_nat (length s div 8))\<rparr>"

lemma hll_roundtrip_log [simp]: "hll_roundtrip log_hll"
  by (simp add: hll_roundtrip_def log_hll_def)

section \<open>Overflow buckets survive encoding\<close>

lemma overflow_roundtrip:
  assumes "hll_roundtrip H" and "ov_ok ov"
  shows "overflow_FromProto H zero_overflow (overflow_ToProto H ov) = ov"
  using assms
  by (cases ov; cases "OverflowTransaction ov"; cases "OverflowServiceTransaction ov"; cases "OverflowSpan ov")
    (auto simp: overflow_FromProto_def overflow_ToProto_def Let_def zero_Overflow_def zero_overflow_def ov_ok_def
      ot_ok_def ost_ok_def osp_ok_def ot_Empty_def ost_Empty_def osp_Empty_def hllBytes_def hllSketch_def
      hll_roundtrip_def split: option.splits)

lemma overflow_ToProto_ok:
  assumes "hll_roundtrip H" and "ov_ok ov"
  shows "pbo_ok (overflow_ToProto H ov)"
  using assms
  by (auto simp: overflow_ToProto_def Let_def zero_Overflow_def ov_ok_def ot_ok_def ost_ok_def osp_ok_def
      ot_Empty_def ost_Empty_def osp_Empty_def hllBytes_def hll_roundtrip_def pbo_ok_def split: option.splits)

section \<open>No overflow bucket is left without its estimator\<close>

text \<open>
  The overflow of services is encoded only with the estimator of overflowed instances. A state is
  anchored when that loses nothing: there is an estimator, or no service has overflowed and every
  service that has overflow of its own also has instances.
\<close>

definition ov_none :: "'sk overflow \<Rightarrow> bool" where
  "ov_none ov \<longleftrightarrow> ot_Metrics (OverflowTransaction ov) = None
     \<and> ost_Metrics (OverflowServiceTransaction ov) = None \<and> osp_Metrics (OverflowSpan ov) = None"

definition sm_anchored :: "'sk serviceMetrics \<Rightarrow> bool" where
  "sm_anchored sm \<longleftrightarrow> ServiceInstanceGroups sm \<noteq> [] \<or> ov_none (OverflowGroups sm)"

definition cm_anchored :: "'sk combinedMetrics \<Rightarrow> bool" where
  "cm_anchored cm \<longleftrightarrow> OverflowServiceInstancesEstimator cm \<noteq> None
     \<or> ov_none (OverflowServices cm) \<and> all_vals sm_anchored (Services cm)"

definition pbo_none :: "Overflow option \<Rightarrow> bool" where
  "pbo_none x \<longleftrightarrow> (case x of None \<Rightarrow> True
     | Some pb \<Rightarrow> pbo_OverflowTransactions pb = None \<and> pbo_OverflowServiceTransactions pb = None
         \<and> pbo_OverflowSpans pb = None)"

definition ksm_anchored :: "KeyedServiceMetrics \<Rightarrow> bool" where
  "ksm_anchored x \<longleftrightarrow> (case ksm_Metrics x of None \<Rightarrow> True
     | Some m \<Rightarrow> pbsm_ServiceInstanceMetrics m \<noteq> [] \<or> pbo_none (pbsm_OverflowGroups m))"

definition cm_msg_anchored :: "CombinedMetrics \<Rightarrow> bool" where
  "cm_msg_anchored x \<longleftrightarrow> pbcm_OverflowServiceInstancesEstimator x \<noteq> []
     \<or> list_all ksm_anchored (pbcm_ServiceMetrics x)"

lemma mergeOverflow_none: "pbo_none pb \<Longrightarrow> mergeOverflow E ov pb = Some ov"
  by (auto simp: mergeOverflow_def pbo_none_def overflow_FromProto_def zero_overflow_def Let_def
      ot_MergeOverflow_def ost_MergeOverflow_def osp_MergeOverflow_def split: option.splits)

lemma insertHash_not_None [simp]: "insertHash H s h \<noteq> None" "mergeEstimator H s s' \<noteq> None"
  by (simp_all add: insertHash_def mergeEstimator_def Let_def)

lemma update_not_Nil: "gm_put m k v \<noteq> []"
  by (cases m) auto

lemma mergeServiceInstanceGroups_anchors:
  "mergeServiceInstanceGroups E l h xs sm g est = Some (sm', g', est') \<Longrightarrow>
   (est \<noteq> None \<longrightarrow> est' \<noteq> None) \<and> (ServiceInstanceGroups sm \<noteq> [] \<longrightarrow> ServiceInstanceGroups sm' \<noteq> [])
   \<and> (xs \<noteq> [] \<longrightarrow> est' \<noteq> None \<or> ServiceInstanceGroups sm' \<noteq> [])"
proof (induction xs arbitrary: sm g est)
  case (Cons x xs)
  from Cons.prems show ?case
    by (auto simp: Let_def update_not_Nil simp del: mergeServiceInstanceGroups.simps(2)
        dest!: Cons.IH split: bind_splits option.splits
        simp: mergeServiceInstanceGroups.simps(2) [of E l h x xs])
qed simp

lemma overflow_instances_anchors:
  "overflow_instances E h xs ov est = Some (ov', est') \<Longrightarrow>
   (est \<noteq> None \<or> xs \<noteq> [] \<longrightarrow> est' \<noteq> None) \<and> (xs = [] \<longrightarrow> ov' = ov)"
proof (induction xs arbitrary: ov est)
  case (Cons x xs)
  then show ?case by (fastforce simp: Let_def split: bind_splits)
qed simp

lemma sm_anchored_new: "sm_anchored newServiceMetrics"
  by (simp add: sm_anchored_def newServiceMetrics_def ov_none_def)

lemma mergeService_anchors:
  assumes res: "mergeService E l x g cm = Some (g', cm')"
    and cm: "cm_anchored cm" and x: "OverflowServiceInstancesEstimator cm \<noteq> None \<or> ksm_anchored x"
  shows "cm_anchored cm' \<and> (OverflowServiceInstancesEstimator cm \<noteq> None \<longrightarrow> OverflowServiceInstancesEstimator cm' \<noteq> None)"
proof -
  let ?e = "OverflowServiceInstancesEstimator"
  obtain key where key: "ksm_Key x = Some key" using res by (auto simp: mergeService_def split: bind_splits)
  let ?k = "serviceAggregationKey_FromProto key"
  let ?h = "HashServiceAggregationKey (xx E) (xx_Digest0 (xx E)) key"
  show ?thesis
  proof (cases "getServiceMetrics cm ?k (MaxServices l)")
    case None
    with res key obtain m ov ov' est' where m: "ksm_Metrics x = Some m"
      and o: "mergeOverflow E (OverflowServices cm) (pbsm_OverflowGroups m) = Some ov"
      and i: "overflow_instances E ?h (pbsm_ServiceInstanceMetrics m) ov (?e cm) = Some (ov', est')"
      and cm': "cm' = cm\<lparr>OverflowServices := ov', OverflowServiceInstancesEstimator := est'\<rparr>"
      by (auto simp: mergeService_def Let_def split: bind_splits)
    from overflow_instances_anchors [OF i] cm x m o mergeOverflow_none [of "pbsm_OverflowGroups m" E "OverflowServices cm"]
    show ?thesis by (auto simp: cm' cm_anchored_def ksm_anchored_def)
  next
    case (Some sm)
    have sm: "?e cm \<noteq> None \<or> sm_anchored sm"
      using Some cm sm_anchored_new
      by (auto simp: getServiceMetrics_def cm_anchored_def dest: all_vals_get split: option.splits if_splits)
    obtain sm' est' where sm': "?e cm \<noteq> None \<longrightarrow> est' \<noteq> None" "est' \<noteq> None \<or> sm_anchored sm'"
      "cm' = cm\<lparr>Services := gm_put (Services cm) ?k sm', OverflowServiceInstancesEstimator := est'\<rparr>"
    proof (cases "ksm_Metrics x")
      case None
      show ?thesis
        by (rule that [of "?e cm" sm]) (use res key Some None sm in \<open>auto simp: mergeService_def Let_def\<close>)
    next
      case m: (Some m)
      with res key Some obtain ov sm' est' where
        o: "mergeOverflow E (OverflowGroups sm) (pbsm_OverflowGroups m) = Some ov"
        and i: "mergeServiceInstanceGroups E l ?h (pbsm_ServiceInstanceMetrics m) (sm\<lparr>OverflowGroups := ov\<rparr>) g (?e cm)
          = Some (sm', g', est')"
        and cm': "cm' = cm\<lparr>Services := gm_put (Services cm) ?k sm', OverflowServiceInstancesEstimator := est'\<rparr>"
        by (auto simp: mergeService_def Let_def split: bind_splits)
      have "est' \<noteq> None \<or> sm_anchored sm'"
        using mergeServiceInstanceGroups_anchors [OF i] i o mergeOverflow_none [of "pbsm_OverflowGroups m" E "OverflowGroups sm"] sm x m
        by (cases "pbsm_ServiceInstanceMetrics m") (auto simp: sm_anchored_def ksm_anchored_def)
      with mergeServiceInstanceGroups_anchors [OF i] show ?thesis by (intro that [of est' sm'] cm') auto
    qed
    then show ?thesis using cm by (auto simp: cm_anchored_def all_vals_put)
  qed
qed

lemma merge_services_anchors:
  "merge_services E l xs g cm = Some (g', cm') \<Longrightarrow> cm_anchored cm \<Longrightarrow>
   OverflowServiceInstancesEstimator cm \<noteq> None \<or> list_all ksm_anchored xs \<Longrightarrow> cm_anchored cm'"
proof (induction xs arbitrary: g cm)
  case (Cons x xs)
  from Cons.prems(1) obtain g1 cm1 where 1: "mergeService E l x g cm = Some (g1, cm1)"
    and r: "merge_services E l xs g1 cm1 = Some (g', cm')" by (auto split: bind_splits)
  have "OverflowServiceInstancesEstimator cm \<noteq> None \<or> ksm_anchored x" using Cons.prems(3) by auto
  from mergeService_anchors [OF 1 Cons.prems(2) this] Cons.IH [OF r] Cons.prems(3) show ?case by auto
qed simp

lemma merge_anchors:
  assumes "merge E m x = Some m'" and "cm_anchored (mg_metrics m)" and "cm_msg_anchored x"
  shows "cm_anchored (mg_metrics m')"
proof -
  obtain cm g' where t: "merge_totals E x (mg_metrics m) = Some cm"
    and s: "merge_services E (mg_limits m) (pbcm_ServiceMetrics x) (mg_constraints m) cm = Some (g', mg_metrics m')"
    using assms(1) by (auto simp: merge_def split: bind_splits)
  have "cm_anchored cm \<and> (OverflowServiceInstancesEstimator cm \<noteq> None \<or> list_all ksm_anchored (pbcm_ServiceMetrics x))"
    using t assms(2,3)
    by (auto simp: merge_totals_def Let_def hllSketch_def cm_anchored_def cm_msg_anchored_def mergeEstimator_def
        split: if_splits bind_splits)
  then show ?thesis using merge_services_anchors [OF s] by blast
qed

lemma cm_anchored_new [simp]: "cm_anchored (mg_metrics (new_merger l))"
  by (simp add: cm_anchored_def new_merger_def zero_combinedMetrics_def ov_none_def)

section \<open>Encoding the state\<close>

lemma sum_list_map_snd: "sum_list (map (f \<circ> snd) m) = gm_sum f m"
  by (simp add: gm_sum_def)

lemma sim_ToProto_ok: "sim_ok l s \<Longrightarrow> sim_msg_ok (serviceInstanceMetrics_ToProto s)"
  by (auto simp: sim_ok_def sim_msg_ok_def serviceInstanceMetrics_ToProto_def groups_ok_def list_all_iff)

lemma sim_ToProto_weight: "sim_msg_weight M (Some (serviceInstanceMetrics_ToProto s)) = sim_weight M s"
  by (simp add: sim_msg_weight_def sim_weight_def serviceInstanceMetrics_ToProto_def sum_list_map_snd)

lemma sm_ToProto_ok:
  assumes "hll_roundtrip H" and "sm_ok l sm"
  shows "sm_msg_ok (serviceMetrics_ToProto H sm)"
proof -
  have "ksim_ok \<lparr>ksim_Key = Some k, ksim_Metrics = Some (serviceInstanceMetrics_ToProto s)\<rparr>"
    if "sim_ok l s" for k s using sim_ToProto_ok [OF that] by (simp add: ksim_ok_def)
  with assms overflow_ToProto_ok [OF assms(1)] show ?thesis
    by (auto simp: sm_msg_ok_def serviceMetrics_ToProto_def sm_ok_def list_all_iff pbo_opt_ok_def all_vals_def)
qed

lemma sm_ToProto_weight:
  assumes "hll_roundtrip H" and "sm_ok l sm"
  shows "sm_msg_weight H M (Some (serviceMetrics_ToProto H sm)) = sm_weight M sm"
proof -
  have "sum_list (map (\<lambda>k. sim_msg_weight M (ksim_Metrics k))
      (map (\<lambda>(k, m). \<lparr>ksim_Key = Some (serviceInstanceAggregationKey_ToProto k),
                     ksim_Metrics = Some (serviceInstanceMetrics_ToProto m)\<rparr>) G)) = gm_sum (sim_weight M) G" for G
    by (induction G) (auto simp: sim_ToProto_weight)
  then show ?thesis
    using overflow_roundtrip [OF assms(1)] assms(2)
    by (simp add: sm_msg_weight_def serviceMetrics_ToProto_def sm_weight_def pbo_weight_def sm_ok_def)
qed

lemma cm_ToProto_fields:
  "pbcm_EventsTotal (combinedMetrics_ToProto H cm) = EventsTotal cm"
  "pbcm_YoungestEventTimestamp (combinedMetrics_ToProto H cm) = YoungestEventTimestamp cm"
  "pbcm_ServiceMetrics (combinedMetrics_ToProto H cm) =
     map (\<lambda>(k, m). \<lparr>ksm_Key = Some (serviceAggregationKey_ToProto k),
                    ksm_Metrics = Some (serviceMetrics_ToProto H m)\<rparr>) (Services cm)"
  "pbcm_OverflowServices (combinedMetrics_ToProto H cm) =
     (if OverflowServiceInstancesEstimator cm = None then None else Some (overflow_ToProto H (OverflowServices cm)))"
  "pbcm_OverflowServiceInstancesEstimator (combinedMetrics_ToProto H cm) =
     hllBytes H (OverflowServiceInstancesEstimator cm)"
  by (auto simp: combinedMetrics_ToProto_def Let_def hllBytes_def)

lemma cm_ToProto_ok:
  assumes "hll_roundtrip H" and "cm_ok l cm"
  shows "cm_msg_ok (combinedMetrics_ToProto H cm)"
proof -
  have "ksm_ok \<lparr>ksm_Key = Some k, ksm_Metrics = Some (serviceMetrics_ToProto H sm)\<rparr>" if "sm_ok l sm" for k sm
    using sm_ToProto_ok [OF assms(1) that] by (simp add: ksm_ok_def)
  with assms overflow_ToProto_ok [OF assms(1)] show ?thesis
    by (auto simp: cm_msg_ok_def cm_ToProto_fields cm_ok_def list_all_iff pbo_opt_ok_def all_vals_def)
qed

lemma ov_none_weight:
  assumes "ov_none ov" and "ov_ok ov" and "ov_weight M zero_overflow = 0"
  shows "ov_weight M ov = 0"
proof -
  have "ov = zero_overflow"
    using assms(1,2)
    by (cases ov; cases "OverflowTransaction ov"; cases "OverflowServiceTransaction ov"; cases "OverflowSpan ov")
      (simp add: ov_none_def ov_ok_def ot_ok_def ost_ok_def osp_ok_def zero_overflow_def)
  with assms(3) show ?thesis by simp
qed

lemma cm_ToProto_weight:
  assumes "hll_roundtrip H" and "cm_ok l cm" and "cm_anchored cm" and "ov_weight M zero_overflow = 0"
  shows "cm_msg_weight H M (combinedMetrics_ToProto H cm) = cm_weight M cm"
proof -
  have s: "sum_list (map (\<lambda>k. sm_msg_weight H M (ksm_Metrics k))
      (map (\<lambda>(k, m). \<lparr>ksm_Key = Some (serviceAggregationKey_ToProto k),
                     ksm_Metrics = Some (serviceMetrics_ToProto H m)\<rparr>) S)) = gm_sum (sm_weight M) S"
    if "all_vals (sm_ok l) S" for S :: "(serviceAggregationKey, 'a serviceMetrics) gomap"
    using that by (induction S) (auto simp: sm_ToProto_weight [OF assms(1)] all_vals_def)
  have ok: "ov_ok (OverflowServices cm)" "all_vals (sm_ok l) (Services cm)" using assms(2) by (auto simp: cm_ok_def)
  show ?thesis
  proof (cases "OverflowServiceInstancesEstimator cm")
    case None
    then have "ov_weight M (OverflowServices cm) = 0"
      using assms(3) ov_none_weight [OF _ ok(1) assms(4)] by (simp add: cm_anchored_def)
    with None s [OF ok(2)] show ?thesis
      by (simp add: cm_msg_weight_def cm_weight_def cm_ToProto_fields hllBytes_def)
  next
    case (Some e)
    with s [OF ok(2)] overflow_roundtrip [OF assms(1) ok(1)] assms(1) show ?thesis
      by (simp add: cm_msg_weight_def cm_weight_def cm_ToProto_fields hllBytes_def hll_roundtrip_def pbo_weight_def)
  qed
qed

lemma pbo_none_ToProto: "ov_none ov \<Longrightarrow> pbo_none (Some (overflow_ToProto H ov))"
  by (auto simp: pbo_none_def ov_none_def overflow_ToProto_def Let_def zero_Overflow_def)

lemma cm_ToProto_anchored:
  assumes "hll_roundtrip H" and "cm_anchored cm"
  shows "cm_msg_anchored (combinedMetrics_ToProto H cm)"
proof (cases "OverflowServiceInstancesEstimator cm")
  case None
  have "ksm_anchored \<lparr>ksm_Key = Some k, ksm_Metrics = Some (serviceMetrics_ToProto H sm)\<rparr>"
    if "sm_anchored sm" for k sm
    using that pbo_none_ToProto [of "OverflowGroups sm" H]
    by (auto simp: ksm_anchored_def sm_anchored_def serviceMetrics_ToProto_def)
  with None assms(2) show ?thesis
    by (auto simp: cm_msg_anchored_def cm_ToProto_fields cm_anchored_def all_vals_def list_all_iff)
next
  case (Some e)
  with assms(1) show ?thesis by (simp add: cm_msg_anchored_def cm_ToProto_fields hllBytes_def hll_roundtrip_def)
qed

end
