(* ===== verification/FloatClosed.thy ===== *)
theory FloatClosed
  imports FloatBits
begin

text \<open>
  Arithmetic stays within the binary64 values: rounding gives one, hence so does every sum.
\<close>

lemma round_even_bounds: "of_int (round_even x) \<le> x + 1 / 2" "x - 1 / 2 \<le> of_int (round_even x)"
  unfolding round_even_def Let_def by (simp_all split: if_splits; linarith)+

lemma round_even_le: "\<bar>x\<bar> < of_int n \<Longrightarrow> \<bar>round_even x\<bar> \<le> n"
proof -
  assume x: "\<bar>x\<bar> < of_int n"
  have "rat_of_int (round_even x) < of_int (n + 1)" using round_even_bounds(1) [of x] x by simp
  moreover have "rat_of_int (- n - 1) < of_int (round_even x)" using round_even_bounds(2) [of x] x by simp
  ultimately have "round_even x < n + 1" "- n - 1 < round_even x" by (simp_all only: of_int_less_iff)
  then show ?thesis by simp
qed

lemma is_f64_rnd64 [simp]: "is_f64 (rnd64 x)"
proof (cases "x = 0")
  case False
  define q where "q = max (ilog2 \<bar>x\<bar> - 52) (- 1074)"
  define k where "k = round_even (x / 2 powi q)"
  define y where "y = rat_of_int k * 2 powi q"
  have r: "rnd64 x = (if \<bar>y\<bar> < 2 ^ 1024 then Fin y else if x > 0 then PosInf else NegInf)"
    using False by (simp add: rnd64_def Let_def q_def [symmetric] k_def [symmetric] y_def [symmetric])
  show ?thesis
  proof (cases "\<bar>y\<bar> < 2 ^ 1024")
    case True
    have pos: "0 < \<bar>x\<bar>" using False by simp
    have "\<bar>x\<bar> < 2 powi (ilog2 \<bar>x\<bar> + 1)" by (rule ilog2_bounds(2) [OF pos])
    also have "\<dots> \<le> 2 powi (q + 53)" by (rule power_int_increasing) (simp_all add: q_def)
    also have "\<dots> = 2 ^ 53 * 2 powi q" by (simp add: power_int_add)
    finally have "\<bar>x / 2 powi q\<bar> < rat_of_int (2 ^ 53)" by (simp add: field_simps)
    then have k: "\<bar>k\<bar> \<le> 2 ^ 53" unfolding k_def by (rule round_even_le)
    have q: "- 1074 \<le> q" by (simp add: q_def)
    have "rnd64 y = Fin y"
    proof (cases "\<bar>k\<bar> = 2 ^ 53")
      case False
      with k have "\<bar>k\<bar> < 2 ^ 53" by simp
      then show ?thesis by (intro rnd64_exact_aux [OF y_def _ q True])
    next
      case True': True
      define m :: int where "m = (if k > 0 then 2 ^ 52 else - (2 ^ 52))"
      have "k = m * 2" using True' by (auto simp: m_def)
      then have "y = of_int m * 2 powi (q + 1)" by (simp add: y_def power_int_add)
      then show ?thesis by (rule rnd64_exact_aux [OF _ _ _ True]) (use q in \<open>simp_all add: m_def\<close>)
    qed
    then show ?thesis by (simp add: r True is_f64_def)
  qed (simp add: r is_f64_def)
qed simp

lemma is_f64_special [simp]: "is_f64 PosInf" "is_f64 NegInf" "is_f64 NaN"
  by (simp_all add: is_f64_def)

lemma is_f64_fadd: "is_f64 (fadd a b)" if "is_f64 a" and "is_f64 b"
  using that by (cases a; cases b) simp_all

end
