(* ===== verification/StoreRep.thy ===== *)
theory StoreRep
  imports MergeFinish VtprotoRT FloatClosed
begin

text \<open>
  Merging keeps every floating point field a binary64 value, so that the state can be encoded: one
  more instance of the conservation argument, with the weight zero and the representable values as
  the exact ones.
\<close>

definition kstm_rep :: "KeyedServiceTransactionMetrics \<Rightarrow> bool" where
  "kstm_rep x \<longleftrightarrow> kstm_ok x \<and> KeyedServiceTransactionMetrics_rep x"

definition ost_rep :: "'sk overflowServiceTransaction \<Rightarrow> bool" where
  "ost_rep ob \<longleftrightarrow> ost_ok ob \<and> pred_option ServiceTransactionMetrics_rep (ost_Metrics ob)"

definition kspm_rep :: "KeyedSpanMetrics \<Rightarrow> bool" where
  "kspm_rep x \<longleftrightarrow> kspm_ok x \<and> KeyedSpanMetrics_rep x"

definition osp_rep :: "'sk overflowSpan \<Rightarrow> bool" where
  "osp_rep ob \<longleftrightarrow> osp_ok ob \<and> pred_option SpanMetrics_rep (osp_Metrics ob)"

lemma zero_rep [simp]: "ServiceTransactionMetrics_rep zero_ServiceTransactionMetrics" "SpanMetrics_rep zero_SpanMetrics"
  by (simp_all add: ServiceTransactionMetrics_rep_def zero_ServiceTransactionMetrics_def
      SpanMetrics_rep_def zero_SpanMetrics_def)

lemma mergeServiceTransactionMetrics_rep:
  "mergeServiceTransactionMetrics E t f = Some r \<Longrightarrow> ServiceTransactionMetrics_rep t \<Longrightarrow>
   pred_option ServiceTransactionMetrics_rep f \<Longrightarrow> ServiceTransactionMetrics_rep r"
  by (auto simp: mergeServiceTransactionMetrics_def ServiceTransactionMetrics_rep_def is_f64_fadd
      split: bind_splits option.splits if_splits)

lemma spm_merged_rep:
  "pred_option SpanMetrics_rep t \<Longrightarrow> SpanMetrics_rep f \<Longrightarrow> SpanMetrics_rep (spm_merged t (Some f))"
  by (cases t) (auto simp: spm_merged_def SpanMetrics_rep_def is_f64_fadd zero_SpanMetrics_def)

lemma rep_case:
  "pred_option ServiceTransactionMetrics_rep t \<Longrightarrow>
   ServiceTransactionMetrics_rep (case t of None \<Rightarrow> zero_ServiceTransactionMetrics | Some m \<Rightarrow> m)"
  by (cases t) simp_all

lemmas merge_case_rep = mergeServiceTransactionMetrics_rep [OF _ rep_case]

lemma svctxn_rep_conserve:
  "group_conserve svctxn_key (\<lambda>_ x. x) (mergeKeyedServiceTransactionMetrics E) (svctxn_overflow E)
     (mergeServiceTransactionGroups E) (overflow_svctxns E) (ost_MergeOverflow E)
     (\<lambda>_. 0 :: nat) (\<lambda>_. 0) kstm_rep ost_rep (\<lambda>_. True)"
  for E :: "('sk, 'd) env"
proof (intro group_conserve.intro svctxn_group_loop group_conserve_axioms.intro)
  fix v x v' :: KeyedServiceTransactionMetrics and ob ob1 ob' :: "'sk overflowServiceTransaction" and h :: 'd
  show "kstm_rep x \<Longrightarrow> svctxn_key x \<noteq> None" by (auto simp: kstm_rep_def kstm_ok_def svctxn_key_def)
  show "kstm_rep v' \<and> 0 = 0 + (0 :: nat)"
    if "kstm_rep v" "kstm_rep x" "mergeKeyedServiceTransactionMetrics E v x = Some v'"
    using svctxn.vmerge_ok [of v x E] that
    by (auto simp: kstm_rep_def mergeKeyedServiceTransactionMetrics_def KeyedServiceTransactionMetrics_rep_def Let_def
        split: bind_splits if_splits dest: merge_case_rep)
  show "ost_rep ob' \<and> 0 = 0 + (0 :: nat)"
    if "ost_rep ob" "kstm_rep x" "svctxn_overflow E h ob x = Some ob'"
    using svctxn.omerge_ok [of ob x E h] that
    by (auto simp: kstm_rep_def ost_rep_def svctxn_overflow_def ost_Merge_def KeyedServiceTransactionMetrics_rep_def Let_def
        split: bind_splits if_splits dest: merge_case_rep)
  show "ost_rep ob' \<and> 0 = 0 + (0 :: nat)"
    if "ost_rep ob" "ost_rep ob1" "ost_MergeOverflow E ob ob1 = Some ob'"
    using svctxn.mo_ok [of ob ob1 E] that
    by (auto simp: ost_rep_def ost_MergeOverflow_def Let_def
        split: bind_splits option.splits dest: mergeServiceTransactionMetrics_rep)
qed auto

lemma span_rep_conserve:
  "group_conserve span_key drop_span_name mergeKeyedSpanMetrics (span_overflow E)
     (mergeSpanGroups E) (overflow_spans E) (osp_MergeOverflow E)
     (\<lambda>_. 0 :: nat) (\<lambda>_. 0) kspm_rep osp_rep (\<lambda>_. True)"
  for E :: "('sk, 'd) env"
proof (intro group_conserve.intro span_group_loop group_conserve_axioms.intro)
  fix v x v' :: KeyedSpanMetrics and ob ob1 ob' :: "'sk overflowSpan" and h :: 'd and p
  show "kspm_rep x \<Longrightarrow> span_key x \<noteq> None" by (auto simp: kspm_rep_def kspm_ok_def span_key_def)
  show "kspm_rep x \<Longrightarrow> kspm_rep (drop_span_name p x) \<and> (0 :: nat) = 0"
    by (simp add: kspm_rep_def KeyedSpanMetrics_rep_def)
  show "kspm_rep v' \<and> 0 = 0 + (0 :: nat)"
    if "kspm_rep v" "kspm_rep x" "mergeKeyedSpanMetrics v x = Some v'"
    using that by (auto simp: kspm_rep_def kspm_ok_def mergeKeyedSpanMetrics_eq KeyedSpanMetrics_rep_def spm_merged_rep)
  show "osp_rep ob' \<and> 0 = 0 + (0 :: nat)"
    if "osp_rep ob" "kspm_rep x" "span_overflow E h ob x = Some ob'"
    using that by (auto simp: osp_rep_def kspm_rep_def span_overflow_eq kspm_ok_def osp_ok_def insertHash_def
        KeyedSpanMetrics_rep_def spm_merged_rep)
  show "osp_rep ob' \<and> 0 = 0 + (0 :: nat)"
    if "osp_rep ob" "osp_rep ob1" "osp_MergeOverflow E ob ob1 = Some ob'"
    using that span.mo_ok [of ob ob1 E]
    by (auto simp: osp_rep_def osp_MergeOverflow_eq split: option.splits)
      (auto simp: osp_ok_def spm_merged_rep)
qed auto

definition rep_metric :: "('sk, nat) metric" where
  "rep_metric = \<lparr>mt_txn = (\<lambda>_. 0), mt_otxn = (\<lambda>_. 0), mt_svctxn = (\<lambda>_. 0), mt_osvctxn = (\<lambda>_. 0),
     mt_span = (\<lambda>_. 0), mt_ospan = (\<lambda>_. 0), ok_txn = ktm_ok, ok_otxn = ot_ok, ok_svctxn = kstm_rep,
     ok_osvctxn = ost_rep, ok_span = kspm_rep, ok_ospan = osp_rep, mt_fits = (\<lambda>_. True)\<rparr>"

interpretation representable: merge_weights E rep_metric
  for E :: "('sk, 'd) env"
  by (intro merge_weights.intro merge_weights_axioms.intro)
    (simp_all add: rep_metric_def svctxn_rep_conserve span_rep_conserve txn.zero_conserve ov_weight_def ov_exact_def
      ost_rep_def osp_rep_def)

lemma rep_fits [simp]: "mt_fits rep_metric n"
  by (simp add: rep_metric_def)

text \<open>A state whose fields are all representable, and the messages for which merging keeps it so.\<close>

definition cm_rep :: "'sk combinedMetrics \<Rightarrow> bool" where
  "cm_rep cm \<longleftrightarrow> cm_exact rep_metric cm \<and> is_f64 (EventsTotal cm)"

lemma cm_rep_new [simp]: "cm_rep (mg_metrics (new_merger l))"
  by (simp add: cm_rep_def cm_exact_def new_merger_def zero_combinedMetrics_def representable.zero_exact)

lemma FromProto_metrics:
  "ost_Metrics (OverflowServiceTransaction (overflow_FromProto H zero_overflow pb)) = pbo_OverflowServiceTransactions pb"
  "osp_Metrics (OverflowSpan (overflow_FromProto H zero_overflow pb)) = pbo_OverflowSpans pb"
  by (simp_all add: overflow_FromProto_def Let_def zero_overflow_def)

lemma Overflow_rep_exact:
  "pbo_opt_ok pb \<Longrightarrow> pred_option Overflow_rep pb \<Longrightarrow> pbo_exact H rep_metric pb"
  using overflow_FromProto_ok [of _ H]
  by (auto simp: pbo_opt_ok_def pbo_exact_def ov_exact_def ov_ok_def rep_metric_def ost_rep_def osp_rep_def
      FromProto_metrics Overflow_rep_def split: option.splits)

lemma CombinedMetrics_rep_exact:
  fixes H :: "'sk hll_ops"
  assumes "cm_msg_ok x" and "CombinedMetrics_rep x"
  shows "cm_msg_exact H rep_metric x"
proof -
  let ?M = "rep_metric :: ('sk, nat) metric"
  have "sm_msg_exact H ?M (ksm_Metrics k)" if "k \<in> set (pbcm_ServiceMetrics x)" for k
  proof (cases "ksm_Metrics k")
    case (Some m)
    have m: "sm_msg_ok m" "ServiceMetrics_rep m"
      using assms that Some
      by (auto simp: cm_msg_ok_def ksm_ok_def CombinedMetrics_rep_def KeyedServiceMetrics_rep_def list_all_iff)
    have "sim_msg_exact ?M (ksim_Metrics i)" if "i \<in> set (pbsm_ServiceInstanceMetrics m)" for i
      using m that
      by (fastforce simp: sim_msg_exact_def sm_msg_ok_def ksim_ok_def sim_msg_ok_def ServiceMetrics_rep_def
          KeyedServiceInstanceMetrics_rep_def ServiceInstanceMetrics_rep_def rep_metric_def kstm_rep_def kspm_rep_def
          list_all_iff split: option.splits)
    with m show ?thesis
      by (simp add: Some sm_msg_exact_def list_all_iff Overflow_rep_exact sm_msg_ok_def ServiceMetrics_rep_def)
  qed (simp add: sm_msg_exact_def)
  with assms show ?thesis
    by (simp add: cm_msg_exact_def list_all_iff Overflow_rep_exact cm_msg_ok_def CombinedMetrics_rep_def)
qed

lemma merge_rep:
  assumes "merger_ok m" and "cm_msg_ok x" and "cm_rep (mg_metrics m)" and "CombinedMetrics_rep x"
    and "merge E m x = Some m'"
  shows "cm_rep (mg_metrics m')"
proof -
  have "is_f64 (EventsTotal (mg_metrics m'))"
    using merge_ok [OF assms(1,2), of E] assms(3,4,5)
    by (auto simp: cm_rep_def CombinedMetrics_rep_def is_f64_fadd)
  then show ?thesis
    using representable.merge_conserves [OF assms(5) _ CombinedMetrics_rep_exact [OF assms(2,4)]] assms(3)
    by (simp add: cm_rep_def)
qed

lemma overflow_ToProto_rep: "ov_exact rep_metric ov \<Longrightarrow> Overflow_rep (overflow_ToProto H ov)"
  by (auto simp: Overflow_rep_def overflow_ToProto_def Let_def ov_exact_def rep_metric_def ost_rep_def osp_rep_def
      zero_Overflow_def)

lemma cm_ToProto_rep:
  assumes "cm_rep cm"
  shows "CombinedMetrics_rep (combinedMetrics_ToProto H cm)"
proof -
  have "ServiceMetrics_rep (serviceMetrics_ToProto H sm)" if "sm_exact rep_metric sm" for sm
    using that
    by (auto simp: ServiceMetrics_rep_def serviceMetrics_ToProto_def sm_exact_def overflow_ToProto_rep list_all_iff
        KeyedServiceInstanceMetrics_rep_def ServiceInstanceMetrics_rep_def serviceInstanceMetrics_ToProto_def
        all_vals_def sim_exact_def rep_metric_def kstm_rep_def kspm_rep_def)
  with assms show ?thesis
    by (auto simp: CombinedMetrics_rep_def combinedMetrics_ToProto_def Let_def cm_rep_def cm_exact_def
        KeyedServiceMetrics_rep_def list_all_iff all_vals_def overflow_ToProto_rep)
qed

end
