(* ===== verification/Store.thy ===== *)
theory Store
  imports StoreRep
begin

text \<open>
  The merger as the database sees it: operands and results are byte strings. \<^verbatim>\<open>MergeNewer\<close>,
  \<^verbatim>\<open>MergeOlder\<close> and \<^verbatim>\<open>Finish\<close> of \<^verbatim>\<open>aggregators/merger.go\<close>, the \<^verbatim>\<open>Merge\<close> function that
  \<^verbatim>\<open>New\<close> of \<^verbatim>\<open>aggregators/aggregator.go\<close> hands to pebble, and the ways in which pebble may combine
  the operands of a key. An error is \<^term>\<open>Inl\<close>, a panic \<^term>\<open>None\<close>.
\<close>

section \<open>Operations\<close>

definition MergeNewer ::
  "('sk, 'd) env \<Rightarrow> 'sk combinedMetricsMerger \<Rightarrow> bytes \<Rightarrow> (wire_error + 'sk combinedMetricsMerger) option" where
  "MergeNewer E m value =
     (case CombinedMetrics_UnmarshalVT value zero_CombinedMetrics of
        Inl e \<Rightarrow> Some (Inl e)
      | Inr from \<Rightarrow> do { m \<leftarrow> merge E m from; Some (Inr m) })"

definition MergeOlder ::
  "('sk, 'd) env \<Rightarrow> 'sk combinedMetricsMerger \<Rightarrow> bytes \<Rightarrow> (wire_error + 'sk combinedMetricsMerger) option" where
  "MergeOlder E m value =
     (case CombinedMetrics_UnmarshalVT value zero_CombinedMetrics of
        Inl e \<Rightarrow> Some (Inl e)
      | Inr from \<Rightarrow> do { m \<leftarrow> merge E m from; Some (Inr m) })"

definition Finish :: "('sk, 'd) env \<Rightarrow> 'sk combinedMetricsMerger \<Rightarrow> bytes option" where
  "Finish E m =
     MarshalVT CombinedMetrics_SizeVT CombinedMetrics_MarshalToSizedBufferVT
       (combinedMetrics_ToProto (hll E) (mg_metrics m))"

definition Merge ::
  "('sk, 'd) env \<Rightarrow> Limits \<Rightarrow> bytes \<Rightarrow> (wire_error + 'sk combinedMetricsMerger) option" where
  "Merge E l value =
     (case CombinedMetrics_UnmarshalVT value zero_CombinedMetrics of
        Inl e \<Rightarrow> Some (Inl e)
      | Inr pb \<Rightarrow> do { m \<leftarrow> merge E (new_merger l) pb; Some (Inr m) })"

section \<open>How pebble combines operands\<close>

text \<open>
  \<open>lsm_val E l vs v\<close>: \<open>v\<close> is a value the database may hold for a key after the operands \<open>vs\<close> were
  merged into it, oldest first. A merger starts with some value, takes further values from either
  side, and writes its own encoding back, which may be merged again later. Any grouping of the operands
  by flushes and compactions is such a derivation. A byte slice has fewer than \<open>2 ^ 63\<close> bytes.
\<close>

inductive lsm_val :: "('sk, 'd) env \<Rightarrow> Limits \<Rightarrow> bytes list \<Rightarrow> bytes \<Rightarrow> bool"
  and lsm_merger :: "('sk, 'd) env \<Rightarrow> Limits \<Rightarrow> bytes list \<Rightarrow> 'sk combinedMetricsMerger \<Rightarrow> bool"
  for E :: "('sk, 'd) env" and l :: Limits where
  operand: "length v < 2 ^ 63 \<Longrightarrow> lsm_val E l [v] v"
| first: "lsm_val E l vs v \<Longrightarrow> Merge E l v = Some (Inr m) \<Longrightarrow> lsm_merger E l vs m"
| newer: "lsm_merger E l vs m \<Longrightarrow> lsm_val E l ws w \<Longrightarrow> MergeNewer E m w = Some (Inr m') \<Longrightarrow>
    lsm_merger E l (vs @ ws) m'"
| older: "lsm_merger E l vs m \<Longrightarrow> lsm_val E l ws w \<Longrightarrow> MergeOlder E m w = Some (Inr m') \<Longrightarrow>
    lsm_merger E l (ws @ vs) m'"
| finish: "lsm_merger E l vs m \<Longrightarrow> Finish E m = Some v \<Longrightarrow> length v < 2 ^ 63 \<Longrightarrow> lsm_val E l vs v"

section \<open>What the database holds\<close>

text \<open>The messages that the aggregator writes: well-formed, anchored, with representable fields.\<close>

definition msg_ok :: "CombinedMetrics \<Rightarrow> bool" where
  "msg_ok x \<longleftrightarrow> cm_msg_ok x \<and> cm_msg_anchored x \<and> CombinedMetrics_rep x"

definition youngest :: "CombinedMetrics list \<Rightarrow> uint64" where
  "youngest xs = fold max (map pbcm_YoungestEventTimestamp xs) 0"

definition stored :: "'sk hll_ops \<Rightarrow> CombinedMetrics list \<Rightarrow> bytes \<Rightarrow> CombinedMetrics \<Rightarrow> bool" where
  "stored H xs v x \<longleftrightarrow> CombinedMetrics_UnmarshalVT v zero_CombinedMetrics = Inr x \<and> msg_ok x
     \<and> (\<forall>b. cm_msg_weight H (txn_metric b) x = sum_list (map (cm_msg_weight H (txn_metric b)) xs))
     \<and> (\<forall>b. cm_msg_weight H (svctxn_metric b) x = sum_list (map (cm_msg_weight H (svctxn_metric b)) xs))
     \<and> pbcm_YoungestEventTimestamp x = youngest xs"

definition holds :: "('sk, 'd) env \<Rightarrow> Limits \<Rightarrow> CombinedMetrics list \<Rightarrow> 'sk combinedMetricsMerger \<Rightarrow> bool" where
  "holds E l xs m \<longleftrightarrow> merger_ok m \<and> mg_limits m = l \<and> cm_anchored (mg_metrics m) \<and> cm_rep (mg_metrics m)
     \<and> (\<forall>b. cm_weight (txn_metric b) (mg_metrics m) = sum_list (map (cm_msg_weight (hll E) (txn_metric b)) xs))
     \<and> (\<forall>b. cm_weight (svctxn_metric b) (mg_metrics m) = sum_list (map (cm_msg_weight (hll E) (svctxn_metric b)) xs))
     \<and> YoungestEventTimestamp (mg_metrics m) = youngest xs"

lemma MarshalVT_CombinedMetrics:
  "MarshalVT CombinedMetrics_SizeVT CombinedMetrics_MarshalToSizedBufferVT x
     = Some (CombinedMetrics_MarshalToSizedBufferVT x)"
  by (rule MarshalVT_exact [where sz = CombinedMetrics_SizeVT, OF CombinedMetrics_size])

lemma MergeOlder_eq: "MergeOlder E m v = MergeNewer E m v"
  by (simp add: MergeOlder_def MergeNewer_def)

lemma Merge_eq: "Merge E l v = MergeNewer E (new_merger l) v"
  by (simp add: Merge_def MergeNewer_def)

lemma max_0_64 [simp]: "max a 0 = a" "max 0 a = a" for a :: uint64
  by (auto simp: max_def)

lemma fold_max_init: "fold max ts a = max a (fold max ts 0)" for a :: uint64
proof (induction ts arbitrary: a)
  case (Cons t ts)
  from Cons.IH [of "max t a"] Cons.IH [of t] show ?case by (simp add: ac_simps)
qed simp

lemma youngest_simps [simp]:
  "youngest [] = 0" "youngest [x] = pbcm_YoungestEventTimestamp x"
  "youngest (xs @ ys) = max (youngest xs) (youngest ys)"
  using fold_max_init [of "map pbcm_YoungestEventTimestamp ys" "youngest xs"] by (simp_all add: youngest_def)

lemma holds_new: "holds E l [] (new_merger l)"
  by (simp add: holds_def cm_weight_def merger_ok_new)
    (simp add: new_merger_def zero_combinedMetrics_def txn_bucket.zero_weight svctxn_bucket.zero_weight)

lemma MergeNewer_holds:
  assumes m: "holds E l xs m" and v: "stored (hll E) ys v x"
  obtains m' where "MergeNewer E m v = Some (Inr m')" and "holds E l (xs @ ys) m'" and "holds E l (ys @ xs) m'"
proof -
  have x: "CombinedMetrics_UnmarshalVT v zero_CombinedMetrics = Inr x" "cm_msg_ok x" "cm_msg_anchored x"
    "CombinedMetrics_rep x"
    using v by (simp_all add: stored_def msg_ok_def)
  have mm: "merger_ok m" "cm_anchored (mg_metrics m)" "cm_rep (mg_metrics m)" "mg_limits m = l"
    using m by (simp_all add: holds_def)
  obtain m' where m': "merge E m x = Some m'" "merger_ok m'" "mg_limits m' = mg_limits m"
    "YoungestEventTimestamp (mg_metrics m')
       = max (YoungestEventTimestamp (mg_metrics m)) (pbcm_YoungestEventTimestamp x)"
    using merge_ok [OF mm(1) x(2), of E] by blast
  have cm: "cm_ok (mg_limits m) (mg_metrics m)" using mm(1) by (simp add: merger_ok_def)
  note w = txn_bucket.merge_conserves [OF m'(1) cm_ok_exact [OF plain_metrics(1) cm] cm_msg_ok_exact [OF plain_metrics(1) x(2)]]
    svctxn_bucket.merge_conserves [OF m'(1) cm_ok_exact [OF plain_metrics(2) cm] cm_msg_ok_exact [OF plain_metrics(2) x(2)]]
  have "holds E l (xs @ ys) m'" "holds E l (ys @ xs) m'"
    using m v w m'(2-4) merge_anchors [OF m'(1) mm(2) x(3)] merge_rep [OF mm(1) x(2) mm(3) x(4) m'(1)]
    by (simp_all add: holds_def stored_def add.commute max.commute)
  moreover have "MergeNewer E m v = Some (Inr m')" by (simp add: MergeNewer_def x(1) m'(1))
  ultimately show ?thesis by (intro that)
qed

lemma Finish_stored:
  assumes m: "holds E l xs m" and H: "hll_roundtrip (hll E)" and v: "Finish E m = Some v" "length v < 2 ^ 63"
  shows "stored (hll E) xs v (combinedMetrics_ToProto (hll E) (mg_metrics m))"
proof -
  let ?x = "combinedMetrics_ToProto (hll E) (mg_metrics m)"
  have mm: "cm_ok l (mg_metrics m)" "cm_anchored (mg_metrics m)" "cm_rep (mg_metrics m)"
    using m by (auto simp: holds_def merger_ok_def)
  have e: "v = CombinedMetrics_MarshalToSizedBufferVT ?x"
    using v(1) by (simp add: Finish_def MarshalVT_CombinedMetrics)
  have "CombinedMetrics_UnmarshalVT v zero_CombinedMetrics = Inr ?x"
    unfolding e by (rule CombinedMetrics_rt [OF cm_ToProto_rep [OF mm(3)]])
      (use v(2) in \<open>simp add: e CombinedMetrics_size\<close>)
  then show ?thesis
    using m cm_ToProto_ok [OF H mm(1)] cm_ToProto_anchored [OF H mm(2)] cm_ToProto_rep [OF mm(3), of "hll E"]
    by (simp add: stored_def msg_ok_def cm_ToProto_fields cm_ToProto_weight [OF H mm(1,2)]
        txn_bucket.zero_weight svctxn_bucket.zero_weight holds_def)
qed

abbreviation enc :: "CombinedMetrics \<Rightarrow> bytes" where
  "enc \<equiv> CombinedMetrics_MarshalToSizedBufferVT"

lemma operand_stored:
  assumes "msg_ok x" and "length (enc x) < 2 ^ 63"
  shows "stored H [x] (enc x) x"
  using assms CombinedMetrics_rt [of x]
  by (auto simp: stored_def msg_ok_def CombinedMetrics_size)

text \<open>The invariant of every derivation whose operands are encodings of well-formed messages.\<close>

lemma lsm_invariant:
  assumes "hll_roundtrip (hll E)"
  shows "lsm_val E l vs v \<Longrightarrow> vs = map enc xs \<Longrightarrow> list_all msg_ok xs \<Longrightarrow> \<exists>x. stored (hll E) xs v x"
    and "lsm_merger E l vs m \<Longrightarrow> vs = map enc xs \<Longrightarrow> list_all msg_ok xs \<Longrightarrow> holds E l xs m"
proof (induction arbitrary: xs and xs rule: lsm_val_lsm_merger.inducts)
  case (operand v)
  then obtain x where "xs = [x]" "v = enc x" "msg_ok x" by (auto simp: map_eq_Cons_conv eq_commute [of "[v]"])
  then show ?case using operand_stored [of x "hll E"] operand(1) by auto
next
  case (first vs v m)
  then obtain x where x: "stored (hll E) xs v x" by auto
  obtain m1 where "Merge E l v = Some (Inr m1)" "holds E l ([] @ xs) m1"
    by (rule MergeNewer_holds [OF holds_new x]) (simp add: Merge_eq)
  with first(3) show ?case by simp
next
  case (newer vs m ws w m')
  then obtain ys zs where xs: "xs = ys @ zs" "vs = map enc ys" "ws = map enc zs"
    by (auto simp: append_eq_map_conv)
  with newer obtain x where "stored (hll E) zs w x" "holds E l ys m" by fastforce
  from this(2,1) obtain m1 where "MergeNewer E m w = Some (Inr m1)" "holds E l (ys @ zs) m1"
    by (rule MergeNewer_holds)
  with newer(5) show ?case by (simp add: xs)
next
  case (older vs m ws w m')
  then obtain ys zs where xs: "xs = zs @ ys" "vs = map enc ys" "ws = map enc zs"
    by (auto simp: append_eq_map_conv)
  with older obtain x where "stored (hll E) zs w x" "holds E l ys m" by fastforce
  from this(2,1) obtain m1 where "MergeNewer E m w = Some (Inr m1)" "holds E l (zs @ ys) m1"
    by (rule MergeNewer_holds)
  with older(5) show ?case by (simp add: xs MergeOlder_eq)
next
  case (finish vs m v)
  then show ?case using Finish_stored [OF _ assms] by blast
qed

text \<open>No merge that the database can ask for fails or panics.\<close>

lemma lsm_progress:
  assumes "hll_roundtrip (hll E)" and "lsm_val E l (map enc ys) w" and "list_all msg_ok ys"
  shows "\<exists>m. Merge E l w = Some (Inr m)"
    and "lsm_merger E l (map enc xs) m \<Longrightarrow> list_all msg_ok xs \<Longrightarrow>
      \<exists>m'. MergeNewer E m w = Some (Inr m') \<and> MergeOlder E m w = Some (Inr m')"
proof -
  obtain x where x: "stored (hll E) ys w x" using lsm_invariant(1) [OF assms(1,2) refl assms(3)] by blast
  show "\<exists>m. Merge E l w = Some (Inr m)"
    by (rule MergeNewer_holds [OF holds_new x]) (auto simp: Merge_eq)
  assume "lsm_merger E l (map enc xs) m" "list_all msg_ok xs"
  then have "holds E l xs m" using lsm_invariant(2) [OF assms(1)] by blast
  then show "\<exists>m'. MergeNewer E m w = Some (Inr m') \<and> MergeOlder E m w = Some (Inr m')"
    by (rule MergeNewer_holds [OF _ x]) (auto simp: MergeOlder_eq)
qed

end
