(* ===== verification/Aggregator.thy ===== *)
theory Aggregator
  imports EventConv KeyCodec Config CachedEvents Store
begin

text \<open>
  The aggregator, \<^verbatim>\<open>aggregators/aggregator.go\<close>: it converts events to messages, merges them into a
  pebble batch, commits batches, and harvests what is due. Pebble and the processor belong to other
  programs: pebble is a record of the functions that the aggregator calls, the processor a function
  from its arguments to an error. The lock makes \<^verbatim>\<open>AggregateBatch\<close> and
  \<^verbatim>\<open>AggregateCombinedMetrics\<close> atomic. A panic is \<^term>\<open>None\<close>.
\<close>

section \<open>Pebble\<close>

text \<open>
  A batch collects merge operands, a commit applies them to the database. \<^verbatim>\<open>MergeDeferred\<close> starts a
  record in the batch with room for a key and a value, \<open>pb_Finish\<close> is \<^verbatim>\<open>Finish\<close> on that record once its
  buffers are filled. \<^verbatim>\<open>NewSnapshot\<close> gives the
  database as it is at that moment. The iterator visits the entries within the bounds; its second
  component is whether \<^verbatim>\<open>iter.Error()\<close> is nil after the last entry, which the aggregator does not
  ask for.
\<close>

record ('db, 'b, 'e) pebble =
  pb_Open :: "string \<Rightarrow> bool \<Rightarrow> 'e + 'db"
  pb_NewBatch :: "'db \<Rightarrow> 'b"
  pb_MergeDeferred :: "'b \<Rightarrow> nat \<Rightarrow> nat \<Rightarrow> 'b"
  pb_Finish :: "'b \<Rightarrow> bytes \<Rightarrow> bytes \<Rightarrow> 'e + 'b"
  pb_Len :: "'b \<Rightarrow> nat"
  pb_Commit :: "'db \<Rightarrow> 'b \<Rightarrow> 'e option \<times> 'db"
  pb_CloseBatch :: "'b \<Rightarrow> 'e option"
  pb_Iter :: "'db \<Rightarrow> bytes \<Rightarrow> bytes \<Rightarrow> (bytes \<times> bytes) list \<times> bool"
  pb_DeleteRange :: "'db \<Rightarrow> bytes \<Rightarrow> bytes \<Rightarrow> 'e option \<times> 'db"
  pb_Close :: "'db \<Rightarrow> 'e option"

section \<open>State\<close>

datatype ('e, 'pe) agg_error =
    ErrAggregatorClosed
  | ContextDone
  | AlreadyRunning
  | InvalidConfig config_error
  | KeyMarshal key_error
  | KeyUnmarshal key_error
  | MetricsUnmarshal wire_error
  | ProcessorFailed 'pe
  | Storage 'e
  | Instrumentation 'e

text \<open>What is recorded in the telemetry counters, by ID; the delays, which read the clock, are left out.\<close>

datatype metric_event =
    RequestsTotal bytes
  | BytesIngested bytes nat
  | RequestsFailed bytes
  | MetricEventsTotal duration bytes float64
  | MetricEventsProcessed duration bytes float64

text \<open>
  The channel \<^verbatim>\<open>runStopped\<close> is nil, open or closed. \<open>ag_processed\<close> lists the calls of the
  processor, the effect of the aggregator on the program around it.
\<close>

datatype channel = NilChan | OpenChan | ClosedChan

record ('db, 'b) Aggregator =
  ag_db :: "'db option"
  ag_processingTime :: gotime
  ag_batch :: "'b option"
  ag_cachedEvents :: cachedEventsMap
  ag_closed :: bool
  ag_runStopped :: channel
  ag_metrics :: "metric_event list"
  ag_processed :: "(CombinedMetricsKey \<times> CombinedMetrics \<times> duration) list"

type_synonym 'pe processor = "CombinedMetricsKey \<Rightarrow> CombinedMetrics \<Rightarrow> duration \<Rightarrow> 'pe option"
type_synonym ('pe, 'kv, 'h) agg_config = "('pe processor, 'kv, 'h) Config"

definition dbCommitThresholdBytes :: nat where
  "dbCommitThresholdBytes = 10 * 1024 * 1024"

definition lowest_interval :: "('p, 'kv, 'h) Config \<Rightarrow> duration" where
  "lowest_interval cfg = cfg_AggregationIntervals cfg ! 0"

text \<open>\<^verbatim>\<open>New\<close> reads the clock once; \<open>metrics_err\<close> is what \<^verbatim>\<open>telemetry.NewMetrics\<close> returns.\<close>

definition New ::
  "('db, 'b, 'e) pebble \<Rightarrow> ('pe processor, 'h) cfg_globals \<Rightarrow> gotime \<Rightarrow> 'e option
   \<Rightarrow> ('pe processor, 'kv, 'h) Option list
   \<Rightarrow> (('e, 'pe) agg_error + ('pe, 'kv, 'h) agg_config \<times> ('db, 'b) Aggregator) option" where
  "New P G now metrics_err opts =
     do { (cfg, r) \<leftarrow> NewConfig G opts;
          case r of
            Inl err \<Rightarrow> Some (Inl (InvalidConfig err))
          | Inr _ \<Rightarrow>
              (case pb_Open P (cfg_DataDir cfg) (cfg_InMemory cfg) of
                 Inl err \<Rightarrow> Some (Inl (Storage err))
               | Inr db \<Rightarrow>
                   (case metrics_err of
                      Some err \<Rightarrow> Some (Inl (Instrumentation err))
                    | None \<Rightarrow>
                        Some (Inr (cfg, \<lparr>ag_db = Some db, ag_processingTime = Truncate now (lowest_interval cfg),
                          ag_batch = None, ag_cachedEvents = [], ag_closed = False, ag_runStopped = NilChan,
                          ag_metrics = [], ag_processed = []\<rparr>)))) }"

section \<open>Aggregation\<close>

text \<open>
  \<^verbatim>\<open>aggregate\<close>. A batch exists only while the database is open, which is why the database can be
  read before the batch is looked at.
\<close>

definition commit_batch ::
  "('db, 'b, 'e) pebble \<Rightarrow> 'db \<Rightarrow> 'b \<Rightarrow> ('db, 'b) Aggregator \<Rightarrow> ('e, 'pe) agg_error option \<times> ('db, 'b) Aggregator" where
  "commit_batch P db b a =
     (let (err, db) = pb_Commit P db b; a = a\<lparr>ag_db := Some db\<rparr>
      in case err of
           Some err \<Rightarrow> (Some (Storage err), a)
         | None \<Rightarrow> (case pb_CloseBatch P b of
             Some err \<Rightarrow> (Some (Storage err), a)
           | None \<Rightarrow> (None, a\<lparr>ag_batch := None\<rparr>)))"

text \<open>Writing a message into the value buffer of the deferred operation, from the back.\<close>

definition MarshalToValue :: "CombinedMetrics \<Rightarrow> bytes option" where
  "MarshalToValue cm =
     (let d = CombinedMetrics_MarshalToSizedBufferVT cm; size = CombinedMetrics_SizeVT cm
      in if length d > size then None else Some (replicate (size - length d) 0 @ d))"

definition aggregate ::
  "('db, 'b, 'e) pebble \<Rightarrow> CombinedMetricsKey \<Rightarrow> CombinedMetrics \<Rightarrow> ('db, 'b) Aggregator
   \<Rightarrow> (nat \<times> ('e, 'pe) agg_error option \<times> ('db, 'b) Aggregator) option" where
  "aggregate P cmk cm a =
     do { db \<leftarrow> ag_db a;
          let b = (case ag_batch a of None \<Rightarrow> pb_NewBatch P db | Some b \<Rightarrow> b);
          let b = pb_MergeDeferred P b (SizeBinary cmk) (CombinedMetrics_SizeVT cm);
          let a = a\<lparr>ag_batch := Some b\<rparr>;
          case MarshalBinaryToSizedBuffer cmk (replicate (SizeBinary cmk) 0) of
            Inl err \<Rightarrow> Some (0, Some (KeyMarshal err), a)
          | Inr k \<Rightarrow>
              do { v \<leftarrow> MarshalToValue cm;
                   case pb_Finish P b k v of
                     Inl err \<Rightarrow> Some (0, Some (Storage err), a)
                   | Inr b \<Rightarrow>
                       (let a = a\<lparr>ag_batch := Some b\<rparr>; bytesIn = CombinedMetrics_SizeVT cm
                        in if pb_Len P b \<ge> dbCommitThresholdBytes
                           then (let (err, a) = commit_batch P db b a in Some (bytesIn, err, a))
                           else Some (bytesIn, None, a)) } }"

definition aggregateAPMEvent ::
  "('db, 'b, 'e) pebble \<Rightarrow> ('pe, 'kv, 'h) agg_config \<Rightarrow> 'd xxhash_ops \<Rightarrow> (APMEvent \<Rightarrow> APMEventType)
   \<Rightarrow> (nat \<Rightarrow> eventMetricsBuilder option) \<Rightarrow> CombinedMetricsKey \<Rightarrow> APMEvent \<Rightarrow> ('db, 'b) Aggregator
   \<Rightarrow> (nat \<times> ('e, 'pe) agg_error list \<times> ('db, 'b) Aggregator) option" where
  "aggregateAPMEvent P cfg X etype pool cmk e a =
     do { ((totalBytesIn, a), errs) \<leftarrow>
            EventToCombinedMetrics X etype pool e cmk (cfg_Partitions cfg)
              (\<lambda>k m (totalBytesIn, a).
                 do { (bytesIn, err, a) \<leftarrow> aggregate P k m a; Some ((totalBytesIn + bytesIn, a), err) })
              (0, a);
          Some (if errs = [] then totalBytesIn else 0, errs, a) }"

text \<open>The \<open>select\<close> at the head of both calls; when both channels are ready Go picks one at random.\<close>

definition guard :: "bool \<Rightarrow> bool \<Rightarrow> ('db, 'b) Aggregator \<Rightarrow> ('e, 'pe) agg_error option" where
  "guard ctx_done pick a =
     (if ctx_done \<and> (\<not> ag_closed a \<or> pick) then Some ContextDone
      else if ag_closed a then Some ErrAggregatorClosed else None)"

text \<open>The loops over the events of a batch and over the intervals; \<open>pool ivl i\<close> is the pool that event \<open>i\<close> finds.\<close>

fun aggregate_events ::
  "('db, 'b, 'e) pebble \<Rightarrow> ('pe, 'kv, 'h) agg_config \<Rightarrow> 'd xxhash_ops \<Rightarrow> (APMEvent \<Rightarrow> APMEventType)
   \<Rightarrow> (nat \<Rightarrow> nat \<Rightarrow> eventMetricsBuilder option) \<Rightarrow> CombinedMetricsKey \<Rightarrow> nat \<Rightarrow> APMEvent list \<Rightarrow> ('db, 'b) Aggregator
   \<Rightarrow> (nat \<times> ('e, 'pe) agg_error list \<times> ('db, 'b) Aggregator) option" where
  "aggregate_events P cfg X etype pool cmk i [] a = Some (0, [], a)"
| "aggregate_events P cfg X etype pool cmk i (e # es) a =
     do { (bytesIn, errs, a) \<leftarrow> aggregateAPMEvent P cfg X etype (pool i) cmk e a;
          (bytesIn', errs', a) \<leftarrow> aggregate_events P cfg X etype pool cmk (Suc i) es a;
          Some (bytesIn + bytesIn', errs @ errs', a) }"

fun aggregate_intervals ::
  "('db, 'b, 'e) pebble \<Rightarrow> ('pe, 'kv, 'h) agg_config \<Rightarrow> 'd xxhash_ops \<Rightarrow> (APMEvent \<Rightarrow> APMEventType)
   \<Rightarrow> (duration \<Rightarrow> nat \<Rightarrow> nat \<Rightarrow> eventMetricsBuilder option) \<Rightarrow> bytes \<Rightarrow> APMEvent list \<Rightarrow> duration list \<Rightarrow> ('db, 'b) Aggregator
   \<Rightarrow> (nat \<times> ('e, 'pe) agg_error list \<times> ('db, 'b) Aggregator) option" where
  "aggregate_intervals P cfg X etype pool i b [] a = Some (0, [], a)"
| "aggregate_intervals P cfg X etype pool i b (ivl # ivls) a =
     do { let cmk = \<lparr>cmk_Interval = ivl, cmk_ProcessingTime = Truncate (ag_processingTime a) ivl,
                     cmk_PartitionID = 0, cmk_ID = i\<rparr>;
          (bytesIn, errs, a) \<leftarrow> aggregate_events P cfg X etype (pool ivl) cmk 0 b a;
          let a = a\<lparr>ag_cachedEvents := ce_add (ag_cachedEvents a) ivl i (f64_of_int (int (length b)))\<rparr>;
          (bytesIn', errs', a) \<leftarrow> aggregate_intervals P cfg X etype pool i b ivls a;
          Some (bytesIn + bytesIn', errs @ errs', a) }"

definition AggregateBatch ::
  "('db, 'b, 'e) pebble \<Rightarrow> ('pe, 'kv, 'h) agg_config \<Rightarrow> 'd xxhash_ops \<Rightarrow> (APMEvent \<Rightarrow> APMEventType)
   \<Rightarrow> (duration \<Rightarrow> nat \<Rightarrow> nat \<Rightarrow> eventMetricsBuilder option) \<Rightarrow> bool \<Rightarrow> bool \<Rightarrow> bytes \<Rightarrow> APMEvent list
   \<Rightarrow> ('db, 'b) Aggregator \<Rightarrow> (('e, 'pe) agg_error list \<times> ('db, 'b) Aggregator) option" where
  "AggregateBatch P cfg X etype pool ctx_done pick i b a =
     (case guard ctx_done pick a of
        Some err \<Rightarrow> Some ([err], a)
      | None \<Rightarrow>
          do { (totalBytesIn, errs, a) \<leftarrow> aggregate_intervals P cfg X etype pool i b (cfg_AggregationIntervals cfg) a;
               Some (errs, a\<lparr>ag_metrics := ag_metrics a @ [RequestsTotal i, BytesIngested i totalBytesIn]
                                @ (if errs = [] then [] else [RequestsFailed i])\<rparr>) })"

definition AggregateCombinedMetrics ::
  "('db, 'b, 'e) pebble \<Rightarrow> bool \<Rightarrow> bool \<Rightarrow> CombinedMetricsKey \<Rightarrow> CombinedMetrics
   \<Rightarrow> ('db, 'b) Aggregator \<Rightarrow> (('e, 'pe) agg_error option \<times> ('db, 'b) Aggregator) option" where
  "AggregateCombinedMetrics P ctx_done pick cmk cm a =
     (case guard ctx_done pick a of
        Some err \<Rightarrow> Some (Some err, a)
      | None \<Rightarrow>
          do { (bytesIn, err, a) \<leftarrow> aggregate P cmk cm a;
               let a = a\<lparr>ag_cachedEvents := ce_add (ag_cachedEvents a) (cmk_Interval cmk) (cmk_ID cmk) (pbcm_EventsTotal cm)\<rparr>;
               Some (err, a\<lparr>ag_metrics := ag_metrics a @ [RequestsTotal (cmk_ID cmk), BytesIngested (cmk_ID cmk) bytesIn]
                               @ (if err = None then [] else [RequestsFailed (cmk_ID cmk)])\<rparr>) })"

section \<open>Harvest\<close>

text \<open>\<^verbatim>\<open>processHarvest\<close>: the message is decoded and handed to the processor.\<close>

record harvestStats =
  hs_eventsTotal :: float64
  hs_youngestEventTimestamp :: gotime

definition processHarvest ::
  "'pe processor \<Rightarrow> CombinedMetricsKey \<Rightarrow> bytes \<Rightarrow> duration \<Rightarrow> ('db, 'b) Aggregator
   \<Rightarrow> (('e, 'pe) agg_error + harvestStats) \<times> ('db, 'b) Aggregator" where
  "processHarvest processor cmk cmb aggIvl a =
     (case CombinedMetrics_UnmarshalVT cmb zero_CombinedMetrics of
        Inl err \<Rightarrow> (Inl (MetricsUnmarshal err), a)
      | Inr cm \<Rightarrow>
          (let eventsTotal = pbcm_EventsTotal cm;
               youngestEventTS = PBTimestampToTime (pbcm_YoungestEventTimestamp cm);
               a = a\<lparr>ag_processed := ag_processed a @ [(cmk, cm, aggIvl)]\<rparr>
           in case processor cmk cm aggIvl of
                Some err \<Rightarrow> (Inl (ProcessorFailed err), a)
              | None \<Rightarrow> (Inr \<lparr>hs_eventsTotal = eventsTotal, hs_youngestEventTimestamp = youngestEventTS\<rparr>, a)))"

text \<open>The loop over the iterator: the number of messages processed and the errors.\<close>

fun harvest_entries ::
  "'pe processor \<Rightarrow> duration \<Rightarrow> (bytes \<times> bytes) list \<Rightarrow> ('db, 'b) Aggregator
   \<Rightarrow> (nat \<times> ('e, 'pe) agg_error list \<times> ('db, 'b) Aggregator) option" where
  "harvest_entries processor ivl [] a = Some (0, [], a)"
| "harvest_entries processor ivl ((k, v) # kvs) a =
     do { r \<leftarrow> UnmarshalBinary k;
          case r of
            Inl err \<Rightarrow>
              do { (cmCount, errs, a) \<leftarrow> harvest_entries processor ivl kvs a;
                   Some (cmCount, KeyUnmarshal err # errs, a) }
          | Inr cmk \<Rightarrow>
              (case processHarvest processor cmk v ivl a of
                 (Inl err, a) \<Rightarrow>
                   do { (cmCount, errs, a) \<leftarrow> harvest_entries processor ivl kvs a;
                        Some (cmCount, err # errs, a) }
               | (Inr hs, a) \<Rightarrow>
                   do { (cmCount, errs, a) \<leftarrow> harvest_entries processor ivl kvs
                          (a\<lparr>ag_metrics := ag_metrics a @ [MetricEventsProcessed ivl (cmk_ID cmk) (hs_eventsTotal hs)]\<rparr>);
                        Some (Suc cmCount, errs, a) }) }"

text \<open>The errors of the two calls that encode the bounds are dropped; the buffers would stay zero.\<close>

definition encode_bound :: "duration \<Rightarrow> gotime \<Rightarrow> bytes" where
  "encode_bound ivl t =
     (let buf = replicate CombinedMetricsKeyEncodedSize 0
      in case MarshalBinaryToSizedBuffer (bound_key ivl t) buf of Inl _ \<Rightarrow> buf | Inr data \<Rightarrow> data)"

definition harvestForInterval ::
  "('db, 'b, 'e) pebble \<Rightarrow> 'pe processor \<Rightarrow> 'db \<Rightarrow> gotime \<Rightarrow> gotime \<Rightarrow> duration \<Rightarrow> (bytes, float64) gomap
   \<Rightarrow> ('db, 'b) Aggregator \<Rightarrow> (nat \<times> ('e, 'pe) agg_error list \<times> ('db, 'b) Aggregator) option" where
  "harvestForInterval P processor snap start stop ivl cachedEventsStats a =
     do { let lb = encode_bound ivl start;
          let ub = encode_bound ivl stop;
          let a = a\<lparr>ag_metrics := ag_metrics a @ map (\<lambda>(i, n). MetricEventsTotal ivl i n) cachedEventsStats\<rparr>;
          (cmCount, errs, a) \<leftarrow> harvest_entries processor ivl (fst (pb_Iter P snap lb ub)) a;
          db \<leftarrow> ag_db a;
          let (err, db) = pb_DeleteRange P db lb ub;
          Some (cmCount, (case err of None \<Rightarrow> errs | Some err \<Rightarrow> Storage err # errs), a\<lparr>ag_db := Some db\<rparr>) }"

text \<open>One round of the loop in \<^verbatim>\<open>harvest\<close>.\<close>

definition harvest_step ::
  "('db, 'b, 'e) pebble \<Rightarrow> 'pe processor \<Rightarrow> 'db \<Rightarrow> gotime \<Rightarrow> (duration, (bytes, float64) gomap) gomap \<Rightarrow> duration
   \<Rightarrow> ('db, 'b) Aggregator \<Rightarrow> (('e, 'pe) agg_error list \<times> ('db, 'b) Aggregator) option" where
  "harvest_step P processor snap stop stats ivl a =
     (if Truncate stop ivl = stop
      then do { (cmCount, errs, a) \<leftarrow> harvestForInterval P processor snap (stop - ivl) stop ivl
                  (case gm_get stats ivl of None \<Rightarrow> [] | Some m \<Rightarrow> m) a;
                Some (errs, a) }
      else Some ([], a))"

fun harvest_loop ::
  "('db, 'b, 'e) pebble \<Rightarrow> 'pe processor \<Rightarrow> 'db \<Rightarrow> gotime \<Rightarrow> (duration, (bytes, float64) gomap) gomap \<Rightarrow> duration list
   \<Rightarrow> ('db, 'b) Aggregator \<Rightarrow> (('e, 'pe) agg_error list \<times> ('db, 'b) Aggregator) option" where
  "harvest_loop P processor snap stop stats [] a = Some ([], a)"
| "harvest_loop P processor snap stop stats (ivl # ivls) a =
     do { (errs, a) \<leftarrow> harvest_step P processor snap stop stats ivl a;
          (errs', a) \<leftarrow> harvest_loop P processor snap stop stats ivls a;
          Some (errs @ errs', a) }"

definition harvest ::
  "('db, 'b, 'e) pebble \<Rightarrow> ('pe, 'kv, 'h) agg_config \<Rightarrow> gotime \<Rightarrow> (duration, (bytes, float64) gomap) gomap
   \<Rightarrow> ('db, 'b) Aggregator \<Rightarrow> (('e, 'pe) agg_error list \<times> ('db, 'b) Aggregator) option" where
  "harvest P cfg stop stats a =
     do { processor \<leftarrow> cfg_Processor cfg;
          snap \<leftarrow> ag_db a;
          harvest_loop P processor snap stop stats (cfg_AggregationIntervals cfg) a }"

text \<open>\<^verbatim>\<open>commitAndHarvest\<close> goes on to the harvest when the commit fails.\<close>

definition commit_taken ::
  "('db, 'b, 'e) pebble \<Rightarrow> 'b option \<Rightarrow> ('db, 'b) Aggregator \<Rightarrow> (('e, 'pe) agg_error list \<times> ('db, 'b) Aggregator) option" where
  "commit_taken P batch a =
     (case batch of
        None \<Rightarrow> Some ([], a)
      | Some b \<Rightarrow>
          do { db \<leftarrow> ag_db a;
               let (err, db) = pb_Commit P db b;
               let errs = (case err of None \<Rightarrow> [] | Some err \<Rightarrow> [Storage err])
                        @ (case pb_CloseBatch P b of None \<Rightarrow> [] | Some err \<Rightarrow> [Storage err]);
               Some (errs, a\<lparr>ag_db := Some db\<rparr>) })"

definition commitAndHarvest ::
  "('db, 'b, 'e) pebble \<Rightarrow> ('pe, 'kv, 'h) agg_config \<Rightarrow> 'b option \<Rightarrow> gotime \<Rightarrow> (duration, (bytes, float64) gomap) gomap
   \<Rightarrow> ('db, 'b) Aggregator \<Rightarrow> (('e, 'pe) agg_error list \<times> ('db, 'b) Aggregator) option" where
  "commitAndHarvest P cfg batch stop stats a =
     do { (errs, a) \<leftarrow> commit_taken P batch a;
          (errs', a) \<leftarrow> harvest P cfg stop stats a;
          Some (errs @ errs', a) }"

section \<open>Run and Close\<close>

text \<open>
  \<^verbatim>\<open>Run\<close>: it registers itself, then with every tick of the timer it takes the batch and the cached
  events and advances the processing time under the lock, and harvests outside it.
\<close>

definition run_start :: "('db, 'b) Aggregator \<Rightarrow> ('e, 'pe) agg_error + ('db, 'b) Aggregator" where
  "run_start a = (if ag_runStopped a \<noteq> NilChan then Inl AlreadyRunning else Inr (a\<lparr>ag_runStopped := OpenChan\<rparr>))"

definition run_to :: "('pe, 'kv, 'h) agg_config \<Rightarrow> ('db, 'b) Aggregator \<Rightarrow> gotime" where
  "run_to cfg a = ag_processingTime a + lowest_interval cfg"

definition run_take ::
  "gotime \<Rightarrow> ('db, 'b) Aggregator \<Rightarrow> 'b option \<times> (duration, (bytes, float64) gomap) gomap \<times> ('db, 'b) Aggregator" where
  "run_take to a =
     (let (cachedEvents, stats) = ce_loadAndDelete (ag_cachedEvents a) to
      in (ag_batch a, stats, a\<lparr>ag_batch := None, ag_processingTime := to, ag_cachedEvents := cachedEvents\<rparr>))"

definition run_tick ::
  "('db, 'b, 'e) pebble \<Rightarrow> ('pe, 'kv, 'h) agg_config \<Rightarrow> gotime \<Rightarrow> ('db, 'b) Aggregator
   \<Rightarrow> (('e, 'pe) agg_error list \<times> ('db, 'b) Aggregator) option" where
  "run_tick P cfg to a = (let (batch, stats, a) = run_take to a in commitAndHarvest P cfg batch to stats a)"

text \<open>
  \<^verbatim>\<open>Close\<close> waits for \<^verbatim>\<open>Run\<close> to stop. While it has not stopped and the context is not done the
  call does not return; that is \<^term>\<open>None\<close> too. \<open>cleanup\<close> is what \<^verbatim>\<open>metrics.CleanUp\<close> returns.
\<close>

fun final_harvests ::
  "('db, 'b, 'e) pebble \<Rightarrow> ('pe, 'kv, 'h) agg_config \<Rightarrow> duration list \<Rightarrow> ('db, 'b) Aggregator
   \<Rightarrow> (('e, 'pe) agg_error list \<times> ('db, 'b) Aggregator) option" where
  "final_harvests P cfg [] a = Some ([], a)"
| "final_harvests P cfg (ivl # ivls) a =
     do { let to = Truncate (ag_processingTime a) ivl + ivl;
          let (cachedEvents, stats) = ce_loadAndDelete (ag_cachedEvents a) to;
          (errs, a) \<leftarrow> harvest P cfg to stats (a\<lparr>ag_cachedEvents := cachedEvents\<rparr>);
          (errs', a) \<leftarrow> final_harvests P cfg ivls a;
          Some (errs @ errs', a) }"

definition final_aggregation ::
  "('db, 'b, 'e) pebble \<Rightarrow> ('pe, 'kv, 'h) agg_config \<Rightarrow> 'db \<Rightarrow> ('db, 'b) Aggregator
   \<Rightarrow> (('e, 'pe) agg_error list \<times> ('db, 'b) Aggregator) option" where
  "final_aggregation P cfg db a =
     (let (err, a) = (case ag_batch a of None \<Rightarrow> (None, a) | Some b \<Rightarrow> commit_batch P db b a)
      in case err of
           Some err \<Rightarrow> Some ([err], a)
         | None \<Rightarrow>
             do { (errs, a) \<leftarrow> final_harvests P cfg (cfg_AggregationIntervals cfg) a;
                  if errs \<noteq> [] then Some (errs, a)
                  else do { db \<leftarrow> ag_db a;
                            case pb_Close P db of
                              Some err \<Rightarrow> Some ([Storage err], a)
                            | None \<Rightarrow> Some ([], a\<lparr>ag_db := None\<rparr>) } })"

definition Close ::
  "('db, 'b, 'e) pebble \<Rightarrow> ('pe, 'kv, 'h) agg_config \<Rightarrow> bool \<Rightarrow> bool \<Rightarrow> 'e option \<Rightarrow> ('db, 'b) Aggregator
   \<Rightarrow> (('e, 'pe) agg_error list \<times> ('db, 'b) Aggregator) option" where
  "Close P cfg ctx_done pick cleanup a =
     (let a = a\<lparr>ag_closed := True\<rparr>
      in if ag_runStopped a \<noteq> NilChan \<and> ctx_done \<and> (ag_runStopped a = OpenChan \<or> pick)
         then Some ([ContextDone], a)
         else if ag_runStopped a = OpenChan then None
         else do { (errs, a) \<leftarrow> (case ag_db a of None \<Rightarrow> Some ([], a) | Some db \<Rightarrow> final_aggregation P cfg db a);
                   Some (if errs \<noteq> [] then errs
                         else (case cleanup of None \<Rightarrow> [] | Some err \<Rightarrow> [Instrumentation err]), a) })"

end
