(* ===== verification/EventSpec.thy ===== *)
theory EventSpec
  imports EventConv
begin

text \<open>
  What the builders compute, stated without builders: the groups of an event, each with the digest
  that selects its partition, placed one after the other into a list of parts. The lemmas relate the
  builders, whatever the pool left in them, to the parts.
\<close>

section \<open>Specification\<close>

datatype group =
    GTxn KeyedTransactionMetrics
  | GSvc KeyedServiceTransactionMetrics
  | GSpan KeyedSpanMetrics
  | GNone

record part_metrics =
  q_pid :: uint16
  q_txns :: "KeyedTransactionMetrics list"
  q_svctxns :: "KeyedServiceTransactionMetrics list"
  q_spans :: "KeyedSpanMetrics list"

text \<open>At most 128 spans are kept per part.\<close>

fun put_group :: "group \<Rightarrow> part_metrics \<Rightarrow> part_metrics" where
  "put_group (GTxn x) q = q\<lparr>q_txns := [x]\<rparr>"
| "put_group (GSvc x) q = q\<lparr>q_svctxns := [x]\<rparr>"
| "put_group (GSpan x) q = (if length (q_spans q) = 128 then q else q\<lparr>q_spans := q_spans q @ [x]\<rparr>)"
| "put_group GNone q = q"

fun place :: "uint16 \<Rightarrow> group \<Rightarrow> part_metrics list \<Rightarrow> part_metrics list" where
  "place i g [] = [put_group g \<lparr>q_pid = i, q_txns = [], q_svctxns = [], q_spans = []\<rparr>]"
| "place i g (q # qs) = (if q_pid q = i then put_group g q # qs else q # place i g qs)"

definition pid_of :: "'d xxhash_ops \<Rightarrow> uint16 \<Rightarrow> 'd \<Rightarrow> uint16" where
  "pid_of X partitions h = ucast (xx_Sum64 X h mod ucast partitions)"

definition event_histogram :: "float64 \<Rightarrow> APMEvent \<Rightarrow> HDRHistogram" where
  "event_histogram repCount e =
     record_histogram (AsDuration (getf ev_Duration None (ae_Event e))) repCount zero_HDRHistogram"

definition txn_group :: "APMEvent \<Rightarrow> float64 \<Rightarrow> KeyedTransactionMetrics" where
  "txn_group e c = \<lparr>ktm_Key = Some (setTransactionKey e),
     ktm_Metrics = Some \<lparr>tm_Histogram = Some (event_histogram c e)\<rparr>\<rparr>"

definition svctxn_group :: "APMEvent \<Rightarrow> float64 \<Rightarrow> KeyedServiceTransactionMetrics" where
  "svctxn_group e c = \<lparr>kstm_Key = Some (setServiceTransactionKey e),
     kstm_Metrics = Some \<lparr>stm_Histogram = Some (event_histogram c e),
       stm_FailureCount = (if getf ev_Outcome [] (ae_Event e) = ''failure'' then c else Fin 0),
       stm_SuccessCount = (if getf ev_Outcome [] (ae_Event e) = ''success'' then c else Fin 0)\<rparr>\<rparr>"

definition dropped_group :: "float64 \<Rightarrow> DroppedSpanStats \<Rightarrow> KeyedSpanMetrics" where
  "dropped_group c dss = \<lparr>kspm_Key = Some (setDroppedSpanStatsKey dss),
     kspm_Metrics = Some (setDroppedSpanStatsMetrics dss c)\<rparr>"

definition span_group :: "APMEvent \<Rightarrow> float64 \<Rightarrow> KeyedSpanMetrics" where
  "span_group e c = \<lparr>kspm_Key = Some (setSpanKey e), kspm_Metrics = Some (setSpanMetrics e c)\<rparr>"

text \<open>The groups of an event, with their digests; \<open>h\<close> is the digest of the service instance.\<close>

definition event_groups ::
  "'d xxhash_ops \<Rightarrow> (APMEvent \<Rightarrow> APMEventType) \<Rightarrow> APMEvent \<Rightarrow> 'd \<Rightarrow> ('d \<times> group) list" where
  "event_groups X etype e h =
     (case etype e of
        TransactionEventType \<Rightarrow>
          (let c = getf tx_RepresentativeCount (Fin 0) (ae_Transaction e)
           in if fle c (Fin 0) then []
              else (HashTransactionAggregationKey X h (setTransactionKey e), GTxn (txn_group e c))
                # (HashServiceTransactionAggregationKey X h (setServiceTransactionKey e), GSvc (svctxn_group e c))
                # map (\<lambda>dss. (HashSpanAggregationKey X h (setDroppedSpanStatsKey dss), GSpan (dropped_group c dss)))
                    (getf tx_DroppedSpansStats [] (ae_Transaction e)))
      | SpanEventType \<Rightarrow>
          (let c = getf sp_RepresentativeCount (Fin 0) (ae_Span e)
           in if fle c (Fin 0) \<or> getf svc_Target None (ae_Service e) = None
                   \<and> getf ds_Resource [] (getf sp_DestinationService None (ae_Span e)) = '''' then []
              else [(HashSpanAggregationKey X h (setSpanKey e), GSpan (span_group e c))])
      | OtherEventType \<Rightarrow> [(h, GNone)])"

definition event_parts ::
  "'d xxhash_ops \<Rightarrow> (APMEvent \<Rightarrow> APMEventType) \<Rightarrow> uint16 \<Rightarrow> APMEvent \<Rightarrow> 'd \<Rightarrow> part_metrics list" where
  "event_parts X etype n e h = fold (\<lambda>(d, g). place (pid_of X n d) g) (event_groups X etype e h) []"

section \<open>Builders represent parts\<close>

text \<open>
  \<open>H\<close> is the histogram of the event. The arrays of a builder have 128 elements; whatever they hold
  beyond the slices is of no consequence.
\<close>

definition builds :: "HDRHistogram \<Rightarrow> eventMetricsBuilder \<Rightarrow> part_metrics \<Rightarrow> bool" where
  "builds H mb q \<longleftrightarrow> mb_partition mb = q_pid q \<and> mb_transactions mb = q_txns q
     \<and> mb_serviceTransactions mb = q_svctxns q \<and> mb_spans mb = q_spans q
     \<and> length (mb_spanAggregationKey mb) = 128 \<and> length (mb_spanMetrics mb) = 128
     \<and> mb_keyedSpanMetricsSlice mb \<le> 128 \<and> mb_keyedTransactionMetricsSlice mb \<le> 1
     \<and> mb_keyedServiceTransactionMetricsSlice mb \<le> 1
     \<and> (mb_transactionMetrics_Histogram mb \<longrightarrow> mb_transactionHistogram mb = H)
     \<and> (mb_keyedTransactionMetricsSlice mb = 1 \<longrightarrow> mb_transactionHistogram mb = H)
     \<and> (mb_keyedServiceTransactionMetricsSlice mb = 1 \<longrightarrow> mb_transactionHistogram mb = H)"

lemma builds_iff:
  "builds H mb q \<longleftrightarrow> q = \<lparr>q_pid = mb_partition mb, q_txns = mb_transactions mb, q_svctxns = mb_serviceTransactions mb,
       q_spans = mb_spans mb\<rparr>
     \<and> length (mb_spanAggregationKey mb) = 128 \<and> length (mb_spanMetrics mb) = 128
     \<and> mb_keyedSpanMetricsSlice mb \<le> 128 \<and> mb_keyedTransactionMetricsSlice mb \<le> 1
     \<and> mb_keyedServiceTransactionMetricsSlice mb \<le> 1
     \<and> (mb_transactionMetrics_Histogram mb \<longrightarrow> mb_transactionHistogram mb = H)
     \<and> (mb_keyedTransactionMetricsSlice mb = 1 \<longrightarrow> mb_transactionHistogram mb = H)
     \<and> (mb_keyedServiceTransactionMetricsSlice mb = 1 \<longrightarrow> mb_transactionHistogram mb = H)"
  by (cases q) (auto simp: builds_def)

definition pool_ok :: "(nat \<Rightarrow> eventMetricsBuilder option) \<Rightarrow> bool" where
  "pool_ok pool \<longleftrightarrow> (\<forall>n mb. pool n = Some mb \<longrightarrow>
     length (mb_spanAggregationKey mb) = 128 \<and> length (mb_spanMetrics mb) = 128)"

lemma builds_fresh:
  assumes "pool_ok pool"
  shows "builds H (getEventMetricsBuilder (pool n) i) \<lparr>q_pid = i, q_txns = [], q_svctxns = [], q_spans = []\<rparr>"
  using assms
  by (auto simp: builds_def getEventMetricsBuilder_def pool_ok_def zero_eventMetricsBuilder_def mb_transactions_def
      mb_serviceTransactions_def mb_spans_def split: option.splits)

text \<open>Looking a builder up and storing it back is placing into the parts.\<close>

lemma builder_place:
  assumes "list_all2 (builds H) mbs qs"
    and "builds H fresh \<lparr>q_pid = i, q_txns = [], q_svctxns = [], q_spans = []\<rparr>"
  shows "\<exists>mb q. (case builder_index i mbs of
      Some j \<Rightarrow> j < length mbs \<and> mb = mbs ! j
        \<and> (\<forall>g mb'. builds H mb' (put_group g q) \<longrightarrow> list_all2 (builds H) (mbs[j := mb']) (place i g qs))
    | None \<Rightarrow> mb = fresh
        \<and> (\<forall>g mb'. builds H mb' (put_group g q) \<longrightarrow> list_all2 (builds H) (mbs @ [mb']) (place i g qs)))
    \<and> builds H mb q"
  using assms
proof (induction mbs qs rule: list_all2_induct)
  case Nil
  then show ?case by (intro exI [of _ fresh] exI [of _ "\<lparr>q_pid = i, q_txns = [], q_svctxns = [], q_spans = []\<rparr>"]) simp
next
  case (Cons mb mbs q qs)
  have pid: "mb_partition mb = q_pid q" using Cons.hyps(1) by (simp add: builds_def)
  show ?case
  proof (cases "mb_partition mb = i")
    case True
    with pid Cons.hyps show ?thesis by (intro exI [of _ mb] exI [of _ q]) simp
  next
    case False
    from Cons.IH [OF Cons.prems] obtain mb1 q1 where IH: "(case builder_index i mbs of
        Some j \<Rightarrow> j < length mbs \<and> mb1 = mbs ! j
          \<and> (\<forall>g mb'. builds H mb' (put_group g q1) \<longrightarrow> list_all2 (builds H) (mbs[j := mb']) (place i g qs))
      | None \<Rightarrow> mb1 = fresh
          \<and> (\<forall>g mb'. builds H mb' (put_group g q1) \<longrightarrow> list_all2 (builds H) (mbs @ [mb']) (place i g qs)))
      \<and> builds H mb1 q1" by blast
    then show ?thesis
      using False pid Cons.hyps(1) by (intro exI [of _ mb1] exI [of _ q1]) (auto split: option.splits)
  qed
qed

definition pm_same :: "'d partitionedMetricsBuilder \<Rightarrow> 'd partitionedMetricsBuilder \<Rightarrow> bool" where
  "pm_same p p' \<longleftrightarrow> p'\<lparr>pm_builders := []\<rparr> = p\<lparr>pm_builders := []\<rparr>"

lemma pm_sameD:
  assumes "pm_same p p'"
  shows "pm_partitions p' = pm_partitions p" "pm_serviceInstanceHash p' = pm_serviceInstanceHash p"
    "pm_serviceAggregationKey p' = pm_serviceAggregationKey p"
    "pm_serviceInstanceAggregationKey p' = pm_serviceInstanceAggregationKey p"
  using assms by (cases p; cases p'; simp add: pm_same_def)+

lemma pm_get_place:
  assumes "list_all2 (builds H) (pm_builders p) qs" and "pool_ok pool" and "pm_partitions p \<noteq> 0"
  obtains p1 j q where "pm_get X pool p h = Some (p1, j)" and "builds H (pm_builders p1 ! j) q"
    and "pm_same p p1"
    and "\<And>g mb'. builds H mb' (put_group g q) \<Longrightarrow> pm_same p (set_builder p1 j mb')
      \<and> list_all2 (builds H) (pm_builders (set_builder p1 j mb')) (place (pid_of X (pm_partitions p) h) g qs)"
    and "list_all2 (builds H) (pm_builders p1) (place (pid_of X (pm_partitions p) h) GNone qs)"
proof -
  let ?i = "pid_of X (pm_partitions p) h"
  let ?fresh = "getEventMetricsBuilder (pool (length (pm_builders p))) ?i"
  from builder_place [OF assms(1) builds_fresh [OF assms(2), of H "length (pm_builders p)" ?i]]
  obtain mb q where b: "(case builder_index ?i (pm_builders p) of
      Some j \<Rightarrow> j < length (pm_builders p) \<and> mb = pm_builders p ! j
        \<and> (\<forall>g mb'. builds H mb' (put_group g q) \<longrightarrow> list_all2 (builds H) ((pm_builders p)[j := mb']) (place ?i g qs))
    | None \<Rightarrow> mb = ?fresh
        \<and> (\<forall>g mb'. builds H mb' (put_group g q) \<longrightarrow> list_all2 (builds H) (pm_builders p @ [mb']) (place ?i g qs)))"
    "builds H mb q" by blast
  show ?thesis
  proof (cases "builder_index ?i (pm_builders p)")
    case None
    show ?thesis
      by (rule that [of "p\<lparr>pm_builders := pm_builders p @ [?fresh]\<rparr>" "length (pm_builders p)" q])
        (use b None assms(3) in \<open>auto simp: pm_get_def pid_of_def Let_def pm_same_def set_builder_def dest: spec [of _ GNone]\<close>)
  next
    case (Some j)
    have "list_all2 (builds H) (pm_builders p) (place ?i GNone qs)"
      using b Some by (auto dest!: spec [of _ GNone] spec [of _ mb] simp: list_update_id)
    then show ?thesis
      by (intro that [of p j q])
        (use b Some assms(3) in \<open>auto simp: pm_get_def pid_of_def Let_def pm_same_def set_builder_def\<close>)
  qed
qed

section \<open>Each operation places its group\<close>

lemma setHistogramProto_eq:
  "setHistogramProto h pb =
     \<lparr>hdr_LowestTrackableValue = LowestTrackableValue h, hdr_HighestTrackableValue = HighestTrackableValue h,
      hdr_SignificantFigures = SignificantFigures h, hdr_Counts = map Count (hc_bars (CountsRep h)),
      hdr_Buckets = map Bucket (hc_bars (CountsRep h))\<rparr>"
proof -
  have "fold (\<lambda>b pb. pb\<lparr>hdr_Buckets := hdr_Buckets pb @ [Bucket b], hdr_Counts := hdr_Counts pb @ [Count b]\<rparr>) bs p
      = p\<lparr>hdr_Buckets := hdr_Buckets p @ map Bucket bs, hdr_Counts := hdr_Counts p @ map Count bs\<rparr>"
    for bs :: "bar list" and p :: HDRHistogram
    by (induction bs arbitrary: p) simp_all
  then show ?thesis by (simp add: setHistogramProto_def hc_ForEach_bars)
qed

lemma record_histogram_indep: "record_histogram d c pb = record_histogram d c zero_HDRHistogram"
  by (simp add: record_histogram_def setHistogramProto_eq)

lemma builds_txn:
  assumes "builds (event_histogram c e) mb q"
  shows "builds (event_histogram c e) (mb\<lparr>mb_transactionAggregationKey := setTransactionKey e,
      mb_transactionHistogram :=
        record_histogram (AsDuration (getf ev_Duration None (ae_Event e))) c (mb_transactionHistogram mb),
      mb_transactionMetrics_Histogram := True, mb_keyedTransactionMetricsSlice := 1\<rparr>) (put_group (GTxn (txn_group e c)) q)"
proof -
  let ?d = "AsDuration (getf ev_Duration None (ae_Event e))"
  have r: "record_histogram ?d c old = event_histogram c e" for old
    by (subst record_histogram_indep) (simp add: event_histogram_def)
  have "mb_keyedServiceTransactionMetricsSlice mb = 0 \<or> mb_keyedServiceTransactionMetricsSlice mb = 1"
    using assms by (auto simp: builds_def)
  then show ?thesis using assms unfolding builds_iff
    by (auto simp: r mb_transactions_def mb_histogram_def txn_group_def mb_serviceTransactions_def mb_spans_def)
qed

text \<open>The change that \<^verbatim>\<open>addServiceTransactionMetrics\<close> makes to a builder.\<close>

definition put_svctxn :: "APMEvent \<Rightarrow> float64 \<Rightarrow> eventMetricsBuilder \<Rightarrow> eventMetricsBuilder" where
  "put_svctxn e c mb =
     (let mb1 = mb\<lparr>mb_serviceTransactionAggregationKey := setServiceTransactionKey e\<rparr>
      in if \<not> mb_transactionMetrics_Histogram mb1
         then mb1\<lparr>mb_transactionHistogram :=
           record_histogram (AsDuration (getf ev_Duration None (ae_Event e))) c (mb_transactionHistogram mb1)\<rparr>
         else mb1)
      \<lparr>mb_serviceTransactionMetrics_Histogram := True,
       mb_SuccessCount := (if getf ev_Outcome [] (ae_Event e) = ''success'' then c else Fin 0),
       mb_FailureCount := (if getf ev_Outcome [] (ae_Event e) = ''failure'' then c else Fin 0),
       mb_keyedServiceTransactionMetricsSlice := 1\<rparr>"

lemma builds_svctxn:
  assumes "builds (event_histogram c e) mb q"
  shows "builds (event_histogram c e) (put_svctxn e c mb) (put_group (GSvc (svctxn_group e c)) q)"
proof -
  let ?d = "AsDuration (getf ev_Duration None (ae_Event e))"
  have r: "record_histogram ?d c old = event_histogram c e" for old
    by (subst record_histogram_indep) (simp add: event_histogram_def)
  have "mb_keyedTransactionMetricsSlice mb = 0 \<or> mb_keyedTransactionMetricsSlice mb = 1"
    using assms(1) by (auto simp: builds_def)
  then show ?thesis using assms(1) unfolding builds_iff
    by (auto simp: put_svctxn_def Let_def r mb_transactions_def mb_histogram_def svctxn_group_def mb_serviceTransactions_def mb_spans_def)
qed

lemma take_Suc_zip_update:
  assumes "n < length xs" and "n < length ys"
  shows "take (Suc n) (map f (zip (xs[n := x]) (ys[n := y]))) = take n (map f (zip xs ys)) @ [f (x, y)]"
proof -
  have "take n (zip (xs[n := x]) (ys[n := y])) = take n (zip xs ys)"
    by (simp add: take_zip)
  moreover have "zip (xs[n := x]) (ys[n := y]) ! n = (x, y)" using assms by simp
  ultimately show ?thesis using assms by (simp add: take_Suc_conv_app_nth take_map)
qed

lemma builds_span:
  assumes "builds H mb q" and "mb_keyedSpanMetricsSlice mb \<noteq> 128"
  shows "\<exists>mb'. store_span mb k m = Some mb'
    \<and> builds H mb' (put_group (GSpan \<lparr>kspm_Key = Some k, kspm_Metrics = Some m\<rparr>) q)"
proof -
  have mb: "length (mb_spanAggregationKey mb) = 128" "length (mb_spanMetrics mb) = 128"
    "mb_keyedSpanMetricsSlice mb < 128" "q_spans q = mb_spans mb"
    using assms by (auto simp: builds_def)
  then have n: "length (mb_spans mb) \<noteq> 128" by (simp add: mb_spans_def)
  let ?mb = "mb\<lparr>mb_spanAggregationKey := (mb_spanAggregationKey mb)[mb_keyedSpanMetricsSlice mb := k],
    mb_spanMetrics := (mb_spanMetrics mb)[mb_keyedSpanMetricsSlice mb := m],
    mb_keyedSpanMetricsSlice := Suc (mb_keyedSpanMetricsSlice mb)\<rparr>"
  have "mb_spans ?mb = mb_spans mb @ [\<lparr>kspm_Key = Some k, kspm_Metrics = Some m\<rparr>]"
    using mb by (simp add: mb_spans_def take_Suc_zip_update)
  moreover have "mb_transactions ?mb = mb_transactions mb" "mb_serviceTransactions ?mb = mb_serviceTransactions mb"
    by (simp_all add: mb_transactions_def mb_serviceTransactions_def mb_histogram_def)
  ultimately have "builds H ?mb (put_group (GSpan \<lparr>kspm_Key = Some k, kspm_Metrics = Some m\<rparr>) q)"
    using assms mb n unfolding builds_iff by simp
  moreover have "store_span mb k m = Some ?mb" using mb by (simp add: store_span_def slice_simps)
  ultimately show ?thesis by blast
qed

lemma builds_full:
  assumes "builds H mb q" and "mb_keyedSpanMetricsSlice mb = 128"
  shows "builds H mb (put_group (GSpan x) q)"
proof -
  have "length (q_spans q) = 128" using assms unfolding builds_iff by (auto simp: mb_spans_def)
  then show ?thesis using assms(1) by simp
qed

text \<open>The shape that all operations share: look the builder up, change it, store it back.\<close>

lemma update_place:
  assumes "list_all2 (builds H) (pm_builders p) qs" and "pool_ok pool" and "pm_partitions p \<noteq> 0"
    and "\<And>mb q. builds H mb q \<Longrightarrow> \<exists>mb'. f mb = Some mb' \<and> builds H mb' (put_group g q)"
  shows "\<exists>p'. do { (p1, i) \<leftarrow> pm_get X pool p h; mb \<leftarrow> f (pm_builders p1 ! i); Some (set_builder p1 i mb) } = Some p'
    \<and> pm_same p p' \<and> list_all2 (builds H) (pm_builders p') (place (pid_of X (pm_partitions p) h) g qs)"
proof -
  obtain p1 j q where p1: "pm_get X pool p h = Some (p1, j)" "builds H (pm_builders p1 ! j) q"
    and set: "\<And>g mb'. builds H mb' (put_group g q) \<Longrightarrow> pm_same p (set_builder p1 j mb')
      \<and> list_all2 (builds H) (pm_builders (set_builder p1 j mb')) (place (pid_of X (pm_partitions p) h) g qs)"
    by (rule pm_get_place [OF assms(1-3), of X h]) blast
  from assms(4) [OF p1(2)] obtain mb' where "f (pm_builders p1 ! j) = Some mb'" "builds H mb' (put_group g q)" by blast
  with p1(1) set show ?thesis by simp
qed

lemma set_builder_same: "set_builder p i (pm_builders p ! i) = p"
  by (simp add: set_builder_def)

lemma addTransactionMetrics_place:
  assumes "list_all2 (builds (event_histogram c e)) (pm_builders p) qs" and "pool_ok pool" and "pm_partitions p \<noteq> 0"
  shows "\<exists>p'. addTransactionMetrics X pool e c (AsDuration (getf ev_Duration None (ae_Event e))) p = Some p'
    \<and> pm_same p p' \<and> list_all2 (builds (event_histogram c e)) (pm_builders p')
      (place (pid_of X (pm_partitions p) (HashTransactionAggregationKey X (pm_serviceInstanceHash p) (setTransactionKey e)))
         (GTxn (txn_group e c)) qs)"
  using update_place [OF assms, of "\<lambda>mb. Some (mb\<lparr>mb_transactionAggregationKey := setTransactionKey e,
      mb_transactionHistogram :=
        record_histogram (AsDuration (getf ev_Duration None (ae_Event e))) c (mb_transactionHistogram mb),
      mb_transactionMetrics_Histogram := True, mb_keyedTransactionMetricsSlice := 1\<rparr>)" "GTxn (txn_group e c)" X
      "HashTransactionAggregationKey X (pm_serviceInstanceHash p) (setTransactionKey e)"] builds_txn
  by (simp add: addTransactionMetrics_def Let_def)

lemma addServiceTransactionMetrics_place:
  assumes "list_all2 (builds (event_histogram c e)) (pm_builders p) qs" and "pool_ok pool" and "pm_partitions p \<noteq> 0"
  shows "\<exists>p'. addServiceTransactionMetrics X pool e c (AsDuration (getf ev_Duration None (ae_Event e))) p = Some p'
    \<and> pm_same p p' \<and> list_all2 (builds (event_histogram c e)) (pm_builders p')
      (place (pid_of X (pm_partitions p)
           (HashServiceTransactionAggregationKey X (pm_serviceInstanceHash p) (setServiceTransactionKey e)))
         (GSvc (svctxn_group e c)) qs)"
proof -
  have "\<exists>mb'. Some (put_svctxn e c mb) = Some mb'
      \<and> builds (event_histogram c e) mb' (put_group (GSvc (svctxn_group e c)) q)"
    if "builds (event_histogram c e) mb q" for mb q
    using builds_svctxn [OF that] by blast
  from update_place [where f = "\<lambda>mb. Some (put_svctxn e c mb)", OF assms this] show ?thesis
    unfolding addServiceTransactionMetrics_def put_svctxn_def by (simp only: Let_def bind.bind_lunit simp_thms)
qed

lemma addDroppedSpanStatsMetrics_place:
  assumes "list_all2 (builds H) (pm_builders p) qs" and "pool_ok pool" and "pm_partitions p \<noteq> 0"
  shows "\<exists>p'. addDroppedSpanStatsMetrics X pool dss c p = Some p' \<and> pm_same p p' \<and> list_all2 (builds H) (pm_builders p')
      (place (pid_of X (pm_partitions p) (HashSpanAggregationKey X (pm_serviceInstanceHash p) (setDroppedSpanStatsKey dss)))
         (GSpan (dropped_group c dss)) qs)"
proof -
  let ?f = "\<lambda>mb. if mb_keyedSpanMetricsSlice mb = 128 then Some mb
    else store_span mb (setDroppedSpanStatsKey dss) (setDroppedSpanStatsMetrics dss c)"
  have "\<exists>mb'. ?f mb = Some mb' \<and> builds H mb' (put_group (GSpan (dropped_group c dss)) q)" if "builds H mb q" for mb q
    using builds_full [OF that] builds_span [OF that] by (auto simp: dropped_group_def simp del: put_group.simps)
  from update_place [where f = ?f, OF assms this] show ?thesis
    by (simp add: addDroppedSpanStatsMetrics_def Let_def if_distrib [of "\<lambda>x. Option.bind x _"] set_builder_same
        cong: if_cong)
qed

lemma addSpanMetrics_place:
  assumes "pm_builders p = []" and "pool_ok pool" and "pm_partitions p \<noteq> 0"
  shows "\<exists>p'. addSpanMetrics X pool e c p = Some p' \<and> pm_same p p' \<and> list_all2 (builds H) (pm_builders p')
      (place (pid_of X (pm_partitions p) (HashSpanAggregationKey X (pm_serviceInstanceHash p) (setSpanKey e)))
         (GSpan (span_group e c)) [])"
proof -
  let ?h = "HashSpanAggregationKey X (pm_serviceInstanceHash p) (setSpanKey e)"
  let ?i = "pid_of X (pm_partitions p) ?h"
  let ?fresh = "getEventMetricsBuilder (pool 0) ?i"
  have "mb_keyedSpanMetricsSlice ?fresh \<noteq> 128"
    by (simp add: getEventMetricsBuilder_def zero_eventMetricsBuilder_def split: option.split)
  from builds_span [OF builds_fresh [OF assms(2)] this, of "setSpanKey e" "setSpanMetrics e c" H]
  show ?thesis
    using assms(1,3) by (auto simp: addSpanMetrics_def pm_get_def pid_of_def Let_def set_builder_def pm_same_def span_group_def)
qed

abbreviation place_all :: "'d xxhash_ops \<Rightarrow> uint16 \<Rightarrow> ('d \<times> group) list \<Rightarrow> part_metrics list \<Rightarrow> part_metrics list" where
  "place_all X n \<equiv> fold (\<lambda>(d, g). place (pid_of X n d) g)"

lemma addDroppedSpans_place:
  assumes "list_all2 (builds H) (pm_builders p) qs" and "pool_ok pool" and "pm_partitions p \<noteq> 0"
  shows "\<exists>p'. addDroppedSpans X pool dsss c p = Some p' \<and> pm_same p p' \<and> list_all2 (builds H) (pm_builders p')
      (place_all X (pm_partitions p)
         (map (\<lambda>dss. (HashSpanAggregationKey X (pm_serviceInstanceHash p) (setDroppedSpanStatsKey dss),
                     GSpan (dropped_group c dss))) dsss) qs)"
  using assms
proof (induction dsss arbitrary: p qs)
  case Nil
  then show ?case by (simp add: pm_same_def)
next
  case (Cons dss dsss)
  from addDroppedSpanStatsMetrics_place [OF Cons.prems, of X dss c] obtain p1 where p1:
    "addDroppedSpanStatsMetrics X pool dss c p = Some p1" "pm_same p p1"
    "list_all2 (builds H) (pm_builders p1)
       (place (pid_of X (pm_partitions p) (HashSpanAggregationKey X (pm_serviceInstanceHash p) (setDroppedSpanStatsKey dss)))
         (GSpan (dropped_group c dss)) qs)" by blast
  note same = pm_sameD [OF p1(2)]
  from Cons.IH [OF p1(3) Cons.prems(2)] Cons.prems(3) same p1(1,2) show ?case
    by (auto simp: pm_same_def)
qed

text \<open>The whole of \<^verbatim>\<open>processEvent\<close> places the groups of the event.\<close>

lemma pm_same_trans: "pm_same p p1 \<Longrightarrow> pm_same p1 p2 \<Longrightarrow> pm_same p p2"
  by (simp add: pm_same_def)

lemma processTransaction_parts:
  assumes "list_all2 (builds (event_histogram c e)) (pm_builders p) qs" and "pool_ok pool" and "pm_partitions p \<noteq> 0"
  defines "d \<equiv> AsDuration (getf ev_Duration None (ae_Event e))" and "h \<equiv> pm_serviceInstanceHash p"
  shows "\<exists>p'. do { p \<leftarrow> addTransactionMetrics X pool e c d p;
                   p \<leftarrow> addServiceTransactionMetrics X pool e c d p;
                   addDroppedSpans X pool dsss c p } = Some p'
    \<and> pm_same p p' \<and> list_all2 (builds (event_histogram c e)) (pm_builders p')
      (place_all X (pm_partitions p)
        ((HashTransactionAggregationKey X h (setTransactionKey e), GTxn (txn_group e c))
         # (HashServiceTransactionAggregationKey X h (setServiceTransactionKey e), GSvc (svctxn_group e c))
         # map (\<lambda>dss. (HashSpanAggregationKey X h (setDroppedSpanStatsKey dss), GSpan (dropped_group c dss))) dsss) qs)"
proof -
  let ?H = "event_histogram c e" let ?n = "pm_partitions p"
  let ?q1 = "place (pid_of X ?n (HashTransactionAggregationKey X h (setTransactionKey e))) (GTxn (txn_group e c)) qs"
  let ?q2 = "place (pid_of X ?n (HashServiceTransactionAggregationKey X h (setServiceTransactionKey e)))
    (GSvc (svctxn_group e c)) ?q1"
  from addTransactionMetrics_place [OF assms(1-3), of X] obtain p1 where p1:
    "addTransactionMetrics X pool e c d p = Some p1" "pm_same p p1" "list_all2 (builds ?H) (pm_builders p1) ?q1"
    unfolding d_def h_def by blast
  note s1 = pm_sameD [OF p1(2)]
  from addServiceTransactionMetrics_place [OF p1(3) assms(2), of X] s1 assms(3) obtain p2 where p2:
    "addServiceTransactionMetrics X pool e c d p1 = Some p2" "pm_same p1 p2" "list_all2 (builds ?H) (pm_builders p2) ?q2"
    unfolding d_def h_def by auto
  note s2 = pm_sameD [OF p2(2)]
  from addDroppedSpans_place [OF p2(3) assms(2), of X dsss c] s1 s2 assms(3) p1(1) p2(1) show ?thesis
    unfolding h_def by (auto intro: pm_same_trans [OF p1(2)] pm_same_trans [OF p2(2)])
qed

lemma processEvent_parts:
  assumes "pm_builders p = []" and "pool_ok pool" and "pm_partitions p \<noteq> 0"
  shows "\<exists>p' H. processEvent X etype pool e p = Some p' \<and> pm_same p p'
    \<and> list_all2 (builds H) (pm_builders p') (event_parts X etype (pm_partitions p) e (pm_serviceInstanceHash p))"
proof (cases "etype e")
  case TransactionEventType
  let ?c = "getf tx_RepresentativeCount (Fin 0) (ae_Transaction e)"
  have e: "list_all2 (builds (event_histogram ?c e)) (pm_builders p) []" using assms(1) by simp
  show ?thesis
  proof (cases "fle ?c (Fin 0)")
    case True
    with TransactionEventType assms(1) show ?thesis
      by (simp add: processEvent_def event_parts_def event_groups_def pm_same_def)
  next
    case False
    with TransactionEventType
      processTransaction_parts [OF e assms(2,3), of X "getf tx_DroppedSpansStats [] (ae_Transaction e)"]
    show ?thesis
      by (auto simp: processEvent_def event_parts_def event_groups_def Let_def simp del: fold_simps place.simps)
  qed
next
  case SpanEventType
  show ?thesis
    using addSpanMetrics_place [OF assms, of X e "getf sp_RepresentativeCount (Fin 0) (ae_Span e)"] SpanEventType assms(1)
    by (simp add: processEvent_def event_parts_def event_groups_def Let_def pm_same_def) blast
next
  case OtherEventType
  obtain p1 j where "pm_get X pool p (pm_serviceInstanceHash p) = Some (p1, j)" "pm_same p p1"
    "list_all2 (builds zero_HDRHistogram) (pm_builders p1)
       (place (pid_of X (pm_partitions p) (pm_serviceInstanceHash p)) GNone [])"
    by (rule pm_get_place [where p = p and qs = "[]" and H = zero_HDRHistogram, OF _ assms(2,3), of X
          "pm_serviceInstanceHash p"]) (use assms(1) in auto)
  then show ?thesis
    using OtherEventType by (auto simp: processEvent_def addServiceSummaryMetrics_def event_parts_def event_groups_def)
qed

section \<open>The messages of an event\<close>

definition event_service_key :: "APMEvent \<Rightarrow> duration \<Rightarrow> ServiceAggregationKey" where
  "event_service_key e ivl =
     \<lparr>pbsk_Timestamp = TimeToPBTimestamp (Truncate (AsTime (ae_Timestamp e)) ivl),
      pbsk_ServiceName = getf svc_Name [] (ae_Service e),
      pbsk_ServiceEnvironment = getf svc_Environment [] (ae_Service e),
      pbsk_ServiceLanguageName = getf lang_Name [] (getf svc_Language None (ae_Service e)),
      pbsk_AgentName = getf ag_Name [] (ae_Agent e)\<rparr>"

definition event_instance_key :: "APMEvent \<Rightarrow> ServiceInstanceAggregationKey" where
  "event_instance_key e = \<lparr>pbsik_GlobalLabelsStr = the (marshalEventGlobalLabels e)\<rparr>"

definition event_digest :: "'d xxhash_ops \<Rightarrow> APMEvent \<Rightarrow> duration \<Rightarrow> 'd" where
  "event_digest X e ivl =
     HashServiceInstanceAggregationKey X (HashServiceAggregationKey X (xx_Digest0 X) (event_service_key e ivl))
       (event_instance_key e)"

definition part_message :: "APMEvent \<Rightarrow> duration \<Rightarrow> nat \<Rightarrow> part_metrics \<Rightarrow> CombinedMetrics" where
  "part_message e ivl n q =
     \<lparr>pbcm_ServiceMetrics =
        [\<lparr>ksm_Key = Some (event_service_key e ivl),
          ksm_Metrics = Some \<lparr>
            pbsm_ServiceInstanceMetrics =
              [\<lparr>ksim_Key = Some (event_instance_key e),
                ksim_Metrics = Some \<lparr>pbsim_TransactionMetrics = q_txns q,
                  pbsim_ServiceTransactionMetrics = q_svctxns q, pbsim_SpanMetrics = q_spans q\<rparr>\<rparr>],
            pbsm_OverflowGroups = None\<rparr>\<rparr>],
      pbcm_OverflowServices = None, pbcm_OverflowServiceInstancesEstimator = [],
      pbcm_EventsTotal = fdiv (Fin 1) (f64_of_int (int n)),
      pbcm_YoungestEventTimestamp = TimeToPBTimestamp (AsTime (getf ev_Received None (ae_Event e)))\<rparr>"

definition part_messages ::
  "'d xxhash_ops \<Rightarrow> (APMEvent \<Rightarrow> APMEventType) \<Rightarrow> APMEvent \<Rightarrow> CombinedMetricsKey \<Rightarrow> uint16
   \<Rightarrow> (CombinedMetricsKey \<times> CombinedMetrics) list" where
  "part_messages X etype e key n =
     (let qs = event_parts X etype n e (event_digest X e (cmk_Interval key))
      in map (\<lambda>q. (key\<lparr>cmk_PartitionID := q_pid q\<rparr>, part_message e (cmk_Interval key) (length qs) q)) qs)"

lemma event_messages_parts:
  assumes "pool_ok pool" and "n \<noteq> 0"
  shows "event_messages X etype pool e key n = Some (part_messages X etype e key n)"
proof -
  obtain bs where bs: "marshalEventGlobalLabels e = Some bs" by (simp add: marshalEventGlobalLabels_eq)
  let ?p = "getPartitionedMetricsBuilder X (event_service_key e (cmk_Interval key)) (event_instance_key e) n"
  have p: "pm_builders ?p = []" "pm_partitions ?p = n"
    "pm_serviceInstanceHash ?p = event_digest X e (cmk_Interval key)"
    by (simp_all add: getPartitionedMetricsBuilder_def event_digest_def)
  from processEvent_parts [OF p(1) assms(1), of X etype e] assms(2) p obtain p' H where p':
    "processEvent X etype pool e ?p = Some p'" "pm_same ?p p'"
    "list_all2 (builds H) (pm_builders p') (event_parts X etype n e (event_digest X e (cmk_Interval key)))" by auto
  have keys: "pm_serviceAggregationKey p' = event_service_key e (cmk_Interval key)"
    "pm_serviceInstanceAggregationKey p' = event_instance_key e"
    using pm_sameD [OF p'(2)] by (simp_all add: getPartitionedMetricsBuilder_def)
  have "map (\<lambda>mb. (key\<lparr>cmk_PartitionID := mb_partition mb\<rparr>, builder_message p' mb
        (fdiv (Fin 1) (f64_of_int (int k))) (TimeToPBTimestamp (AsTime (getf ev_Received None (ae_Event e)))))) mbs
      = map (\<lambda>q. (key\<lparr>cmk_PartitionID := q_pid q\<rparr>, part_message e (cmk_Interval key) k q)) qs"
    if "list_all2 (builds H) mbs qs" for mbs qs k
    using that by (induction rule: list_all2_induct) (auto simp: builder_message_def part_message_def builds_def keys)
  from this [OF p'(3)] list_all2_lengthD [OF p'(3)] bs p'(1) show ?thesis
    by (simp add: event_messages_def part_messages_def Let_def event_service_key_def event_instance_key_def)
qed

section \<open>What a part holds\<close>

text \<open>The groups of a kind whose digest selects a partition.\<close>

definition txns_at :: "('d \<Rightarrow> uint16) \<Rightarrow> uint16 \<Rightarrow> ('d \<times> group) list \<Rightarrow> KeyedTransactionMetrics list" where
  "txns_at f i gs = List.concat (map (\<lambda>(d, g). case g of GTxn x \<Rightarrow> if f d = i then [x] else [] | _ \<Rightarrow> []) gs)"

definition svctxns_at :: "('d \<Rightarrow> uint16) \<Rightarrow> uint16 \<Rightarrow> ('d \<times> group) list \<Rightarrow> KeyedServiceTransactionMetrics list" where
  "svctxns_at f i gs = List.concat (map (\<lambda>(d, g). case g of GSvc x \<Rightarrow> if f d = i then [x] else [] | _ \<Rightarrow> []) gs)"

definition spans_at :: "('d \<Rightarrow> uint16) \<Rightarrow> uint16 \<Rightarrow> ('d \<times> group) list \<Rightarrow> KeyedSpanMetrics list" where
  "spans_at f i gs = List.concat (map (\<lambda>(d, g). case g of GSpan x \<Rightarrow> if f d = i then [x] else [] | _ \<Rightarrow> []) gs)"

definition last_only :: "'a list \<Rightarrow> 'a list" where
  "last_only xs = (if xs = [] then [] else [last xs])"

lemma last_only_simps [simp]: "last_only [] = []" "last_only (xs @ [x]) = [x]" "length xs \<le> 1 \<Longrightarrow> last_only xs = xs"
  by (auto simp: last_only_def le_Suc_eq length_Suc_conv)

lemma q_pid_put_group [simp]: "q_pid (put_group g q) = q_pid q"
  by (cases g) simp_all

lemma place_pids:
  "map q_pid (place i g qs) = (if i \<in> q_pid ` set qs then map q_pid qs else map q_pid qs @ [i])"
  by (induction qs) auto

lemma place_distinct: "distinct (map q_pid qs) \<Longrightarrow> distinct (map q_pid (place i g qs))"
  unfolding place_pids by auto

lemma in_place:
  assumes "q \<in> set (place i g qs)" and "distinct (map q_pid qs)"
  shows "(q \<in> set qs \<and> q_pid q \<noteq> i) \<or> (\<exists>q0 \<in> set qs. q_pid q0 = i \<and> q = put_group g q0)
    \<or> i \<notin> q_pid ` set qs \<and> q = put_group g \<lparr>q_pid = i, q_txns = [], q_svctxns = [], q_spans = []\<rparr>"
  using assms
proof (induction qs)
  case (Cons a qs)
  show ?case
  proof (cases "q_pid a = i")
    case True
    with Cons.prems show ?thesis by (auto simp: image_iff)
  next
    case False
    with Cons show ?thesis by auto
  qed
qed simp

definition part_holds :: "('d \<Rightarrow> uint16) \<Rightarrow> ('d \<times> group) list \<Rightarrow> part_metrics \<Rightarrow> bool" where
  "part_holds f gs q \<longleftrightarrow> q_txns q = last_only (txns_at f (q_pid q) gs) \<and> q_svctxns q = last_only (svctxns_at f (q_pid q) gs)
     \<and> q_spans q = take 128 (spans_at f (q_pid q) gs)"

lemma put_group_holds:
  assumes "part_holds f gs q" and "f d = q_pid q"
  shows "part_holds f (gs @ [(d, g)]) (put_group g q)"
  using assms
  by (cases g; cases "length (spans_at f (q_pid q) gs) < 128")
    (auto simp: part_holds_def txns_at_def svctxns_at_def spans_at_def min_def)

lemma other_group_holds:
  "part_holds f gs q \<Longrightarrow> q_pid q \<noteq> f d \<Longrightarrow> part_holds f (gs @ [(d, g)]) q"
  by (cases g) (auto simp: part_holds_def txns_at_def svctxns_at_def spans_at_def)

lemma no_group_holds:
  assumes "i \<notin> (f \<circ> fst) ` set gs"
  shows "part_holds f gs \<lparr>q_pid = i, q_txns = [], q_svctxns = [], q_spans = []\<rparr>"
proof -
  have "txns_at f i gs = [] \<and> svctxns_at f i gs = [] \<and> spans_at f i gs = []"
    using assms by (induction gs) (auto simp: txns_at_def svctxns_at_def spans_at_def split: group.splits)
  then show ?thesis by (simp add: part_holds_def)
qed

lemma place_all_holds:
  "distinct (map q_pid (place_all X n gs [])) \<and> q_pid ` set (place_all X n gs []) = (pid_of X n \<circ> fst) ` set gs
   \<and> (\<forall>q \<in> set (place_all X n gs []). part_holds (pid_of X n) gs q)"
proof (induction gs rule: rev_induct)
  case (snoc dg gs)
  obtain d g where dg: "dg = (d, g)" by (rule prod.exhaust)
  let ?qs = "place_all X n gs []" let ?i = "pid_of X n d"
  have "part_holds (pid_of X n) (gs @ [dg]) q" if "q \<in> set (place ?i g ?qs)" for q
  proof -
    from snoc.IH in_place [OF that] consider "q \<in> set ?qs" "q_pid q \<noteq> ?i"
      | q0 where "q0 \<in> set ?qs" "q_pid q0 = ?i" "q = put_group g q0"
      | "?i \<notin> (pid_of X n \<circ> fst) ` set gs"
        "q = put_group g \<lparr>q_pid = ?i, q_txns = [], q_svctxns = [], q_spans = []\<rparr>" by auto
    then show ?thesis
      using snoc.IH put_group_holds [OF no_group_holds, of ?i "pid_of X n" gs d g]
      unfolding dg by cases (simp_all add: other_group_holds put_group_holds)
  qed
  moreover have "q_pid ` set (place ?i g ?qs) = insert ?i (q_pid ` set ?qs)"
    using arg_cong [where f = set, OF place_pids [of ?i g ?qs]] by auto
  ultimately show ?case using snoc.IH place_distinct [of ?qs ?i g] by (simp add: dg)
qed simp

end
