(* ===== verification/HdrProofs.thy ===== *)
theory HdrProofs
  imports HdrHistogram
begin

unbundle bit_operations_syntax

text \<open>
  Correctness of the HDR histogram: which values a bucket index stands for, which values can be
  recorded, how far the reported value of a bucket is from the recorded one, and that the
  incremental iterator of \<^verbatim>\<open>Buckets\<close> computes the same slices as looking every bucket up.
\<close>

section \<open>Cells of the value range\<close>

text \<open>Sub-bucket \<^term>\<open>s\<close> of bucket \<^term>\<open>k\<close> holds the values from \<open>s * 2 ^ k\<close> up to the
  start of the next sub-bucket; buckets above the first use their upper half only.\<close>

definition cell :: "nat \<Rightarrow> nat \<Rightarrow> nat \<Rightarrow> bool" where
  "cell k s v \<longleftrightarrow> s * 2 ^ k \<le> v \<and> v < (s + 1) * 2 ^ k \<and> s < 256 \<and> (k = 0 \<or> 128 \<le> s)"

lemma cell_exists: "\<exists>k s. cell k s v"
proof (cases "v < 256")
  case True
  then show ?thesis by (intro exI [of _ 0] exI [of _ v]) (simp add: cell_def)
next
  case False
  define k where "k = floorlog 2 v - 8"
  have v: "0 < v" using False by simp
  have fl: "2 ^ (floorlog 2 v - 1) \<le> v \<and> v < 2 ^ floorlog 2 v"
    using floorlog_bounds [of v 2] v by simp
  have ge: "9 \<le> floorlog 2 v"
    using False v floorlog_ge_SucI [of 2 8 v] by simp
  then have e: "floorlog 2 v = k + 8" by (simp add: k_def)
  then have b: "2 ^ (k + 7) \<le> v" "v < 2 ^ (k + 8)" using fl by (auto simp: add.commute)
  define s where "s = v div 2 ^ k"
  have "s < 256" using b(2) by (simp add: s_def less_mult_imp_div_less power_add mult.commute)
  moreover have "128 \<le> s"
  proof -
    have "2 ^ (k + 7) div 2 ^ k \<le> s" unfolding s_def by (rule div_le_mono [OF b(1)])
    then show ?thesis by (simp add: power_add)
  qed
  moreover have "s * 2 ^ k \<le> v" by (simp add: s_def)
  moreover have "v < (s + 1) * 2 ^ k"
    unfolding s_def using dividend_less_div_times [of "2 ^ k" v] by (simp add: algebra_simps)
  ultimately show ?thesis by (intro exI [of _ k] exI [of _ s]) (simp add: cell_def)
qed

lemma cell_bounds:
  assumes "cell k s v"
  shows "v < 2 ^ (k + 8)" and "0 < k \<Longrightarrow> 2 ^ (k + 7) \<le> v" and "v div 2 ^ k = s"
proof -
  have "v < (s + 1) * 2 ^ k" using assms by (simp add: cell_def)
  also have "\<dots> \<le> 256 * 2 ^ k"
    using assms by (intro mult_right_mono) (auto simp: cell_def)
  finally show "v < 2 ^ (k + 8)" by (simp add: power_add)
  assume "0 < k"
  then have "128 * 2 ^ k \<le> s * 2 ^ k"
    using assms by (intro mult_right_mono) (auto simp: cell_def)
  also have "\<dots> \<le> v" using assms by (simp add: cell_def)
  finally show "2 ^ (k + 7) \<le> v" by (simp add: power_add)
next
  show "v div 2 ^ k = s"
    using assms by (intro div_nat_eqI) (auto simp: cell_def algebra_simps)
qed

lemma bitlen_or_mask:
  assumes "cell k s v"
  shows "bitlen (int v OR 255) = int (k + 8)"
proof (rule antisym)
  have "int v < 2 ^ (k + 8)" using cell_bounds(1) [OF assms] by (metis of_nat_less_iff of_nat_numeral of_nat_power)
  moreover have "(255::int) < 2 ^ (k + 8)"
  proof -
    have "(2::int) ^ 8 \<le> 2 ^ (k + 8)" by (rule power_increasing) auto
    then show ?thesis by simp
  qed
  ultimately have "int v OR 255 < 2 ^ (k + 8)" by (intro OR_upper) auto
  then show "bitlen (int v OR 255) \<le> int (k + 8)" by (simp add: bitlen_le_iff_power nat_add_distrib)
  have "2 ^ (k + 7) \<le> int v OR 255"
  proof (cases "k = 0")
    case True
    have "(255::int) \<le> 255 OR int v" by (rule or_greater_eq) simp
    then show ?thesis using True by (simp add: or.commute)
  next
    case False
    then have "2 ^ (k + 7) \<le> int v"
      using cell_bounds(2) [OF assms] by (metis neq0_conv of_nat_le_iff of_nat_numeral of_nat_power)
    also have "int v \<le> int v OR 255" by (rule or_greater_eq) simp
    finally show ?thesis .
  qed
  then show "int (k + 8) \<le> bitlen (int v OR 255)" by (simp add: bitlen_ge_iff_power nat_add_distrib add.commute)
qed

lemma uint_or_mask: "uint (v OR 255 :: int64) = uint v OR 255"
  by (simp add: unsigned_or_eq)

lemma getBucketIndex_cell:
  assumes "cell k s (unat v)" 
  shows "getBucketIndex v = of_nat k"
proof -
  have k: "k < 64"
  proof (rule ccontr)
    assume "\<not> k < 64"
    then have "(2::nat) ^ 64 \<le> 2 ^ (k + 7)" by (intro power_increasing) auto
    also have "\<dots> \<le> unat v" using cell_bounds(2) [OF assms] \<open>\<not> k < 64\<close> by auto
    finally show False using unat64_less [of v] by simp
  qed
  have lz: "64 - LeadingZeros64 (v OR 255) = int (k + 8)"
    using bitlen_or_mask [OF assms] by (simp add: LeadingZeros64_def uint_or_mask)
  have "getBucketIndex v = ucast (word_of_int (int k) :: int64)"
    unfolding getBucketIndex_def Let_def package_vars lz by simp
  also have "\<dots> = of_nat k"
    using k by (simp add: unsigned_of_nat take_bit_nat_eq_self)
  finally show ?thesis .
qed

lemma getSubBucketIdx_cell:
  assumes "cell k s (unat v)" and "unat v < 2 ^ 63"
  shows "getSubBucketIdx v (of_nat k) = of_nat s"
proof -
  have k: "k < 56"
  proof (rule ccontr)
    assume "\<not> k < 56"
    then have "(2::nat) ^ 63 \<le> 2 ^ (k + 7)" by (intro power_increasing) auto
    also have "\<dots> \<le> unat v" using cell_bounds(2) [OF assms(1)] \<open>\<not> k < 56\<close> by auto
    finally show False using assms(2) by simp
  qed
  have sh: "unat (scast (of_nat k :: int32) + scast (0::int32) :: uint64) = k"
    using k by (simp add: unsigned_of_nat signed_of_nat take_bit_nat_eq_self
        signed_take_bit_int_eq_self)
  have "sint v = int (unat v)"
    using assms(2) by (rule sint64_unat)
  then have "sint (signed_drop_bit k v) = int (unat v) div 2 ^ k"
    by (simp only: sint_signed_drop_bit_eq drop_bit_eq_div)
  also have "\<dots> = int (unat v div 2 ^ k)"
    by (simp only: of_nat_div of_nat_power of_nat_numeral)
  finally have "sint (signed_drop_bit k v) = int s"
    by (simp only: cell_bounds(3) [OF assms(1)])
  moreover have "signed_drop_bit k v = word_of_int (sint (signed_drop_bit k v))" by simp
  ultimately have "signed_drop_bit k v = word_of_int (int s)" by simp
  then show ?thesis
    using assms(1) unfolding getSubBucketIdx_def package_vars sh
    by (simp add: cell_def unsigned_of_nat take_bit_nat_eq_self)
qed
lemma cell_k_bound:
  assumes "cell k s v" and "v < 2 ^ n" and "8 \<le> n"
  shows "k \<le> n - 8"
proof (rule ccontr)
  assume "\<not> k \<le> n - 8"
  then have k: "0 < k" "n \<le> k + 7" using assms(3) by auto
  have "(2::nat) ^ n \<le> 2 ^ (k + 7)" using k(2) by (intro power_increasing) auto
  also have "\<dots> \<le> v" using cell_bounds(2) [OF assms(1) k(1)] .
  finally show False using assms(2) by simp
qed

lemma cell_k_lower:
  assumes "cell k s v" and "2 ^ (n + 8) \<le> v"
  shows "n < k"
proof (rule ccontr)
  assume "\<not> n < k"
  then have "(2::nat) ^ (k + 8) \<le> 2 ^ (n + 8)" by (intro power_increasing) auto
  then show False using cell_bounds(1) [OF assms(1)] assms(2) by linarith
qed

text \<open>A cell is determined by any value in it.\<close>

lemma cell_unique: "cell k s v \<Longrightarrow> cell k' s' v \<Longrightarrow> k = k' \<and> s = s'"
proof -
  assume c: "cell k s v" and c': "cell k' s' v"
  have "k = k'"
  proof (rule linorder_cases [of k k'])
    assume "k < k'"
    then have "(2::nat) ^ (k + 8) \<le> 2 ^ (k' + 7)" by (intro power_increasing) auto
    moreover have "2 ^ (k' + 7) \<le> v" using cell_bounds(2) [OF c'] \<open>k < k'\<close> by simp
    ultimately show ?thesis using cell_bounds(1) [OF c] by linarith
  next
    assume "k' < k"
    then have "(2::nat) ^ (k' + 8) \<le> 2 ^ (k + 7)" by (intro power_increasing) auto
    moreover have "2 ^ (k + 7) \<le> v" using cell_bounds(2) [OF c] \<open>k' < k\<close> by simp
    ultimately show ?thesis using cell_bounds(1) [OF c'] by linarith
  qed simp
  then show ?thesis using cell_bounds(3) [OF c] cell_bounds(3) [OF c'] by simp
qed

section \<open>Indices of values\<close>

lemma index_inj:
  fixes k s k' s' :: nat
  assumes "128 * k' + s' = 128 * k + s" and "s < 256" "s' < 256"
    and "k = 0 \<or> 128 \<le> s" "k' = 0 \<or> 128 \<le> s'"
  shows "k' = k \<and> s' = s"
proof (rule linorder_cases [of k k'])
  assume "k < k'"
  then show ?thesis using assms by linarith
next
  assume "k' < k"
  then show ?thesis using assms by linarith
next
  assume "k = k'"
  then show ?thesis using assms by linarith
qed

lemma countsIndex_cell: "countsIndex (of_nat k) (of_nat s) = of_nat (128 * k + s)"
proof -
  have sh: "unat (scast (7 :: int32) :: uint64) = 7" by simp
  show ?thesis
    unfolding countsIndex_def Let_def package_vars sh by (simp add: push_bit_eq_mult algebra_simps)
qed

lemma countsIndexFor_cell:
  assumes "cell k s (unat v)" and "unat v < 2 ^ 63"
  shows "countsIndexFor v = of_nat (128 * k + s)"
  using getBucketIndex_cell [OF assms(1)] getSubBucketIdx_cell [OF assms] countsIndex_cell [of k s]
  by (simp add: countsIndexFor_def Let_def)

lemma of_nat32_sint: "n < 2 ^ 31 \<Longrightarrow> sint (of_nat n :: int32) = int n"
  by (simp add: sint32_unat unsigned_of_nat take_bit_nat_eq_self)

lemma sint_countsIndexFor_cell:
  assumes "cell k s (unat v)" and "unat v < 2 ^ 63"
  shows "sint (countsIndexFor v) = int (128 * k + s)"
proof -
  have "k \<le> 55" using cell_k_bound [OF assms] by simp
  moreover have "s < 256" using assms(1) by (simp add: cell_def)
  ultimately have "128 * k + s < 2 ^ 31" by simp
  then show ?thesis
    unfolding countsIndexFor_cell [OF assms] by (rule of_nat32_sint)
qed

text \<open>A negative value lands in a cell far beyond the counts.\<close>

lemma countsIndexFor_negative:
  assumes "sint v < 0"
  shows "sint (countsIndexFor v) \<ge> 3328"
proof -
  obtain k s where c: "cell k s (unat v)" using cell_exists by blast
  have big: "2 ^ 63 \<le> unat v"
    using assms sint64_unat [of v] by (metis not_le of_nat_0_le_iff)
  have k: "k = 56"
    using cell_k_bound [OF c, of 64] cell_k_lower [OF c, of 55] big by simp
  define t where "t = sint v div 2 ^ 56"
  have tb: "- 128 \<le> t" "t < 0"
  proof -
    have "- (2 ^ 63) \<le> sint v" using sint_ge [of v] by simp
    then have "- (2 ^ 63) div 2 ^ 56 \<le> t" unfolding t_def by (rule zdiv_mono1) simp
    then show "- 128 \<le> t" by simp
    show "t < 0" unfolding t_def using assms by (simp add: div_neg_pos_less0)
  qed
  have sh: "unat (scast (56 :: int32) + scast (0::int32) :: uint64) = 56" by simp
  have "sint (signed_drop_bit 56 v) = t"
    by (simp only: sint_signed_drop_bit_eq drop_bit_eq_div t_def)
  moreover have "signed_drop_bit 56 v = word_of_int (sint (signed_drop_bit 56 v))" by simp
  ultimately have "signed_drop_bit 56 v = word_of_int t" by simp
  then have "getSubBucketIdx v 56 = ucast (word_of_int t :: int64)"
    unfolding getSubBucketIdx_def package_vars sh by simp
  also have "\<dots> = word_of_int t"
    by (simp add: unsigned_of_int word_of_int_eq_iff take_bit_take_bit)
  finally have "countsIndexFor v = word_of_int (7168 + t)"
    using getBucketIndex_cell [OF c] k
    by (simp add: countsIndexFor_def countsIndex_def Let_def push_bit_eq_mult)
  moreover have "sint (word_of_int (7168 + t) :: int32) = 7168 + t"
    by (rule sint32_word_of_int) (use tb in simp_all)
  ultimately have "sint (countsIndexFor v) = 7168 + t" by (simp only:)
  then show ?thesis using tb by simp
qed

text \<open>The recordable values are exactly those below \<open>2 ^ 32\<close>.\<close>

lemma index_in_range_iff:
  "0 \<le> sint (countsIndexFor v) \<and> sint (countsIndexFor v) < 3328 \<longleftrightarrow> 0 \<le> sint v \<and> sint v < 2 ^ 32"
proof (cases "sint v < 0")
  case True
  then show ?thesis using countsIndexFor_negative [OF True] by simp
next
  case False
  then have lt: "unat v < 2 ^ 63" by (simp only: not_less unat_sint64(2))
  obtain k s where c: "cell k s (unat v)" using cell_exists by blast
  have i: "sint (countsIndexFor v) = int (128 * k + s)" by (rule sint_countsIndexFor_cell [OF c lt])
  have s: "s < 256" "k = 0 \<or> 128 \<le> s" using c by (auto simp: cell_def)
  have "128 * k + s < 3328 \<longleftrightarrow> unat v < 2 ^ 32"
  proof
    assume "unat v < 2 ^ 32"
    then have "k \<le> 24" using cell_k_bound [OF c, of 32] by simp
    then show "128 * k + s < 3328" using s by simp
  next
    assume idx: "128 * k + s < 3328"
    show "unat v < 2 ^ 32"
    proof (rule ccontr)
      assume "\<not> unat v < 2 ^ 32"
      then have "24 < k" using cell_k_lower [OF c, of 24] by simp
      then show False using idx s by simp
    qed
  qed
  moreover obtain n where n: "unat v = n" by simp
  moreover have "sint v = int n" using sint64_unat [OF lt] n by simp
  ultimately show ?thesis using i by auto
qed

section \<open>Equivalent values\<close>

lemma shift_count:
  "n < 2 ^ 31 \<Longrightarrow> unat (scast (of_nat n :: int32) :: uint64) = n"
  by (simp add: unsigned_of_nat signed_of_nat take_bit_nat_eq_self signed_take_bit_int_eq_self)

lemma valueFromIndex_cell:
  assumes "k < 64" and "s < 256"
  shows "valueFromIndex (of_nat k) (of_nat s) = of_nat (s * 2 ^ k)"
proof -
  have "scast (of_nat s :: int32) = (of_nat s :: int64)"
    using assms(2) by (simp add: signed_of_nat signed_take_bit_int_eq_self)
  moreover have "unat (scast (of_nat k + 0 :: int32) :: uint64) = k"
    using shift_count [of k] assms(1) by simp
  ultimately show ?thesis
    unfolding valueFromIndex_def package_vars by (simp add: push_bit_eq_mult)
qed

lemma highestEquivalentValue_cell:
  assumes c: "cell k s (unat v)" and lt: "unat v < 2 ^ 63"
  shows "highestEquivalentValue v = of_nat ((s + 1) * 2 ^ k - 1)"
proof -
  have k: "k \<le> 55" using cell_k_bound [OF c lt] by simp
  have s: "s < 256" using c by (simp add: cell_def)
  have sub: "\<not> sint (subBucketCount) \<le> sint (of_nat s :: int32)"
    using s by (simp add: of_nat32_sint)
  have "unat (scast (0 + of_nat k :: int32) :: uint64) = k"
    using shift_count [of k] k by simp
  then have size: "sizeOfEquivalentValueRangeGivenBucketIdx v (of_nat k) = of_nat (2 ^ k)"
    unfolding sizeOfEquivalentValueRangeGivenBucketIdx_def Let_def getSubBucketIdx_cell [OF c lt]
    using sub by (simp add: push_bit_eq_mult)
  have "nextNonEquivalentValue v = of_nat (s * 2 ^ k) + of_nat (2 ^ k)"
    using k s
    by (simp add: nextNonEquivalentValue_def lowestEquivalentValueGivenBucketIdx_def Let_def
        getBucketIndex_cell [OF c] getSubBucketIdx_cell [OF c lt] valueFromIndex_cell size)
  moreover have "(of_nat ((s + 1) * 2 ^ k - 1) :: int64) + 1 = of_nat ((s + 1) * 2 ^ k)"
  proof -
    have "Suc ((s + 1) * 2 ^ k - 1) = (s + 1) * 2 ^ k" by (cases "(s + 1) * (2::nat) ^ k") auto
    then show ?thesis by (metis of_nat_Suc add.commute)
  qed
  ultimately show ?thesis
    by (simp add: highestEquivalentValue_def algebra_simps)
qed

lemma cell_top:
  assumes "cell k s v"
  shows "cell k s ((s + 1) * 2 ^ k - 1)"
  using assms by (auto simp: cell_def)

lemma unat_highestEquivalentValue:
  assumes c: "cell k s (unat v)" and lt: "unat v < 2 ^ 63"
  shows "unat (highestEquivalentValue v) = (s + 1) * 2 ^ k - 1"
proof -
  have "(s + 1) * 2 ^ k - 1 < 2 ^ 63"
  proof -
    have "(s + 1) * 2 ^ k \<le> (256 :: nat) * 2 ^ 55"
      using cell_k_bound [OF c lt] c by (intro mult_mono power_increasing) (auto simp: cell_def)
    then show ?thesis by simp
  qed
  then show ?thesis
    unfolding highestEquivalentValue_cell [OF c lt]
    by (simp add: unsigned_of_nat take_bit_nat_eq_self)
qed

text \<open>The highest equivalent value shares the index, and no value above it does; it exceeds the
  value by at most one part in 128.\<close>

lemma highestEquivalentValue_props:
  assumes v: "0 \<le> sint v" "sint v < 2 ^ 32"
  defines "h \<equiv> highestEquivalentValue v"
  shows "sint v \<le> sint h" and "countsIndexFor h = countsIndexFor v"
    and "128 * (sint h - sint v) \<le> sint v"
    and "0 \<le> sint u \<Longrightarrow> countsIndexFor u = countsIndexFor v \<Longrightarrow> sint u \<le> sint h"
proof -
  have lt: "unat v < 2 ^ 63" by (rule unat_sint64(2) [OF v(1)])
  obtain k s where c: "cell k s (unat v)" using cell_exists by blast
  have uh: "unat h = (s + 1) * 2 ^ k - 1"
    unfolding h_def by (rule unat_highestEquivalentValue [OF c lt])
  have ch: "cell k s (unat h)" unfolding uh by (rule cell_top [OF c])
  have lth: "unat h < 2 ^ 63"
  proof -
    have "k \<le> 55" using cell_k_bound [OF c lt] by simp
    then have "(2::nat) ^ (k + 8) \<le> 2 ^ 63" by (intro power_increasing) auto
    then show ?thesis using cell_bounds(1) [OF ch] by linarith
  qed
  have sh: "sint h = int (unat h)" and sv: "sint v = int (unat v)"
    by (rule sint64_unat [OF lth], rule sint64_unat [OF lt])
  have le: "unat v \<le> unat h" using c unfolding uh cell_def by linarith
  then show "sint v \<le> sint h" unfolding sh sv by (simp only: of_nat_le_iff)
  show "countsIndexFor h = countsIndexFor v"
    by (simp only: countsIndexFor_cell [OF ch lth] countsIndexFor_cell [OF c lt])
  have "128 * (unat h - unat v) \<le> unat v"
  proof (cases "k = 0")
    case True
    then show ?thesis using c unfolding uh by (simp add: cell_def)
  next
    case False
    have "(s + 1) * 2 ^ k = s * 2 ^ k + 2 ^ k" by (simp add: algebra_simps)
    then have "unat h - unat v \<le> 2 ^ k" using c unfolding uh cell_def by linarith
    then have "128 * (unat h - unat v) \<le> 128 * 2 ^ k" by (rule mult_left_mono) simp
    also have "\<dots> \<le> unat v" using cell_bounds(2) [OF c] False by (simp add: power_add mult.commute)
    finally show ?thesis .
  qed
  then have "int (128 * (unat h - unat v)) \<le> int (unat v)" by (simp only: of_nat_le_iff)
  then show "128 * (sint h - sint v) \<le> sint v"
    unfolding sh sv of_nat_mult of_nat_diff [OF le] by (simp only: of_nat_numeral)
  assume u: "0 \<le> sint u" and iu: "countsIndexFor u = countsIndexFor v"
  have ltu: "unat u < 2 ^ 63" by (rule unat_sint64(2) [OF u])
  obtain k' s' where cu: "cell k' s' (unat u)" using cell_exists by blast
  have "int (128 * k' + s') = int (128 * k + s)"
    using sint_countsIndexFor_cell [OF cu ltu] sint_countsIndexFor_cell [OF c lt] iu by simp
  then have "128 * k' + s' = 128 * k + s" by (simp only: of_nat_eq_iff)
  moreover have "s < 256" "s' < 256" "k = 0 \<or> 128 \<le> s" "k' = 0 \<or> 128 \<le> s'"
    using c cu by (auto simp: cell_def)
  ultimately have "k' = k \<and> s' = s" by (intro index_inj) auto
  then have "unat u \<le> unat h" using cu unfolding uh cell_def by auto
  then show "sint u \<le> sint h"
    unfolding sh sint64_unat [OF ltu] by (simp only: of_nat_le_iff)
qed

section \<open>Recording\<close>

lemma RecordValues_ok:
  assumes "0 \<le> sint v" and "sint v < 2 ^ 32"
  shows "RecordValues h v n = (h\<lparr>CountsRep := hc_Add (CountsRep h) (countsIndexFor v) n\<rparr>, None)"
  using assms index_in_range_iff [of v] by (auto simp: RecordValues_def Let_def)

lemma RecordValues_error:
  assumes "\<not> (0 \<le> sint v \<and> sint v < 2 ^ 32)"
  shows "RecordValues h v n = (h, Some (ValueTooLarge v))"
  using assms index_in_range_iff [of v] by (auto simp: RecordValues_def Let_def)

section \<open>The iterator and Buckets\<close>

text \<open>The cell of an index, and the iterator standing on it.\<close>

definition idx_k :: "nat \<Rightarrow> nat" where
  "idx_k i = (if i < 256 then 0 else i div 128 - 1)"

definition idx_s :: "nat \<Rightarrow> nat" where
  "idx_s i = (if i < 256 then i else i mod 128 + 128)"

lemma idx_decompose: "128 * idx_k i + idx_s i = i"
proof (cases "i < 256")
  case False
  then have "1 \<le> i div 128" by simp
  moreover have "128 * (i div 128) + i mod 128 = i" by (rule mult_div_mod_eq)
  ultimately show ?thesis using False by (simp add: idx_k_def idx_s_def diff_mult_distrib2)
qed (simp add: idx_k_def idx_s_def)

lemma idx_cell: "cell (idx_k i) (idx_s i) (idx_s i * 2 ^ idx_k i)"
  by (auto simp: cell_def idx_k_def idx_s_def)

lemma idx_k_le: "i < 3328 \<Longrightarrow> idx_k i \<le> 24"
  by (auto simp: idx_k_def)

lemma idx_s_less: "idx_s i < 256"
  by (simp add: idx_s_def)

text \<open>The largest value counted under an index.\<close>

definition idx_top :: "nat \<Rightarrow> nat" where
  "idx_top i = (idx_s i + 1) * 2 ^ idx_k i - 1"

lemma idx_top_less: "i < 3328 \<Longrightarrow> idx_top i < 2 ^ 32"
proof -
  assume "i < 3328"
  then have "(idx_s i + 1) * 2 ^ idx_k i \<le> 256 * (2::nat) ^ 24"
    using idx_k_le [of i] idx_s_less [of i] by (intro mult_mono power_increasing) auto
  then show ?thesis by (simp add: idx_top_def)
qed

lemma idx_top_countsIndexFor:
  assumes "i < 3328"
  shows "countsIndexFor (of_nat (idx_top i)) = of_nat i"
proof -
  have lt: "idx_top i < 2 ^ 32" by (rule idx_top_less [OF assms])
  then have u: "unat (of_nat (idx_top i) :: int64) = idx_top i"
    by (simp add: unsigned_of_nat take_bit_nat_eq_self)
  have "cell (idx_k i) (idx_s i) (unat (of_nat (idx_top i) :: int64))"
    unfolding u unfolding idx_top_def by (rule cell_top [OF idx_cell])
  then have "countsIndexFor (of_nat (idx_top i)) = of_nat (128 * idx_k i + idx_s i)"
    by (rule countsIndexFor_cell) (use lt u in simp)
  then show ?thesis by (simp only: idx_decompose)
qed

definition iter_at :: "nat \<Rightarrow> int64 \<Rightarrow> iterator" where
  "iter_at i h = \<lparr>it_bucketIdx = of_nat (idx_k i), it_subBucketIdx = of_nat (idx_s i),
     it_valueFromIdx = of_nat (idx_s i * 2 ^ idx_k i), it_highestEquivalentValue = h\<rparr>"

lemma iter_at_0: "nextCountAtIdx new_iterator = (iter_at 0 0, True)"
  by (simp add: nextCountAtIdx_def new_iterator_def iter_at_def idx_k_def idx_s_def
      valueFromIndex_cell [of 0 0, simplified])

lemma idx_Suc:
  "idx_s (Suc i) = (if idx_s i + 1 \<ge> 256 then 128 else idx_s i + 1)"
  "idx_k (Suc i) = (if idx_s i + 1 \<ge> 256 then idx_k i + 1 else idx_k i)"
proof -
  have m: "Suc i mod 128 = (if i mod 128 = 127 then 0 else Suc (i mod 128))"
    and d: "Suc i div 128 = (if i mod 128 = 127 then Suc (i div 128) else i div 128)"
    by (auto simp: mod_Suc div_Suc)
  show "idx_s (Suc i) = (if idx_s i + 1 \<ge> 256 then 128 else idx_s i + 1)"
  proof (cases "i < 255")
    case False
    show ?thesis
    proof (cases "i = 255")
      case False
      then have "256 \<le> i" using \<open>\<not> i < 255\<close> by simp
      moreover have "i mod 128 < 128" by simp
      ultimately show ?thesis by (auto simp: idx_s_def m)
    qed (simp add: idx_s_def)
  qed (simp add: idx_s_def)
  show "idx_k (Suc i) = (if idx_s i + 1 \<ge> 256 then idx_k i + 1 else idx_k i)"
  proof (cases "i < 255")
    case False
    show ?thesis
    proof (cases "i = 255")
      case False
      then have "256 \<le> i" using \<open>\<not> i < 255\<close> by simp
      moreover have "i mod 128 < 128" "2 \<le> i div 128" using \<open>256 \<le> i\<close> by simp_all
      ultimately show ?thesis by (auto simp: idx_s_def idx_k_def d)
    qed (simp add: idx_s_def idx_k_def)
  qed (simp add: idx_s_def idx_k_def)
qed

lemma nextCountAtIdx_iter_at:
  assumes "Suc i < 3328"
  shows "nextCountAtIdx (iter_at i h) = (iter_at (Suc i) h, True)"
proof -
  have k: "idx_k i \<le> 24" "idx_k (Suc i) \<le> 24" using assms idx_k_le by simp_all
  have s: "idx_s i < 256" "idx_s (Suc i) < 256" by (rule idx_s_less)+
  have next_s: "sint (of_nat (idx_s i) + 1 :: int32) = int (idx_s i + 1)"
    using of_nat32_sint [of "idx_s i + 1"] s by (simp add: algebra_simps)
  have kk: "sint (of_nat (idx_k (Suc i)) :: int32) = int (idx_k (Suc i))"
    using of_nat32_sint [of "idx_k (Suc i)"] k by simp
  have val: "valueFromIndex (of_nat (idx_k (Suc i))) (of_nat (idx_s (Suc i))) =
      of_nat (idx_s (Suc i) * 2 ^ idx_k (Suc i))"
    using k s by (intro valueFromIndex_cell) auto
  show ?thesis
  proof (cases "idx_s i + 1 \<ge> 256")
    case True
    then show ?thesis
      using k kk val idx_Suc [of i] next_s
      by (simp add: nextCountAtIdx_def iter_at_def Let_def algebra_simps)
  next
    case False
    then show ?thesis
      using k kk val idx_Suc [of i] next_s
      by (simp add: nextCountAtIdx_def iter_at_def Let_def algebra_simps)
  qed
qed

lemma advance_loop_iter_at:
  "i + n < 3328 \<Longrightarrow> advance_loop n (iter_at i h) = (iter_at (i + n) h, True)"
  by (induction n arbitrary: i) (simp_all add: nextCountAtIdx_iter_at)

lemma advance_iter_at:
  assumes "i + n < 3328"
  shows "advance (iter_at i h) (int n) = (iter_at (i + n) (of_nat (idx_top (i + n))), True)"
proof -
  let ?j = "i + n"
  let ?v = "of_nat (idx_s ?j * 2 ^ idx_k ?j) :: int64"
  have "idx_s ?j * 2 ^ idx_k ?j \<le> 255 * (2::nat) ^ 24"
    using idx_k_le [OF assms] idx_s_less [of ?j] by (intro mult_mono power_increasing) auto
  then have lt: "idx_s ?j * 2 ^ idx_k ?j < 2 ^ 63" by simp
  then have u: "unat ?v = idx_s ?j * 2 ^ idx_k ?j"
    by (intro unat_of_nat64) (rule less_trans, assumption, simp)
  have "highestEquivalentValue ?v = of_nat (idx_top ?j)"
    unfolding idx_top_def
    by (rule highestEquivalentValue_cell) (use idx_cell [of ?j] lt u in auto)
  then show ?thesis
    unfolding advance_def nat_int advance_loop_iter_at [OF assms] by (simp add: iter_at_def)
qed

text \<open>
  The reference for \<^verbatim>\<open>Buckets\<close>: keep the bars with a positive count, and report for each its
  unscaled count and the largest value of its bucket.
\<close>

definition pos_bars :: "bar list \<Rightarrow> bar list" where
  "pos_bars bs = filter (\<lambda>b. 0 < sint (Count b)) bs"

definition ref_counts :: "bar list \<Rightarrow> uint64 list" where
  "ref_counts bs = map (\<lambda>b. scaled_count (Count b)) (pos_bars bs)"

definition ref_values :: "bar list \<Rightarrow> float64 list" where
  "ref_values bs = map (\<lambda>b. f64_of_int (int (idx_top (unat (Bucket b))))) (pos_bars bs)"

definition indices_ok :: "bar list \<Rightarrow> bool" where
  "indices_ok bs \<longleftrightarrow> bars_ok bs \<and> (\<forall>b \<in> set bs. unat (Bucket b) < 3328)"

lemma indices_ok_Cons:
  "indices_ok (x # bs) \<longleftrightarrow>
     unat (Bucket x) < 3328 \<and> indices_ok bs \<and> (\<forall>b \<in> set bs. unat (Bucket x) < unat (Bucket b))"
proof -
  have "sint (Bucket x) < sint (Bucket b) \<longleftrightarrow> unat (Bucket x) < unat (Bucket b)"
    if "unat (Bucket x) < 3328" "unat (Bucket b) < 3328" for b
  proof -
    have "sint (Bucket x) = int (unat (Bucket x))" "sint (Bucket b) = int (unat (Bucket b))"
      using that by (intro sint32_unat; simp)+
    then show ?thesis by (simp only: of_nat_less_iff)
  qed
  then show ?thesis by (auto simp: indices_ok_def bars_ok_def)
qed

lemma buckets_callback_step:
  assumes b: "unat bucket < 3328" and p: "unat (bs_prevBucket st) \<le> unat bucket"
    and it: "bs_iter st = iter_at (unat (bs_prevBucket st)) h" and c: "0 < sint n"
  shows "buckets_callback bucket n st =
    st\<lparr>bs_counts := bs_counts st @ [scaled_count n],
       bs_values := bs_values st @ [f64_of_int (int (idx_top (unat bucket)))],
       bs_totalCount := bs_totalCount st + scaled_count n,
       bs_prevBucket := bucket,
       bs_iter := iter_at (unat bucket) (of_nat (idx_top (unat bucket)))\<rparr>"
proof -
  let ?p = "unat (bs_prevBucket st)" and ?b = "unat bucket"
  have diff: "unat (bucket - bs_prevBucket st) = ?b - ?p"
    using p by (simp add: unat_sub word_le_nat_alt)
  have "sint (bucket - bs_prevBucket st) = int (?b - ?p)"
    using sint32_unat [of "bucket - bs_prevBucket st"] diff b by simp
  moreover have "advance (iter_at ?p h) (int (?b - ?p)) = (iter_at ?b (of_nat (idx_top ?b)), True)"
    using advance_iter_at [of ?p "?b - ?p" h] b p by simp
  moreover have "sint (of_nat (idx_top ?b) :: int64) = int (idx_top ?b)"
  proof -
    have "unat (of_nat (idx_top ?b) :: int64) = idx_top ?b"
      by (rule unat_of_nat64, rule less_trans [OF idx_top_less [OF b]]) simp
    then show ?thesis using sint64_unat [of "of_nat (idx_top ?b)"] idx_top_less [OF b] by simp
  qed
  ultimately show ?thesis
    using c by (simp add: buckets_callback_def Let_def it iter_at_def)
qed

lemma buckets_fold:
  assumes "indices_ok bs" and "\<forall>b \<in> set bs. unat (bs_prevBucket st) \<le> unat (Bucket b)"
    and "bs_iter st = iter_at (unat (bs_prevBucket st)) h"
  defines "st' \<equiv> fold (\<lambda>b. buckets_callback (Bucket b) (Count b)) bs st"
  shows "bs_counts st' = bs_counts st @ ref_counts bs
    \<and> bs_values st' = bs_values st @ ref_values bs
    \<and> bs_totalCount st' = bs_totalCount st + sum_list (ref_counts bs)"
  using assms(1-3) unfolding st'_def
proof (induction bs arbitrary: st h)
  case Nil
  then show ?case by (simp add: ref_counts_def ref_values_def pos_bars_def)
next
  case (Cons x bs)
  have x: "unat (Bucket x) < 3328" "indices_ok bs" "\<forall>b \<in> set bs. unat (Bucket x) < unat (Bucket b)"
    using Cons.prems(1) by (auto simp: indices_ok_Cons)
  show ?case
  proof (cases "0 < sint (Count x)")
    case False
    then have "buckets_callback (Bucket x) (Count x) st = st" by (simp add: buckets_callback_def)
    with False show ?thesis
      using Cons.IH [OF x(2), of st h] Cons.prems
      by (simp add: ref_counts_def ref_values_def pos_bars_def)
  next
    case True
    let ?st = "buckets_callback (Bucket x) (Count x) st"
    have step: "?st = st\<lparr>bs_counts := bs_counts st @ [scaled_count (Count x)],
       bs_values := bs_values st @ [f64_of_int (int (idx_top (unat (Bucket x))))],
       bs_totalCount := bs_totalCount st + scaled_count (Count x),
       bs_prevBucket := Bucket x,
       bs_iter := iter_at (unat (Bucket x)) (of_nat (idx_top (unat (Bucket x))))\<rparr>"
      by (rule buckets_callback_step [OF x(1) _ Cons.prems(3) True]) (use Cons.prems(2) in simp)
    have "\<forall>b \<in> set bs. unat (bs_prevBucket ?st) \<le> unat (Bucket b)"
      using x(3) by (auto simp: step less_imp_le)
    from Cons.IH [OF x(2) this, of "of_nat (idx_top (unat (Bucket x)))"] True show ?thesis
      by (simp add: step ref_counts_def ref_values_def pos_bars_def add.assoc)
  qed
qed

lemma hist_Buckets_ref:
  assumes "indices_ok (hc_bars (CountsRep h))"
  shows "hist_Buckets h =
    (sum_list (ref_counts (hc_bars (CountsRep h))), ref_counts (hc_bars (CountsRep h)),
     ref_values (hc_bars (CountsRep h)))"
proof -
  let ?st = "\<lparr>bs_counts = [], bs_values = [], bs_totalCount = 0, bs_prevBucket = 0,
      bs_iter = iter_at 0 0\<rparr>"
  have "bs_iter ?st = iter_at (unat (bs_prevBucket ?st)) 0" by simp
  from buckets_fold [OF assms _ this] show ?thesis
    by (simp add: hist_Buckets_def iter_at_0 hc_ForEach_bars)
qed

end
