(* ===== verification/EventStore.thy ===== *)
theory EventStore
  imports EventSpec Store HdrProofs
begin

text \<open>
  Events meet the database: the messages of an event are messages that the merger accepts, and the
  counts in them are those of the histogram that records the duration of the event.
\<close>

section \<open>The histogram of an event\<close>

text \<open>The one bucket that a duration is recorded in, with the scaled representative count.\<close>

definition event_bucket_count :: "float64 \<Rightarrow> APMEvent \<Rightarrow> int32 \<Rightarrow> int64" where
  "event_bucket_count c e b =
     (let v = Microseconds (AsDuration (getf ev_Duration None (ae_Event e)))
      in if 0 \<le> sint v \<and> sint v < 2 ^ 32 \<and> b = countsIndexFor v
         then f64_to_int64 (math_Round (fmul c (f64_of_int histogramCountScale))) else 0)"

lemma event_histogram_eq:
  "\<exists>h. event_histogram c e = setHistogramProto h zero_HDRHistogram \<and> hc_ok (CountsRep h)
    \<and> hc_count (CountsRep h) = event_bucket_count c e
    \<and> (\<forall>b \<in> set (hc_bars (CountsRep h)). 0 \<le> sint (Bucket b))"
proof -
  let ?v = "Microseconds (AsDuration (getf ev_Duration None (ae_Event e)))"
  let ?n = "f64_to_int64 (math_Round (fmul c (f64_of_int histogramCountScale)))"
  let ?h = "fst (RecordDuration hist_New (AsDuration (getf ev_Duration None (ae_Event e))) c)"
  have e: "event_histogram c e = setHistogramProto ?h zero_HDRHistogram"
    by (simp add: event_histogram_def record_histogram_def)
  have z: "CountsRep hist_New = hc_zero" by (simp add: hist_New_def)
  show ?thesis
  proof (cases "0 \<le> sint ?v \<and> sint ?v < 2 ^ 32")
    case True
    then have h: "CountsRep ?h = hc_Add hc_zero (countsIndexFor ?v) ?n"
      by (simp add: RecordDuration_def Let_def RecordValues_ok z)
    have "0 \<le> sint (countsIndexFor ?v)" using True index_in_range_iff [of ?v] by simp
    then have "\<forall>b \<in> set (hc_bars (CountsRep ?h)). 0 \<le> sint (Bucket b)"
      unfolding h by (simp add: hc_Add_first hc_zero_def hc_bars_def)
    moreover have "hc_count (CountsRep ?h) = event_bucket_count c e"
      unfolding h using True by (auto simp: hc_count_Add event_bucket_count_def)
    moreover have "hc_ok (CountsRep ?h)" unfolding h by simp
    ultimately show ?thesis using e by blast
  next
    case False
    then have h: "CountsRep ?h = hc_zero" by (simp add: RecordDuration_def Let_def RecordValues_error z)
    have "event_bucket_count c e = (\<lambda>_. 0)" using False by (auto simp: event_bucket_count_def Let_def)
    with e h show ?thesis by (intro exI [of _ ?h]) simp
  qed
qed

lemma setHistogramProto_pairs:
  "hdr_bars (setHistogramProto h pb) = map (\<lambda>b. (Bucket b, Count b)) (hc_bars (CountsRep h))"
  unfolding setHistogramProto_eq hdr_bars_def by (simp add: zip_map_map zip_same_conv_map)

lemma bars_at_count: "bars_at (map (\<lambda>b. (Bucket b, Count b)) bs) b = bars_count bs b"
  by (induction bs) (auto simp: bars_at_def bars_count_def)

lemma event_histogram_count: "hdr_count (event_histogram c e) b = event_bucket_count c e b"
  using event_histogram_eq [of c e] by (auto simp: hdr_count_def setHistogramProto_pairs bars_at_count hc_count_def)

lemma event_histogram_ok: "hdr_ok (event_histogram c e)"
proof -
  obtain h where h: "event_histogram c e = setHistogramProto h zero_HDRHistogram" "bars_ok (hc_bars (CountsRep h))"
    "\<forall>b \<in> set (hc_bars (CountsRep h)). 0 \<le> sint (Bucket b)"
    using event_histogram_eq [of c e] hc_bars_ok by blast
  then show ?thesis unfolding hdr_ok_def h(1) setHistogramProto_pairs
    by (simp add: setHistogramProto_eq bars_sorted_def bars_ok_def comp_def sorted_wrt_map)
qed

section \<open>Messages of an event are well-formed\<close>

lemma is_f64_signed_inf [simp]: "is_f64 (signed_inf s)"
  by (simp add: signed_inf_def)

lemma is_f64_fmul: "is_f64 (fmul a b)"
  by (induction a b rule: fmul.induct) (simp_all del: f_sgn.simps)

lemma is_f64_fdiv: "is_f64 (fdiv a b)"
  by (induction a b rule: fdiv.induct) (simp_all del: f_sgn.simps)

text \<open>The representative counts of an event are binary64 values.\<close>

definition event_ok :: "APMEvent \<Rightarrow> bool" where
  "event_ok e \<longleftrightarrow> is_f64 (getf tx_RepresentativeCount (Fin 0) (ae_Transaction e))"

fun group_ok :: "group \<Rightarrow> bool" where
  "group_ok (GTxn x) \<longleftrightarrow> ktm_ok x"
| "group_ok (GSvc x) \<longleftrightarrow> kstm_ok x \<and> KeyedServiceTransactionMetrics_rep x"
| "group_ok (GSpan x) \<longleftrightarrow> kspm_ok x \<and> KeyedSpanMetrics_rep x"
| "group_ok GNone \<longleftrightarrow> True"

definition part_ok :: "part_metrics \<Rightarrow> bool" where
  "part_ok q \<longleftrightarrow> list_all (group_ok \<circ> GTxn) (q_txns q) \<and> list_all (group_ok \<circ> GSvc) (q_svctxns q)
     \<and> list_all (group_ok \<circ> GSpan) (q_spans q)"

lemma place_ok: "group_ok g \<Longrightarrow> list_all part_ok qs \<Longrightarrow> list_all part_ok (place i g qs)"
proof (induction qs)
  case Nil
  then show ?case by (cases g) (simp_all add: part_ok_def)
next
  case (Cons q qs)
  then show ?case by (cases g) (auto simp: part_ok_def)
qed

lemma place_all_ok: "list_all (group_ok \<circ> snd) gs \<Longrightarrow> list_all part_ok qs \<Longrightarrow> list_all part_ok (place_all X n gs qs)"
  by (induction gs arbitrary: qs) (auto simp: place_ok)

lemma event_groups_ok: "event_ok e \<Longrightarrow> list_all (group_ok \<circ> snd) (event_groups X etype e h)"
  by (auto simp: event_groups_def Let_def list_all_iff txn_group_def svctxn_group_def dropped_group_def span_group_def
      ktm_ok_def kstm_ok_def kspm_ok_def hist_ok_def event_histogram_ok event_ok_def
      KeyedServiceTransactionMetrics_rep_def ServiceTransactionMetrics_rep_def KeyedSpanMetrics_rep_def
      SpanMetrics_rep_def setDroppedSpanStatsMetrics_def setSpanMetrics_def is_f64_fmul
      split: APMEventType.splits prod.splits)

lemma part_message_ok:
  assumes "part_ok q"
  shows "msg_ok (part_message e ivl n q)"
  using assms
  by (simp add: msg_ok_def part_message_def part_ok_def cm_msg_ok_def ksm_ok_def sm_msg_ok_def ksim_ok_def sim_msg_ok_def
      pbo_opt_ok_def cm_msg_anchored_def ksm_anchored_def CombinedMetrics_rep_def KeyedServiceMetrics_rep_def
      ServiceMetrics_rep_def KeyedServiceInstanceMetrics_rep_def ServiceInstanceMetrics_rep_def is_f64_fdiv comp_def list_all_iff)

lemma part_messages_ok:
  assumes "event_ok e"
  shows "list_all (msg_ok \<circ> snd) (part_messages X etype e key n)"
  using place_all_ok [OF event_groups_ok [OF assms], of "[]" X n X etype "event_digest X e (cmk_Interval key)"]
  by (auto simp: part_messages_def Let_def list_all_iff event_parts_def part_message_ok)

section \<open>Counts\<close>

definition part_weight :: "('sk, 'c::comm_monoid_add) metric \<Rightarrow> part_metrics \<Rightarrow> 'c" where
  "part_weight M q = sum_list (map (mt_txn M) (q_txns q)) + sum_list (map (mt_svctxn M) (q_svctxns q))
     + sum_list (map (mt_span M) (q_spans q))"

fun group_weight :: "('sk, 'c::comm_monoid_add) metric \<Rightarrow> group \<Rightarrow> 'c" where
  "group_weight M (GTxn x) = mt_txn M x"
| "group_weight M (GSvc x) = mt_svctxn M x"
| "group_weight M (GSpan x) = mt_span M x"
| "group_weight M GNone = 0"

lemma part_message_weight: "cm_msg_weight H M (part_message e ivl n q) = part_weight M q"
  by (simp add: cm_msg_weight_def part_message_def sm_msg_weight_def sim_msg_weight_def pbo_weight_def part_weight_def)

text \<open>Nothing is overwritten and no span is dropped that counts.\<close>

fun free_for :: "('sk, 'c::comm_monoid_add) metric \<Rightarrow> group \<Rightarrow> part_metrics \<Rightarrow> bool" where
  "free_for M (GTxn x) q \<longleftrightarrow> q_txns q = []"
| "free_for M (GSvc x) q \<longleftrightarrow> q_svctxns q = []"
| "free_for M (GSpan x) q \<longleftrightarrow> length (q_spans q) \<noteq> 128 \<or> mt_span M x = 0"
| "free_for M GNone q \<longleftrightarrow> True"

lemma put_group_weight: "free_for M g q \<Longrightarrow> part_weight M (put_group g q) = part_weight M q + group_weight M g"
  by (cases g) (auto simp: part_weight_def ac_simps)

lemma place_weight:
  assumes "list_all (free_for M g) qs"
  shows "sum_list (map (part_weight M) (place i g qs)) = sum_list (map (part_weight M) qs) + group_weight M g"
  using assms
proof (induction qs)
  case Nil
  have "free_for M g \<lparr>q_pid = i, q_txns = [], q_svctxns = [], q_spans = []\<rparr>" by (cases g) simp_all
  from put_group_weight [OF this] show ?case by (simp add: part_weight_def)
next
  case (Cons q qs)
  then show ?case by (simp add: put_group_weight ac_simps)
qed

lemma place_spans_weight:
  assumes "\<And>x. mt_span M x = 0" and "\<forall>dg \<in> set gs. \<exists>x. snd dg = GSpan x"
  shows "sum_list (map (part_weight M) (place_all X n gs qs)) = sum_list (map (part_weight M) qs)"
  using assms(2)
proof (induction gs arbitrary: qs)
  case (Cons dg gs)
  then obtain d x where dg: "dg = (d, GSpan x)" by (cases dg) auto
  have "list_all (free_for M (GSpan x)) qs" by (simp add: list_all_iff assms(1))
  from place_weight [OF this] Cons show ?case by (simp add: dg assms(1))
qed simp

text \<open>What an event contributes to a histogram bucket, of transactions and of service transactions alike.\<close>

definition event_weight :: "(APMEvent \<Rightarrow> APMEventType) \<Rightarrow> int32 \<Rightarrow> APMEvent \<Rightarrow> int64" where
  "event_weight etype b e =
     (let c = getf tx_RepresentativeCount (Fin 0) (ae_Transaction e)
      in if etype e = TransactionEventType \<and> \<not> fle c (Fin 0) then event_bucket_count c e b else 0)"

lemma event_parts_weight:
  assumes M: "M = txn_metric b \<or> M = svctxn_metric b"
  shows "sum_list (map (part_weight M) (event_parts X etype n e h)) = event_weight etype b e"
proof (cases "etype e = TransactionEventType \<and> \<not> fle (getf tx_RepresentativeCount (Fin 0) (ae_Transaction e)) (Fin 0)")
  case True
  let ?c = "getf tx_RepresentativeCount (Fin 0) (ae_Transaction e)"
  let ?i = "pid_of X n (HashTransactionAggregationKey X h (setTransactionKey e))"
  let ?j = "pid_of X n (HashServiceTransactionAggregationKey X h (setServiceTransactionKey e))"
  let ?T = "GTxn (txn_group e ?c)" let ?S = "GSvc (svctxn_group e ?c)"
  have s: "mt_span M x = 0" for x using M by (auto simp: txn_metric_def svctxn_metric_def)
  have "list_all (free_for M ?S) (place ?i ?T [])" by simp
  from place_weight [OF this] place_weight [where M = M and g = ?T and i = ?i and qs = "[]"]
  have "sum_list (map (part_weight M) (place ?j ?S (place ?i ?T []))) = group_weight M ?T + group_weight M ?S"
    by simp
  also have "\<dots> = event_bucket_count ?c e b"
    using M by (auto simp: txn_metric_def svctxn_metric_def txn_group_def svctxn_group_def tm_count_def stm_count_def
        hist_count_def event_histogram_count)
  finally show ?thesis
    using True
    by (simp add: event_parts_def event_groups_def Let_def place_spans_weight [OF s] event_weight_def
        del: place.simps)
next
  case False
  have "sum_list (map (part_weight M) (place i g [])) = 0" if "\<And>x. g \<noteq> GTxn x" "\<And>x. g \<noteq> GSvc x" for i g
    using that M by (cases g) (auto simp: part_weight_def txn_metric_def svctxn_metric_def)
  then show ?thesis
    using False by (cases "etype e") (auto simp: event_parts_def event_groups_def Let_def event_weight_def simp del: place.simps)
qed

lemma part_messages_weight:
  assumes "M = txn_metric b \<or> M = svctxn_metric b"
  shows "sum_list (map (cm_msg_weight H M \<circ> snd) (part_messages X etype e key n)) = event_weight etype b e"
  using event_parts_weight [OF assms, of X etype n e "event_digest X e (cmk_Interval key)"]
  by (simp add: part_messages_def Let_def comp_def part_message_weight)

end
