(* ===== verification/AggStore.thy ===== *)
theory AggStore
  imports Aggregator EventStore
begin

text \<open>
  The aggregator over a database that keeps pebble's promises: what the database and the batch hold
  are lists of keyed messages, and aggregation appends to them.
\<close>

section \<open>What pebble promises\<close>

definition in_range :: "bytes \<Rightarrow> bytes \<Rightarrow> bytes \<Rightarrow> bool" where
  "in_range lb ub k \<longleftrightarrow> \<not> bytes_less k lb \<and> bytes_less k ub"

definition operands_of :: "bytes \<Rightarrow> (bytes \<times> bytes) list \<Rightarrow> bytes list" where
  "operands_of k kvs = map snd (filter (\<lambda>kv. fst kv = k) kvs)"

text \<open>
  \<open>bops\<close> are the operations of a batch, \<open>dops\<close> the operands merged into a key since it was last
  deleted. A call that returns an error promises nothing. An iterator visits keys that hold operands,
  each once and with a value that merging the operands in some grouping gives; it has visited all of
  them when it ends without an error.
\<close>

definition pebble_laws ::
  "('sk, 'd) env \<Rightarrow> Limits \<Rightarrow> ('db, 'b, 'e) pebble \<Rightarrow> ('b \<Rightarrow> (bytes \<times> bytes) list) \<Rightarrow> ('db \<Rightarrow> bytes \<Rightarrow> bytes list) \<Rightarrow> bool" where
  "pebble_laws E l P bops dops \<longleftrightarrow>
     (\<forall>db. bops (pb_NewBatch P db) = [])
     \<and> (\<forall>b k v b'. pb_Finish P (pb_MergeDeferred P b (length k) (length v)) k v = Inr b' \<longrightarrow> bops b' = bops b @ [(k, v)])
     \<and> (\<forall>db b db'. pb_Commit P db b = (None, db') \<longrightarrow> dops db' = (\<lambda>k. dops db k @ operands_of k (bops b)))
     \<and> (\<forall>db lb ub db'. pb_DeleteRange P db lb ub = (None, db') \<longrightarrow>
          dops db' = (\<lambda>k. if in_range lb ub k then [] else dops db k))
     \<and> (\<forall>db lb ub kvs ok. pb_Iter P db lb ub = (kvs, ok) \<longrightarrow>
          distinct (map fst kvs)
          \<and> (\<forall>(k, v) \<in> set kvs. in_range lb ub k \<and> dops db k \<noteq> [] \<and> lsm_val E l (dops db k) v)
          \<and> (ok \<longrightarrow> (\<forall>k. in_range lb ub k \<longrightarrow> dops db k \<noteq> [] \<longrightarrow> k \<in> fst ` set kvs)))"

section \<open>Keyed messages\<close>

type_synonym keyed = "CombinedMetricsKey \<times> CombinedMetrics"

definition enc_op :: "keyed \<Rightarrow> bytes \<times> bytes" where
  "enc_op x = (enc_key (fst x), enc (snd x))"

definition at_key :: "bytes \<Rightarrow> keyed list \<Rightarrow> CombinedMetrics list" where
  "at_key k xs = map snd (filter (\<lambda>x. enc_key (fst x) = k) xs)"

lemma at_key_simps [simp]: "at_key k [] = []" "at_key k (xs @ ys) = at_key k xs @ at_key k ys"
  by (simp_all add: at_key_def)

lemma operands_of_enc: "operands_of k (map enc_op xs) = map enc (at_key k xs)"
  by (induction xs) (auto simp: operands_of_def at_key_def enc_op_def)

text \<open>
  The database holds the messages \<open>pd\<close>, the open batch the messages \<open>pb\<close>, in the order in which they
  were merged.
\<close>

definition db_holds :: "('db \<Rightarrow> bytes \<Rightarrow> bytes list) \<Rightarrow> 'db \<Rightarrow> keyed list \<Rightarrow> bool" where
  "db_holds dops db pd \<longleftrightarrow> (\<forall>k. dops db k = map enc (at_key k pd))"

definition batch_holds :: "('b \<Rightarrow> (bytes \<times> bytes) list) \<Rightarrow> 'b option \<Rightarrow> keyed list \<Rightarrow> bool" where
  "batch_holds bops b pb \<longleftrightarrow> (case b of None \<Rightarrow> pb = [] | Some b \<Rightarrow> bops b = map enc_op pb)"

definition agg_holds ::
  "('b \<Rightarrow> (bytes \<times> bytes) list) \<Rightarrow> ('db \<Rightarrow> bytes \<Rightarrow> bytes list) \<Rightarrow> ('db, 'b) Aggregator \<Rightarrow> keyed list \<Rightarrow> keyed list \<Rightarrow> bool" where
  "agg_holds bops dops a pd pb \<longleftrightarrow>
     (\<exists>db. ag_db a = Some db \<and> db_holds dops db pd) \<and> batch_holds bops (ag_batch a) pb"

text \<open>What aggregation leaves alone.\<close>

definition agg_frame :: "('db, 'b) Aggregator \<Rightarrow> ('db, 'b) Aggregator \<Rightarrow> bool" where
  "agg_frame a a' \<longleftrightarrow> ag_processingTime a' = ag_processingTime a \<and> ag_closed a' = ag_closed a
     \<and> ag_runStopped a' = ag_runStopped a \<and> ag_processed a' = ag_processed a"

lemma agg_frame_refl [simp]: "agg_frame a a"
  by (simp add: agg_frame_def)

lemma agg_frame_trans: "agg_frame a b \<Longrightarrow> agg_frame b c \<Longrightarrow> agg_frame a c"
  by (simp add: agg_frame_def)

text \<open>The messages \<open>xs\<close> were appended; some prefix of the batch may have moved to the database.\<close>

definition appended :: "keyed list \<Rightarrow> keyed list \<Rightarrow> keyed list \<Rightarrow> keyed list \<Rightarrow> keyed list \<Rightarrow> bool" where
  "appended pd pb xs pd' pb' \<longleftrightarrow> (\<exists>zs. pd' = pd @ zs \<and> zs @ pb' = pb @ xs)"

lemma appended_Nil: "appended pd pb [] pd pb"
  by (simp add: appended_def)

lemma appended_trans:
  "appended pd pb xs pd1 pb1 \<Longrightarrow> appended pd1 pb1 ys pd2 pb2 \<Longrightarrow> appended pd pb (xs @ ys) pd2 pb2"
  by (fastforce simp: appended_def)

section \<open>Aggregation appends\<close>

lemma MarshalToValue_enc [simp]: "MarshalToValue cm = Some (enc cm)"
  by (simp add: MarshalToValue_def CombinedMetrics_size)

lemma Marshal_key [simp]:
  "key_ok cmk \<Longrightarrow> MarshalBinaryToSizedBuffer cmk (replicate (SizeBinary cmk) 0) = Inr (enc_key cmk)"
  by (rule MarshalBinary_ok) (simp_all add: SizeBinary_def CombinedMetricsKeyEncodedSize_def)

lemma commit_holds:
  assumes "pebble_laws E l P bops dops" and "db_holds dops db pd" and "bops b = map enc_op pb"
    and "pb_Commit P db b = (None, db')"
  shows "db_holds dops db' (pd @ pb)"
proof -
  have "dops db' = (\<lambda>k. dops db k @ operands_of k (bops b))" using assms(1,4) by (simp add: pebble_laws_def)
  then show ?thesis using assms(2,3) by (simp add: db_holds_def operands_of_enc)
qed

lemma commit_batch_holds:
  assumes "pebble_laws E l P bops dops" and "ag_db a = Some db" and "db_holds dops db pd" and "bops b = map enc_op pb"
    and "commit_batch P db b a = (None, a')"
  shows "agg_holds bops dops a' (pd @ pb) [] \<and> agg_frame a a'"
  using assms commit_holds [OF assms(1,3,4)]
  by (auto simp: commit_batch_def agg_holds_def batch_holds_def agg_frame_def Let_def split: prod.splits option.splits)

lemma aggregate_holds:
  fixes P :: "('db, 'b, 'e) pebble"
  assumes L: "pebble_laws E l P bops dops" and a: "agg_holds bops dops a pd pb" and k: "key_ok cmk"
    and r: "aggregate P cmk cm a = Some (n, (None :: ('e, 'pe) agg_error option), a')"
  shows "\<exists>pd' pb'. agg_holds bops dops a' pd' pb' \<and> appended pd pb [(cmk, cm)] pd' pb' \<and> agg_frame a a'
    \<and> n = CombinedMetrics_SizeVT cm"
proof -
  obtain db where db: "ag_db a = Some db" "db_holds dops db pd" "batch_holds bops (ag_batch a) pb"
    using a by (auto simp: agg_holds_def)
  define b where "b = (case ag_batch a of None \<Rightarrow> pb_NewBatch P db | Some b \<Rightarrow> b)"
  have b: "bops b = map enc_op pb"
    using db(3) L by (auto simp: b_def batch_holds_def pebble_laws_def split: option.splits)
  obtain b1 where b1: "pb_Finish P (pb_MergeDeferred P b (SizeBinary cmk) (CombinedMetrics_SizeVT cm)) (enc_key cmk) (enc cm) = Inr b1"
    using r by (auto simp: aggregate_def db(1) k b_def [symmetric] Let_def split: sum.splits)
  have sizes: "SizeBinary cmk = length (enc_key cmk)" "CombinedMetrics_SizeVT cm = length (enc cm)"
    using k by (simp_all add: CombinedMetrics_size SizeBinary_def CombinedMetricsKeyEncodedSize_def)
  have "bops b1 = bops b @ [(enc_key cmk, enc cm)]"
    using L b1 unfolding pebble_laws_def sizes by blast
  then have b1ops: "bops b1 = map enc_op (pb @ [(cmk, cm)])"
    using b by (simp add: enc_op_def)
  let ?a = "a\<lparr>ag_batch := Some b1\<rparr>"
  show ?thesis
  proof (cases "pb_Len P b1 \<ge> dbCommitThresholdBytes")
    case True
    then have "commit_batch P db b1 ?a = ((None :: ('e, 'pe) agg_error option), a')" "n = CombinedMetrics_SizeVT cm"
      using r by (auto simp: aggregate_def db(1) k b_def [symmetric] b1 Let_def split: prod.splits)
    then show ?thesis
      using commit_batch_holds [OF L _ db(2) b1ops, of ?a a'] db(1)
      by (intro exI [of _ "pd @ pb @ [(cmk, cm)]"] exI [of _ "[]"]) (auto simp: appended_def agg_frame_def)
  next
    case False
    then have "a' = ?a" "n = CombinedMetrics_SizeVT cm"
      using r by (auto simp: aggregate_def db(1) k b_def [symmetric] b1 Let_def)
    then show ?thesis
      using db b1ops
      by (intro exI [of _ pd] exI [of _ "pb @ [(cmk, cm)]"])
        (auto simp: agg_holds_def batch_holds_def appended_def agg_frame_def)
  qed
qed

lemma run_callbacks_holds:
  fixes P :: "('db, 'b, 'e) pebble"
  assumes L: "pebble_laws E l P bops dops" and a: "agg_holds bops dops a pd pb" and k: "list_all (key_ok \<circ> fst) kms"
    and r: "run_callbacks (\<lambda>k m (t, a). do { (n, err, a) \<leftarrow> aggregate P k m a; Some ((t + n, a), err) }) kms (t, a)
      = Some ((t', a'), [] :: ('e, 'pe) agg_error list)"
  shows "\<exists>pd' pb'. agg_holds bops dops a' pd' pb' \<and> appended pd pb kms pd' pb' \<and> agg_frame a a'"
  using a k r
proof (induction kms arbitrary: a t pd pb)
  case Nil
  then show ?case using appended_Nil by fastforce
next
  case (Cons km kms)
  obtain cmk cm where km: "km = (cmk, cm)" by (rule prod.exhaust)
  obtain n a1 where 1: "aggregate P cmk cm a = Some (n, (None :: ('e, 'pe) agg_error option), a1)"
    "run_callbacks (\<lambda>k m (t, a). do { (n, err, a) \<leftarrow> aggregate P k m a; Some ((t + n, a), err) }) kms (t + n, a1)
      = Some ((t', a'), [] :: ('e, 'pe) agg_error list)"
    using Cons.prems(3) unfolding km by (auto split: bind_splits option.splits)
  have "key_ok cmk" using Cons.prems(2) by (simp add: km)
  from aggregate_holds [OF L Cons.prems(1) this 1(1)] obtain pd1 pb1 where
    2: "agg_holds bops dops a1 pd1 pb1" "appended pd pb [km] pd1 pb1" "agg_frame a a1" unfolding km by blast
  from Cons.IH [OF 2(1) _ 1(2)] Cons.prems(2) obtain pd2 pb2 where
    3: "agg_holds bops dops a' pd2 pb2" "appended pd1 pb1 kms pd2 pb2" "agg_frame a1 a'" by auto
  show ?case using 3(1) appended_trans [OF 2(2) 3(2)] agg_frame_trans [OF 2(3) 3(3)] by auto
qed

section \<open>The messages of a batch\<close>

definition base_key :: "bytes \<Rightarrow> gotime \<Rightarrow> duration \<Rightarrow> CombinedMetricsKey" where
  "base_key i t ivl = \<lparr>cmk_Interval = ivl, cmk_ProcessingTime = Truncate t ivl, cmk_PartitionID = 0, cmk_ID = i\<rparr>"

definition interval_messages ::
  "'d xxhash_ops \<Rightarrow> (APMEvent \<Rightarrow> APMEventType) \<Rightarrow> uint16 \<Rightarrow> bytes \<Rightarrow> gotime \<Rightarrow> APMEvent list \<Rightarrow> duration \<Rightarrow> keyed list" where
  "interval_messages X etype n i t es ivl = List.concat (map (\<lambda>e. part_messages X etype e (base_key i t ivl) n) es)"

definition batch_messages ::
  "'d xxhash_ops \<Rightarrow> (APMEvent \<Rightarrow> APMEventType) \<Rightarrow> uint16 \<Rightarrow> bytes \<Rightarrow> gotime \<Rightarrow> APMEvent list \<Rightarrow> duration list \<Rightarrow> keyed list" where
  "batch_messages X etype n i t es ivls = List.concat (map (interval_messages X etype n i t es) ivls)"

lemma key_ok_partition [simp]: "key_ok (k\<lparr>cmk_PartitionID := j\<rparr>) \<longleftrightarrow> key_ok k"
  by (simp add: key_ok_def key_secs_def key_unix_def)

lemma part_messages_keys:
  "x \<in> set (part_messages X etype e key n) \<Longrightarrow> \<exists>j. fst x = key\<lparr>cmk_PartitionID := j\<rparr>"
  by (auto simp: part_messages_def Let_def)

lemma part_messages_key_ok: "key_ok key \<Longrightarrow> list_all (key_ok \<circ> fst) (part_messages X etype e key n)"
  by (auto simp: list_all_iff dest: part_messages_keys)

lemma aggregateAPMEvent_holds:
  fixes P :: "('db, 'b, 'e) pebble" and cfg :: "('pe, 'kv, 'h) agg_config"
  assumes L: "pebble_laws E l P bops dops" and a: "agg_holds bops dops a pd pb" and k: "key_ok cmk"
    and pool: "pool_ok pool" and n: "cfg_Partitions cfg \<noteq> 0"
    and r: "aggregateAPMEvent P cfg X etype pool cmk e a = Some (bytesIn, [], a')"
  shows "\<exists>pd' pb'. agg_holds bops dops a' pd' pb' \<and> agg_frame a a'
    \<and> appended pd pb (part_messages X etype e cmk (cfg_Partitions cfg)) pd' pb'"
  using r run_callbacks_holds [OF L a part_messages_key_ok [OF k]]
  by (auto simp: aggregateAPMEvent_def EventToCombinedMetrics_def event_messages_parts [OF pool n] split: bind_splits) blast

lemma aggregate_events_holds:
  fixes P :: "('db, 'b, 'e) pebble" and cfg :: "('pe, 'kv, 'h) agg_config"
  assumes L: "pebble_laws E l P bops dops" and a: "agg_holds bops dops a pd pb" and k: "key_ok cmk"
    and pool: "\<And>j. pool_ok (pool j)" and n: "cfg_Partitions cfg \<noteq> 0"
    and r: "aggregate_events P cfg X etype pool cmk j es a = Some (bytesIn, [], a')"
  shows "\<exists>pd' pb'. agg_holds bops dops a' pd' pb' \<and> agg_frame a a'
    \<and> appended pd pb (List.concat (map (\<lambda>e. part_messages X etype e cmk (cfg_Partitions cfg)) es)) pd' pb'"
  using a r
proof (induction es arbitrary: a j pd pb bytesIn)
  case Nil
  then show ?case using appended_Nil by fastforce
next
  case (Cons e es)
  obtain b1 b2 a1 where 1: "aggregateAPMEvent P cfg X etype (pool j) cmk e a = Some (b1, [], a1)"
    "aggregate_events P cfg X etype pool cmk (Suc j) es a1 = Some (b2, [], a')"
    using Cons.prems(2) by (auto split: bind_splits)
  from aggregateAPMEvent_holds [OF L Cons.prems(1) k pool n 1(1)] obtain pd1 pb1 where
    2: "agg_holds bops dops a1 pd1 pb1" "agg_frame a a1"
      "appended pd pb (part_messages X etype e cmk (cfg_Partitions cfg)) pd1 pb1" by blast
  from Cons.IH [OF 2(1) 1(2)] obtain pd2 pb2 where
    3: "agg_holds bops dops a' pd2 pb2" "agg_frame a1 a'"
      "appended pd1 pb1 (List.concat (map (\<lambda>e. part_messages X etype e cmk (cfg_Partitions cfg)) es)) pd2 pb2" by blast
  show ?case using 3(1) agg_frame_trans [OF 2(2) 3(2)] appended_trans [OF 2(3) 3(3)] by auto
qed

lemma aggregate_intervals_holds:
  fixes P :: "('db, 'b, 'e) pebble" and cfg :: "('pe, 'kv, 'h) agg_config"
  assumes L: "pebble_laws E l P bops dops" and a: "agg_holds bops dops a pd pb"
    and k: "\<forall>ivl \<in> set ivls. key_ok (base_key i (ag_processingTime a) ivl)"
    and pool: "\<And>ivl j. pool_ok (pool ivl j)" and n: "cfg_Partitions cfg \<noteq> 0"
    and r: "aggregate_intervals P cfg X etype pool i es ivls a = Some (bytesIn, [], a')"
  shows "\<exists>pd' pb'. agg_holds bops dops a' pd' pb' \<and> agg_frame a a'
    \<and> appended pd pb (batch_messages X etype (cfg_Partitions cfg) i (ag_processingTime a) es ivls) pd' pb'"
  using a k r
proof (induction ivls arbitrary: a pd pb bytesIn)
  case Nil
  then show ?case using appended_Nil by (fastforce simp: batch_messages_def)
next
  case (Cons ivl ivls)
  obtain b1 b2 a1 where 1: "aggregate_events P cfg X etype (pool ivl) (base_key i (ag_processingTime a) ivl) 0 es a = Some (b1, [], a1)"
    "aggregate_intervals P cfg X etype pool i es ivls
       (a1\<lparr>ag_cachedEvents := ce_add (ag_cachedEvents a1) ivl i (f64_of_int (int (length es)))\<rparr>) = Some (b2, [], a')"
    using Cons.prems(3) by (auto simp: Let_def base_key_def split: bind_splits)
  have k1: "key_ok (base_key i (ag_processingTime a) ivl)" using Cons.prems(2) by simp
  from aggregate_events_holds [OF L Cons.prems(1) k1 pool n 1(1)] obtain pd1 pb1 where
    2: "agg_holds bops dops a1 pd1 pb1" "agg_frame a a1"
      "appended pd pb (interval_messages X etype (cfg_Partitions cfg) i (ag_processingTime a) es ivl) pd1 pb1"
    unfolding interval_messages_def by blast
  let ?a = "a1\<lparr>ag_cachedEvents := ce_add (ag_cachedEvents a1) ivl i (f64_of_int (int (length es)))\<rparr>"
  have a1: "agg_holds bops dops ?a pd1 pb1" "ag_processingTime ?a = ag_processingTime a"
    using 2(1,2) by (simp_all add: agg_holds_def agg_frame_def)
  from Cons.IH [OF a1(1) _ 1(2)] Cons.prems(2) a1(2) obtain pd2 pb2 where
    3: "agg_holds bops dops a' pd2 pb2" "agg_frame ?a a'"
      "appended pd1 pb1 (batch_messages X etype (cfg_Partitions cfg) i (ag_processingTime a) es ivls) pd2 pb2" by auto
  have "agg_frame a a'" using 2(2) 3(2) by (simp add: agg_frame_def)
  then show ?case using 3(1) appended_trans [OF 2(3) 3(3)] by (auto simp: batch_messages_def)
qed

lemma AggregateBatch_holds:
  fixes P :: "('db, 'b, 'e) pebble" and cfg :: "('pe, 'kv, 'h) agg_config"
  assumes L: "pebble_laws E l P bops dops" and a: "agg_holds bops dops a pd pb"
    and k: "\<forall>ivl \<in> set (cfg_AggregationIntervals cfg). key_ok (base_key i (ag_processingTime a) ivl)"
    and pool: "\<And>ivl j. pool_ok (pool ivl j)" and n: "cfg_Partitions cfg \<noteq> 0"
    and r: "AggregateBatch P cfg X etype pool ctx_done pick i es a = Some ([], a')"
  shows "\<exists>pd' pb'. agg_holds bops dops a' pd' pb' \<and> agg_frame a a' \<and> \<not> ag_closed a
    \<and> appended pd pb (batch_messages X etype (cfg_Partitions cfg) i (ag_processingTime a) es (cfg_AggregationIntervals cfg)) pd' pb'"
proof -
  obtain b a1 where 1: "aggregate_intervals P cfg X etype pool i es (cfg_AggregationIntervals cfg) a = Some (b, [], a1)"
    and a': "a' = a1\<lparr>ag_metrics := ag_metrics a1 @ [RequestsTotal i, BytesIngested i b]\<rparr>" and g: "\<not> ag_closed a"
    using r by (auto simp: AggregateBatch_def guard_def split: bind_splits option.splits if_splits)
  from aggregate_intervals_holds [OF L a k pool n 1] g show ?thesis
    by (auto simp: a' agg_holds_def agg_frame_def)
qed

lemma AggregateCombinedMetrics_holds:
  fixes P :: "('db, 'b, 'e) pebble"
  assumes L: "pebble_laws E l P bops dops" and a: "agg_holds bops dops a pd pb" and k: "key_ok cmk"
    and r: "AggregateCombinedMetrics P ctx_done pick cmk cm a = Some (None :: ('e, 'pe) agg_error option, a')"
  shows "\<exists>pd' pb'. agg_holds bops dops a' pd' pb' \<and> agg_frame a a' \<and> \<not> ag_closed a \<and> appended pd pb [(cmk, cm)] pd' pb'"
proof -
  obtain n a1 where 1: "aggregate P cmk cm a = Some (n, None :: ('e, 'pe) agg_error option, a1)"
    and a': "a' = a1\<lparr>ag_cachedEvents := ag_cachedEvents a', ag_metrics := ag_metrics a'\<rparr>" and g: "\<not> ag_closed a"
    using r by (auto simp: AggregateCombinedMetrics_def guard_def Let_def split: bind_splits option.splits if_splits)
  from aggregate_holds [OF L a k 1] obtain pd' pb' where
    "agg_holds bops dops a1 pd' pb'" "agg_frame a a1" "appended pd pb [(cmk, cm)] pd' pb'" by blast
  moreover have "ag_db a' = ag_db a1" "ag_batch a' = ag_batch a1" "ag_processingTime a' = ag_processingTime a1"
    "ag_closed a' = ag_closed a1" "ag_runStopped a' = ag_runStopped a1" "ag_processed a' = ag_processed a1"
    by (subst a', simp)+
  ultimately show ?thesis using g by (auto simp: agg_holds_def agg_frame_def)
qed

end
