(* ===== verification/AggHarvest.thy ===== *)
theory AggHarvest
  imports AggStore
begin

text \<open>
  Harvesting an interval processes what the database holds in the range of the interval, every key
  once, and deletes it.
\<close>

section \<open>Sums by key\<close>

lemma sum_filter_or:
  fixes w :: "'a \<Rightarrow> 'c::comm_monoid_add"
  assumes "\<And>x. \<not> (p x \<and> q x)"
  shows "sum_list (map w (filter (\<lambda>x. p x \<or> q x) xs)) = sum_list (map w (filter p xs)) + sum_list (map w (filter q xs))"
  using assms by (induction xs) (auto simp: ac_simps)

lemma sum_filter_not:
  "sum_list (map w xs) = sum_list (map w (filter p xs)) + sum_list (map w (filter (\<lambda>x. \<not> p x) xs))"
  for w :: "'a \<Rightarrow> 'c::comm_monoid_add"
  using sum_filter_or [of p "\<lambda>x. \<not> p x" w xs] by simp

lemma sum_by_key:
  fixes w :: "'a \<Rightarrow> 'c::comm_monoid_add"
  assumes "distinct ks"
  shows "sum_list (map (\<lambda>k. sum_list (map w (filter (\<lambda>x. f x = k) xs))) ks)
    = sum_list (map w (filter (\<lambda>x. f x \<in> set ks) xs))"
  using assms
proof (induction ks)
  case (Cons k ks)
  then show ?case using sum_filter_or [of "\<lambda>x. f x = k" "\<lambda>x. f x \<in> set ks" w xs] by auto
qed simp

section \<open>The loop over the entries\<close>

definition entry_of :: "bytes \<times> bytes \<Rightarrow> keyed \<Rightarrow> bool" where
  "entry_of kv x \<longleftrightarrow> fst kv = enc_key (fst x) \<and> key_ok (fst x)
     \<and> CombinedMetrics_UnmarshalVT (snd kv) zero_CombinedMetrics = Inr (snd x)"

text \<open>Harvesting changes the list of processed messages and the telemetry, and the database.\<close>

definition harvest_frame :: "('db, 'b) Aggregator \<Rightarrow> ('db, 'b) Aggregator \<Rightarrow> bool" where
  "harvest_frame a a' \<longleftrightarrow> ag_processingTime a' = ag_processingTime a \<and> ag_closed a' = ag_closed a
     \<and> ag_runStopped a' = ag_runStopped a \<and> ag_batch a' = ag_batch a \<and> ag_cachedEvents a' = ag_cachedEvents a"

definition no_storage_errors :: "('e, 'pe) agg_error list \<Rightarrow> bool" where
  "no_storage_errors errs \<longleftrightarrow> (\<forall>e. Storage e \<notin> set errs)"

lemma no_storage_simps [simp]:
  "no_storage_errors []" "no_storage_errors (err # errs) \<longleftrightarrow> (\<forall>e. err \<noteq> Storage e) \<and> no_storage_errors errs"
  "no_storage_errors (errs @ errs') \<longleftrightarrow> no_storage_errors errs \<and> no_storage_errors errs'"
  by (auto simp: no_storage_errors_def)

text \<open>Errors that the processor returned, and nothing else.\<close>

definition processor_errors :: "('e, 'pe) agg_error list \<Rightarrow> bool" where
  "processor_errors errs \<longleftrightarrow> (\<forall>err \<in> set errs. \<exists>pe. err = ProcessorFailed pe)"

lemma processor_errors_simps [simp]:
  "processor_errors []" "processor_errors (err # errs) \<longleftrightarrow> (\<exists>pe. err = ProcessorFailed pe) \<and> processor_errors errs"
  "processor_errors (errs @ errs') \<longleftrightarrow> processor_errors errs \<and> processor_errors errs'"
  by (auto simp: processor_errors_def)

lemma processor_no_storage: "processor_errors errs \<Longrightarrow> no_storage_errors errs"
  by (auto simp: processor_errors_def no_storage_errors_def)

lemma harvest_entries_ok:
  assumes "list_all2 entry_of kvs xs"
  shows "\<exists>c errs a'. harvest_entries processor ivl kvs a = Some (c, errs, a')
    \<and> ag_processed a' = ag_processed a @ map (\<lambda>(k, x). (k, x, ivl)) xs \<and> ag_db a' = ag_db a \<and> harvest_frame a a'
    \<and> processor_errors errs \<and> c + length errs = length kvs"
  using assms
proof (induction kvs xs arbitrary: a rule: list_all2_induct)
  case Nil
  then show ?case by (simp add: harvest_frame_def)
next
  case (Cons kv kvs x xs)
  obtain k v where kv: "kv = (k, v)" by (rule prod.exhaust)
  obtain key m where x: "x = (key, m)" by (rule prod.exhaust)
  have k: "UnmarshalBinary k = Some (Inr key)" "CombinedMetrics_UnmarshalVT v zero_CombinedMetrics = Inr m"
    using Cons.hyps(1) UnmarshalBinary_enc [of key "[]"] by (simp_all add: entry_of_def kv x)
  let ?a = "a\<lparr>ag_processed := ag_processed a @ [(key, m, ivl)]\<rparr>"
  show ?case
  proof (cases "processor key m ivl")
    case None
    let ?a' = "?a\<lparr>ag_metrics := ag_metrics a @ [MetricEventsProcessed ivl (cmk_ID key) (pbcm_EventsTotal m)]\<rparr>"
    from Cons.IH [of ?a'] None k show ?thesis
      by (auto simp: kv x processHarvest_def Let_def harvest_frame_def)
  next
    case (Some err)
    from Cons.IH [of ?a] Some k show ?thesis
      by (auto simp: kv x processHarvest_def Let_def harvest_frame_def)
  qed
qed

section \<open>One interval\<close>

lemma encode_bound_enc: "key_ok (bound_key ivl t) \<Longrightarrow> encode_bound ivl t = enc_key (bound_key ivl t)"
  by (simp add: encode_bound_def Let_def CombinedMetricsKeyEncodedSize_def MarshalBinary_ok)

definition window :: "duration \<Rightarrow> gotime \<Rightarrow> gotime \<Rightarrow> keyed \<Rightarrow> bool" where
  "window ivl start stop x \<longleftrightarrow> cmk_Interval (fst x) = ivl \<and> start \<le> cmk_ProcessingTime (fst x) \<and> cmk_ProcessingTime (fst x) < stop"

lemma in_range_window:
  assumes "key_ok (fst x)" and "key_ok (bound_key ivl start)" and "key_ok (bound_key ivl stop)"
  shows "in_range (encode_bound ivl start) (encode_bound ivl stop) (enc_key (fst x)) \<longleftrightarrow> window ivl start stop x"
  using harvest_range [OF assms] assms(2,3) by (simp add: in_range_def encode_bound_enc window_def)

abbreviation kw :: "'sk hll_ops \<Rightarrow> ('sk, 'c::comm_monoid_add) metric \<Rightarrow> keyed list \<Rightarrow> 'c" where
  "kw H M xs \<equiv> sum_list (map (cm_msg_weight H M \<circ> snd) xs)"

definition keyed_ok :: "keyed \<Rightarrow> bool" where
  "keyed_ok x \<longleftrightarrow> key_ok (fst x) \<and> msg_ok (snd x)"

lemma at_key_ok: "list_all keyed_ok xs \<Longrightarrow> list_all msg_ok (at_key k xs)"
  by (auto simp: list_all_iff at_key_def keyed_ok_def)

text \<open>The counts of the buckets of both kinds of histograms.\<close>

definition hist_metric :: "('sk, int64) metric \<Rightarrow> bool" where
  "hist_metric M \<longleftrightarrow> (\<exists>b. M = txn_metric b \<or> M = svctxn_metric b)"

definition key_weight :: "'sk hll_ops \<Rightarrow> ('sk, int64) metric \<Rightarrow> keyed list \<Rightarrow> bytes \<Rightarrow> int64" where
  "key_weight H M pd k = sum_list (map (cm_msg_weight H M) (at_key k pd))"

lemma key_weight_sum:
  assumes "distinct ks"
  shows "sum_list (map (key_weight H M pd) ks) = kw H M (filter (\<lambda>x. enc_key (fst x) \<in> set ks) pd)"
  using sum_by_key [OF assms, of "cm_msg_weight H M \<circ> snd" "enc_key \<circ> fst" pd]
  by (simp add: key_weight_def [abs_def] at_key_def comp_def)

text \<open>What an entry decodes to, with the counts of all messages of its key.\<close>

lemma entry_decodes:
  assumes H: "hll_roundtrip (hll E)" and pd: "list_all keyed_ok pd"
    and kv: "at_key k pd \<noteq> []" "lsm_val E l (map enc (at_key k pd)) v"
  shows "\<exists>y. entry_of (k, v) y \<and> (\<exists>x \<in> set pd. fst x = fst y)
    \<and> (\<forall>M. hist_metric M \<longrightarrow> cm_msg_weight (hll E) M (snd y) = key_weight (hll E) M pd k)"
proof -
  from lsm_invariant(1) [OF H kv(2) refl at_key_ok [OF pd]] obtain m where m: "stored (hll E) (at_key k pd) v m" by blast
  from kv(1) obtain x where x: "x \<in> set pd" "enc_key (fst x) = k"
    by (auto simp: at_key_def filter_empty_conv)
  then have "key_ok (fst x)" using pd by (auto simp: list_all_iff keyed_ok_def)
  with x m show ?thesis
    by (intro exI [of _ "(fst x, m)"]) (auto simp: entry_of_def stored_def hist_metric_def key_weight_def)
qed

lemma entries_decode:
  assumes H: "hll_roundtrip (hll E)" and pd: "list_all keyed_ok pd"
    and kvs: "\<forall>(k, v) \<in> set kvs. at_key k pd \<noteq> [] \<and> lsm_val E l (map enc (at_key k pd)) v"
  shows "\<exists>ys. list_all2 entry_of kvs ys \<and> (\<forall>y \<in> set ys. \<exists>x \<in> set pd. fst x = fst y)
    \<and> (\<forall>M. hist_metric M \<longrightarrow> kw (hll E) M ys = sum_list (map (key_weight (hll E) M pd) (map fst kvs)))"
  using kvs
proof (induction kvs)
  case (Cons kv kvs)
  obtain k v where kv: "kv = (k, v)" by (rule prod.exhaust)
  have "\<forall>(k, v) \<in> set kvs. at_key k pd \<noteq> [] \<and> lsm_val E l (map enc (at_key k pd)) v" using Cons.prems by simp
  from Cons.IH [OF this] obtain ys where "list_all2 entry_of kvs ys" "\<forall>y \<in> set ys. \<exists>x \<in> set pd. fst x = fst y"
    "\<forall>M. hist_metric M \<longrightarrow> kw (hll E) M ys = sum_list (map (key_weight (hll E) M pd) (map fst kvs))"
    by blast
  moreover have "at_key k pd \<noteq> []" "lsm_val E l (map enc (at_key k pd)) v" using Cons.prems by (auto simp: kv)
  with entry_decodes [OF H pd] obtain y where "entry_of (k, v) y" "\<exists>x \<in> set pd. fst x = fst y"
    "\<forall>M. hist_metric M \<longrightarrow> cm_msg_weight (hll E) M (snd y) = key_weight (hll E) M pd k" by blast
  ultimately show ?case by (intro exI [of _ "y # ys"]) (auto simp: kv comp_def)
qed simp

lemma enc_key_inj:
  assumes "key_ok k" and "key_ok k'" and "enc_key k = enc_key k'"
  shows "k = k'"
proof -
  have "Some (Inr k :: key_error + _) = Some (Inr k')"
    using UnmarshalBinary_enc [OF assms(1), of "[]"] UnmarshalBinary_enc [OF assms(2), of "[]"] unfolding assms(3) by simp
  then show ?thesis by simp
qed

lemma entry_keys:
  assumes "list_all2 entry_of kvs ys"
  shows "map fst kvs = map enc_key (map fst ys)" and "\<forall>y \<in> set ys. key_ok (fst y)"
  using assms by (induction rule: list_all2_induct) (auto simp: entry_of_def)

text \<open>
  The harvest of one interval: what is in the window leaves the database and is processed, and no
  count is lost.
\<close>

definition due_ok :: "duration \<Rightarrow> gotime \<Rightarrow> bool" where
  "due_ok ivl stop \<longleftrightarrow> key_ok (bound_key ivl (stop - ivl)) \<and> key_ok (bound_key ivl stop)"

definition iter_complete :: "('db, 'b, 'e) pebble \<Rightarrow> 'db \<Rightarrow> duration \<Rightarrow> gotime \<Rightarrow> bool" where
  "iter_complete P snap ivl stop \<longleftrightarrow> snd (pb_Iter P snap (encode_bound ivl (stop - ivl)) (encode_bound ivl stop))"

lemma at_key_window:
  assumes "list_all keyed_ok xs" and "due_ok ivl stop"
    and "in_range (encode_bound ivl (stop - ivl)) (encode_bound ivl stop) k"
  shows "at_key k xs = at_key k (filter (window ivl (stop - ivl) stop) xs)"
proof -
  have "window ivl (stop - ivl) stop x" if "x \<in> set xs" "enc_key (fst x) = k" for x
    using in_range_window [of x ivl "stop - ivl" stop] assms that by (auto simp: due_ok_def list_all_iff keyed_ok_def)
  then show ?thesis unfolding at_key_def filter_filter by (intro arg_cong [where f = "map snd"] filter_cong) auto
qed

lemma harvestForInterval_holds:
  fixes P :: "('db, 'b, 'e) pebble" and processor :: "'pe processor"
  assumes L: "pebble_laws E l P bops dops" and H: "hll_roundtrip (hll E)" and pd: "list_all keyed_ok pd"
    and due: "due_ok ivl stop" and db: "ag_db a = Some db" "db_holds dops db pd"
    and ps: "db_holds dops snap ps" "list_all keyed_ok ps"
      "filter (window ivl (stop - ivl) stop) ps = filter (window ivl (stop - ivl) stop) pd"
    and ok: "iter_complete P snap ivl stop"
    and r: "harvestForInterval P processor snap (stop - ivl) stop ivl stats a = Some (c, errs, a')"
    and errs: "no_storage_errors (errs :: ('e, 'pe) agg_error list)"
  shows "\<exists>db' ys. ag_db a' = Some db' \<and> db_holds dops db' (filter (\<lambda>x. \<not> window ivl (stop - ivl) stop x) pd)
    \<and> harvest_frame a a' \<and> ag_processed a' = ag_processed a @ map (\<lambda>(k, x). (k, x, ivl)) ys
    \<and> distinct (map fst ys) \<and> fst ` set ys = fst ` set (filter (window ivl (stop - ivl) stop) pd)
    \<and> c + length errs = length ys
    \<and> (\<forall>M. hist_metric M \<longrightarrow> kw (hll E) M ys = kw (hll E) M (filter (window ivl (stop - ivl) stop) pd))"
proof -
  let ?lb = "encode_bound ivl (stop - ivl)" let ?ub = "encode_bound ivl stop"
  have win: "in_range ?lb ?ub (enc_key (fst x)) \<longleftrightarrow> window ivl (stop - ivl) stop x" if "x \<in> set pd" for x
    using in_range_window [of x ivl "stop - ivl" stop] due pd that by (simp add: due_ok_def list_all_iff keyed_ok_def)
  have dops: "dops db k = map enc (at_key k pd)" for k using db(2) by (simp add: db_holds_def)
  have snap: "dops snap k = dops db k" if "in_range ?lb ?ub k" for k
    using at_key_window [OF pd due that] at_key_window [OF ps(2) due that] ps(1,3) by (simp add: db_holds_def dops)
  obtain kvs where it: "pb_Iter P snap ?lb ?ub = (kvs, True)"
    using ok by (cases "pb_Iter P snap ?lb ?ub") (simp add: iter_complete_def)
  have kvs: "distinct (map fst kvs)"
    "\<forall>(k, v) \<in> set kvs. in_range ?lb ?ub k \<and> dops snap k \<noteq> [] \<and> lsm_val E l (dops snap k) v"
    "\<forall>k. in_range ?lb ?ub k \<longrightarrow> dops snap k \<noteq> [] \<longrightarrow> k \<in> fst ` set kvs"
    using L it unfolding pebble_laws_def by blast+
  have "\<forall>(k, v) \<in> set kvs. at_key k pd \<noteq> [] \<and> lsm_val E l (map enc (at_key k pd)) v"
    using kvs(2) snap dops by fastforce
  from entries_decode [OF H pd this] obtain ys where ys: "list_all2 entry_of kvs ys"
    "\<forall>M. hist_metric M \<longrightarrow> kw (hll E) M ys = sum_list (map (key_weight (hll E) M pd) (map fst kvs))"
    and sub: "\<forall>y \<in> set ys. \<exists>x \<in> set pd. fst x = fst y" by blast
  note ks = entry_keys [OF ys(1)]
  have seen: "enc_key (fst x) \<in> set (map fst kvs) \<longleftrightarrow> window ivl (stop - ivl) stop x" if "x \<in> set pd" for x
  proof
    assume "enc_key (fst x) \<in> set (map fst kvs)"
    then show "window ivl (stop - ivl) stop x" using kvs(2) win [OF that] by auto
  next
    assume w: "window ivl (stop - ivl) stop x"
    have "at_key (enc_key (fst x)) pd \<noteq> []" using that by (auto simp: at_key_def filter_empty_conv)
    then show "enc_key (fst x) \<in> set (map fst kvs)"
      using kvs(3) win [OF that] w snap by (simp add: dops)
  qed
  have keys: "fst ` set ys = fst ` set (filter (window ivl (stop - ivl) stop) pd)"
  proof (intro equalityI subsetI)
    fix k assume "k \<in> fst ` set ys"
    then obtain x where "x \<in> set pd" "fst x = k" using sub by auto
    moreover have "enc_key k \<in> set (map fst kvs)" unfolding ks(1) using \<open>k \<in> fst ` set ys\<close> by auto
    ultimately show "k \<in> fst ` set (filter (window ivl (stop - ivl) stop) pd)" using seen [of x] by auto
  next
    fix k assume "k \<in> fst ` set (filter (window ivl (stop - ivl) stop) pd)"
    then obtain x where x: "x \<in> set pd" "fst x = k" "enc_key k \<in> set (map fst kvs)" using seen by auto
    then obtain y where "y \<in> set ys" "enc_key (fst y) = enc_key k" using ks(1) by auto
    moreover have "key_ok k" using x(1,2) pd by (auto simp: list_all_iff keyed_ok_def)
    ultimately have "fst y = k" using enc_key_inj ks(2) by blast
    with \<open>y \<in> set ys\<close> show "k \<in> fst ` set ys" by blast
  qed
  have dist: "distinct (map fst ys)" using kvs(1) unfolding ks(1) distinct_map by simp
  from seen have "filter (\<lambda>x. enc_key (fst x) \<in> set (map fst kvs)) pd = filter (window ivl (stop - ivl) stop) pd"
    by (intro filter_cong) auto
  with ys(2) key_weight_sum [OF kvs(1), of "hll E" _ pd]
  have w: "\<forall>M. hist_metric M \<longrightarrow> kw (hll E) M ys = kw (hll E) M (filter (window ivl (stop - ivl) stop) pd)" by simp
  let ?a = "a\<lparr>ag_metrics := ag_metrics a @ map (\<lambda>(i, n). MetricEventsTotal ivl i n) stats\<rparr>"
  obtain c1 errs1 a1 where a1: "harvest_entries processor ivl kvs ?a = Some (c1, errs1 :: ('e, 'pe) agg_error list, a1)"
    "ag_processed a1 = ag_processed a @ map (\<lambda>(k, x). (k, x, ivl)) ys" "ag_db a1 = Some db" "harvest_frame ?a a1"
    "c1 + length errs1 = length ys"
    using harvest_entries_ok [OF ys(1), of processor ivl ?a] db(1) list_all2_lengthD [OF ys(1)] by fastforce
  obtain err db' where del: "pb_DeleteRange P db ?lb ?ub = (err, db')" by (rule prod.exhaust)
  have a': "a' = a1\<lparr>ag_db := Some db'\<rparr>" "err = None" "c = c1" "errs = errs1"
    using r errs by (auto simp: harvestForInterval_def Let_def it a1(1,3) del split: option.splits)
  have "dops db' = (\<lambda>k. if in_range ?lb ?ub k then [] else dops db k)"
    using L del a'(2) unfolding pebble_laws_def by blast
  moreover have "at_key k (filter (\<lambda>x. \<not> window ivl (stop - ivl) stop x) pd)
      = (if in_range ?lb ?ub k then [] else at_key k pd)" for k
  proof -
    have "filter (\<lambda>x. enc_key (fst x) = k \<and> \<not> window ivl (stop - ivl) stop x) pd
        = (if in_range ?lb ?ub k then [] else filter (\<lambda>x. enc_key (fst x) = k) pd)"
      using win by (auto simp: filter_empty_conv intro!: filter_cong)
    then show ?thesis by (simp add: at_key_def conj_commute)
  qed
  ultimately have "db_holds dops db' (filter (\<lambda>x. \<not> window ivl (stop - ivl) stop x) pd)"
    by (simp add: db_holds_def dops)
  with a' a1 w keys dist show ?thesis by (intro exI [of _ db'] exI [of _ ys]) (simp add: harvest_frame_def)
qed

section \<open>One round of a harvest\<close>

definition harvested :: "duration \<Rightarrow> gotime \<Rightarrow> keyed list \<Rightarrow> keyed list" where
  "harvested ivl stop pd =
     (if Truncate stop ivl = stop then filter (\<lambda>x. \<not> window ivl (stop - ivl) stop x) pd else pd)"

text \<open>The weight of what was processed for an interval, and of the messages of an interval.\<close>

definition processed_weight ::
  "'sk hll_ops \<Rightarrow> ('sk, int64) metric \<Rightarrow> duration \<Rightarrow> (CombinedMetricsKey \<times> CombinedMetrics \<times> duration) list \<Rightarrow> int64" where
  "processed_weight H M i ps = sum_list (map (\<lambda>(k, x, j). if j = i then cm_msg_weight H M x else 0) ps)"

definition pending_weight :: "'sk hll_ops \<Rightarrow> ('sk, int64) metric \<Rightarrow> duration \<Rightarrow> keyed list \<Rightarrow> int64" where
  "pending_weight H M i xs = kw H M (filter (\<lambda>x. cmk_Interval (fst x) = i) xs)"

lemma processed_weight_append [simp]:
  "processed_weight H M i (ps @ qs) = processed_weight H M i ps + processed_weight H M i qs"
  by (simp add: processed_weight_def)

lemma processed_weight_new:
  "processed_weight H M i (map (\<lambda>(k, x). (k, x, ivl)) ys) = (if ivl = i then kw H M ys else 0)"
  by (induction ys) (auto simp: processed_weight_def comp_def)

lemma pending_weight_append [simp]: "pending_weight H M i (xs @ ys) = pending_weight H M i xs + pending_weight H M i ys"
  by (simp add: pending_weight_def)

lemma pending_weight_window:
  "pending_weight H M i xs
     = (if ivl = i then kw H M (filter (window ivl start stop) xs) else 0)
       + pending_weight H M i (filter (\<lambda>x. \<not> window ivl start stop x) xs)"
proof -
  have "filter (\<lambda>x. window ivl start stop x \<and> cmk_Interval (fst x) = i) xs
      = (if ivl = i then filter (window ivl start stop) xs else [])"
    by (auto simp: window_def filter_empty_conv intro!: filter_cong)
  moreover have "filter (\<lambda>x. \<not> window ivl start stop x \<and> cmk_Interval (fst x) = i) xs
      = filter (\<lambda>x. cmk_Interval (fst x) = i \<and> \<not> window ivl start stop x) xs"
    by (intro filter_cong) auto
  ultimately show ?thesis
    using sum_filter_not [of "cm_msg_weight H M \<circ> snd" "filter (\<lambda>x. cmk_Interval (fst x) = i) xs" "window ivl start stop"]
    by (simp add: pending_weight_def conj_commute)
qed

lemma harvest_step_holds:
  fixes P :: "('db, 'b, 'e) pebble" and processor :: "'pe processor"
  assumes L: "pebble_laws E l P bops dops" and H: "hll_roundtrip (hll E)" and pd: "list_all keyed_ok pd"
    and db: "ag_db a = Some db" "db_holds dops db pd"
    and due: "Truncate stop ivl = stop \<Longrightarrow> due_ok ivl stop" "Truncate stop ivl = stop \<Longrightarrow> iter_complete P snap ivl stop"
    and ps: "db_holds dops snap ps" "list_all keyed_ok ps"
      "Truncate stop ivl = stop \<Longrightarrow> filter (window ivl (stop - ivl) stop) ps = filter (window ivl (stop - ivl) stop) pd"
    and r: "harvest_step P processor snap stop stats ivl a = Some (errs, a')"
    and errs: "no_storage_errors (errs :: ('e, 'pe) agg_error list)"
  shows "\<exists>db'. ag_db a' = Some db' \<and> db_holds dops db' (harvested ivl stop pd) \<and> harvest_frame a a'
    \<and> (\<forall>M i. hist_metric M \<longrightarrow> processed_weight (hll E) M i (ag_processed a') + pending_weight (hll E) M i (harvested ivl stop pd)
          = processed_weight (hll E) M i (ag_processed a) + pending_weight (hll E) M i pd)"
proof (cases "Truncate stop ivl = stop")
  case False
  with r db show ?thesis by (simp add: harvest_step_def harvested_def harvest_frame_def)
next
  case True
  obtain c where c: "harvestForInterval P processor snap (stop - ivl) stop ivl
      (case gm_get stats ivl of None \<Rightarrow> [] | Some m \<Rightarrow> m) a = Some (c, errs, a')"
    using r True by (auto simp: harvest_step_def split: bind_splits)
  from harvestForInterval_holds [OF L H pd due(1) [OF True] db ps(1,2) ps(3) [OF True] due(2) [OF True] c errs]
  obtain db' ys where *: "ag_db a' = Some db'" "db_holds dops db' (harvested ivl stop pd)" "harvest_frame a a'"
    "ag_processed a' = ag_processed a @ map (\<lambda>(k, x). (k, x, ivl)) ys"
    "\<forall>M. hist_metric M \<longrightarrow> kw (hll E) M ys = kw (hll E) M (filter (window ivl (stop - ivl) stop) pd)"
    using True by (auto simp: harvested_def)
  have "processed_weight (hll E) M i (ag_processed a') + pending_weight (hll E) M i (harvested ivl stop pd)
      = processed_weight (hll E) M i (ag_processed a) + pending_weight (hll E) M i pd" if "hist_metric M" for M i
    using *(5) that True pending_weight_window [of "hll E" M i pd ivl "stop - ivl" stop]
    by (simp add: *(4) processed_weight_new harvested_def)
  with * show ?thesis by blast
qed

end
