(* ===== verification/Schedule.thy ===== *)
theory Schedule
  imports AggHarvest
begin

text \<open>
  The arithmetic of the schedule: processing times are multiples of the lowest interval, every other
  interval is a multiple of it, and the window of an interval that is due at a tick is exactly the
  window that events were filed under until then.
\<close>

definition schedule_ok :: "('p, 'kv, 'h) Config \<Rightarrow> bool" where
  "schedule_ok cfg \<longleftrightarrow> validateCfg cfg = Some (Inr ()) \<and> distinct (cfg_AggregationIntervals cfg)
     \<and> (\<forall>ivl \<in> set (cfg_AggregationIntervals cfg). Second dvd ivl)"

definition time_ok :: "('p, 'kv, 'h) Config \<Rightarrow> gotime \<Rightarrow> bool" where
  "time_ok cfg t \<longleftrightarrow> lowest_interval cfg dvd t - zero_time \<and> 18 * Hour \<le> t \<and> t < 2 ^ 62 * Second"

lemma sorted_le_last:
  assumes "sorted xs" and "x \<in> set xs"
  shows "x \<le> last xs"
proof -
  obtain i where "i < length xs" "x = xs ! i" using assms(2) by (auto simp: in_set_conv_nth)
  moreover from this have "last xs = xs ! (length xs - 1)" by (intro last_conv_nth) auto
  ultimately show ?thesis using sorted_nth_mono [OF assms(1), of i "length xs - 1"] by simp
qed

lemma validateCfg_ok_iff:
  "validateCfg cfg = Some (Inr ()) \<longleftrightarrow>
     cfg_DataDir cfg \<noteq> '''' \<and> cfg_Processor cfg \<noteq> None \<and> cfg_Partitions cfg \<noteq> 0
     \<and> cfg_AggregationIntervals cfg \<noteq> [] \<and> sorted (cfg_AggregationIntervals cfg)
     \<and> (\<forall>ivl \<in> set (cfg_AggregationIntervals cfg). hd (cfg_AggregationIntervals cfg) dvd ivl
          \<and> Second \<le> ivl \<and> ivl \<le> 18 * Hour)" (is "_ \<longleftrightarrow> ?R")
proof (cases "cfg_AggregationIntervals cfg")
  case Nil
  then show ?thesis by (auto simp: validateCfg_def)
next
  case (Cons low ivls)
  show ?thesis
  proof (cases "low = 0")
    case True
    then show ?thesis
      by (cases ivls) (auto simp: validateCfg_def Cons Let_def Second_def SliceIsSorted_sorted)
  next
    case False
    have "(\<forall>ivl \<in> set (low # ivls). Second \<le> ivl \<and> ivl \<le> 18 * Hour)
        \<longleftrightarrow> Second \<le> low \<and> last (low # ivls) \<le> 18 * Hour" if "sorted (low # ivls)"
    proof -
      have "x \<le> last (low # ivls)" if "x \<in> set (low # ivls)" for x
        using \<open>sorted (low # ivls)\<close> that by (rule sorted_le_last)
      then show ?thesis using that by (force simp: last_in_set)
    qed
    then show ?thesis
      using False
      by (auto simp: validateCfg_def Cons Let_def SliceIsSorted_sorted check_multiples_ok split: if_splits)
  qed
qed

lemma schedule_okD:
  assumes "schedule_ok cfg"
  shows "cfg_AggregationIntervals cfg \<noteq> []" and "0 < lowest_interval cfg" and "cfg_Partitions cfg \<noteq> 0"
    and "\<exists>p. cfg_Processor cfg = Some p" and "distinct (cfg_AggregationIntervals cfg)"
    and "\<And>ivl. ivl \<in> set (cfg_AggregationIntervals cfg) \<Longrightarrow>
      0 < ivl \<and> lowest_interval cfg dvd ivl \<and> Second dvd ivl \<and> ivl \<le> 18 * Hour"
  using assms
  by (auto simp: schedule_ok_def validateCfg_ok_iff lowest_interval_def hd_conv_nth Second_def neq_Nil_conv)

section \<open>Windows\<close>

lemma due_window:
  assumes d: "0 < d" "d dvd t - zero_time" and ivl: "0 < ivl" "d dvd ivl" and due: "Truncate (t + d) ivl = t + d"
  shows "Truncate t ivl = t + d - ivl"
proof (rule antisym)
  have al: "ivl dvd t + d - zero_time" using due by (simp add: Truncate_eq_iff [OF ivl(1)])
  have "d \<le> ivl" using ivl by (simp add: zdvd_imp_le)
  moreover have "t + d - ivl - zero_time = (t + d - zero_time) - ivl" by simp
  then have "ivl dvd t + d - ivl - zero_time" using al by (metis dvd_diff dvd_refl)
  ultimately show "t + d - ivl \<le> Truncate t ivl" by (intro Truncate_greatest [OF ivl(1)]) simp_all
  have "ivl dvd (t + d - zero_time) - (Truncate t ivl - zero_time)" using al Truncate_dvd [OF ivl(1)] by (rule dvd_diff)
  then have "ivl dvd t + d - Truncate t ivl" by (simp add: algebra_simps)
  moreover have "0 < t + d - Truncate t ivl" using Truncate_le [of t ivl] d(1) by linarith
  ultimately have "ivl \<le> t + d - Truncate t ivl" by (rule zdvd_imp_le)
  then show "Truncate t ivl \<le> t + d - ivl" by linarith
qed

lemma not_due_window:
  assumes d: "0 < d" "d dvd t - zero_time" and ivl: "0 < ivl" "d dvd ivl" and due: "Truncate (t + d) ivl \<noteq> t + d"
  shows "Truncate (t + d) ivl = Truncate t ivl"
proof (rule antisym)
  let ?T = "Truncate (t + d) ivl"
  have "d dvd ?T - zero_time" using ivl(2) Truncate_dvd [OF ivl(1)] by (rule dvd_trans)
  with d(2) have "d dvd (t - zero_time) + d - (?T - zero_time)" by (metis dvd_add dvd_diff dvd_refl)
  then have "d dvd t + d - ?T" by (simp add: algebra_simps)
  moreover have "0 < t + d - ?T" using due Truncate_le [of "t + d" ivl] by linarith
  ultimately have "d \<le> t + d - ?T" by (rule zdvd_imp_le)
  then show "?T \<le> Truncate t ivl" by (intro Truncate_greatest [OF ivl(1) Truncate_dvd [OF ivl(1)]]) simp
  show "Truncate t ivl \<le> ?T"
    using Truncate_le [of t ivl] d(1) by (intro Truncate_greatest [OF ivl(1) Truncate_dvd [OF ivl(1)]]) linarith
qed

section \<open>Keys\<close>

lemma Second_zero_time: "Second dvd zero_time"
  by (simp add: Second_def zero_time_def)

lemma whole_seconds: "Second dvd ivl \<Longrightarrow> ivl dvd t - zero_time \<Longrightarrow> Second dvd t"
  using Second_zero_time by (metis dvd_trans dvd_diff_commute dvd_add_right_iff diff_add_cancel)

lemma key_okI:
  assumes "Second dvd ivl" and "0 < ivl" and "ivl \<le> 18 * Hour" and "Second dvd t" and "0 \<le> t" and "t < 2 ^ 63 * Second"
    and "length i = 16"
  shows "key_ok \<lparr>cmk_Interval = ivl, cmk_ProcessingTime = t, cmk_PartitionID = j, cmk_ID = i\<rparr>"
proof -
  obtain m where m: "ivl = Second * m" using assms(1) by (rule dvdE)
  obtain n where n: "t = Second * n" using assms(4) by (rule dvdE)
  have "0 < m" "m \<le> 64800" "0 \<le> n" "n < 2 ^ 63"
    using assms m n by (simp_all add: Second_def Hour_def Minute_def)
  moreover from this have "nat n < 2 ^ 63" by (simp add: nat_less_iff)
  ultimately show ?thesis
    using assms(7) by (simp add: key_ok_def key_secs_def key_unix_def m n) (simp add: Second_def)
qed

lemma base_key_ok:
  assumes "schedule_ok cfg" and "time_ok cfg t" and "ivl \<in> set (cfg_AggregationIntervals cfg)" and "length i = 16"
  shows "key_ok (base_key i t ivl)"
proof -
  have ivl: "0 < ivl" "Second dvd ivl" "ivl \<le> 18 * Hour" using schedule_okD(6) [OF assms(1,3)] by auto
  have "0 \<le> Truncate t ivl" "Truncate t ivl < 2 ^ 63 * Second"
    using assms(2) ivl Truncate_gt [OF ivl(1), of t] Truncate_le [of t ivl] by (auto simp: time_ok_def Second_def)
  then show ?thesis
    unfolding base_key_def using ivl assms(4) whole_seconds [OF ivl(2) Truncate_dvd [OF ivl(1)]] by (intro key_okI) auto
qed

lemma due_okI:
  assumes "schedule_ok cfg" and "ivl \<in> set (cfg_AggregationIntervals cfg)" and "Truncate stop ivl = stop"
    and "18 * Hour \<le> stop" and "stop < 2 ^ 63 * Second"
  shows "due_ok ivl stop"
proof -
  have ivl: "0 < ivl" "Second dvd ivl" "ivl \<le> 18 * Hour" using schedule_okD(6) [OF assms(1,2)] by auto
  have "ivl dvd stop - zero_time" using assms(3) Truncate_eq_iff [OF ivl(1)] by simp
  with ivl(2) have "Second dvd stop" by (rule whole_seconds)
  then show ?thesis
    unfolding due_ok_def bound_key_def using assms(4,5) ivl by (intro conjI key_okI dvd_diff) auto
qed

end
