(* ===== verification/AggMachine.thy ===== *)
theory AggMachine
  imports Schedule
begin

text \<open>
  The aggregator as a state machine: batches of events and partial aggregates are accepted at any time,
  while the run loop takes the open batch, commits it, takes a snapshot and harvests interval by interval,
  until it is stopped and the aggregator is closed. The invariant accounts for everything that was accepted.
\<close>

section \<open>Steps\<close>

type_synonym event_stats = "(duration, (bytes, float64) gomap) gomap"

text \<open>Where the run loop is. In \<open>Taken\<close>, \<open>Committed\<close> and \<open>Harvesting\<close> the processing time is the harvested tick.\<close>

datatype ('db, 'b) phase =
    NotRunning
  | Idle
  | Taken "'b option" event_stats
  | Committed event_stats
  | Harvesting 'db event_stats "duration list"
  | Stopped
  | Finished

text \<open>The iterators of a final harvest all end without an error.\<close>

definition harvest_complete ::
  "('db, 'b, 'e) pebble \<Rightarrow> ('pe, 'kv, 'h) agg_config \<Rightarrow> gotime \<Rightarrow> ('db, 'b) Aggregator \<Rightarrow> bool" where
  "harvest_complete P cfg stop a \<longleftrightarrow> (\<forall>snap. ag_db a = Some snap \<longrightarrow>
     (\<forall>ivl \<in> set (cfg_AggregationIntervals cfg). Truncate stop ivl = stop \<longrightarrow> iter_complete P snap ivl stop))"

fun final_complete ::
  "('db, 'b, 'e) pebble \<Rightarrow> ('pe, 'kv, 'h) agg_config \<Rightarrow> duration list \<Rightarrow> ('db, 'b) Aggregator \<Rightarrow> bool" where
  "final_complete P cfg [] a \<longleftrightarrow> True"
| "final_complete P cfg (ivl # ivls) a \<longleftrightarrow>
     (let to = Truncate (ag_processingTime a) ivl + ivl;
          (cachedEvents, stats) = ce_loadAndDelete (ag_cachedEvents a) to
      in harvest_complete P cfg to a
         \<and> (case harvest P cfg to stats (a\<lparr>ag_cachedEvents := cachedEvents\<rparr>) of
              None \<Rightarrow> True
            | Some (errs :: ('e, 'pe) agg_error list, a) \<Rightarrow> final_complete P cfg ivls a))"

text \<open>The state in which \<^verbatim>\<open>Close\<close> starts its final harvests.\<close>

definition final_state ::
  "('db, 'b, 'e) pebble \<Rightarrow> ('pe, 'kv, 'h) agg_config \<Rightarrow> ('db, 'b) Aggregator \<Rightarrow> ('db, 'b) Aggregator" where
  "final_state P cfg a =
     (let a = a\<lparr>ag_closed := True\<rparr>
      in case (ag_db a, ag_batch a) of
           (Some db, Some b) \<Rightarrow> snd (commit_batch P db b a :: ('e, 'pe) agg_error option \<times> ('db, 'b) Aggregator)
         | _ \<Rightarrow> a)"

text \<open>A message of the window that is open for its interval.\<close>

definition current :: "gotime \<Rightarrow> keyed \<Rightarrow> bool" where
  "current t x \<longleftrightarrow> cmk_ProcessingTime (fst x) = Truncate t (cmk_Interval (fst x))"

text \<open>
  What the aggregator is given: events, and partial aggregates of other aggregators. An event counts
  for every interval, a partial aggregate for the interval of its key.
\<close>

datatype input = In_Event APMEvent | In_Metrics CombinedMetricsKey CombinedMetrics

fun input_weight ::
  "'sk hll_ops \<Rightarrow> (APMEvent \<Rightarrow> APMEventType) \<Rightarrow> ('sk, int64) metric \<Rightarrow> int32 \<Rightarrow> duration \<Rightarrow> input \<Rightarrow> int64" where
  "input_weight H etype M b ivl (In_Event e) = event_weight etype b e"
| "input_weight H etype M b ivl (In_Metrics k m) = (if cmk_Interval k = ivl then cm_msg_weight H M m else 0)"

text \<open>
  A step reports what it accepted. A partial aggregate is accepted when it is well formed and of the
  open window of a configured interval. Steps in which the storage reports an error are left out: a
  run of these steps is a run without storage errors. A call on a closed aggregator is rejected and
  changes nothing. A run ends with the \<^verbatim>\<open>Close\<close> that completes it; what later calls may do is in
  \<open>AfterClose\<close>. The clock stays below \<open>2 ^ 62\<close> seconds after the Unix epoch.
\<close>

inductive agg_step ::
  "('db, 'b, 'e) pebble \<Rightarrow> ('pe, 'kv, 'h) agg_config \<Rightarrow> 'd xxhash_ops \<Rightarrow> (APMEvent \<Rightarrow> APMEventType)
   \<Rightarrow> ('db, 'b) Aggregator \<times> ('db, 'b) phase \<Rightarrow> input list \<Rightarrow> ('db, 'b) Aggregator \<times> ('db, 'b) phase \<Rightarrow> bool"
  for P :: "('db, 'b, 'e) pebble" and cfg :: "('pe, 'kv, 'h) agg_config" and X :: "'d xxhash_ops"
    and etype :: "APMEvent \<Rightarrow> APMEventType" where
  accept: "AggregateBatch P cfg X etype pool False pick i es a = Some ([], a') \<Longrightarrow> \<forall>ivl j. pool_ok (pool ivl j) \<Longrightarrow>
    length i = 16 \<Longrightarrow> list_all event_ok es \<Longrightarrow> agg_step P cfg X etype (a, ph) (map In_Event es) (a', ph)"
| accept_metrics: "AggregateCombinedMetrics P False pick cmk cm a = Some (None :: ('e, 'pe) agg_error option, a') \<Longrightarrow>
    keyed_ok (cmk, cm) \<Longrightarrow> cmk_Interval cmk \<in> set (cfg_AggregationIntervals cfg) \<Longrightarrow>
    current (ag_processingTime a) (cmk, cm) \<Longrightarrow> agg_step P cfg X etype (a, ph) [In_Metrics cmk cm] (a', ph)"
| reject_metrics: "AggregateCombinedMetrics P ctx_done pick cmk cm a = Some (err :: ('e, 'pe) agg_error option, a') \<Longrightarrow>
    ag_closed a \<or> ctx_done \<Longrightarrow> agg_step P cfg X etype (a, ph) [] (a', ph)"
| reject: "AggregateBatch P cfg X etype pool ctx_done pick i es a = Some (errs, a') \<Longrightarrow> ag_closed a \<or> ctx_done \<Longrightarrow>
    agg_step P cfg X etype (a, ph) [] (a', ph)"
| run: "(run_start a :: ('e, 'pe) agg_error + ('db, 'b) Aggregator) = Inr a' \<Longrightarrow> agg_step P cfg X etype (a, NotRunning) [] (a', Idle)"
| tick: "run_take (run_to cfg a) a = (batch, stats, a') \<Longrightarrow> ag_processingTime a' < 2 ^ 62 * Second \<Longrightarrow>
    agg_step P cfg X etype (a, Idle) [] (a', Taken batch stats)"
| commit: "commit_taken P batch a = Some ([] :: ('e, 'pe) agg_error list, a') \<Longrightarrow>
    agg_step P cfg X etype (a, Taken batch stats) [] (a', Committed stats)"
| snapshot: "ag_db a = Some snap \<Longrightarrow>
    agg_step P cfg X etype (a, Committed stats) [] (a, Harvesting snap stats (cfg_AggregationIntervals cfg))"
| interval: "cfg_Processor cfg = Some processor \<Longrightarrow>
    harvest_step P processor snap (ag_processingTime a) stats ivl a = Some (errs, a') \<Longrightarrow> no_storage_errors errs \<Longrightarrow>
    (Truncate (ag_processingTime a) ivl = ag_processingTime a \<Longrightarrow> iter_complete P snap ivl (ag_processingTime a)) \<Longrightarrow>
    agg_step P cfg X etype (a, Harvesting snap stats (ivl # ivls)) [] (a', Harvesting snap stats ivls)"
| next_tick: "agg_step P cfg X etype (a, Harvesting snap stats []) [] (a, Idle)"
| closing: "ph \<noteq> Finished \<Longrightarrow> agg_step P cfg X etype (a, ph) [] (a\<lparr>ag_closed := True\<rparr>, ph)"
| stop: "agg_step P cfg X etype (a, Idle) [] (a\<lparr>ag_runStopped := ClosedChan\<rparr>, Stopped)"
| close: "ph = NotRunning \<or> ph = Stopped \<Longrightarrow> Close P cfg False pick None a = Some (errs, a') \<Longrightarrow> no_storage_errors errs \<Longrightarrow>
    final_complete P cfg (cfg_AggregationIntervals cfg) (final_state P cfg a) \<Longrightarrow>
    agg_step P cfg X etype (a, ph) [] (a', Finished)"

text \<open>Runs of the machine, with what they accepted.\<close>

inductive agg_run ::
  "('db, 'b, 'e) pebble \<Rightarrow> ('pe, 'kv, 'h) agg_config \<Rightarrow> 'd xxhash_ops \<Rightarrow> (APMEvent \<Rightarrow> APMEventType)
   \<Rightarrow> ('db, 'b) Aggregator \<times> ('db, 'b) phase \<Rightarrow> input list \<Rightarrow> ('db, 'b) Aggregator \<times> ('db, 'b) phase \<Rightarrow> bool"
  for P :: "('db, 'b, 'e) pebble" and cfg :: "('pe, 'kv, 'h) agg_config" and X :: "'d xxhash_ops"
    and etype :: "APMEvent \<Rightarrow> APMEventType" where
  start: "agg_run P cfg X etype s [] s"
| step: "agg_run P cfg X etype s es s1 \<Longrightarrow> agg_step P cfg X etype s1 fs s2 \<Longrightarrow> agg_run P cfg X etype s (es @ fs) s2"

section \<open>The invariant\<close>

text \<open>While a tick is harvested, the intervals \<open>R\<close> that are still to come may hold messages of the tick before.\<close>

definition in_time :: "duration \<Rightarrow> gotime \<Rightarrow> duration set \<Rightarrow> keyed \<Rightarrow> bool" where
  "in_time d t R x \<longleftrightarrow> current t x \<or> cmk_Interval (fst x) \<in> R \<and> current (t - d) x"

definition weights_ok ::
  "'sk hll_ops \<Rightarrow> (APMEvent \<Rightarrow> APMEventType) \<Rightarrow> duration set \<Rightarrow> input list
   \<Rightarrow> (CombinedMetricsKey \<times> CombinedMetrics \<times> duration) list \<Rightarrow> keyed list \<Rightarrow> bool" where
  "weights_ok H etype I acc processed pending \<longleftrightarrow>
     (\<forall>ivl \<in> I. \<forall>b M. M = txn_metric b \<or> M = svctxn_metric b \<longrightarrow>
        processed_weight H M ivl processed + pending_weight H M ivl pending = sum_list (map (input_weight H etype M b ivl) acc))"

definition to_come :: "('p, 'kv, 'h) Config \<Rightarrow> ('db, 'b) phase \<Rightarrow> duration set" where
  "to_come cfg ph = (case ph of Taken _ _ \<Rightarrow> set (cfg_AggregationIntervals cfg)
     | Committed _ \<Rightarrow> set (cfg_AggregationIntervals cfg) | Harvesting _ _ R \<Rightarrow> set R | _ \<Rightarrow> {})"

definition taken_holds :: "('b \<Rightarrow> (bytes \<times> bytes) list) \<Rightarrow> ('db, 'b) phase \<Rightarrow> keyed list \<Rightarrow> bool" where
  "taken_holds bops ph pt \<longleftrightarrow> (case ph of Taken b _ \<Rightarrow> batch_holds bops b pt | _ \<Rightarrow> pt = [])"

definition snap_holds ::
  "('p, 'kv, 'h) Config \<Rightarrow> ('db \<Rightarrow> bytes \<Rightarrow> bytes list) \<Rightarrow> gotime \<Rightarrow> ('db, 'b) phase \<Rightarrow> keyed list \<Rightarrow> bool" where
  "snap_holds cfg dops t ph pd \<longleftrightarrow> (case ph of
     Harvesting snap _ R \<Rightarrow> set R \<subseteq> set (cfg_AggregationIntervals cfg) \<and> distinct R
       \<and> (\<exists>ps. db_holds dops snap ps \<and> list_all keyed_ok ps
           \<and> (\<forall>ivl \<in> set R. Truncate t ivl = t \<longrightarrow> filter (window ivl (t - ivl) t) ps = filter (window ivl (t - ivl) t) pd))
   | _ \<Rightarrow> True)"

definition agg_inv ::
  "'sk hll_ops \<Rightarrow> ('p, 'kv, 'h) Config \<Rightarrow> (APMEvent \<Rightarrow> APMEventType) \<Rightarrow> ('b \<Rightarrow> (bytes \<times> bytes) list)
   \<Rightarrow> ('db \<Rightarrow> bytes \<Rightarrow> bytes list) \<Rightarrow> input list \<Rightarrow> ('db, 'b) Aggregator \<Rightarrow> ('db, 'b) phase
   \<Rightarrow> keyed list \<Rightarrow> keyed list \<Rightarrow> keyed list \<Rightarrow> bool" where
  "agg_inv H cfg etype bops dops acc a ph pd pt pb \<longleftrightarrow>
     agg_holds bops dops a pd pb \<and> taken_holds bops ph pt
     \<and> list_all keyed_ok (pd @ pt @ pb)
     \<and> (\<forall>x \<in> set (pd @ pt @ pb). cmk_Interval (fst x) \<in> set (cfg_AggregationIntervals cfg))
     \<and> (\<forall>x \<in> set (pd @ pt). in_time (lowest_interval cfg) (ag_processingTime a) (to_come cfg ph) x)
     \<and> (\<forall>x \<in> set pb. current (ag_processingTime a) x)
     \<and> snap_holds cfg dops (ag_processingTime a) ph pd
     \<and> weights_ok H etype (set (cfg_AggregationIntervals cfg)) acc (ag_processed a) (pd @ pt @ pb)
     \<and> lowest_interval cfg dvd ag_processingTime a - zero_time \<and> 18 * Hour \<le> ag_processingTime a"

lemmas agg_inv_defs = agg_inv_def taken_holds_def snap_holds_def to_come_def

text \<open>The state of the machine satisfies the invariant, or its run is over and all is processed.\<close>

fun sys_inv ::
  "'sk hll_ops \<Rightarrow> ('p, 'kv, 'h) Config \<Rightarrow> (APMEvent \<Rightarrow> APMEventType) \<Rightarrow> ('b \<Rightarrow> (bytes \<times> bytes) list)
   \<Rightarrow> ('db \<Rightarrow> bytes \<Rightarrow> bytes list) \<Rightarrow> input list \<Rightarrow> ('db, 'b) Aggregator \<times> ('db, 'b) phase \<Rightarrow> bool" where
  "sys_inv H cfg etype bops dops acc (a, ph) \<longleftrightarrow>
     (if ph = Finished then weights_ok H etype (set (cfg_AggregationIntervals cfg)) acc (ag_processed a) [] \<and> ag_closed a
      else ag_processingTime a < 2 ^ 62 * Second \<and> (\<exists>pd pt pb. agg_inv H cfg etype bops dops acc a ph pd pt pb))"

lemma weights_okI:
  assumes "weights_ok H etype I acc processed pending"
    and "\<And>ivl b M. ivl \<in> I \<Longrightarrow> M = txn_metric b \<or> M = svctxn_metric b \<Longrightarrow>
      processed_weight H M ivl processed' + pending_weight H M ivl pending'
        = processed_weight H M ivl processed + pending_weight H M ivl pending + sum_list (map (input_weight H etype M b ivl) es)"
  shows "weights_ok H etype I (acc @ es) processed' pending'"
  using assms unfolding weights_ok_def by simp

section \<open>Accepting a batch\<close>

lemma interval_messages_keys:
  assumes "x \<in> set (interval_messages X etype n i t es ivl)"
  obtains j where "fst x = (base_key i t ivl)\<lparr>cmk_PartitionID := j\<rparr>"
  using assms part_messages_keys unfolding interval_messages_def by fastforce

lemma interval_messages_weight:
  assumes "M = txn_metric b \<or> M = svctxn_metric b"
  shows "pending_weight H M j (interval_messages X etype n i t es ivl)
    = (if j = ivl then sum_list (map (event_weight etype b) es) else 0)"
proof -
  have f: "filter (\<lambda>x. cmk_Interval (fst x) = j) (interval_messages X etype n i t es ivl)
      = (if j = ivl then interval_messages X etype n i t es ivl else [])"
    by (auto simp: filter_empty_conv base_key_def elim!: interval_messages_keys intro!: filter_True)
  have "kw H M (interval_messages X etype n i t es ivl) = sum_list (map (event_weight etype b) es)"
    by (induction es) (simp_all add: interval_messages_def part_messages_weight [OF assms, unfolded comp_def] comp_def)
  with f show ?thesis by (simp add: pending_weight_def)
qed

lemma batch_messages_weight:
  assumes "M = txn_metric b \<or> M = svctxn_metric b" and "distinct ivls" and "j \<in> set ivls"
  shows "pending_weight H M j (batch_messages X etype n i t es ivls) = sum_list (map (event_weight etype b) es)"
proof -
  have s: "batch_messages X etype n i t es (ivl # ivls)
      = interval_messages X etype n i t es ivl @ batch_messages X etype n i t es ivls" for ivl ivls
    by (simp add: batch_messages_def)
  have none: "pending_weight H M j (batch_messages X etype n i t es ivls) = 0" if "j \<notin> set ivls" for ivls
    using that
  proof (induction ivls)
    case Nil
    then show ?case by (simp add: batch_messages_def pending_weight_def)
  next
    case (Cons ivl ivls)
    then show ?case by (auto simp: s interval_messages_weight [OF assms(1)])
  qed
  show ?thesis
    using assms(2,3)
  proof (induction ivls)
    case (Cons ivl ivls)
    then show ?case
      using none [of ivls] by (cases "j = ivl") (auto simp: s interval_messages_weight [OF assms(1)])
  qed simp
qed

lemma batch_messages_ok:
  assumes "schedule_ok cfg" and "time_ok cfg t" and "length i = 16" and "list_all event_ok es"
  shows "\<forall>x \<in> set (batch_messages X etype n i t es (cfg_AggregationIntervals cfg)).
    keyed_ok x \<and> current t x \<and> cmk_Interval (fst x) \<in> set (cfg_AggregationIntervals cfg)"
proof
  fix x assume "x \<in> set (batch_messages X etype n i t es (cfg_AggregationIntervals cfg))"
  then obtain ivl e where ivl: "ivl \<in> set (cfg_AggregationIntervals cfg)" "e \<in> set es"
    "x \<in> set (part_messages X etype e (base_key i t ivl) n)"
    by (auto simp: batch_messages_def interval_messages_def)
  obtain j where j: "fst x = (base_key i t ivl)\<lparr>cmk_PartitionID := j\<rparr>" using part_messages_keys [OF ivl(3)] by blast
  have "msg_ok (snd x)"
    using part_messages_ok [of e X etype "base_key i t ivl" n] ivl(2,3) assms(4) by (auto simp: list_all_iff)
  then show "keyed_ok x \<and> current t x \<and> cmk_Interval (fst x) \<in> set (cfg_AggregationIntervals cfg)"
    using base_key_ok [OF assms(1,2) ivl(1) assms(3)] ivl(1)
    by (simp add: keyed_ok_def current_def j) (simp add: base_key_def)
qed

text \<open>A message of the current window is not harvested at its start.\<close>

lemma current_not_window:
  assumes "current t x" and "Truncate t ivl = t"
  shows "\<not> window ivl (t - ivl) t x"
  using assms by (auto simp: current_def window_def)

text \<open>Appending messages of the open window keeps the invariant.\<close>

lemma inv_append:
  assumes inv: "agg_inv H cfg etype bops dops acc a ph pd pt pb"
    and pd': "agg_holds bops dops a' pd' pb'" "agg_frame a a'" "appended pd pb xs pd' pb'"
    and xs: "\<forall>x \<in> set xs. keyed_ok x \<and> current (ag_processingTime a) x \<and> cmk_Interval (fst x) \<in> set (cfg_AggregationIntervals cfg)"
    and w: "\<And>ivl b M. ivl \<in> set (cfg_AggregationIntervals cfg) \<Longrightarrow> M = txn_metric b \<or> M = svctxn_metric b \<Longrightarrow>
      pending_weight H M ivl xs = sum_list (map (input_weight H etype M b ivl) is)"
  shows "agg_inv H cfg etype bops dops (acc @ is) a' ph pd' pt pb' \<and> ag_processingTime a' = ag_processingTime a"
proof -
  let ?ivls = "cfg_AggregationIntervals cfg"
  from pd'(3) obtain zs where zs: "pd' = pd @ zs" "zs @ pb' = pb @ xs" by (auto simp: appended_def)
  have fr: "ag_processingTime a' = ag_processingTime a" "ag_processed a' = ag_processed a"
    using pd'(2) by (simp_all add: agg_frame_def)
  have pb: "\<forall>x \<in> set pb. keyed_ok x \<and> current (ag_processingTime a) x \<and> cmk_Interval (fst x) \<in> set ?ivls"
    using inv by (auto simp: agg_inv_def list_all_iff)
  have "set zs \<union> set pb' = set pb \<union> set xs" using arg_cong [where f = set, OF zs(2)] by simp
  with pb xs have new: "\<forall>x \<in> set zs \<union> set pb'. keyed_ok x \<and> current (ag_processingTime a) x \<and> cmk_Interval (fst x) \<in> set ?ivls"
    by blast
  have snap: "snap_holds cfg dops (ag_processingTime a) ph (pd @ zs)"
  proof -
    have "filter (window ivl (ag_processingTime a - ivl) (ag_processingTime a)) zs = []"
      if "Truncate (ag_processingTime a) ivl = ag_processingTime a" for ivl
      using new current_not_window [OF _ that] by (auto simp: filter_empty_conv)
    then show ?thesis using inv by (auto simp: agg_inv_defs split: phase.splits)
  qed
  have "pending_weight H M ivl (pd' @ pt @ pb') = pending_weight H M ivl (pd @ pt @ pb) + pending_weight H M ivl xs" for M ivl
    using arg_cong [where f = "pending_weight H M ivl", OF zs(2)] by (simp add: zs(1) ac_simps)
  then have "weights_ok H etype (set ?ivls) (acc @ is) (ag_processed a) (pd' @ pt @ pb')"
    using inv by (intro weights_okI [of H etype _ acc "ag_processed a" "pd @ pt @ pb"]) (simp_all add: agg_inv_def w)
  moreover have "\<forall>x \<in> set zs. in_time (lowest_interval cfg) (ag_processingTime a) (to_come cfg ph) x"
    using new by (simp add: in_time_def)
  ultimately have "agg_inv H cfg etype bops dops (acc @ is) a' ph pd' pt pb'"
    using inv pd'(1) new snap by (auto simp: agg_inv_def fr zs(1) list_all_iff)
  then show ?thesis using fr(1) by blast
qed

lemma inv_accept:
  fixes P :: "('db, 'b, 'e) pebble" and cfg :: "('pe, 'kv, 'h) agg_config"
  assumes L: "pebble_laws E l P bops dops" and cfg: "schedule_ok cfg" and t: "ag_processingTime a < 2 ^ 62 * Second"
    and inv: "agg_inv H cfg etype bops dops acc a ph pd pt pb"
    and r: "AggregateBatch P cfg X etype pool ctx_done pick i es a = Some ([], a')"
    and pool: "\<forall>ivl j. pool_ok (pool ivl j)" and i: "length i = 16" and es: "list_all event_ok es"
  shows "\<exists>pd' pb'. agg_inv H cfg etype bops dops (acc @ map In_Event es) a' ph pd' pt pb' \<and> ag_processingTime a' = ag_processingTime a"
proof -
  have tm: "time_ok cfg (ag_processingTime a)" using inv t by (simp add: agg_inv_def time_ok_def)
  have k: "\<forall>ivl \<in> set (cfg_AggregationIntervals cfg). key_ok (base_key i (ag_processingTime a) ivl)"
    using base_key_ok [OF cfg tm _ i] by blast
  have "agg_holds bops dops a pd pb" "\<And>ivl j. pool_ok (pool ivl j)" using inv pool by (auto simp: agg_inv_def)
  from AggregateBatch_holds [OF L this(1) k this(2) schedule_okD(3) [OF cfg] r] obtain pd' pb' where
    pd': "agg_holds bops dops a' pd' pb'" "agg_frame a a'"
      "appended pd pb (batch_messages X etype (cfg_Partitions cfg) i (ag_processingTime a) es (cfg_AggregationIntervals cfg)) pd' pb'"
    by blast
  from inv_append [OF inv this batch_messages_ok [OF cfg tm i es], of "map In_Event es"] show ?thesis
    by (auto simp: batch_messages_weight [OF _ schedule_okD(5) [OF cfg]] comp_def)
qed

lemma inv_accept_metrics:
  fixes P :: "('db, 'b, 'e) pebble" and cfg :: "('pe, 'kv, 'h) agg_config"
  assumes L: "pebble_laws E l P bops dops" and inv: "agg_inv H cfg etype bops dops acc a ph pd pt pb"
    and r: "AggregateCombinedMetrics P ctx_done pick cmk cm a = Some (None :: ('e, 'pe) agg_error option, a')"
    and k: "keyed_ok (cmk, cm)" "cmk_Interval cmk \<in> set (cfg_AggregationIntervals cfg)" "current (ag_processingTime a) (cmk, cm)"
  shows "\<exists>pd' pb'. agg_inv H cfg etype bops dops (acc @ [In_Metrics cmk cm]) a' ph pd' pt pb'
    \<and> ag_processingTime a' = ag_processingTime a"
proof -
  have "agg_holds bops dops a pd pb" "key_ok cmk" using inv k(1) by (simp_all add: agg_inv_def keyed_ok_def)
  from AggregateCombinedMetrics_holds [OF L this r] obtain pd' pb' where
    pd': "agg_holds bops dops a' pd' pb'" "agg_frame a a'" "appended pd pb [(cmk, cm)] pd' pb'" by blast
  have "pending_weight H M ivl [(cmk, cm)] = sum_list (map (input_weight H etype M b ivl) [In_Metrics cmk cm])" for M b ivl
    by (simp add: pending_weight_def)
  moreover have "\<forall>x \<in> set [(cmk, cm)]. keyed_ok x \<and> current (ag_processingTime a) x
      \<and> cmk_Interval (fst x) \<in> set (cfg_AggregationIntervals cfg)" using k by simp
  ultimately show ?thesis using inv_append [OF inv pd'] by blast
qed

section \<open>The run loop\<close>

lemma inv_tick:
  assumes "agg_inv H cfg etype bops dops acc a Idle pd pt pb" and "run_take (run_to cfg a) a = (batch, stats, a')"
    and "schedule_ok cfg"
  shows "agg_inv H cfg etype bops dops acc a' (Taken batch stats) pd pb []"
proof -
  let ?d = "lowest_interval cfg"
  have a': "batch = ag_batch a" "ag_processingTime a' = ag_processingTime a + ?d" "ag_batch a' = None" "ag_db a' = ag_db a"
    "ag_processed a' = ag_processed a"
    using assms(2) by (auto simp: run_take_def run_to_def split: prod.splits)
  have "0 < ?d" by (rule schedule_okD(2) [OF assms(3)])
  moreover have "?d dvd ag_processingTime a - zero_time + ?d" using assms(1) by (simp add: agg_inv_def)
  then have "?d dvd ag_processingTime a + ?d - zero_time" by (simp only: diff_add_eq)
  ultimately show ?thesis
    using assms(1) by (auto simp: agg_inv_defs agg_holds_def batch_holds_def a' in_time_def)
qed

lemma inv_commit:
  fixes P :: "('db, 'b, 'e) pebble"
  assumes L: "pebble_laws E l P bops dops" and inv: "agg_inv H cfg etype bops dops acc a (Taken batch stats) pd pt pb"
    and r: "commit_taken P batch a = Some ([] :: ('e, 'pe) agg_error list, a')"
  shows "agg_inv H cfg etype bops dops acc a' (Committed stats) (pd @ pt) [] pb \<and> ag_processingTime a' = ag_processingTime a"
proof -
  obtain db where db: "ag_db a = Some db" "db_holds dops db pd" using inv by (auto simp: agg_inv_def agg_holds_def)
  have "\<exists>db'. a' = a\<lparr>ag_db := Some db'\<rparr> \<and> db_holds dops db' (pd @ pt)"
  proof (cases batch)
    case None
    then have "pt = []" "a' = a" using inv r by (simp_all add: agg_inv_defs batch_holds_def commit_taken_def)
    with db show ?thesis by (intro exI [of _ db]) simp
  next
    case (Some b)
    obtain err db' where c: "pb_Commit P db b = (err, db')" by (rule prod.exhaust)
    then have "err = None" "a' = a\<lparr>ag_db := Some db'\<rparr>"
      using r Some db(1) by (auto simp: commit_taken_def Let_def split: option.splits)
    moreover have "bops b = map enc_op pt" using inv Some by (simp add: agg_inv_defs batch_holds_def)
    ultimately show ?thesis using commit_holds [OF L db(2)] c by blast
  qed
  then show ?thesis using inv by (auto simp: agg_inv_defs agg_holds_def)
qed

lemma inv_snapshot:
  assumes "agg_inv H cfg etype bops dops acc a (Committed stats) pd pt pb" and "ag_db a = Some snap" and "schedule_ok cfg"
  shows "agg_inv H cfg etype bops dops acc a (Harvesting snap stats (cfg_AggregationIntervals cfg)) pd pt pb"
  using assms schedule_okD(5) [OF assms(3)] by (auto simp: agg_inv_defs agg_holds_def)

lemma harvested_subset: "set (harvested ivl stop pd) \<subseteq> set pd"
  by (auto simp: harvested_def)

lemma list_all_harvested: "list_all p pd \<Longrightarrow> list_all p (harvested ivl stop pd)"
  using harvested_subset by (fastforce simp: list_all_iff)

lemma filter_window_harvested:
  "ivl' \<noteq> ivl \<Longrightarrow> filter (window ivl' start stop') (harvested ivl stop pd) = filter (window ivl' start stop') pd"
  by (auto simp: harvested_def window_def intro!: filter_cong)

text \<open>After a round, what is left of the interval is current.\<close>

lemma harvested_in_time:
  assumes cfg: "schedule_ok cfg" and t: "lowest_interval cfg dvd t - zero_time" and ivl: "ivl \<in> set (cfg_AggregationIntervals cfg)"
    and x: "x \<in> set (harvested ivl t pd)" "in_time (lowest_interval cfg) t (insert ivl R) x"
  shows "in_time (lowest_interval cfg) t R x"
proof (rule ccontr)
  let ?d = "lowest_interval cfg"
  assume n: "\<not> in_time ?d t R x"
  then have c: "\<not> current t x" "current (t - ?d) x" "cmk_Interval (fst x) = ivl" using x(2) by (auto simp: in_time_def)
  have d: "0 < ?d" "0 < ivl" "?d dvd ivl" using schedule_okD(2,6) [OF cfg] ivl by auto
  have al: "?d dvd (t - ?d) - zero_time" using t dvd_diff [OF t dvd_refl [of ?d]] by (simp add: algebra_simps)
  show False
  proof (cases "Truncate t ivl = t")
    case True
    with due_window [OF d(1) al d(2,3)] have "Truncate (t - ?d) ivl = t - ivl" by simp
    then have "window ivl (t - ivl) t x" using c d(2) by (simp add: window_def current_def)
    with x(1) True show False by (simp add: harvested_def)
  next
    case False
    with not_due_window [OF d(1) al d(2,3)] c show False by (simp add: current_def)
  qed
qed

lemma inv_interval:
  fixes P :: "('db, 'b, 'e) pebble" and processor :: "'pe processor"
  assumes L: "pebble_laws E l P bops dops" and HR: "hll_roundtrip (hll E)" and cfg: "schedule_ok cfg"
    and t: "ag_processingTime a < 2 ^ 62 * Second"
    and inv: "agg_inv (hll E) cfg etype bops dops acc a (Harvesting snap stats (ivl # ivls)) pd pt pb"
    and r: "harvest_step P processor snap (ag_processingTime a) stats ivl a = Some (errs, a')"
    and errs: "no_storage_errors (errs :: ('e, 'pe) agg_error list)"
    and ok: "Truncate (ag_processingTime a) ivl = ag_processingTime a \<Longrightarrow> iter_complete P snap ivl (ag_processingTime a)"
  shows "agg_inv (hll E) cfg etype bops dops acc a' (Harvesting snap stats ivls)
    (harvested ivl (ag_processingTime a) pd) pt pb \<and> ag_processingTime a' = ag_processingTime a"
proof -
  let ?t = "ag_processingTime a"
  have ivl: "ivl \<in> set (cfg_AggregationIntervals cfg)" "ivl \<notin> set ivls" "distinct ivls"
    "set ivls \<subseteq> set (cfg_AggregationIntervals cfg)"
    using inv by (auto simp: agg_inv_defs)
  obtain db where db: "ag_db a = Some db" "db_holds dops db pd" using inv by (auto simp: agg_inv_def agg_holds_def)
  obtain ps where ps: "db_holds dops snap ps" "list_all keyed_ok ps"
    "\<forall>i \<in> set (ivl # ivls). Truncate ?t i = ?t \<longrightarrow> filter (window i (?t - i) ?t) ps = filter (window i (?t - i) ?t) pd"
    using inv by (auto simp: agg_inv_defs)
  have pd: "list_all keyed_ok pd" using inv by (simp add: agg_inv_def)
  have due: "due_ok ivl ?t" if "Truncate ?t ivl = ?t"
    using due_okI [OF cfg ivl(1) that] inv t by (simp add: agg_inv_def Second_def)
  from harvest_step_holds [OF L HR pd db due ok ps(1,2) _ r errs] ps(3) obtain db' where db':
    "ag_db a' = Some db'" "db_holds dops db' (harvested ivl ?t pd)" "harvest_frame a a'"
    "\<forall>M i. hist_metric M \<longrightarrow> processed_weight (hll E) M i (ag_processed a') + pending_weight (hll E) M i (harvested ivl ?t pd)
       = processed_weight (hll E) M i (ag_processed a) + pending_weight (hll E) M i pd" by auto
  have fr: "ag_processingTime a' = ?t" "ag_batch a' = ag_batch a" using db'(3) by (simp_all add: harvest_frame_def)
  have w: "weights_ok (hll E) etype (set (cfg_AggregationIntervals cfg)) acc (ag_processed a') (harvested ivl ?t pd @ pt @ pb)"
    using weights_okI [of "hll E" etype _ acc "ag_processed a" "pd @ pt @ pb" "ag_processed a'"
        "harvested ivl ?t pd @ pt @ pb" "[]"] inv db'(4)
    by (simp add: agg_inv_def hist_metric_def flip: add.assoc) blast
  have tm: "\<forall>x \<in> set (harvested ivl ?t pd). in_time (lowest_interval cfg) ?t (set ivls) x"
  proof
    fix x assume x: "x \<in> set (harvested ivl ?t pd)"
    then have "x \<in> set pd" using harvested_subset by blast
    then have "in_time (lowest_interval cfg) ?t (insert ivl (set ivls)) x" "lowest_interval cfg dvd ?t - zero_time"
      using inv by (simp_all add: agg_inv_def to_come_def)
    with x show "in_time (lowest_interval cfg) ?t (set ivls) x" using harvested_in_time [OF cfg _ ivl(1) x] by blast
  qed
  have sn: "\<forall>i \<in> set ivls. Truncate ?t i = ?t \<longrightarrow>
      filter (window i (?t - i) ?t) ps = filter (window i (?t - i) ?t) (harvested ivl ?t pd)"
  proof (intro ballI impI)
    fix i assume i: "i \<in> set ivls" "Truncate ?t i = ?t"
    then have "i \<noteq> ivl" using ivl(2) by auto
    with ps(3) i show "filter (window i (?t - i) ?t) ps = filter (window i (?t - i) ?t) (harvested ivl ?t pd)"
      by (simp add: filter_window_harvested)
  qed
  have k: "list_all keyed_ok (harvested ivl ?t pd)" by (rule list_all_harvested [OF pd])
  have iv: "\<forall>x \<in> set (harvested ivl ?t pd). cmk_Interval (fst x) \<in> set (cfg_AggregationIntervals cfg)"
    using inv harvested_subset [of ivl ?t pd] by (auto simp: agg_inv_def)
  have "snap_holds cfg dops ?t (Harvesting snap stats ivls :: ('db, 'b) phase) (harvested ivl ?t pd)"
    unfolding snap_holds_def using ps(1,2) sn ivl(3,4) by auto
  moreover have "agg_holds bops dops a' (harvested ivl ?t pd) pb" using inv db'(1,2) by (simp add: agg_inv_def agg_holds_def fr)
  ultimately show ?thesis
    using inv k iv w tm by (simp add: agg_inv_def fr taken_holds_def to_come_def) blast
qed

section \<open>Closing\<close>

lemma harvest_loop_holds:
  fixes P :: "('db, 'b, 'e) pebble" and processor :: "'pe processor"
  assumes L: "pebble_laws E l P bops dops" and HR: "hll_roundtrip (hll E)"
    and ivls: "distinct ivls" "\<And>ivl. ivl \<in> set ivls \<Longrightarrow> Truncate stop ivl = stop \<Longrightarrow> due_ok ivl stop \<and> iter_complete P snap ivl stop"
    and ps: "db_holds dops snap ps" "list_all keyed_ok ps"
      "\<And>ivl. ivl \<in> set ivls \<Longrightarrow> filter (window ivl (stop - ivl) stop) ps = filter (window ivl (stop - ivl) stop) pd"
    and pd: "list_all keyed_ok pd" and db: "ag_db a = Some db" "db_holds dops db pd"
    and r: "harvest_loop P processor snap stop stats ivls a = Some (errs, a')"
    and errs: "no_storage_errors (errs :: ('e, 'pe) agg_error list)"
  shows "\<exists>db'. ag_db a' = Some db' \<and> db_holds dops db' (fold (\<lambda>ivl. harvested ivl stop) ivls pd) \<and> harvest_frame a a'
    \<and> (\<forall>M i. hist_metric M \<longrightarrow>
         processed_weight (hll E) M i (ag_processed a') + pending_weight (hll E) M i (fold (\<lambda>ivl. harvested ivl stop) ivls pd)
           = processed_weight (hll E) M i (ag_processed a) + pending_weight (hll E) M i pd)"
  using ivls ps(3) pd db r errs
proof (induction ivls arbitrary: a pd db errs)
  case Nil
  then show ?case by (simp add: harvest_frame_def)
next
  case (Cons ivl ivls)
  obtain errs1 errs2 a1 where r: "harvest_step P processor snap stop stats ivl a = Some (errs1 :: ('e, 'pe) agg_error list, a1)"
    "harvest_loop P processor snap stop stats ivls a1 = Some (errs2 :: ('e, 'pe) agg_error list, a')" "errs = errs1 @ errs2"
    using Cons.prems(7) by (auto split: bind_splits)
  have e: "no_storage_errors errs1" "no_storage_errors errs2" using Cons.prems(8) by (simp_all add: r(3))
  have due: "due_ok ivl stop" "iter_complete P snap ivl stop" if "Truncate stop ivl = stop"
    using Cons.prems(2) [of ivl] that by auto
  have w: "filter (window ivl (stop - ivl) stop) ps = filter (window ivl (stop - ivl) stop) pd" using Cons.prems(3) by simp
  from harvest_step_holds [OF L HR Cons.prems(4,5,6) due ps(1,2) w r(1) e(1)] obtain db1 where db1:
    "ag_db a1 = Some db1" "db_holds dops db1 (harvested ivl stop pd)" "harvest_frame a a1"
    "\<forall>M i. hist_metric M \<longrightarrow> processed_weight (hll E) M i (ag_processed a1) + pending_weight (hll E) M i (harvested ivl stop pd)
       = processed_weight (hll E) M i (ag_processed a) + pending_weight (hll E) M i pd" by blast
  have w': "filter (window i (stop - i) stop) ps = filter (window i (stop - i) stop) (harvested ivl stop pd)" if "i \<in> set ivls" for i
  proof -
    have "i \<noteq> ivl" using Cons.prems(1) that by auto
    with Cons.prems(3) [of i] that show ?thesis by (simp add: filter_window_harvested)
  qed
  have "distinct ivls" "\<And>i. i \<in> set ivls \<Longrightarrow> Truncate stop i = stop \<Longrightarrow> due_ok i stop \<and> iter_complete P snap i stop"
    using Cons.prems(1,2) by auto
  from Cons.IH [OF this w' list_all_harvested [OF Cons.prems(4)] db1(1,2) r(2) e(2)] obtain db' where db':
    "ag_db a' = Some db'" "db_holds dops db' (fold (\<lambda>ivl. harvested ivl stop) ivls (harvested ivl stop pd))" "harvest_frame a1 a'"
    "\<forall>M i. hist_metric M \<longrightarrow>
       processed_weight (hll E) M i (ag_processed a') + pending_weight (hll E) M i (fold (\<lambda>ivl. harvested ivl stop) ivls (harvested ivl stop pd))
         = processed_weight (hll E) M i (ag_processed a1) + pending_weight (hll E) M i (harvested ivl stop pd)" by blast
  show ?case using db' db1(3,4) by (auto simp: harvest_frame_def)
qed

lemma fold_harvested_subset: "set (fold (\<lambda>ivl. harvested ivl stop) ivls pd) \<subseteq> set pd"
proof (induction ivls arbitrary: pd)
  case (Cons ivl ivls)
  then show ?case using Cons.IH [of "harvested ivl stop pd"] harvested_subset [of ivl stop pd] by simp blast
qed simp

lemma fold_harvested_removes:
  assumes "x \<in> set (fold (\<lambda>ivl. harvested ivl stop) ivls pd)" and "ivl \<in> set ivls" and "Truncate stop ivl = stop"
  shows "\<not> window ivl (stop - ivl) stop x"
  using assms(1,2)
proof (induction ivls arbitrary: pd)
  case (Cons i ivls)
  show ?case
  proof (cases "i = ivl")
    case True
    have "x \<in> set (harvested ivl stop pd)" using Cons.prems(1) fold_harvested_subset True by fastforce
    then show ?thesis using assms(3) by (simp add: harvested_def)
  next
    case False
    with Cons show ?thesis by simp
  qed
qed simp

text \<open>The time up to which \<^verbatim>\<open>Close\<close> harvests an interval.\<close>

lemma final_stop:
  assumes cfg: "schedule_ok cfg" and ivl: "ivl \<in> set (cfg_AggregationIntervals cfg)" and t: "18 * Hour \<le> t" "t < 2 ^ 62 * Second"
  defines "stop \<equiv> Truncate t ivl + ivl"
  shows "Truncate stop ivl = stop" and "18 * Hour \<le> stop" and "stop < 2 ^ 63 * Second"
    and "current t x \<Longrightarrow> cmk_Interval (fst x) = ivl \<Longrightarrow> window ivl (stop - ivl) stop x"
proof -
  have i: "0 < ivl" "ivl \<le> 18 * Hour" using schedule_okD(6) [OF cfg ivl] by auto
  have "ivl dvd (Truncate t ivl - zero_time) + ivl" using Truncate_dvd [OF i(1), of t] by simp
  then have "ivl dvd stop - zero_time" by (simp only: stop_def diff_add_eq)
  then show "Truncate stop ivl = stop" by (simp add: Truncate_eq_iff [OF i(1)])
  show "18 * Hour \<le> stop" using t(1) Truncate_gt [OF i(1), of t] by (simp add: stop_def)
  show "stop < 2 ^ 63 * Second" using t(2) i(2) Truncate_le [of t ivl] by (simp add: stop_def Hour_def Minute_def Second_def)
  show "current t x \<Longrightarrow> cmk_Interval (fst x) = ivl \<Longrightarrow> window ivl (stop - ivl) stop x"
    using i(1) by (simp add: current_def window_def stop_def)
qed

lemma final_harvests_holds:
  fixes P :: "('db, 'b, 'e) pebble" and cfg :: "('pe, 'kv, 'h) agg_config"
  assumes L: "pebble_laws E l P bops dops" and HR: "hll_roundtrip (hll E)" and cfg: "schedule_ok cfg"
    and t: "18 * Hour \<le> ag_processingTime a" "ag_processingTime a < 2 ^ 62 * Second"
    and ivls: "set ivls \<subseteq> set (cfg_AggregationIntervals cfg)"
    and pd: "list_all keyed_ok pd" "\<forall>x \<in> set pd. current (ag_processingTime a) x"
    and db: "ag_db a = Some db" "db_holds dops db pd"
    and r: "final_harvests P cfg ivls a = Some (errs, a')" and errs: "no_storage_errors errs"
    and fin: "final_complete P cfg ivls a"
  shows "\<exists>db' pd'. ag_db a' = Some db' \<and> db_holds dops db' pd' \<and> set pd' \<subseteq> set pd \<and> ag_closed a' = ag_closed a
    \<and> (\<forall>x \<in> set pd'. cmk_Interval (fst x) \<notin> set ivls)
    \<and> (\<forall>M i. hist_metric M \<longrightarrow> processed_weight (hll E) M i (ag_processed a') + pending_weight (hll E) M i pd'
           = processed_weight (hll E) M i (ag_processed a) + pending_weight (hll E) M i pd)"
  using t ivls pd db r errs fin
proof (induction ivls arbitrary: a pd db errs)
  case Nil
  then show ?case by auto
next
  case (Cons ivl ivls)
  let ?I = "cfg_AggregationIntervals cfg"
  define to where "to = Truncate (ag_processingTime a) ivl + ivl"
  obtain ce stats where ce: "ce_loadAndDelete (ag_cachedEvents a) to = (ce, stats)" by (rule prod.exhaust)
  let ?a = "a\<lparr>ag_cachedEvents := ce\<rparr>"
  obtain errs1 errs2 a1 where r: "harvest P cfg to stats ?a = Some (errs1, a1)"
    "final_harvests P cfg ivls a1 = Some (errs2, a')" "errs = errs1 @ errs2"
    using Cons.prems(8) by (auto simp: to_def [symmetric] ce Let_def split: bind_splits)
  have e: "no_storage_errors errs1" "no_storage_errors errs2" using Cons.prems(9) by (simp_all add: r(3))
  obtain processor where pr: "cfg_Processor cfg = Some processor" using schedule_okD(4) [OF cfg] by blast
  have loop: "harvest_loop P processor db to stats ?I ?a = Some (errs1, a1)"
    using r(1) Cons.prems(6) by (simp add: harvest_def pr)
  have ivl: "ivl \<in> set ?I" using Cons.prems(3) by simp
  note st = final_stop [OF cfg ivl Cons.prems(1,2), folded to_def]
  have due: "due_ok i to \<and> iter_complete P db i to" if "i \<in> set ?I" "Truncate to i = to" for i
    using due_okI [OF cfg that st(2,3)] Cons.prems(10) Cons.prems(6) that
    by (simp add: to_def [symmetric] ce harvest_complete_def Let_def)
  have a: "ag_db ?a = Some db" using Cons.prems(6) by simp
  define pd1 where "pd1 = fold (\<lambda>ivl. harvested ivl to) ?I pd"
  from harvest_loop_holds [OF L HR schedule_okD(5) [OF cfg] due Cons.prems(7,4) refl Cons.prems(4) a Cons.prems(7) loop e(1)]
  obtain db1 where db1: "ag_db a1 = Some db1" "db_holds dops db1 pd1" "harvest_frame ?a a1"
    "\<forall>M i. hist_metric M \<longrightarrow> processed_weight (hll E) M i (ag_processed a1) + pending_weight (hll E) M i pd1
       = processed_weight (hll E) M i (ag_processed ?a) + pending_weight (hll E) M i pd"
    unfolding pd1_def by blast
  have sub: "set pd1 \<subseteq> set pd" unfolding pd1_def by (rule fold_harvested_subset)
  have gone: "cmk_Interval (fst x) \<noteq> ivl" if "x \<in> set pd1" for x
    using fold_harvested_removes [OF that [unfolded pd1_def] ivl st(1)] st(4) [of x] sub that Cons.prems(5) by auto
  have fr: "ag_processingTime a1 = ag_processingTime a" "ag_closed a1 = ag_closed a"
    using db1(3) by (simp_all add: harvest_frame_def)
  have "final_complete P cfg ivls a1" using Cons.prems(10) r(1) by (simp add: to_def [symmetric] ce Let_def)
  moreover have "list_all keyed_ok pd1" "\<forall>x \<in> set pd1. current (ag_processingTime a1) x"
    using Cons.prems(4,5) sub by (auto simp: list_all_iff fr)
  ultimately obtain db' pd' where "ag_db a' = Some db'" "db_holds dops db' pd'" and sub': "set pd' \<subseteq> set pd1"
    and "ag_closed a' = ag_closed a1"
    "\<forall>x \<in> set pd'. cmk_Interval (fst x) \<notin> set ivls"
    "\<forall>M i. hist_metric M \<longrightarrow> processed_weight (hll E) M i (ag_processed a') + pending_weight (hll E) M i pd'
       = processed_weight (hll E) M i (ag_processed a1) + pending_weight (hll E) M i pd1"
    using Cons.IH [OF _ _ _ _ _ db1(1,2) r(2) e(2)] Cons.prems(1-3) fr by auto
  moreover have "\<forall>x \<in> set pd'. cmk_Interval (fst x) \<noteq> ivl" using gone sub' by blast
  ultimately show ?case using db1(4) sub fr by (intro exI [of _ db'] exI [of _ pd']) auto
qed

lemma inv_close:
  fixes P :: "('db, 'b, 'e) pebble" and cfg :: "('pe, 'kv, 'h) agg_config"
  assumes L: "pebble_laws E l P bops dops" and HR: "hll_roundtrip (hll E)" and cfg: "schedule_ok cfg"
    and t: "ag_processingTime a < 2 ^ 62 * Second"
    and inv: "agg_inv (hll E) cfg etype bops dops acc a ph pd pt pb" and ph: "ph = NotRunning \<or> ph = Stopped"
    and r: "Close P cfg False pick None a = Some (errs, a')" and errs: "no_storage_errors errs"
    and fin: "final_complete P cfg (cfg_AggregationIntervals cfg) (final_state P cfg a)"
  shows "weights_ok (hll E) etype (set (cfg_AggregationIntervals cfg)) acc (ag_processed a') [] \<and> ag_closed a'"
proof -
  let ?I = "cfg_AggregationIntervals cfg" and ?a = "a\<lparr>ag_closed := True\<rparr>"
  have pt: "pt = []" using inv ph by (auto simp: agg_inv_defs)
  have cur: "\<forall>x \<in> set (pd @ pb). current (ag_processingTime a) x"
    using inv ph by (auto simp: agg_inv_defs in_time_def)
  obtain db where db: "ag_db a = Some db" "db_holds dops db pd" "batch_holds bops (ag_batch a) pb"
    using inv by (auto simp: agg_inv_def agg_holds_def)
  obtain errs1 where fa: "final_aggregation P cfg db ?a = Some (errs1, a')" "no_storage_errors errs1"
    using r db(1) errs by (auto simp: Close_def Let_def split: if_splits bind_splits)
  define a1 where "a1 = final_state P cfg a"
  obtain db1 where a1: "ag_db a1 = Some db1" "db_holds dops db1 (pd @ pb)" "ag_processingTime a1 = ag_processingTime a"
      "ag_processed a1 = ag_processed a" "ag_closed a1"
    and fh: "\<exists>errs2 a2. final_harvests P cfg ?I a1 = Some (errs2, a2) \<and> no_storage_errors errs2
      \<and> ag_processed a' = ag_processed a2 \<and> ag_closed a' = ag_closed a2"
  proof (cases "ag_batch a")
    case None
    then have "a1 = ?a" "pb = []" using db by (simp_all add: a1_def final_state_def batch_holds_def)
    moreover from this None fa have "\<exists>errs2 a2. final_harvests P cfg ?I a1 = Some (errs2, a2) \<and> no_storage_errors errs2
        \<and> ag_processed a' = ag_processed a2 \<and> ag_closed a' = ag_closed a2"
      by (auto simp: final_aggregation_def split: bind_splits if_splits option.splits)
    ultimately show ?thesis using that [of db] db by simp
  next
    case (Some b)
    obtain err a2 where c: "commit_batch P db b ?a = (err :: ('e, 'pe) agg_error option, a2)" by (rule prod.exhaust)
    have "err = None"
    proof (cases err)
      case (Some e1)
      then have "\<exists>e2. e1 = Storage e2" using c by (auto simp: commit_batch_def Let_def split: prod.splits option.splits)
      then show ?thesis using fa c Some \<open>ag_batch a = Some b\<close> by (auto simp: final_aggregation_def)
    qed simp
    have a2: "a1 = a2" using Some db(1) c by (simp add: a1_def final_state_def)
    have "bops b = map enc_op pb" using db(3) Some by (simp add: batch_holds_def)
    from commit_batch_holds [OF L _ db(2) this, of ?a a2] c db(1) \<open>err = None\<close>
    have h: "agg_holds bops dops a1 (pd @ pb) []" "agg_frame ?a a1" by (auto simp: a2)
    moreover from fa c Some \<open>err = None\<close> have "\<exists>errs2 a2. final_harvests P cfg ?I a1 = Some (errs2, a2) \<and> no_storage_errors errs2
        \<and> ag_processed a' = ag_processed a2 \<and> ag_closed a' = ag_closed a2"
      by (auto simp: final_aggregation_def a2 split: bind_splits if_splits option.splits)
    ultimately show ?thesis using that by (auto simp: agg_holds_def agg_frame_def)
  qed
  from fh obtain errs2 a2 where a2: "final_harvests P cfg ?I a1 = Some (errs2, a2)" "no_storage_errors errs2"
    "ag_processed a' = ag_processed a2" "ag_closed a' = ag_closed a2" by blast
  have t1: "18 * Hour \<le> ag_processingTime a1" "ag_processingTime a1 < 2 ^ 62 * Second" "list_all keyed_ok (pd @ pb)"
    "\<forall>x \<in> set (pd @ pb). current (ag_processingTime a1) x"
    using inv t cur by (auto simp: a1(3) agg_inv_def)
  from final_harvests_holds [OF L HR cfg t1(1,2) subset_refl t1(3,4) a1(1,2) a2(1,2) fin [folded a1_def]]
  obtain pd' where pd': "set pd' \<subseteq> set (pd @ pb)" "\<forall>x \<in> set pd'. cmk_Interval (fst x) \<notin> set ?I" "ag_closed a2"
    "\<forall>M i. hist_metric M \<longrightarrow> processed_weight (hll E) M i (ag_processed a2) + pending_weight (hll E) M i pd'
       = processed_weight (hll E) M i (ag_processed a) + pending_weight (hll E) M i (pd @ pb)"
    using a1(4,5) by auto
  have "\<forall>x \<in> set (pd @ pb). cmk_Interval (fst x) \<in> set ?I" using inv by (auto simp: agg_inv_def)
  with pd'(1,2) have "pd' = []" by (metis subsetD set_empty equals0I)
  with pd'(4) have "weights_ok (hll E) etype (set ?I) (acc @ []) (ag_processed a') []"
    using inv by (intro weights_okI [of "hll E" etype _ acc "ag_processed a" "pd @ pt @ pb"])
      (auto simp: agg_inv_def pt a2(3) hist_metric_def)
  then show ?thesis using pd'(3) a2(4) by simp
qed

section \<open>Every run keeps the invariant\<close>

definition same_data :: "('db, 'b) Aggregator \<Rightarrow> ('db, 'b) Aggregator \<Rightarrow> bool" where
  "same_data a a' \<longleftrightarrow> ag_processingTime a' = ag_processingTime a \<and> ag_batch a' = ag_batch a \<and> ag_db a' = ag_db a
     \<and> ag_processed a' = ag_processed a"

definition quiet :: "('db, 'b) phase \<Rightarrow> bool" where
  "quiet ph \<longleftrightarrow> (case ph of Harvesting _ _ R \<Rightarrow> R = [] | Taken _ _ \<Rightarrow> False | Committed _ \<Rightarrow> False | _ \<Rightarrow> True)"

lemma inv_same:
  assumes "agg_inv H cfg etype bops dops acc a ph pd pt pb" and "same_data a a'"
    and "ph' = ph \<or> quiet ph \<and> ph' \<in> {Idle, Stopped}"
  shows "agg_inv H cfg etype bops dops acc a' ph' pd pt pb"
  using assms unfolding agg_inv_defs same_data_def agg_holds_def quiet_def by (auto split: phase.splits)

lemma sys_inv_same:
  assumes "sys_inv H cfg etype bops dops acc (a, ph)" and "same_data a a'" and "ph \<noteq> Finished"
    and "ph' = ph \<or> quiet ph \<and> ph' \<in> {Idle, Stopped}"
  shows "sys_inv H cfg etype bops dops acc (a', ph')"
proof -
  from assms(1,3) obtain pd pt pb where "agg_inv H cfg etype bops dops acc a ph pd pt pb"
    and t: "ag_processingTime a < 2 ^ 62 * Second" by auto
  from inv_same [OF this(1) assms(2,4)] have "\<exists>pd pt pb. agg_inv H cfg etype bops dops acc a' ph' pd pt pb" by blast
  moreover have "ag_processingTime a' = ag_processingTime a" using assms(2) by (simp add: same_data_def)
  ultimately show ?thesis using t assms(3,4) by auto
qed

lemma reject_same:
  assumes "AggregateBatch P cfg X etype pool ctx_done pick i es a = Some (errs, a')" and "ag_closed a \<or> ctx_done"
  shows "a' = a \<and> (errs = [ErrAggregatorClosed] \<or> errs = [ContextDone])"
  using assms by (auto simp: AggregateBatch_def guard_def split: option.splits if_splits)

lemma reject_metrics_same:
  assumes "AggregateCombinedMetrics P ctx_done pick cmk cm a = Some (err, a')" and "ag_closed a \<or> ctx_done"
  shows "a' = a \<and> err \<noteq> None"
  using assms by (auto simp: AggregateCombinedMetrics_def guard_def split: option.splits if_splits)

lemma agg_step_inv:
  fixes P :: "('db, 'b, 'e) pebble" and cfg :: "('pe, 'kv, 'h) agg_config"
  assumes L: "pebble_laws E l P bops dops" and HR: "hll_roundtrip (hll E)" and cfg: "schedule_ok cfg"
    and s: "agg_step P cfg X etype s es s'" and inv: "sys_inv (hll E) cfg etype bops dops acc s" "snd s \<noteq> Finished"
  shows "sys_inv (hll E) cfg etype bops dops (acc @ es) s'"
  using s inv
proof (cases rule: agg_step.cases)
  case (accept pool pick i es' a a' ph)
  with inv obtain pd pt pb where "agg_inv (hll E) cfg etype bops dops acc a ph pd pt pb" "ag_processingTime a < 2 ^ 62 * Second"
    by auto
  from inv_accept [OF L cfg this(2,1) accept(4-7)] this(2) accept inv(2) show ?thesis by auto
next
  case (accept_metrics pick cmk cm a a' ph)
  with inv obtain pd pt pb where "agg_inv (hll E) cfg etype bops dops acc a ph pd pt pb" "ag_processingTime a < 2 ^ 62 * Second"
    by auto
  from inv_accept_metrics [OF L this(1) accept_metrics(4-7)] this(2) accept_metrics inv(2) show ?thesis by auto
next
  case (reject_metrics ctx_done pick cmk cm a err a' ph)
  with reject_metrics_same [OF reject_metrics(4,5)] inv show ?thesis by simp
next
  case (reject pool ctx_done pick i es' a errs a' ph)
  with reject_same [OF reject(4,5)] inv show ?thesis by simp
next
  case (run a a')
  then have "same_data a a'" by (auto simp: run_start_def same_data_def split: if_splits)
  with sys_inv_same [of "hll E" cfg etype bops dops acc a NotRunning a' Idle] inv run show ?thesis
    by (simp add: quiet_def)
next
  case (tick a batch stats a')
  with inv inv_tick [OF _ tick(4) cfg] show ?thesis by fastforce
next
  case (commit batch a a' stats)
  with inv inv_commit [OF L _ commit(4)] show ?thesis by fastforce
next
  case (snapshot a snap stats)
  with inv inv_snapshot [OF _ snapshot(4) cfg] show ?thesis by fastforce
next
  case (interval processor snap a stats ivl errs a' ivls)
  with inv inv_interval [OF L HR cfg _ _ interval(5,6,7)] show ?thesis by fastforce
next
  case (next_tick a snap stats)
  with sys_inv_same [of "hll E" cfg etype bops dops acc a "Harvesting snap stats []" a Idle] inv show ?thesis
    by (simp add: quiet_def same_data_def)
next
  case (closing ph a)
  with sys_inv_same [of "hll E" cfg etype bops dops acc a ph "a\<lparr>ag_closed := True\<rparr>" ph] inv show ?thesis
    by (simp add: same_data_def)
next
  case (stop a)
  with sys_inv_same [of "hll E" cfg etype bops dops acc a Idle "a\<lparr>ag_runStopped := ClosedChan\<rparr>" Stopped] inv show ?thesis
    by (simp add: same_data_def quiet_def)
next
  case (close ph pick a errs a')
  with inv obtain pd pt pb where "agg_inv (hll E) cfg etype bops dops acc a ph pd pt pb" "ag_processingTime a < 2 ^ 62 * Second"
    by auto
  from inv_close [OF L HR cfg this(2,1) close(4-7)] close show ?thesis by simp
qed

text \<open>Once it is finished the aggregator only rejects.\<close>

lemma finished_step:
  assumes "agg_step P cfg X etype (a, Finished) es s'" and "ag_closed a"
  shows "es = [] \<and> s' = (a, Finished)"
  using assms(1)
proof (cases rule: agg_step.cases)
  case (accept pool pick i es' a')
  then show ?thesis using assms(2) by (simp add: AggregateBatch_def guard_def)
next
  case (accept_metrics pick cmk cm a')
  then show ?thesis using assms(2) by (simp add: AggregateCombinedMetrics_def guard_def)
next
  case (reject_metrics ctx_done pick cmk cm err a')
  with reject_metrics_same [OF reject_metrics(3,4)] show ?thesis by simp
next
  case (reject pool ctx_done pick i es' errs a')
  with reject_same [OF reject(3,4)] show ?thesis by simp
qed simp_all

lemma agg_run_inv:
  fixes P :: "('db, 'b, 'e) pebble" and cfg :: "('pe, 'kv, 'h) agg_config"
  assumes L: "pebble_laws E l P bops dops" and HR: "hll_roundtrip (hll E)" and cfg: "schedule_ok cfg"
    and r: "agg_run P cfg X etype s es s'" and inv: "sys_inv (hll E) cfg etype bops dops acc s"
  shows "sys_inv (hll E) cfg etype bops dops (acc @ es) s'"
  using r inv
proof (induction rule: agg_run.induct)
  case (step s es s1 fs s2)
  then have inv1: "sys_inv (hll E) cfg etype bops dops (acc @ es) s1" by simp
  obtain a ph where s1: "s1 = (a, ph)" by (rule prod.exhaust)
  show ?case
  proof (cases "ph = Finished")
    case True
    with inv1 have "ag_closed a" by (simp add: s1)
    with finished_step [OF _ this, of P cfg X etype fs s2] step.hyps(2) True inv1 show ?thesis by (simp add: s1)
  next
    case False
    with agg_step_inv [OF L HR cfg step.hyps(2) inv1] show ?thesis by (simp add: s1)
  qed
qed simp

text \<open>A new aggregator over an empty database.\<close>

lemma new_inv:
  assumes "New P G now metrics_err opts = Some (Inr (cfg, a))" and "schedule_ok cfg"
    and "\<And>db. pb_Open P (cfg_DataDir cfg) (cfg_InMemory cfg) = Inr db \<Longrightarrow> dops db = (\<lambda>_. [])"
    and "36 * Hour \<le> now" and "now < 2 ^ 62 * Second"
  shows "sys_inv H cfg etype bops dops [] (a, NotRunning)"
proof -
  let ?d = "lowest_interval cfg"
  obtain db where a: "ag_db a = Some db" "ag_processingTime a = Truncate now ?d" "ag_batch a = None" "ag_processed a = []"
    and db: "dops db = (\<lambda>_. [])"
    using assms(1,3) by (auto simp: New_def split: bind_splits sum.splits option.splits)
  have "?d \<in> set (cfg_AggregationIntervals cfg)" using schedule_okD(1) [OF assms(2)] by (simp add: lowest_interval_def)
  then have d: "0 < ?d" "?d \<le> 18 * Hour" using schedule_okD(6) [OF assms(2)] by auto
  have "agg_inv H cfg etype bops dops [] a NotRunning [] [] []"
    using a db assms(4) d(2) Truncate_gt [OF d(1), of now] Truncate_dvd [OF d(1), of now]
    by (simp add: agg_inv_defs agg_holds_def db_holds_def batch_holds_def weights_ok_def processed_weight_def pending_weight_def)
  moreover have "ag_processingTime a < 2 ^ 62 * Second" using a(2) assms(5) Truncate_le [of now ?d] by simp
  ultimately show ?thesis by auto
qed

end
