(* ===== verification/AggTotal.thy ===== *)
theory AggTotal
  imports AggMachine
begin

text \<open>
  Calls return: over a storage that reports no errors, a batch is aggregated without an error, and
  the final harvests of \<^verbatim>\<open>Close\<close> end, with at most the errors of the processor. In particular neither
  panics.
\<close>

definition storage_total :: "('db, 'b, 'e) pebble \<Rightarrow> bool" where
  "storage_total P \<longleftrightarrow> (\<forall>b k v. \<exists>b'. pb_Finish P b k v = Inr b') \<and> (\<forall>db b. fst (pb_Commit P db b) = None)
     \<and> (\<forall>b. pb_CloseBatch P b = None) \<and> (\<forall>db lb ub. fst (pb_DeleteRange P db lb ub) = None)
     \<and> (\<forall>db. pb_Close P db = None)"

lemma storage_totalD:
  assumes "storage_total P"
  shows "\<exists>b'. pb_Finish P b k v = Inr b'" and "\<exists>db'. pb_Commit P db b = (None, db')" and "pb_CloseBatch P b = None"
    and "\<exists>db'. pb_DeleteRange P db lb ub = (None, db')" and "pb_Close P db = None"
  using assms unfolding storage_total_def by (simp_all add: prod_eq_iff)

section \<open>Aggregation\<close>

text \<open>What aggregation leaves behind: an open database and an unchanged frame.\<close>

definition goes_on :: "('db, 'b) Aggregator \<Rightarrow> ('db, 'b) Aggregator \<Rightarrow> bool" where
  "goes_on a a' \<longleftrightarrow> ag_db a' \<noteq> None \<and> agg_frame a a'"

lemma goes_on_trans: "goes_on a b \<Longrightarrow> goes_on b c \<Longrightarrow> goes_on a c"
  by (auto simp: goes_on_def intro: agg_frame_trans)

lemma commit_batch_total:
  assumes "storage_total P"
  shows "\<exists>a'. commit_batch P db b a = (None, a') \<and> goes_on a a'"
proof -
  obtain db' where "pb_Commit P db b = (None, db')" using storage_totalD(2) [OF assms] by blast
  then show ?thesis by (simp add: commit_batch_def storage_totalD(3) [OF assms] goes_on_def agg_frame_def)
qed

lemma aggregate_total:
  fixes P :: "('db, 'b, 'e) pebble"
  assumes S: "storage_total P" and db: "ag_db a = Some db" and k: "key_ok cmk"
  shows "\<exists>a'. aggregate P cmk cm a = Some (CombinedMetrics_SizeVT cm, None :: ('e, 'pe) agg_error option, a') \<and> goes_on a a'"
proof -
  define b where "b = pb_MergeDeferred P (case ag_batch a of None \<Rightarrow> pb_NewBatch P db | Some b \<Rightarrow> b)
    (SizeBinary cmk) (CombinedMetrics_SizeVT cm)"
  obtain b1 where b1: "pb_Finish P b (enc_key cmk) (enc cm) = Inr b1" using storage_totalD(1) [OF S] by blast
  let ?a = "a\<lparr>ag_batch := Some b1\<rparr>"
  obtain a1 where a1: "commit_batch P db b1 ?a = (None :: ('e, 'pe) agg_error option, a1)" "goes_on ?a a1" using commit_batch_total [OF S] by blast
  have "goes_on a ?a" using db by (simp add: goes_on_def agg_frame_def)
  with a1 show ?thesis
    by (auto simp: aggregate_def db k b_def [symmetric] b1 Let_def intro: goes_on_trans)
qed

lemma run_callbacks_total:
  fixes P :: "('db, 'b, 'e) pebble"
  assumes S: "storage_total P" and db: "ag_db a \<noteq> None" and k: "list_all (key_ok \<circ> fst) kms"
  shows "\<exists>t' a'. run_callbacks (\<lambda>k m (t, a). do { (n, err, a) \<leftarrow> aggregate P k m a; Some ((t + n, a), err) }) kms (t, a)
      = Some ((t', a'), [] :: ('e, 'pe) agg_error list) \<and> goes_on a a'"
  using db k
proof (induction kms arbitrary: a t)
  case Nil
  then show ?case by (simp add: goes_on_def)
next
  case (Cons km kms)
  obtain cmk cm where km: "km = (cmk, cm)" by (rule prod.exhaust)
  obtain db where db: "ag_db a = Some db" using Cons.prems(1) by blast
  have "key_ok cmk" using Cons.prems(2) by (simp add: km)
  from aggregate_total [OF S db this, of cm] obtain a1 where a1:
    "aggregate P cmk cm a = Some (CombinedMetrics_SizeVT cm, None :: ('e, 'pe) agg_error option, a1)" "goes_on a a1" by blast
  have "ag_db a1 \<noteq> None" "list_all (key_ok \<circ> fst) kms" using Cons.prems(2) a1(2) by (simp_all add: goes_on_def comp_def)
  from Cons.IH [OF this, of "t + CombinedMetrics_SizeVT cm"] a1(2) show ?case
    by (auto simp: km a1(1) intro: goes_on_trans)
qed

lemma aggregateAPMEvent_total:
  fixes P :: "('db, 'b, 'e) pebble" and cfg :: "('pe, 'kv, 'h) agg_config"
  assumes S: "storage_total P" and db: "ag_db a \<noteq> None" and k: "key_ok cmk" and pool: "pool_ok pool" and n: "cfg_Partitions cfg \<noteq> 0"
  shows "\<exists>b a'. aggregateAPMEvent P cfg X etype pool cmk e a = Some (b, [], a') \<and> goes_on a a'"
  using run_callbacks_total [where 'pe = 'pe, OF S db part_messages_key_ok [OF k], where t = 0, of X etype e "cfg_Partitions cfg"]
  by (auto simp: aggregateAPMEvent_def EventToCombinedMetrics_def event_messages_parts [OF pool n])

lemma aggregate_events_total:
  fixes P :: "('db, 'b, 'e) pebble" and cfg :: "('pe, 'kv, 'h) agg_config"
  assumes S: "storage_total P" and db: "ag_db a \<noteq> None" and k: "key_ok cmk" and pool: "\<And>j. pool_ok (pool j)"
    and n: "cfg_Partitions cfg \<noteq> 0"
  shows "\<exists>b a'. aggregate_events P cfg X etype pool cmk j es a = Some (b, [], a') \<and> goes_on a a'"
  using db
proof (induction es arbitrary: a j)
  case Nil
  then show ?case by (simp add: goes_on_def)
next
  case (Cons e es)
  from aggregateAPMEvent_total [OF S Cons.prems k pool n, of X etype j e] obtain b1 a1 where
    a1: "aggregateAPMEvent P cfg X etype (pool j) cmk e a = Some (b1, [], a1)" "goes_on a a1" by blast
  then have "ag_db a1 \<noteq> None" by (simp add: goes_on_def)
  from Cons.IH [OF this, of "Suc j"] a1 show ?case by (auto intro: goes_on_trans)
qed

lemma aggregate_intervals_total:
  fixes P :: "('db, 'b, 'e) pebble" and cfg :: "('pe, 'kv, 'h) agg_config"
  assumes S: "storage_total P" and db: "ag_db a \<noteq> None" and k: "\<forall>ivl \<in> set ivls. key_ok (base_key i (ag_processingTime a) ivl)"
    and pool: "\<And>ivl j. pool_ok (pool ivl j)" and n: "cfg_Partitions cfg \<noteq> 0"
  shows "\<exists>b a'. aggregate_intervals P cfg X etype pool i es ivls a = Some (b, [], a') \<and> goes_on a a'"
  using db k
proof (induction ivls arbitrary: a)
  case Nil
  then show ?case by (simp add: goes_on_def)
next
  case (Cons ivl ivls)
  have "key_ok (base_key i (ag_processingTime a) ivl)" using Cons.prems(2) by simp
  from aggregate_events_total [OF S Cons.prems(1) this, where pool = "pool ivl", OF pool n, of X etype 0 es] obtain b1 a1 where
    a1: "aggregate_events P cfg X etype (pool ivl) (base_key i (ag_processingTime a) ivl) 0 es a = Some (b1, [], a1)"
      "goes_on a a1" by blast
  let ?a = "a1\<lparr>ag_cachedEvents := ce_add (ag_cachedEvents a1) ivl i (f64_of_int (int (length es)))\<rparr>"
  have g: "goes_on a ?a" using a1(2) by (simp add: goes_on_def agg_frame_def)
  then have "ag_db ?a \<noteq> None" "\<forall>ivl \<in> set ivls. key_ok (base_key i (ag_processingTime ?a) ivl)"
    using Cons.prems(2) by (auto simp: goes_on_def agg_frame_def)
  from Cons.IH [OF this] g a1(1) show ?case
    by (auto simp: base_key_def [symmetric] Let_def intro: goes_on_trans)
qed

lemma AggregateBatch_total:
  fixes P :: "('db, 'b, 'e) pebble" and cfg :: "('pe, 'kv, 'h) agg_config"
  assumes S: "storage_total P" and a: "ag_db a \<noteq> None" "\<not> ag_closed a" and cfg: "schedule_ok cfg"
    and t: "time_ok cfg (ag_processingTime a)" and i: "length i = 16" and pool: "\<And>ivl j. pool_ok (pool ivl j)"
  shows "\<exists>a'. AggregateBatch P cfg X etype pool False pick i es a = Some ([], a') \<and> goes_on a a'"
proof -
  have "\<forall>ivl \<in> set (cfg_AggregationIntervals cfg). key_ok (base_key i (ag_processingTime a) ivl)"
    using base_key_ok [OF cfg t _ i] by blast
  from aggregate_intervals_total [OF S a(1) this, of pool cfg X etype es, OF pool schedule_okD(3) [OF cfg]]
  obtain b a1 where "aggregate_intervals P cfg X etype pool i es (cfg_AggregationIntervals cfg) a = Some (b, [], a1)"
    "goes_on a a1" by blast
  with a(2) show ?thesis by (simp add: AggregateBatch_def guard_def goes_on_def agg_frame_def)
qed

lemma AggregateCombinedMetrics_total:
  fixes P :: "('db, 'b, 'e) pebble"
  assumes S: "storage_total P" and a: "ag_db a \<noteq> None" "\<not> ag_closed a" and k: "key_ok cmk"
  shows "\<exists>a'. AggregateCombinedMetrics P False pick cmk cm a = Some (None :: ('e, 'pe) agg_error option, a') \<and> goes_on a a'"
proof -
  obtain db where db: "ag_db a = Some db" using a(1) by blast
  from aggregate_total [OF S db k, of cm] obtain a1 where
    "aggregate P cmk cm a = Some (CombinedMetrics_SizeVT cm, None :: ('e, 'pe) agg_error option, a1)" "goes_on a a1" by blast
  with a(2) show ?thesis by (simp add: AggregateCombinedMetrics_def guard_def Let_def goes_on_def agg_frame_def)
qed

section \<open>Harvest\<close>

definition db_ok :: "('db \<Rightarrow> bytes \<Rightarrow> bytes list) \<Rightarrow> 'db \<Rightarrow> bool" where
  "db_ok dops db \<longleftrightarrow> (\<exists>pd. db_holds dops db pd \<and> list_all keyed_ok pd)"

definition open_db :: "('db \<Rightarrow> bytes \<Rightarrow> bytes list) \<Rightarrow> ('db, 'b) Aggregator \<Rightarrow> bool" where
  "open_db dops a \<longleftrightarrow> (\<exists>db. ag_db a = Some db \<and> db_ok dops db)"

text \<open>A harvest that ends with at most errors of the processor, with the database still open.\<close>

definition harvests ::
  "('db \<Rightarrow> bytes \<Rightarrow> bytes list) \<Rightarrow> ('db, 'b) Aggregator \<Rightarrow> ('e, 'pe) agg_error list \<Rightarrow> ('db, 'b) Aggregator \<Rightarrow> bool" where
  "harvests dops a errs a' \<longleftrightarrow> processor_errors errs \<and> open_db dops a' \<and> harvest_frame a a'"

lemma harvests_trans: "harvests dops a errs b \<Longrightarrow> harvests dops b errs' c \<Longrightarrow> harvests dops a (errs @ errs') c"
  by (simp add: harvests_def harvest_frame_def)

lemma delete_ok:
  assumes L: "pebble_laws E l P bops dops" and db: "db_ok dops db" and d: "pb_DeleteRange P db lb ub = (None, db')"
  shows "db_ok dops db'"
proof -
  obtain pd where pd: "db_holds dops db pd" "list_all keyed_ok pd" using db by (auto simp: db_ok_def)
  let ?pd = "filter (\<lambda>x. \<not> in_range lb ub (enc_key (fst x))) pd"
  have "dops db' = (\<lambda>k. if in_range lb ub k then [] else dops db k)" using L d unfolding pebble_laws_def by blast
  moreover have "at_key k ?pd = (if in_range lb ub k then [] else at_key k pd)" for k
    by (auto simp: at_key_def filter_empty_conv intro!: arg_cong [where f = "map snd"] filter_cong)
  ultimately have "db_holds dops db' ?pd" using pd(1) by (simp add: db_holds_def)
  then show ?thesis using pd(2) by (auto simp: db_ok_def list_all_iff)
qed

lemma harvestForInterval_total:
  fixes P :: "('db, 'b, 'e) pebble" and processor :: "'pe processor"
  assumes S: "storage_total P" and L: "pebble_laws E l P bops dops" and H: "hll_roundtrip (hll E)"
    and a: "open_db dops a" and snap: "db_ok dops snap"
  shows "\<exists>c errs a'. harvestForInterval P processor snap start stop ivl stats a = Some (c, errs :: ('e, 'pe) agg_error list, a')
    \<and> harvests dops a errs a'"
proof -
  let ?lb = "encode_bound ivl start" let ?ub = "encode_bound ivl stop"
  obtain ps where ps: "db_holds dops snap ps" "list_all keyed_ok ps" using snap by (auto simp: db_ok_def)
  obtain db where db: "ag_db a = Some db" "db_ok dops db" using a by (auto simp: open_db_def)
  obtain kvs ok where it: "pb_Iter P snap ?lb ?ub = (kvs, ok)" by (rule prod.exhaust)
  have "\<forall>(k, v) \<in> set kvs. in_range ?lb ?ub k \<and> dops snap k \<noteq> [] \<and> lsm_val E l (dops snap k) v"
    using L it unfolding pebble_laws_def by blast
  then have "\<forall>(k, v) \<in> set kvs. at_key k ps \<noteq> [] \<and> lsm_val E l (map enc (at_key k ps)) v"
    using ps(1) by (fastforce simp: db_holds_def)
  from entries_decode [OF H ps(2) this] obtain ys where ys: "list_all2 entry_of kvs ys" by blast
  let ?a = "a\<lparr>ag_metrics := ag_metrics a @ map (\<lambda>(i, n). MetricEventsTotal ivl i n) stats\<rparr>"
  obtain c errs a1 where a1: "harvest_entries processor ivl kvs ?a = Some (c, errs :: ('e, 'pe) agg_error list, a1)"
    "ag_db a1 = Some db" "harvest_frame ?a a1" "processor_errors errs"
    using harvest_entries_ok [OF ys, of processor ivl ?a] db(1) by fastforce
  obtain db' where del: "pb_DeleteRange P db ?lb ?ub = (None, db')" using storage_totalD(4) [OF S] by blast
  show ?thesis
    using a1 delete_ok [OF L db(2) del]
    by (simp add: harvestForInterval_def Let_def it del harvests_def open_db_def harvest_frame_def)
qed

lemma harvest_loop_total:
  fixes P :: "('db, 'b, 'e) pebble" and processor :: "'pe processor"
  assumes S: "storage_total P" and L: "pebble_laws E l P bops dops" and H: "hll_roundtrip (hll E)"
    and a: "open_db dops a" and snap: "db_ok dops snap"
  shows "\<exists>errs a'. harvest_loop P processor snap stop stats ivls a = Some (errs :: ('e, 'pe) agg_error list, a')
    \<and> harvests dops a errs a'"
  using a
proof (induction ivls arbitrary: a)
  case Nil
  then show ?case by (simp add: harvests_def harvest_frame_def)
next
  case (Cons ivl ivls)
  obtain errs a1 where a1: "harvest_step P processor snap stop stats ivl a = Some (errs :: ('e, 'pe) agg_error list, a1)"
    "harvests dops a errs a1"
  proof (cases "Truncate stop ivl = stop")
    case True
    let ?stats = "case gm_get stats ivl of None \<Rightarrow> [] | Some m \<Rightarrow> m"
    from harvestForInterval_total [OF S L H Cons.prems snap, of processor "stop - ivl" stop ivl ?stats]
    obtain c errs a1 where r: "harvestForInterval P processor snap (stop - ivl) stop ivl ?stats a
        = Some (c, errs :: ('e, 'pe) agg_error list, a1)" "harvests dops a errs a1"
      by blast
    show ?thesis by (rule that [OF _ r(2)]) (simp add: harvest_step_def True r(1))
  next
    case False
    show ?thesis by (rule that [of "[]" a]) (use False Cons.prems in \<open>simp_all add: harvest_step_def harvests_def harvest_frame_def\<close>)
  qed
  then have "open_db dops a1" by (simp add: harvests_def)
  from Cons.IH [OF this] a1 show ?case by (auto intro: harvests_trans)
qed

lemma final_harvests_total:
  fixes P :: "('db, 'b, 'e) pebble" and cfg :: "('pe, 'kv, 'h) agg_config"
  assumes S: "storage_total P" and L: "pebble_laws E l P bops dops" and H: "hll_roundtrip (hll E)"
    and cfg: "cfg_Processor cfg = Some processor" and a: "open_db dops a"
  shows "\<exists>errs a'. final_harvests P cfg ivls a = Some (errs, a') \<and> processor_errors errs \<and> open_db dops a'
    \<and> ag_closed a' = ag_closed a"
  using a
proof (induction ivls arbitrary: a)
  case Nil
  then show ?case by simp
next
  case (Cons ivl ivls)
  define to where "to = Truncate (ag_processingTime a) ivl + ivl"
  obtain ce stats where ce: "ce_loadAndDelete (ag_cachedEvents a) to = (ce, stats)" by (rule prod.exhaust)
  obtain db where db: "ag_db a = Some db" "db_ok dops db" using Cons.prems by (auto simp: open_db_def)
  let ?a = "a\<lparr>ag_cachedEvents := ce\<rparr>"
  have "open_db dops ?a" using Cons.prems by (simp add: open_db_def)
  from harvest_loop_total [OF S L H this db(2), of processor to stats "cfg_AggregationIntervals cfg"]
  obtain errs a1 where a1: "harvest P cfg to stats ?a = Some (errs :: ('e, 'pe) agg_error list, a1)" "harvests dops ?a errs a1"
    using db(1) by (auto simp: harvest_def cfg)
  then have "open_db dops a1" "ag_closed a1 = ag_closed a" by (simp_all add: harvests_def harvest_frame_def)
  with Cons.IH [of a1] a1 show ?case by (auto simp: to_def [symmetric] ce harvests_def)
qed

lemma Close_total:
  fixes P :: "('db, 'b, 'e) pebble" and cfg :: "('pe, 'kv, 'h) agg_config"
  assumes S: "storage_total P" and L: "pebble_laws E l P bops dops" and H: "hll_roundtrip (hll E)"
    and cfg: "cfg_Processor cfg = Some processor" and a: "agg_holds bops dops a pd pb" "list_all keyed_ok (pd @ pb)"
    and run: "ag_runStopped a \<noteq> OpenChan"
  shows "\<exists>errs a'. Close P cfg False pick None a = Some (errs, a') \<and> processor_errors errs \<and> ag_closed a'
    \<and> (errs = [] \<longrightarrow> ag_db a' = None)"
proof -
  obtain db where db: "ag_db a = Some db" "db_holds dops db pd" "batch_holds bops (ag_batch a) pb"
    using a(1) by (auto simp: agg_holds_def)
  let ?a = "a\<lparr>ag_closed := True\<rparr>"
  obtain a1 where a1: "(case ag_batch ?a of None \<Rightarrow> (None, ?a) | Some b \<Rightarrow> commit_batch P db b ?a)
      = (None :: ('e, 'pe) agg_error option, a1)" "open_db dops a1" "ag_closed a1"
  proof (cases "ag_batch a")
    case None
    have "open_db dops ?a" using db a(2) by (auto simp: open_db_def db_ok_def list_all_iff)
    then show ?thesis by (rule that [rotated]) (simp_all add: None)
  next
    case (Some b)
    from commit_batch_total [OF S, of db b ?a] obtain a1 where
      c: "commit_batch P db b ?a = (None :: ('e, 'pe) agg_error option, a1)" "goes_on ?a a1" by blast
    have "bops b = map enc_op pb" using db(3) by (simp add: batch_holds_def Some)
    from commit_batch_holds [OF L _ db(2) this c(1)] db(1) have "agg_holds bops dops a1 (pd @ pb) []" by simp
    then have "open_db dops a1"
      unfolding open_db_def db_ok_def using a(2) by (auto simp: agg_holds_def intro!: exI [of _ "pd @ pb"])
    with c show ?thesis by (intro that [of a1]) (simp_all add: Some goes_on_def agg_frame_def)
  qed
  from final_harvests_total [OF S L H cfg a1(2), of "cfg_AggregationIntervals cfg"] obtain errs a2 where
    a2: "final_harvests P cfg (cfg_AggregationIntervals cfg) a1 = Some (errs, a2)" "processor_errors errs" "open_db dops a2"
      "ag_closed a2" using a1(3) by auto
  then obtain db2 where "ag_db a2 = Some db2" by (auto simp: open_db_def)
  with a1 a2 run storage_totalD(5) [OF S] show ?thesis
    by (auto simp: Close_def Let_def final_aggregation_def db(1))
qed

section \<open>Every run can be closed\<close>

fun chan_inv :: "('db, 'b) Aggregator \<times> ('db, 'b) phase \<Rightarrow> bool" where
  "chan_inv (a, ph) \<longleftrightarrow> (ph = NotRunning \<longrightarrow> ag_runStopped a = NilChan) \<and> (ph = Stopped \<longrightarrow> ag_runStopped a = ClosedChan)"

lemma new_chan: "New P G now metrics_err opts = Some (Inr (cfg, a)) \<Longrightarrow> chan_inv (a, NotRunning)"
  by (auto simp: New_def split: bind_splits sum.splits option.splits)

lemma inv_time_ok:
  assumes "sys_inv H cfg etype bops dops acc (a, ph)" and "ph \<noteq> Finished"
  shows "time_ok cfg (ag_processingTime a)" and "\<exists>pd pb. agg_holds bops dops a pd pb"
proof -
  from assms obtain pd pt pb where "agg_inv H cfg etype bops dops acc a ph pd pt pb" and "ag_processingTime a < 2 ^ 62 * Second"
    by auto
  then show "time_ok cfg (ag_processingTime a)" and "\<exists>pd pb. agg_holds bops dops a pd pb"
    unfolding agg_inv_def time_ok_def by blast+
qed

lemma chan_step:
  fixes P :: "('db, 'b, 'e) pebble" and cfg :: "('pe, 'kv, 'h) agg_config"
  assumes L: "pebble_laws E l P bops dops" and cfg: "schedule_ok cfg"
    and s: "agg_step P cfg X etype s fs s'" and inv: "sys_inv (hll E) cfg etype bops dops acc s" and c: "chan_inv s"
  shows "chan_inv s'"
  using s
proof cases
  case (accept pool pick i es a a' ph)
  show ?thesis
  proof (cases "ph = Finished")
    case False
    note t = inv_time_ok [OF inv [unfolded accept(1)] False]
    obtain pd pb where "agg_holds bops dops a pd pb" using t(2) by blast
    moreover have "\<forall>ivl \<in> set (cfg_AggregationIntervals cfg). key_ok (base_key i (ag_processingTime a) ivl)"
      using base_key_ok [OF cfg t(1) _ accept(6)] by blast
    ultimately have "agg_frame a a'"
      using AggregateBatch_holds [OF L _ _ _ schedule_okD(3) [OF cfg] accept(4)] accept(5) by blast
    then show ?thesis using c by (simp add: accept agg_frame_def)
  qed (simp add: accept)
next
  case (accept_metrics pick cmk cm a a' ph)
  show ?thesis
  proof (cases "ph = Finished")
    case False
    note t = inv_time_ok [OF inv [unfolded accept_metrics(1)] False]
    obtain pd pb where "agg_holds bops dops a pd pb" using t(2) by blast
    moreover have "key_ok cmk" using accept_metrics(5) by (simp add: keyed_ok_def)
    ultimately have "agg_frame a a'" using AggregateCombinedMetrics_holds [OF L _ _ accept_metrics(4)] by blast
    then show ?thesis using c by (simp add: accept_metrics agg_frame_def)
  qed (simp add: accept_metrics)
next
  case (reject_metrics ctx_done pick cmk cm a err a' ph)
  then have "a' = a" using reject_metrics_same by blast
  with reject_metrics c show ?thesis by simp
next
  case (reject pool ctx_done pick i es a errs a' ph)
  then have "a' = a" using reject_same by blast
  with reject c show ?thesis by simp
qed (use c in auto)

lemma agg_run_chan:
  fixes P :: "('db, 'b, 'e) pebble" and cfg :: "('pe, 'kv, 'h) agg_config"
  assumes L: "pebble_laws E l P bops dops" and HR: "hll_roundtrip (hll E)" and cfg: "schedule_ok cfg"
    and r: "agg_run P cfg X etype s es s'" and inv: "sys_inv (hll E) cfg etype bops dops acc s" and c: "chan_inv s"
  shows "chan_inv s'"
  using r inv c
proof (induction rule: agg_run.induct)
  case (step s es s1 fs s2)
  from agg_run_inv [OF L HR cfg step.hyps(1) step.prems(1)] step.IH [OF step.prems] step.hyps(2) show ?case
    using chan_step [OF L cfg] by blast
qed simp

lemma run_can_close:
  fixes P :: "('db, 'b, 'e) pebble" and cfg :: "('pe, 'kv, 'h) agg_config"
  assumes L: "pebble_laws E l P bops dops" and HR: "hll_roundtrip (hll E)" and cfg: "schedule_ok cfg" and S: "storage_total P"
    and inv: "sys_inv (hll E) cfg etype bops dops [] s" and c: "chan_inv s"
    and r: "agg_run P cfg X etype s es (a, ph)" and ph: "ph = NotRunning \<or> ph = Stopped"
  shows "\<exists>errs a'. Close P cfg False pick None a = Some (errs, a') \<and> processor_errors errs \<and> ag_closed a'
    \<and> (errs = [] \<longrightarrow> ag_db a' = None)
    \<and> (final_complete P cfg (cfg_AggregationIntervals cfg) (final_state P cfg a) \<longrightarrow> agg_run P cfg X etype s es (a', Finished))"
proof -
  have "sys_inv (hll E) cfg etype bops dops es (a, ph)" using agg_run_inv [OF L HR cfg r inv] by simp
  then obtain pd pt pb where i: "agg_inv (hll E) cfg etype bops dops es a ph pd pt pb" using ph by auto
  then have h: "agg_holds bops dops a pd pb" "list_all keyed_ok (pd @ pb)" by (auto simp: agg_inv_def)
  have run: "ag_runStopped a \<noteq> OpenChan" using agg_run_chan [OF L HR cfg r inv c] ph by auto
  obtain processor where pr: "cfg_Processor cfg = Some processor" using schedule_okD(4) [OF cfg] by blast
  from Close_total [OF S L HR pr h run, of pick] obtain errs a' where
    cl: "Close P cfg False pick None a = Some (errs, a')" "processor_errors errs" "ag_closed a'" "errs = [] \<longrightarrow> ag_db a' = None" by blast
  have "agg_run P cfg X etype s es (a', Finished)" if "final_complete P cfg (cfg_AggregationIntervals cfg) (final_state P cfg a)"
    using agg_run.step [OF r agg_step.close [OF ph cl(1) processor_no_storage [OF cl(2)] that]] by simp
  with cl show ?thesis by blast
qed

section \<open>The contract of the storage\<close>

text \<open>
  What the aggregator relies on when its storage keeps the laws and does not fail, and its sketches
  survive encoding. The facts below are about a new aggregator over such a storage.
\<close>

definition opens_empty :: "('db, 'b, 'e) pebble \<Rightarrow> ('db \<Rightarrow> bytes \<Rightarrow> bytes list) \<Rightarrow> bool" where
  "opens_empty P dops \<longleftrightarrow> (\<forall>dir in_memory db. pb_Open P dir in_memory = Inr db \<longrightarrow> dops db = (\<lambda>_. []))"

lemma new_ready:
  assumes "opens_empty P dops" and "New P G now metrics_err opts = Some (Inr (cfg, a))" and "schedule_ok cfg"
    and "36 * Hour \<le> now" and "now < 2 ^ 62 * Second"
  shows "sys_inv H cfg etype bops dops [] (a, NotRunning)"
  using assms(1) by (intro new_inv [OF assms(2,3) _ assms(4,5)]) (simp add: opens_empty_def)

locale pebble_store =
  fixes E :: "('sk, 'd) env" and l :: Limits and P :: "('db, 'b, 'e) pebble"
    and bops :: "'b \<Rightarrow> (bytes \<times> bytes) list" and dops :: "'db \<Rightarrow> bytes \<Rightarrow> bytes list"
  assumes laws: "pebble_laws E l P bops dops" and never_fails: "storage_total P"
    and fresh: "opens_empty P dops"
begin

lemma new_accepts:
  assumes "New P G now metrics_err opts = Some (Inr (cfg, a))" and "schedule_ok cfg"
    and "36 * Hour \<le> now" and "now < 2 ^ 62 * Second" and "length i = 16" and "\<And>ivl j. pool_ok (pool ivl j)"
  shows "\<exists>a' pd pb. AggregateBatch P cfg X etype pool False pick i es a = Some ([], a') \<and> agg_holds bops dops a' pd pb
    \<and> pd @ pb = batch_messages X etype (cfg_Partitions cfg) i (ag_processingTime a) es (cfg_AggregationIntervals cfg)"
proof -
  have t: "time_ok cfg (ag_processingTime a)"
    by (rule inv_time_ok [OF new_ready [OF fresh assms(1-4)]]) simp
  obtain db where a: "ag_db a = Some db" "dops db = (\<lambda>_. [])" "ag_batch a = None" "\<not> ag_closed a"
    using assms(1) fresh by (auto simp: New_def opens_empty_def split: bind_splits sum.splits option.splits)
  then have h: "agg_holds bops dops a [] []" by (simp add: agg_holds_def db_holds_def batch_holds_def)
  have k: "\<forall>ivl \<in> set (cfg_AggregationIntervals cfg). key_ok (base_key i (ag_processingTime a) ivl)"
    using base_key_ok [OF assms(2) t _ assms(5)] by blast
  obtain a' where a': "AggregateBatch P cfg X etype pool False pick i es a = Some ([], a')"
    using AggregateBatch_total [OF never_fails _ a(4) assms(2) t assms(5), where pool = pool, OF _ assms(6)] a(1) by blast
  from AggregateBatch_holds [OF laws h k, where pool = pool, OF assms(6) schedule_okD(3) [OF assms(2)] a'] a' show ?thesis
    by (auto simp: appended_def)
qed

end

end
