(* ===== verification/MemPebble.thy ===== *)
theory MemPebble
  imports AggTotal
begin

text \<open>
  A database that keeps pebble's promises: the list of all operands that were committed and not
  deleted, with the aggregator's own merge functions applied on reading. It shows that the promises
  can be kept.
\<close>

type_synonym mem = "(bytes \<times> bytes) list"

fun mem_fold :: "('sk, 'd) env \<Rightarrow> 'sk combinedMetricsMerger \<Rightarrow> bytes list \<Rightarrow> 'sk combinedMetricsMerger option" where
  "mem_fold E m [] = Some m"
| "mem_fold E m (v # vs) = (case MergeNewer E m v of Some (Inr m) \<Rightarrow> if length v < 2 ^ 63 then mem_fold E m vs else None | _ \<Rightarrow> None)"

definition mem_value :: "('sk, 'd) env \<Rightarrow> Limits \<Rightarrow> bytes list \<Rightarrow> bytes option" where
  "mem_value E l vs =
     (case vs of
        [] \<Rightarrow> None
      | v # ws \<Rightarrow>
          if 2 ^ 63 \<le> length v then None
          else if ws = [] then Some v
          else (case Merge E l v of
                  Some (Inr m) \<Rightarrow>
                    do { m \<leftarrow> mem_fold E m ws; r \<leftarrow> Finish E m; if length r < 2 ^ 63 then Some r else None }
                | _ \<Rightarrow> None))"

definition mem_iter :: "('sk, 'd) env \<Rightarrow> Limits \<Rightarrow> mem \<Rightarrow> bytes \<Rightarrow> bytes \<Rightarrow> (bytes \<times> bytes) list \<times> bool" where
  "mem_iter E l db lb ub =
     (let ks = remdups (filter (in_range lb ub) (map fst db));
          ok = takeWhile (\<lambda>k. mem_value E l (operands_of k db) \<noteq> None) ks
      in (map (\<lambda>k. (k, the (mem_value E l (operands_of k db)))) ok, ok = ks))"

definition mem_pebble :: "('sk, 'd) env \<Rightarrow> Limits \<Rightarrow> (mem, mem, 'e) pebble" where
  "mem_pebble E l = \<lparr>pb_Open = (\<lambda>dir in_memory. Inr []), pb_NewBatch = (\<lambda>db. []),
     pb_MergeDeferred = (\<lambda>b m n. b), pb_Finish = (\<lambda>b k v. Inr (b @ [(k, v)])), pb_Len = length,
     pb_Commit = (\<lambda>db b. (None, db @ b)), pb_CloseBatch = (\<lambda>b. None), pb_Iter = mem_iter E l,
     pb_DeleteRange = (\<lambda>db lb ub. (None, filter (\<lambda>kv. \<not> in_range lb ub (fst kv)) db)), pb_Close = (\<lambda>db. None)\<rparr>"

abbreviation mem_dops :: "mem \<Rightarrow> bytes \<Rightarrow> bytes list" where
  "mem_dops db k \<equiv> operands_of k db"

lemma mem_fold_lsm:
  "mem_fold E m ws = Some m' \<Longrightarrow> lsm_merger E l vs m \<Longrightarrow> lsm_merger E l (vs @ ws) m'"
proof (induction ws arbitrary: m vs)
  case (Cons w ws)
  then obtain m1 where 1: "MergeNewer E m w = Some (Inr m1)" "length w < 2 ^ 63" "mem_fold E m1 ws = Some m'"
    by (auto split: option.splits sum.splits if_splits)
  have "lsm_merger E l (vs @ [w]) m1" by (rule lsm_val_lsm_merger.newer [OF Cons.prems(2) lsm_val_lsm_merger.operand [OF 1(2)] 1(1)])
  from Cons.IH [OF 1(3) this] show ?case by simp
qed simp

lemma mem_value_lsm:
  assumes "mem_value E l vs = Some r"
  shows "lsm_val E l vs r"
proof (cases vs)
  case Nil
  with assms show ?thesis by (simp add: mem_value_def)
next
  case (Cons v ws)
  with assms have v: "length v < 2 ^ 63" by (auto simp: mem_value_def split: if_splits)
  note o = lsm_val_lsm_merger.operand [OF v, of E l]
  show ?thesis
  proof (cases "ws = []")
    case True
    with assms Cons v o show ?thesis by (simp add: mem_value_def)
  next
    case False
    with assms Cons v obtain m m' where m: "Merge E l v = Some (Inr m)" "mem_fold E m ws = Some m'" "Finish E m' = Some r"
      "length r < 2 ^ 63"
      by (auto simp: mem_value_def split: if_splits option.splits sum.splits bind_splits)
    from mem_fold_lsm [OF m(2) lsm_val_lsm_merger.first [OF o m(1)]] have "lsm_merger E l ([v] @ ws) m'" .
    from lsm_val_lsm_merger.finish [OF this m(3,4)] show ?thesis by (simp add: Cons)
  qed
qed

lemma operands_of_append: "operands_of k (xs @ ys) = operands_of k xs @ operands_of k ys"
  by (simp add: operands_of_def)

lemma operands_of_empty: "operands_of k db \<noteq> [] \<longleftrightarrow> k \<in> fst ` set db"
  by (auto simp: operands_of_def filter_empty_conv image_iff)

lemma operands_of_delete:
  "operands_of k (filter (\<lambda>kv. \<not> in_range lb ub (fst kv)) db) = (if in_range lb ub k then [] else operands_of k db)"
  by (auto simp: operands_of_def filter_empty_conv intro!: arg_cong [where f = "map snd"] filter_cong)

lemma mem_pebble_laws: "pebble_laws E l (mem_pebble E l) (\<lambda>b. b) mem_dops"
proof -
  have it: "distinct (map fst kvs) \<and> (\<forall>(k, v) \<in> set kvs. in_range lb ub k \<and> operands_of k db \<noteq> [] \<and> lsm_val E l (operands_of k db) v)
      \<and> (ok \<longrightarrow> (\<forall>k. in_range lb ub k \<longrightarrow> operands_of k db \<noteq> [] \<longrightarrow> k \<in> fst ` set kvs))"
    if "mem_iter E l db lb ub = (kvs, ok)" for db lb ub kvs ok
  proof -
    define ks where "ks = remdups (filter (in_range lb ub) (map fst db))"
    define oks where "oks = takeWhile (\<lambda>k. mem_value E l (operands_of k db) \<noteq> None) ks"
    have kvs: "kvs = map (\<lambda>k. (k, the (mem_value E l (operands_of k db)))) oks" "ok \<longleftrightarrow> oks = ks"
      using that by (auto simp: mem_iter_def Let_def ks_def oks_def)
    have "distinct ks" by (simp add: ks_def)
    then have "distinct oks" unfolding oks_def by (rule distinct_takeWhile)
    moreover have "in_range lb ub k \<and> operands_of k db \<noteq> [] \<and> lsm_val E l (operands_of k db) (the (mem_value E l (operands_of k db)))"
      if "k \<in> set oks" for k
    proof -
      have "k \<in> set ks" "mem_value E l (operands_of k db) \<noteq> None" using that set_takeWhileD unfolding oks_def by fastforce+
      then show ?thesis by (auto simp: ks_def operands_of_empty intro!: mem_value_lsm)
    qed
    moreover have "k \<in> fst ` set kvs" if "ok" "in_range lb ub k" "operands_of k db \<noteq> []" for k
    proof -
      have "k \<in> set oks" using that by (simp add: kvs(2) ks_def operands_of_empty)
      then show ?thesis by (force simp: kvs(1))
    qed
    moreover have "map fst kvs = oks" by (simp add: kvs(1) comp_def)
    ultimately show ?thesis by (auto simp: kvs(1))
  qed
  have sel: "pb_NewBatch (mem_pebble E l) db = []" "pb_MergeDeferred (mem_pebble E l) b m n = b" "pb_Finish (mem_pebble E l) b k v = Inr (b @ [(k, v)])"
    "pb_Commit (mem_pebble E l) db b = (None, db @ b)" "pb_Iter (mem_pebble E l) = mem_iter E l"
    "pb_DeleteRange (mem_pebble E l) db lb ub = (None, filter (\<lambda>kv. \<not> in_range lb ub (fst kv)) db)" for db b k v m n lb ub
    by (simp_all add: mem_pebble_def)
  show ?thesis
    unfolding pebble_laws_def sel
    by (intro conjI allI impI ext) (use it in \<open>auto simp: operands_of_append operands_of_delete\<close>)
qed

lemma mem_storage_total: "storage_total (mem_pebble E l)"
  by (simp add: storage_total_def mem_pebble_def)

text \<open>The in-memory store honours the contract.\<close>

interpretation mem_store: pebble_store E l "mem_pebble E l" "\<lambda>b. b" mem_dops
  by unfold_locales
    (simp_all add: mem_pebble_laws mem_storage_total, auto simp: opens_empty_def mem_pebble_def operands_of_def fun_eq_iff)

text \<open>Its iterators visit everything as long as no key holds more than one message.\<close>

lemma mem_iter_complete:
  assumes "db_holds mem_dops db pd" and "\<And>k. length (at_key k pd) \<le> 1"
    and "\<And>x. x \<in> set pd \<Longrightarrow> length (enc (snd x)) < 2 ^ 63"
  shows "iter_complete (mem_pebble E l) db ivl stop"
proof -
  have "mem_value E l (operands_of k db) \<noteq> None" if "k \<in> fst ` set db" for k
  proof -
    have o: "operands_of k db = map enc (at_key k pd)" using assms(1) by (simp add: db_holds_def)
    moreover have "operands_of k db \<noteq> []" using that by (simp add: operands_of_empty)
    ultimately obtain m where m: "at_key k pd = [m]" using assms(2) [of k] by (cases "at_key k pd") auto
    then have "m \<in> set (at_key k pd)" by simp
    then have "m \<in> snd ` set pd" by (auto simp: at_key_def)
    then have "length (enc m) < 2 ^ 63" using assms(3) by blast
    then show ?thesis by (simp add: o m mem_value_def)
  qed
  then show ?thesis by (force simp: iter_complete_def mem_pebble_def mem_iter_def Let_def takeWhile_eq_all_conv)
qed

end
