(* ===== verification/RunClose.thy ===== *)
theory RunClose
  imports Aggregator
begin

text \<open>
  How \<^verbatim>\<open>Run\<close> and \<^verbatim>\<open>Close\<close> of \<^verbatim>\<open>aggregators/aggregator.go\<close> synchronise: the mutex, the two
  channels and the program points between which a thread can be interrupted. Callers of the two
  aggregate functions hold the mutex for the length of the call only and are left out.
\<close>

datatype thread = RunThread | CloseThread

text \<open>
  \<open>R_Start\<close> and \<open>R_Tick\<close> wait for the mutex, \<open>R_Register\<close> and \<open>R_Take\<close> hold it; \<open>R_Select\<close> is the
  \<open>select\<close> of the loop, \<open>R_Harvest\<close> the call of \<^verbatim>\<open>commitAndHarvest\<close>.
\<close>

datatype run_pc = R_Off | R_Start | R_Register | R_Select | R_Tick | R_Take | R_Harvest | R_Return

text \<open>\<open>C_Wait\<close> waits for \<open>runStopped\<close> with the mutex held, \<open>C_Final\<close> is the final aggregation.\<close>

datatype close_pc = C_Off | C_Start | C_Signal | C_Wait | C_Final | C_Return

record control =
  mu :: "thread option"
  closed_chan :: bool
  stopped_chan :: channel
  run_at :: run_pc
  close_at :: close_pc

definition control_init :: control where
  "control_init = \<lparr>mu = None, closed_chan = False, stopped_chan = NilChan, run_at = R_Off, close_at = C_Off\<rparr>"

text \<open>The flags \<open>rc\<close> and \<open>cc\<close> say whether the contexts of \<^verbatim>\<open>Run\<close> and of \<^verbatim>\<open>Close\<close> may be cancelled.\<close>

inductive control_step :: "bool \<Rightarrow> bool \<Rightarrow> control \<Rightarrow> control \<Rightarrow> bool" for rc cc :: bool where
  run_call: "run_at s = R_Off \<Longrightarrow> control_step rc cc s (s\<lparr>run_at := R_Start\<rparr>)"
| run_lock: "run_at s = R_Start \<Longrightarrow> mu s = None \<Longrightarrow> control_step rc cc s (s\<lparr>run_at := R_Register, mu := Some RunThread\<rparr>)"
| run_refuse: "run_at s = R_Register \<Longrightarrow> stopped_chan s \<noteq> NilChan \<Longrightarrow>
    control_step rc cc s (s\<lparr>run_at := R_Return, mu := None\<rparr>)"
| run_register: "run_at s = R_Register \<Longrightarrow> stopped_chan s = NilChan \<Longrightarrow>
    control_step rc cc s (s\<lparr>run_at := R_Select, mu := None, stopped_chan := OpenChan\<rparr>)"
| run_context: "run_at s = R_Select \<Longrightarrow> rc \<Longrightarrow>
    control_step rc cc s (s\<lparr>run_at := R_Return, stopped_chan := ClosedChan\<rparr>)"
| run_closed: "run_at s = R_Select \<Longrightarrow> closed_chan s \<Longrightarrow>
    control_step rc cc s (s\<lparr>run_at := R_Return, stopped_chan := ClosedChan\<rparr>)"
| run_timer: "run_at s = R_Select \<Longrightarrow> control_step rc cc s (s\<lparr>run_at := R_Tick\<rparr>)"
| run_tick_lock: "run_at s = R_Tick \<Longrightarrow> mu s = None \<Longrightarrow> control_step rc cc s (s\<lparr>run_at := R_Take, mu := Some RunThread\<rparr>)"
| run_taken: "run_at s = R_Take \<Longrightarrow> control_step rc cc s (s\<lparr>run_at := R_Harvest, mu := None\<rparr>)"
| run_harvested: "run_at s = R_Harvest \<Longrightarrow> control_step rc cc s (s\<lparr>run_at := R_Select\<rparr>)"
| close_call: "close_at s = C_Off \<Longrightarrow> control_step rc cc s (s\<lparr>close_at := C_Start\<rparr>)"
| close_lock: "close_at s = C_Start \<Longrightarrow> mu s = None \<Longrightarrow>
    control_step rc cc s (s\<lparr>close_at := C_Signal, mu := Some CloseThread\<rparr>)"
| close_signal: "close_at s = C_Signal \<Longrightarrow>
    control_step rc cc s (s\<lparr>closed_chan := True, close_at := (if stopped_chan s = NilChan then C_Final else C_Wait)\<rparr>)"
| close_context: "close_at s = C_Wait \<Longrightarrow> cc \<Longrightarrow> control_step rc cc s (s\<lparr>close_at := C_Return, mu := None\<rparr>)"
| close_stopped: "close_at s = C_Wait \<Longrightarrow> stopped_chan s = ClosedChan \<Longrightarrow> control_step rc cc s (s\<lparr>close_at := C_Final\<rparr>)"
| close_done: "close_at s = C_Final \<Longrightarrow> control_step rc cc s (s\<lparr>close_at := C_Return, mu := None\<rparr>)"

inductive control_reach :: "bool \<Rightarrow> bool \<Rightarrow> control \<Rightarrow> bool" for rc cc :: bool where
  init: "control_reach rc cc control_init"
| step: "control_reach rc cc s \<Longrightarrow> control_step rc cc s s' \<Longrightarrow> control_reach rc cc s'"

inductive_simps control_step_iff: "control_step rc cc s s'"

text \<open>Who holds the mutex, and that the channel follows the run loop.\<close>

definition control_inv :: "control \<Rightarrow> bool" where
  "control_inv s \<longleftrightarrow>
     (mu s = Some RunThread \<longleftrightarrow> run_at s \<in> {R_Register, R_Take})
     \<and> (mu s = Some CloseThread \<longleftrightarrow> close_at s \<in> {C_Signal, C_Wait, C_Final})
     \<and> (stopped_chan s = NilChan \<longleftrightarrow> run_at s \<in> {R_Off, R_Start, R_Register})
     \<and> (stopped_chan s = ClosedChan \<longleftrightarrow> run_at s = R_Return)
     \<and> (close_at s = C_Wait \<longrightarrow> stopped_chan s \<noteq> NilChan)
     \<and> (close_at s = C_Final \<longrightarrow> run_at s \<in> {R_Off, R_Start, R_Return})
     \<and> (close_at s \<in> {C_Wait, C_Final, C_Return} \<longrightarrow> closed_chan s)"

lemma control_inv_step: "control_inv s \<Longrightarrow> control_step rc cc s s' \<Longrightarrow> control_inv s'"
  by (erule control_step.cases) (auto simp: control_inv_def)

lemma control_reach_inv: "control_reach rc cc s \<Longrightarrow> control_inv s"
proof (induction rule: control_reach.induct)
  case init
  then show ?case by (simp add: control_inv_def control_init_def)
next
  case (step s s')
  then show ?case by (blast intro: control_inv_step)
qed

text \<open>A state from which no thread moves though a call has not returned.\<close>

definition stuck :: "bool \<Rightarrow> bool \<Rightarrow> control \<Rightarrow> bool" where
  "stuck rc cc s \<longleftrightarrow> (\<forall>s'. \<not> control_step rc cc s s') \<and> \<not> (run_at s = R_Return \<and> close_at s = C_Return)"

definition lock_cycle :: "control \<Rightarrow> bool" where
  "lock_cycle s \<longleftrightarrow> run_at s = R_Tick \<and> close_at s = C_Wait"

text \<open>What a state without steps looks like.\<close>

lemma no_step:
  assumes "\<And>s'. \<not> control_step rc cc s s'"
  shows "run_at s \<notin> {R_Off, R_Register, R_Select, R_Take, R_Harvest}" and "close_at s \<notin> {C_Off, C_Signal, C_Final}"
    and "mu s = None \<Longrightarrow> run_at s \<notin> {R_Start, R_Tick} \<and> close_at s \<noteq> C_Start"
    and "close_at s = C_Wait \<Longrightarrow> \<not> cc \<and> stopped_chan s \<noteq> ClosedChan"
  using assms control_step.intros [where s = s and rc = rc and cc = cc] by auto

lemma stuck_iff:
  assumes "control_inv s"
  shows "stuck rc cc s \<longleftrightarrow> \<not> cc \<and> lock_cycle s"
proof
  assume st: "stuck rc cc s"
  then have n: "\<And>s'. \<not> control_step rc cc s s'" by (simp add: stuck_def)
  note ns = no_step [OF n]
  have "close_at s = C_Wait"
    using st ns assms by (cases "close_at s"; cases "run_at s"; cases "mu s") (auto simp: stuck_def control_inv_def, (metis thread.exhaust)+)
  moreover from this have "run_at s = R_Tick"
    using ns assms by (cases "run_at s") (auto simp: control_inv_def)
  ultimately show "\<not> cc \<and> lock_cycle s" using ns(4) by (simp add: lock_cycle_def)
next
  assume c: "\<not> cc \<and> lock_cycle s"
  have "\<not> control_step rc cc s s'" for s'
  proof
    assume "control_step rc cc s s'"
    then show False using c assms by (cases rule: control_step.cases) (auto simp: control_inv_def lock_cycle_def)
  qed
  with c show "stuck rc cc s" by (auto simp: stuck_def lock_cycle_def)
qed

text \<open>The schedule that leads there: the timer fires, then \<^verbatim>\<open>Close\<close> takes the mutex before the run loop does.\<close>

lemma lock_cycle_reachable: "\<exists>s. control_reach rc cc s \<and> lock_cycle s"
proof -
  note r = control_reach.step
  have "control_reach rc cc (control_init\<lparr>run_at := R_Start\<rparr>)"
    by (rule r [OF control_reach.init]) (rule control_step.run_call, simp add: control_init_def)
  then have "control_reach rc cc (control_init\<lparr>run_at := R_Register, mu := Some RunThread\<rparr>)"
    by (rule r) (simp add: control_step_iff control_init_def)
  then have "control_reach rc cc (control_init\<lparr>run_at := R_Select, stopped_chan := OpenChan\<rparr>)"
    by (rule r) (simp add: control_step_iff control_init_def)
  then have "control_reach rc cc (control_init\<lparr>run_at := R_Tick, stopped_chan := OpenChan\<rparr>)"
    by (rule r) (simp add: control_step_iff control_init_def)
  then have "control_reach rc cc (control_init\<lparr>run_at := R_Tick, stopped_chan := OpenChan, close_at := C_Start\<rparr>)"
    by (rule r) (simp add: control_step_iff control_init_def)
  then have "control_reach rc cc
      (control_init\<lparr>run_at := R_Tick, stopped_chan := OpenChan, close_at := C_Signal, mu := Some CloseThread\<rparr>)"
    by (rule r) (simp add: control_step_iff control_init_def)
  then have "control_reach rc cc
      (control_init\<lparr>run_at := R_Tick, stopped_chan := OpenChan, close_at := C_Wait, mu := Some CloseThread, closed_chan := True\<rparr>)"
    by (rule r) (simp add: control_step_iff control_init_def)
  then show ?thesis by (intro exI conjI) (assumption, simp add: lock_cycle_def)
qed

end
