(* ===== verification/BatchConv.thy ===== *)
theory BatchConv
  imports EventConv
begin

text \<open>
  From combined metrics to metric events, the second half of \<^verbatim>\<open>aggregators/converter.go\<close>. A nil
  dereference is a panic, \<^term>\<open>None\<close>. A field that is allocated when it is nil and then written is
  updated with \<open>upd\<close>.
\<close>

definition upd :: "'m \<Rightarrow> ('m \<Rightarrow> 'm) \<Rightarrow> 'm option \<Rightarrow> 'm option" where
  "upd zero f m = Some (f (case m of None \<Rightarrow> zero | Some m \<Rightarrow> m))"

section \<open>Durations as text\<close>

text \<open>\<^verbatim>\<open>fmt.Sprintf("%.0f", x)\<close>: the nearest integer, halves to even.\<close>

fun decimal :: "nat \<Rightarrow> string" where
  "decimal n = (if n < 10 then [char_of (48 + n)] else decimal (n div 10) @ [char_of (48 + n mod 10)])"

declare decimal.simps [simp del]

fun Sprintf_0f :: "float64 \<Rightarrow> string" where
  "Sprintf_0f (Fin x) = (if x < 0 then ''-'' else []) @ decimal (nat \<bar>round_even x\<bar>)"
| "Sprintf_0f PosInf = ''+Inf''"
| "Sprintf_0f NegInf = ''-Inf''"
| "Sprintf_0f NaN = ''NaN''"

definition formatDuration :: "duration \<Rightarrow> string" where
  "formatDuration d =
     (let m = Minutes d
      in if fle (Fin 1) m then Sprintf_0f m @ ''m'' else Sprintf_0f (Seconds d) @ ''s'')"

section \<open>Single events\<close>

definition getBaseEvent :: "ServiceAggregationKey \<Rightarrow> APMEvent" where
  "getBaseEvent key = zero_APMEvent\<lparr>
     ae_Timestamp := Some (PBTimestampToTime (pbsk_Timestamp key)),
     ae_Metricset := Some zero_Metricset,
     ae_Service := Some (zero_Service\<lparr>svc_Name := pbsk_ServiceName key,
       svc_Environment := pbsk_ServiceEnvironment key,
       svc_Language := (if pbsk_ServiceLanguageName key \<noteq> ''''
                        then Some \<lparr>lang_Name = pbsk_ServiceLanguageName key, lang_Version = []\<rparr> else None)\<rparr>),
     ae_Agent := (if pbsk_AgentName key \<noteq> '''' then Some \<lparr>ag_Name = pbsk_AgentName key\<rparr> else None)\<rparr>"

definition serviceMetricsToAPMEvent :: "APMEvent \<Rightarrow> string \<Rightarrow> APMEvent" where
  "serviceMetricsToAPMEvent e intervalStr =
     e\<lparr>ae_Metricset := upd zero_Metricset
         (\<lambda>m. m\<lparr>mset_Name := ''service_summary'', mset_Interval := intervalStr\<rparr>) (ae_Metricset e)\<rparr>"

text \<open>The histogram of a group, as its total count, counts and values.\<close>

definition histogram_buckets :: "HDRHistogram option \<Rightarrow> (uint64 \<times> uint64 list \<times> float64 list) option" where
  "histogram_buckets pb = do { h \<leftarrow> histogramFromProto hist_New pb; Some (hist_Buckets h) }"

definition duration_sum :: "uint64 list \<Rightarrow> float64 list \<Rightarrow> float64" where
  "duration_sum counts values = foldl (\<lambda>s (v, c). fadd s (fmul v (f64_of_int (uint c)))) (Fin 0) (zip values counts)"

text \<open>The blocks of \<^verbatim>\<open>txnMetricsToAPMEvent\<close> that copy the key into the event, in order.\<close>

definition set_txn_service :: "TransactionAggregationKey \<Rightarrow> Service option \<Rightarrow> Service option" where
  "set_txn_service key s =
     (let s = (if pbtk_ServiceVersion key \<noteq> '''' then upd zero_Service (\<lambda>s. s\<lparr>svc_Version := pbtk_ServiceVersion key\<rparr>) s else s);
          s = (if pbtk_ServiceNodeName key \<noteq> ''''
               then upd zero_Service (\<lambda>s. s\<lparr>svc_Node := upd \<lparr>sn_Name = []\<rparr>
                      (\<lambda>n. n\<lparr>sn_Name := pbtk_ServiceNodeName key\<rparr>) (svc_Node s)\<rparr>) s else s);
          s = (if pbtk_ServiceRuntimeName key \<noteq> '''' \<or> pbtk_ServiceRuntimeVersion key \<noteq> ''''
               then upd zero_Service (\<lambda>s. s\<lparr>svc_Runtime := upd \<lparr>rt_Name = [], rt_Version = []\<rparr>
                      (\<lambda>r. r\<lparr>rt_Name := pbtk_ServiceRuntimeName key, rt_Version := pbtk_ServiceRuntimeVersion key\<rparr>)
                      (svc_Runtime s)\<rparr>) s else s)
      in if pbtk_ServiceLanguageVersion key \<noteq> ''''
         then upd zero_Service (\<lambda>s. s\<lparr>svc_Language := upd \<lparr>lang_Name = [], lang_Version = []\<rparr>
                (\<lambda>l. l\<lparr>lang_Version := pbtk_ServiceLanguageVersion key\<rparr>) (svc_Language s)\<rparr>) s else s)"

definition set_txn_host :: "TransactionAggregationKey \<Rightarrow> Host option \<Rightarrow> Host option" where
  "set_txn_host key h =
     (let h = (if pbtk_HostHostname key \<noteq> '''' \<or> pbtk_HostName key \<noteq> ''''
               then upd zero_Host (\<lambda>h. h\<lparr>host_Hostname := pbtk_HostHostname key, host_Name := pbtk_HostName key\<rparr>) h else h)
      in if pbtk_HostOsPlatform key \<noteq> ''''
         then upd zero_Host (\<lambda>h. h\<lparr>host_Os := upd \<lparr>os_Platform = []\<rparr>
                (\<lambda>os. os\<lparr>os_Platform := pbtk_HostOsPlatform key\<rparr>) (host_Os h)\<rparr>) h else h)"

definition set_txn_faas :: "TransactionAggregationKey \<Rightarrow> Faas option \<Rightarrow> Faas option" where
  "set_txn_faas key f =
     (if pbtk_FaasColdstart key \<noteq> NB_Nil \<or> pbtk_FaasId key \<noteq> '''' \<or> pbtk_FaasName key \<noteq> ''''
         \<or> pbtk_FaasVersion key \<noteq> '''' \<or> pbtk_FaasTriggerType key \<noteq> ''''
      then upd zero_Faas (\<lambda>f. f\<lparr>faas_ColdStart := ToBoolPtr (Some (pbtk_FaasColdstart key)), faas_Id := pbtk_FaasId key,
             faas_Name := pbtk_FaasName key, faas_Version := pbtk_FaasVersion key,
             faas_TriggerType := pbtk_FaasTriggerType key\<rparr>) f
      else f)"

definition set_txn_cloud :: "TransactionAggregationKey \<Rightarrow> Cloud option \<Rightarrow> Cloud option" where
  "set_txn_cloud key c =
     (if pbtk_CloudProvider key \<noteq> '''' \<or> pbtk_CloudRegion key \<noteq> '''' \<or> pbtk_CloudAvailabilityZone key \<noteq> ''''
         \<or> pbtk_CloudServiceName key \<noteq> '''' \<or> pbtk_CloudAccountId key \<noteq> '''' \<or> pbtk_CloudAccountName key \<noteq> ''''
         \<or> pbtk_CloudMachineType key \<noteq> '''' \<or> pbtk_CloudProjectId key \<noteq> '''' \<or> pbtk_CloudProjectName key \<noteq> ''''
      then upd zero_Cloud (\<lambda>c. c\<lparr>cl_Provider := pbtk_CloudProvider key, cl_Region := pbtk_CloudRegion key,
             cl_AvailabilityZone := pbtk_CloudAvailabilityZone key, cl_ServiceName := pbtk_CloudServiceName key,
             cl_AccountId := pbtk_CloudAccountId key, cl_AccountName := pbtk_CloudAccountName key,
             cl_MachineType := pbtk_CloudMachineType key, cl_ProjectId := pbtk_CloudProjectId key,
             cl_ProjectName := pbtk_CloudProjectName key\<rparr>) c
      else c)"

definition txnMetricsToAPMEvent ::
  "TransactionAggregationKey option \<Rightarrow> TransactionMetrics option \<Rightarrow> APMEvent \<Rightarrow> string \<Rightarrow> APMEvent option" where
  "txnMetricsToAPMEvent key metrics e intervalStr =
     do { metrics \<leftarrow> metrics;
          (totalCount, counts, values) \<leftarrow> histogram_buckets (tm_Histogram metrics);
          key \<leftarrow> key;
          let eventSuccessCount =
            (if pbtk_EventOutcome key = ''success'' then \<lparr>sum_Count = totalCount, sum_Sum = f64_of_int (uint totalCount)\<rparr>
             else if pbtk_EventOutcome key = ''failure'' then \<lparr>sum_Count = totalCount, sum_Sum = Fin 0\<rparr>
             else \<lparr>sum_Count = 0, sum_Sum = Fin 0\<rparr>);
          let transactionDurationSummary = \<lparr>sum_Count = totalCount, sum_Sum = duration_sum counts values\<rparr>;
          Some (e\<lparr>
            ae_Transaction := upd zero_Transaction (\<lambda>t. t\<lparr>tx_Name := pbtk_TransactionName key,
              tx_Type := pbtk_TransactionType key, tx_Result := pbtk_TransactionResult key, tx_Root := pbtk_TraceRoot key,
              tx_DurationSummary := Some transactionDurationSummary,
              tx_DurationHistogram := Some \<lparr>hg_Counts = counts, hg_Values = values\<rparr>\<rparr>) (ae_Transaction e),
            ae_Metricset := upd zero_Metricset (\<lambda>m. m\<lparr>mset_Name := ''transaction'', mset_DocCount := totalCount,
              mset_Interval := intervalStr\<rparr>) (ae_Metricset e),
            ae_Event := upd zero_Event (\<lambda>ev. ev\<lparr>ev_Outcome := pbtk_EventOutcome key,
              ev_SuccessCount := Some eventSuccessCount\<rparr>) (ae_Event e),
            ae_Container := (if pbtk_ContainerId key \<noteq> ''''
              then upd \<lparr>ctr_Id = []\<rparr> (\<lambda>c. c\<lparr>ctr_Id := pbtk_ContainerId key\<rparr>) (ae_Container e) else ae_Container e),
            ae_Kubernetes := (if pbtk_KubernetesPodName key \<noteq> ''''
              then upd \<lparr>k8s_PodName = []\<rparr> (\<lambda>k. k\<lparr>k8s_PodName := pbtk_KubernetesPodName key\<rparr>) (ae_Kubernetes e)
              else ae_Kubernetes e),
            ae_Service := set_txn_service key (ae_Service e),
            ae_Host := set_txn_host key (ae_Host e),
            ae_Faas := set_txn_faas key (ae_Faas e),
            ae_Cloud := set_txn_cloud key (ae_Cloud e)\<rparr>) }"

definition svcTxnMetricsToAPMEvent ::
  "ServiceTransactionAggregationKey option \<Rightarrow> ServiceTransactionMetrics option \<Rightarrow> APMEvent \<Rightarrow> string \<Rightarrow> APMEvent option" where
  "svcTxnMetricsToAPMEvent key metrics e intervalStr =
     do { metrics \<leftarrow> metrics;
          (totalCount, counts, values) \<leftarrow> histogram_buckets (stm_Histogram metrics);
          key \<leftarrow> key;
          Some (e\<lparr>
            ae_Metricset := upd zero_Metricset (\<lambda>m. m\<lparr>mset_Name := ''service_transaction'', mset_DocCount := totalCount,
              mset_Interval := intervalStr\<rparr>) (ae_Metricset e),
            ae_Transaction := upd zero_Transaction (\<lambda>t. t\<lparr>tx_Type := pbstk_TransactionType key,
              tx_DurationSummary := Some \<lparr>sum_Count = totalCount, sum_Sum = duration_sum counts values\<rparr>,
              tx_DurationHistogram := Some \<lparr>hg_Counts = counts, hg_Values = values\<rparr>\<rparr>) (ae_Transaction e),
            ae_Event := upd zero_Event (\<lambda>ev. ev\<lparr>ev_SuccessCount :=
              Some \<lparr>sum_Count = f64_to_uint64 (math_Round (fadd (stm_SuccessCount metrics) (stm_FailureCount metrics))),
                   sum_Sum = math_Round (stm_SuccessCount metrics)\<rparr>\<rparr>) (ae_Event e)\<rparr>) }"

definition spanMetricsToAPMEvent ::
  "SpanAggregationKey option \<Rightarrow> SpanMetrics option \<Rightarrow> APMEvent \<Rightarrow> string \<Rightarrow> APMEvent option" where
  "spanMetricsToAPMEvent key metrics e intervalStr =
     do { key \<leftarrow> key;
          metrics \<leftarrow> metrics;
          let target = (if pbspk_TargetName key \<noteq> '''' \<or> pbspk_TargetType key \<noteq> ''''
                        then Some \<lparr>tgt_Type = pbspk_TargetType key, tgt_Name = pbspk_TargetName key\<rparr> else None);
          let count = f64_to_uint64 (math_Round (spm_Count metrics));
          Some (e\<lparr>
            ae_Service := upd zero_Service (\<lambda>s. s\<lparr>svc_Target := target\<rparr>) (ae_Service e),
            ae_Metricset := upd zero_Metricset (\<lambda>m. m\<lparr>mset_Name := ''service_destination'', mset_DocCount := count,
              mset_Interval := intervalStr\<rparr>) (ae_Metricset e),
            ae_Span := upd zero_Span (\<lambda>s. s\<lparr>sp_Name := pbspk_SpanName key,
              sp_DestinationService := upd \<lparr>ds_Resource = [], ds_ResponseTime = None\<rparr>
                (\<lambda>d. d\<lparr>ds_Resource := pbspk_Resource key,
                       ds_ResponseTime := upd \<lparr>ad_Count = 0, ad_Sum = None\<rparr>
                         (\<lambda>r. r\<lparr>ad_Count := count,
                                ad_Sum := Some (sint (f64_to_int64 (math_Round (spm_Sum metrics))))\<rparr>) (ds_ResponseTime d)\<rparr>)
                (sp_DestinationService s)\<rparr>) (ae_Span e),
            ae_Event := (if pbspk_Outcome key \<noteq> ''''
              then upd zero_Event (\<lambda>ev. ev\<lparr>ev_Outcome := pbspk_Outcome key\<rparr>) (ae_Event e) else ae_Event e)\<rparr>) }"

section \<open>Overflow events\<close>

definition add_sample :: "string \<Rightarrow> uint64 \<Rightarrow> APMEvent \<Rightarrow> APMEvent" where
  "add_sample name overflowCount e =
     e\<lparr>ae_Metricset := upd zero_Metricset
         (\<lambda>m. m\<lparr>mset_Samples := mset_Samples m @ [\<lparr>mss_Name = name, mss_Value = f64_of_int (uint overflowCount)\<rparr>]\<rparr>)
         (ae_Metricset e)\<rparr>"

definition overflowServiceMetricsToAPMEvent :: "gotime \<Rightarrow> uint64 \<Rightarrow> APMEvent \<Rightarrow> string \<Rightarrow> APMEvent" where
  "overflowServiceMetricsToAPMEvent processingTime overflowCount e intervalStr =
     add_sample ''service_summary.aggregation.overflow_count'' overflowCount
       (serviceMetricsToAPMEvent (e\<lparr>ae_Timestamp := Some processingTime\<rparr>) intervalStr)"

definition overflowTxnMetricsToAPMEvent ::
  "gotime \<Rightarrow> TransactionMetrics option \<Rightarrow> uint64 \<Rightarrow> APMEvent \<Rightarrow> string \<Rightarrow> APMEvent option" where
  "overflowTxnMetricsToAPMEvent processingTime overflowTxn overflowCount e intervalStr =
     map_option (add_sample ''transaction.aggregation.overflow_count'' overflowCount)
       (txnMetricsToAPMEvent (Some (zero_TransactionAggregationKey\<lparr>pbtk_TransactionName := ''_other''\<rparr>)) overflowTxn
          (e\<lparr>ae_Timestamp := Some processingTime\<rparr>) intervalStr)"

definition overflowSvcTxnMetricsToAPMEvent ::
  "gotime \<Rightarrow> ServiceTransactionMetrics option \<Rightarrow> uint64 \<Rightarrow> APMEvent \<Rightarrow> string \<Rightarrow> APMEvent option" where
  "overflowSvcTxnMetricsToAPMEvent processingTime overflowSvcTxn overflowCount e intervalStr =
     map_option (add_sample ''service_transaction.aggregation.overflow_count'' overflowCount)
       (svcTxnMetricsToAPMEvent (Some \<lparr>pbstk_TransactionType = ''_other''\<rparr>) overflowSvcTxn
          (e\<lparr>ae_Timestamp := Some processingTime\<rparr>) intervalStr)"

definition overflowSpanMetricsToAPMEvent ::
  "gotime \<Rightarrow> SpanMetrics option \<Rightarrow> uint64 \<Rightarrow> APMEvent \<Rightarrow> string \<Rightarrow> APMEvent option" where
  "overflowSpanMetricsToAPMEvent processingTime overflowSpan overflowCount e intervalStr =
     map_option (\<lambda>e. (add_sample ''service_destination.aggregation.overflow_count'' overflowCount e)
         \<lparr>ae_Metricset := upd zero_Metricset (\<lambda>m. m\<lparr>mset_DocCount := overflowCount\<rparr>)
           (ae_Metricset (add_sample ''service_destination.aggregation.overflow_count'' overflowCount e))\<rparr>)
       (spanMetricsToAPMEvent (Some (zero_SpanAggregationKey\<lparr>pbspk_TargetName := ''_other''\<rparr>)) overflowSpan
          (e\<lparr>ae_Timestamp := Some processingTime\<rparr>) intervalStr)"

section \<open>The batch\<close>

text \<open>The capacity that is computed for the batch; each loop dereferences the metrics it visits.\<close>

definition overflow_size :: "Overflow \<Rightarrow> nat" where
  "overflow_size ov =
     (if pbo_OverflowTransactionsEstimator ov \<noteq> [] then 1 else 0)
     + (if pbo_OverflowServiceTransactionsEstimator ov \<noteq> [] then 1 else 0)
     + (if pbo_OverflowSpansEstimator ov \<noteq> [] then 1 else 0)"

definition instance_size :: "KeyedServiceInstanceMetrics \<Rightarrow> nat option" where
  "instance_size ksim =
     do { sim \<leftarrow> ksim_Metrics ksim;
          Some (length (pbsim_TransactionMetrics sim) + length (pbsim_ServiceTransactionMetrics sim)
                + length (pbsim_SpanMetrics sim) + 1) }"

definition service_size :: "KeyedServiceMetrics \<Rightarrow> nat option" where
  "service_size ksm =
     do { sm \<leftarrow> ksm_Metrics ksm;
          ns \<leftarrow> those (map instance_size (pbsm_ServiceInstanceMetrics sm));
          Some (sum_list ns + (case pbsm_OverflowGroups sm of None \<Rightarrow> 0 | Some ov \<Rightarrow> overflow_size ov)) }"

definition batch_size :: "CombinedMetrics \<Rightarrow> nat option" where
  "batch_size cm =
     do { n \<leftarrow> (if pbcm_OverflowServiceInstancesEstimator cm \<noteq> []
                then do { ov \<leftarrow> pbcm_OverflowServices cm; Some (1 + overflow_size ov) } else Some 0);
          ns \<leftarrow> those (map service_size (pbcm_ServiceMetrics cm));
          Some (n + sum_list ns) }"

text \<open>Appending the events of one step after the other; an error ends the call.\<close>

fun append_all :: "(wire_error + APMEvent list) option list \<Rightarrow> (wire_error + APMEvent list) option" where
  "append_all [] = Some (Inr [])"
| "append_all (r # rs) =
     do { x \<leftarrow> r;
          case x of
            Inl err \<Rightarrow> Some (Inl err)
          | Inr es \<Rightarrow> do { y \<leftarrow> append_all rs; Some (map_sum (\<lambda>err. err) ((@) es) y) } }"

definition one_event :: "APMEvent option \<Rightarrow> (wire_error + APMEvent list) option" where
  "one_event e = map_option (\<lambda>e. Inr [e]) e"

definition instance_events ::
  "ServiceAggregationKey option \<Rightarrow> string \<Rightarrow> KeyedServiceInstanceMetrics \<Rightarrow> (wire_error + APMEvent list) option" where
  "instance_events sk intervalStr ksim =
     do { sik \<leftarrow> ksim_Key ksim;
          sim \<leftarrow> ksim_Metrics ksim;
          case GlobalLabels_UnmarshalBinary (pbsik_GlobalLabelsStr sik) of
            Inl err \<Rightarrow> Some (Inl err)
          | Inr gl \<Rightarrow>
              do { sk \<leftarrow> sk;
                   let base = (getBaseEvent sk)\<lparr>ae_Labels := gls_Labels gl, ae_NumericLabels := gls_NumericLabels gl\<rparr>;
                   append_all
                     (map (\<lambda>k. one_event (txnMetricsToAPMEvent (ktm_Key k) (ktm_Metrics k) base intervalStr))
                        (pbsim_TransactionMetrics sim)
                      @ map (\<lambda>k. one_event (svcTxnMetricsToAPMEvent (kstm_Key k) (kstm_Metrics k) base intervalStr))
                          (pbsim_ServiceTransactionMetrics sim)
                      @ map (\<lambda>k. one_event (spanMetricsToAPMEvent (kspm_Key k) (kspm_Metrics k) base intervalStr))
                          (pbsim_SpanMetrics sim)
                      @ [one_event (Some (serviceMetricsToAPMEvent base intervalStr))]) } }"

text \<open>The overflow groups, of a service or of all services that overflowed; \<open>base\<close> makes the event to fill.\<close>

definition estimate :: "'sk hll_ops \<Rightarrow> bytes \<Rightarrow> uint64 option" where
  "estimate H est = map_option (hll_Estimate H) (hllSketch H est)"

definition overflow_events ::
  "'sk hll_ops \<Rightarrow> gotime \<Rightarrow> APMEvent option \<Rightarrow> string \<Rightarrow> Overflow \<Rightarrow> (wire_error + APMEvent list) option" where
  "overflow_events H processingTime base intervalStr ov =
     append_all
       ((if pbo_OverflowTransactionsEstimator ov \<noteq> []
         then [one_event (do { n \<leftarrow> estimate H (pbo_OverflowTransactionsEstimator ov); e \<leftarrow> base;
                 overflowTxnMetricsToAPMEvent processingTime (pbo_OverflowTransactions ov) n e intervalStr })] else [])
        @ (if pbo_OverflowServiceTransactionsEstimator ov \<noteq> []
           then [one_event (do { n \<leftarrow> estimate H (pbo_OverflowServiceTransactionsEstimator ov); e \<leftarrow> base;
                   overflowSvcTxnMetricsToAPMEvent processingTime (pbo_OverflowServiceTransactions ov) n e intervalStr })] else [])
        @ (if pbo_OverflowSpansEstimator ov \<noteq> []
           then [one_event (do { n \<leftarrow> estimate H (pbo_OverflowSpansEstimator ov); e \<leftarrow> base;
                   overflowSpanMetricsToAPMEvent processingTime (pbo_OverflowSpans ov) n e intervalStr })] else []))"

definition service_events ::
  "'sk hll_ops \<Rightarrow> gotime \<Rightarrow> string \<Rightarrow> KeyedServiceMetrics \<Rightarrow> (wire_error + APMEvent list) option" where
  "service_events H processingTime intervalStr ksm =
     do { sm \<leftarrow> ksm_Metrics ksm;
          append_all
            (map (instance_events (ksm_Key ksm) intervalStr) (pbsm_ServiceInstanceMetrics sm)
             @ (case pbsm_OverflowGroups sm of None \<Rightarrow> []
                | Some ov \<Rightarrow> [overflow_events H processingTime (map_option getBaseEvent (ksm_Key ksm)) intervalStr ov])) }"

definition overflow_base_event :: APMEvent where
  "overflow_base_event = zero_APMEvent\<lparr>ae_Metricset := Some zero_Metricset,
     ae_Service := Some (zero_Service\<lparr>svc_Name := ''_other''\<rparr>)\<rparr>"

definition overflow_services_events ::
  "'sk hll_ops \<Rightarrow> gotime \<Rightarrow> string \<Rightarrow> CombinedMetrics \<Rightarrow> (wire_error + APMEvent list) option" where
  "overflow_services_events H processingTime intervalStr cm =
     (if pbcm_OverflowServiceInstancesEstimator cm = [] then Some (Inr [])
      else do { n \<leftarrow> estimate H (pbcm_OverflowServiceInstancesEstimator cm);
                ov \<leftarrow> pbcm_OverflowServices cm;
                append_all
                  [one_event (Some (overflowServiceMetricsToAPMEvent processingTime n overflow_base_event intervalStr)),
                   overflow_events H processingTime (Some overflow_base_event) intervalStr ov] })"

text \<open>The result is an error, a nil batch (\<^term>\<open>None\<close>), or the events.\<close>

definition CombinedMetricsToBatch ::
  "'sk hll_ops \<Rightarrow> CombinedMetrics option \<Rightarrow> gotime \<Rightarrow> duration \<Rightarrow> (wire_error + APMEvent list option) option" where
  "CombinedMetricsToBatch H cm processingTime aggInterval =
     (case cm of
        None \<Rightarrow> Some (Inr None)
      | Some cm \<Rightarrow>
          if pbcm_ServiceMetrics cm = [] then Some (Inr None)
          else do { batchSize \<leftarrow> batch_size cm;
                    let aggIntervalStr = formatDuration aggInterval;
                    b \<leftarrow> append_all
                           (map (service_events H processingTime aggIntervalStr) (pbcm_ServiceMetrics cm)
                            @ [overflow_services_events H processingTime aggIntervalStr cm]);
                    Some (map_sum (\<lambda>err. err) Some b) })"

section \<open>The size of a batch\<close>

text \<open>\<open>yields r n\<close>: if the step returns events, there are \<open>n\<close> of them.\<close>

definition yields :: "(wire_error + APMEvent list) option \<Rightarrow> nat \<Rightarrow> bool" where
  "yields r n \<longleftrightarrow> (\<forall>es. r = Some (Inr es) \<longrightarrow> length es = n)"

lemma yields_one [simp]: "yields (one_event e) 1" "yields (one_event e) (Suc 0)"
  by (auto simp: yields_def one_event_def)

lemma yields_simps [simp]: "yields (Some (Inl err)) n" "yields (Some (Inr es)) n \<longleftrightarrow> length es = n" "yields None n"
  by (auto simp: yields_def)

lemma yields_bind: "(\<And>x. m = Some x \<Longrightarrow> yields (f x) n) \<Longrightarrow> yields (Option.bind m f) n"
  by (cases m) simp_all

lemma append_all_yields: "list_all2 yields rs ns \<Longrightarrow> yields (append_all rs) (sum_list ns)"
proof (induction rs ns rule: list_all2_induct)
  case (Cons r rs n ns)
  have "yields (Some (map_sum (\<lambda>err. err) ((@) es) y)) (n + sum_list ns)"
    if "r = Some (Inr es)" "append_all rs = Some y" for es y
    using that Cons by (cases y) (auto simp: yields_def)
  then show ?case by (auto intro!: yields_bind split: sum.splits)
qed simp

declare append_all.simps [simp del]

lemma append_all_snoc:
  assumes "list_all2 yields rs ns" and "yields r n"
  shows "yields (append_all (rs @ [r])) (sum_list ns + n)"
  using append_all_yields [of "rs @ [r]" "ns @ [n]"] assms by (simp add: list_all2_appendI)

lemma append_all_ones: "list_all (\<lambda>r. yields r 1) rs \<Longrightarrow> length rs = n \<Longrightarrow> yields (append_all rs) n"
  using append_all_yields [of rs "replicate (length rs) 1"]
  by (simp add: list_all2_conv_all_nth list_all_length sum_list_replicate)

lemma instance_events_size:
  assumes "instance_size ksim = Some n"
  shows "yields (instance_events sk intervalStr ksim) n"
proof -
  obtain sim where sim: "ksim_Metrics ksim = Some sim" "n = length (pbsim_TransactionMetrics sim)
      + length (pbsim_ServiceTransactionMetrics sim) + length (pbsim_SpanMetrics sim) + 1"
    using assms by (auto simp: instance_size_def split: bind_splits)
  show ?thesis
    unfolding instance_events_def sim(1) Let_def
    by (auto intro!: yields_bind append_all_ones simp: sim(2) list_all_iff split: sum.splits)
qed

lemma overflow_events_size: "yields (overflow_events H t base intervalStr ov) (overflow_size ov)"
  unfolding overflow_events_def by (rule append_all_ones) (simp_all add: overflow_size_def)

lemma those_map_Some: "those (map f xs) = Some ys \<longleftrightarrow> list_all2 (\<lambda>x y. f x = Some y) xs ys"
proof (induction xs arbitrary: ys)
  case (Cons x xs)
  then show ?case by (cases ys) (auto split: option.splits)
qed auto

lemma yields_those:
  assumes "those (map g xs) = Some ns" and "\<And>x n. g x = Some n \<Longrightarrow> yields (f x) n"
  shows "list_all2 yields (map f xs) ns"
  using assms unfolding those_map_Some by (simp add: list_all2_conv_all_nth)

lemma service_events_size:
  assumes "service_size ksm = Some n"
  shows "yields (service_events H t intervalStr ksm) n"
proof -
  obtain sm ns where sm: "ksm_Metrics ksm = Some sm" "those (map instance_size (pbsm_ServiceInstanceMetrics sm)) = Some ns"
    "n = sum_list ns + (case pbsm_OverflowGroups sm of None \<Rightarrow> 0 | Some ov \<Rightarrow> overflow_size ov)"
    using assms by (auto simp: service_size_def split: bind_splits)
  note sizes = yields_those [OF sm(2) instance_events_size]
  show ?thesis
  proof (cases "pbsm_OverflowGroups sm")
    case None
    with append_all_yields [OF sizes] show ?thesis by (simp add: service_events_def sm)
  next
    case (Some ov)
    with append_all_snoc [OF sizes overflow_events_size] show ?thesis by (simp add: service_events_def sm)
  qed
qed

text \<open>The computed capacity is the length of the batch.\<close>

lemma CombinedMetricsToBatch_size:
  assumes "CombinedMetricsToBatch H (Some cm) t ivl = Some (Inr (Some b))"
  shows "batch_size cm = Some (length b)"
proof -
  let ?s = "formatDuration ivl"
  obtain n where n: "batch_size cm = Some n"
    and b: "append_all (map (service_events H t ?s) (pbcm_ServiceMetrics cm) @ [overflow_services_events H t ?s cm]) = Some (Inr b)"
  proof -
    obtain r where "append_all (map (service_events H t ?s) (pbcm_ServiceMetrics cm) @ [overflow_services_events H t ?s cm]) = Some r"
      "map_sum (\<lambda>err. err) Some r = Inr (Some b)" "batch_size cm \<noteq> None"
      using assms by (auto simp: CombinedMetricsToBatch_def Let_def split: if_splits bind_splits)
    then show ?thesis using that by (cases r) auto
  qed
  obtain k ns where ks: "those (map service_size (pbcm_ServiceMetrics cm)) = Some ns" "n = k + sum_list ns"
    "(if pbcm_OverflowServiceInstancesEstimator cm \<noteq> []
      then do { ov \<leftarrow> pbcm_OverflowServices cm; Some (1 + overflow_size ov) } else Some 0) = Some k"
    using n by (auto simp: batch_size_def split: bind_splits)
  have "yields (overflow_services_events H t ?s cm) k"
    using ks(3) append_all_snoc [of "[one_event _]" "[1]", OF _ overflow_events_size]
    by (auto simp: overflow_services_events_def intro!: yields_bind split: if_splits bind_splits)
  from append_all_snoc [OF yields_those [where f = "service_events H t ?s", OF ks(1) service_events_size] this] b
  have "length b = sum_list ns + k" by (simp add: yields_def)
  with n ks(2) show ?thesis by simp
qed

end
