(* ===== verification/BatchSpec.thy ===== *)
theory BatchSpec
  imports BatchConv EventStore
begin

text \<open>
  Metric events carry the key of their group: reading the dimensions of a metric event the way those of
  an ingested event are read gives the aggregation key back. And converting a complete message neither
  panics nor fails.
\<close>

section \<open>Keys survive\<close>

definition base_event :: "ServiceAggregationKey \<Rightarrow> globalLabels \<Rightarrow> APMEvent" where
  "base_event sk gl = (getBaseEvent sk)\<lparr>ae_Labels := gls_Labels gl, ae_NumericLabels := gls_NumericLabels gl\<rparr>"

lemmas event_simps = upd_def getBaseEvent_def zero_APMEvent_def zero_Service_def zero_Host_def zero_Faas_def zero_Cloud_def
  zero_Transaction_def zero_Span_def zero_Event_def zero_Metricset_def

lemma txn_service_fields:
  assumes "svc_Version s = ''''" and "svc_Node s = None" and "svc_Runtime s = None" and "getf lang_Version [] (svc_Language s) = ''''"
  shows "\<exists>s'. set_txn_service key (Some s) = Some s' \<and> svc_Version s' = pbtk_ServiceVersion key
    \<and> getf sn_Name [] (svc_Node s') = pbtk_ServiceNodeName key
    \<and> getf rt_Name [] (svc_Runtime s') = pbtk_ServiceRuntimeName key
    \<and> getf rt_Version [] (svc_Runtime s') = pbtk_ServiceRuntimeVersion key
    \<and> getf lang_Version [] (svc_Language s') = pbtk_ServiceLanguageVersion key
    \<and> svc_Name s' = svc_Name s \<and> svc_Environment s' = svc_Environment s
    \<and> getf lang_Name [] (svc_Language s') = getf lang_Name [] (svc_Language s)"
  using assms by (cases "svc_Language s") (auto simp: set_txn_service_def upd_def Let_def)

lemma txn_host_fields:
  "getf host_Hostname [] (set_txn_host key None) = pbtk_HostHostname key"
  "getf host_Name [] (set_txn_host key None) = pbtk_HostName key"
  "getf os_Platform [] (getf host_Os None (set_txn_host key None)) = pbtk_HostOsPlatform key"
  by (auto simp: set_txn_host_def upd_def zero_Host_def Let_def)

lemma txn_faas_fields:
  assumes "pbtk_FaasColdstart key \<in> {NB_Nil, NB_False, NB_True}"
  shows "(case set_txn_faas key None of None \<Rightarrow> NB_Nil | Some f \<Rightarrow> ParseBoolPtr (faas_ColdStart f)) = pbtk_FaasColdstart key"
    and "getf faas_Id [] (set_txn_faas key None) = pbtk_FaasId key"
    and "getf faas_Name [] (set_txn_faas key None) = pbtk_FaasName key"
    and "getf faas_Version [] (set_txn_faas key None) = pbtk_FaasVersion key"
    and "getf faas_TriggerType [] (set_txn_faas key None) = pbtk_FaasTriggerType key"
  using ParseBoolPtr_ToBoolPtr [OF assms] by (auto simp: set_txn_faas_def upd_def zero_Faas_def)

lemma txn_cloud_fields:
  "getf cl_Provider [] (set_txn_cloud key None) = pbtk_CloudProvider key"
  "getf cl_Region [] (set_txn_cloud key None) = pbtk_CloudRegion key"
  "getf cl_AvailabilityZone [] (set_txn_cloud key None) = pbtk_CloudAvailabilityZone key"
  "getf cl_ServiceName [] (set_txn_cloud key None) = pbtk_CloudServiceName key"
  "getf cl_AccountId [] (set_txn_cloud key None) = pbtk_CloudAccountId key"
  "getf cl_AccountName [] (set_txn_cloud key None) = pbtk_CloudAccountName key"
  "getf cl_MachineType [] (set_txn_cloud key None) = pbtk_CloudMachineType key"
  "getf cl_ProjectId [] (set_txn_cloud key None) = pbtk_CloudProjectId key"
  "getf cl_ProjectName [] (set_txn_cloud key None) = pbtk_CloudProjectName key"
  by (simp_all add: set_txn_cloud_def upd_def zero_Cloud_def)

lemma base_event_fields:
  "ae_Host (base_event sk gl) = None" "ae_Faas (base_event sk gl) = None" "ae_Cloud (base_event sk gl) = None"
  "ae_ParentId (base_event sk gl) = ''''" "ae_Container (base_event sk gl) = None" "ae_Kubernetes (base_event sk gl) = None"
  "ae_Transaction (base_event sk gl) = None" "ae_Event (base_event sk gl) = None" "ae_Span (base_event sk gl) = None"
  "ae_Agent (base_event sk gl) = (if pbsk_AgentName sk \<noteq> '''' then Some \<lparr>ag_Name = pbsk_AgentName sk\<rparr> else None)"
  "ae_Timestamp (base_event sk gl) = Some (PBTimestampToTime (pbsk_Timestamp sk))"
  "ae_Labels (base_event sk gl) = gls_Labels gl" "ae_NumericLabels (base_event sk gl) = gls_NumericLabels gl"
  by (simp_all add: base_event_def getBaseEvent_def zero_APMEvent_def)

lemma base_event_service:
  obtains s where "ae_Service (base_event sk gl) = Some s" and "svc_Version s = ''''" and "svc_Node s = None"
    and "svc_Runtime s = None" and "getf lang_Version [] (svc_Language s) = ''''" and "svc_Name s = pbsk_ServiceName sk"
    and "svc_Environment s = pbsk_ServiceEnvironment sk" and "getf lang_Name [] (svc_Language s) = pbsk_ServiceLanguageName sk"
    and "svc_Target s = None"
  by (rule that [of "the (ae_Service (base_event sk gl))"])
    (simp_all add: base_event_def getBaseEvent_def zero_Service_def)

lemma txn_event_key:
  assumes "txnMetricsToAPMEvent (Some key) m (base_event sk gl) intervalStr = Some e"
    and "pbtk_FaasColdstart key \<in> {NB_Nil, NB_False, NB_True}"
  shows "setTransactionKey e = key\<lparr>pbtk_TraceRoot := True\<rparr>"
proof -
  obtain s where s: "ae_Service (base_event sk gl) = Some s" "svc_Version s = ''''" "svc_Node s = None" "svc_Runtime s = None"
    "getf lang_Version [] (svc_Language s) = ''''" by (rule base_event_service)
  obtain s' where s': "set_txn_service key (Some s) = Some s'" "svc_Version s' = pbtk_ServiceVersion key"
    "getf sn_Name [] (svc_Node s') = pbtk_ServiceNodeName key" "getf rt_Name [] (svc_Runtime s') = pbtk_ServiceRuntimeName key"
    "getf rt_Version [] (svc_Runtime s') = pbtk_ServiceRuntimeVersion key"
    "getf lang_Version [] (svc_Language s') = pbtk_ServiceLanguageVersion key"
    using txn_service_fields [OF s(2-5)] by blast
  have e: "ae_Host e = set_txn_host key None" "ae_Faas e = set_txn_faas key None" "ae_Cloud e = set_txn_cloud key None"
    "ae_ParentId e = ''''" "getf ctr_Id [] (ae_Container e) = pbtk_ContainerId key"
    "getf k8s_PodName [] (ae_Kubernetes e) = pbtk_KubernetesPodName key" "ae_Service e = Some s'"
    "getf ev_Outcome [] (ae_Event e) = pbtk_EventOutcome key" "getf tx_Name [] (ae_Transaction e) = pbtk_TransactionName key"
    "getf tx_Type [] (ae_Transaction e) = pbtk_TransactionType key"
    "getf tx_Result [] (ae_Transaction e) = pbtk_TransactionResult key"
    using assms(1) s(1) s'(1)
    by (auto simp: txnMetricsToAPMEvent_def Let_def base_event_fields upd_def zero_Transaction_def zero_Event_def
        split: bind_splits)
  show ?thesis
    by (rule TransactionAggregationKey.equality)
      (simp_all add: setTransactionKey_def Let_def e s' txn_host_fields txn_faas_fields [OF assms(2)] txn_cloud_fields)
qed

lemma svctxn_event_key:
  assumes "svcTxnMetricsToAPMEvent (Some key) m (base_event sk gl) intervalStr = Some e"
  shows "setServiceTransactionKey e = key"
  using assms by (cases key) (auto simp: svcTxnMetricsToAPMEvent_def setServiceTransactionKey_def upd_def Let_def split: bind_splits)

lemma span_event_key:
  assumes "spanMetricsToAPMEvent (Some key) m (base_event sk gl) intervalStr = Some e"
  shows "setSpanKey e = key"
  using assms
  by (cases key) (auto simp: spanMetricsToAPMEvent_def setSpanKey_def upd_def Let_def base_event_fields zero_Span_def
      zero_Event_def split: bind_splits if_splits)

section \<open>Complete messages\<close>

text \<open>Overflow metrics come with their estimators and estimators with their metrics; labels decode.\<close>

definition overflow_complete :: "Overflow option \<Rightarrow> bool" where
  "overflow_complete ov \<longleftrightarrow> (case ov of None \<Rightarrow> True
     | Some ov \<Rightarrow> (pbo_OverflowTransactionsEstimator ov \<noteq> [] \<longrightarrow> pbo_OverflowTransactions ov \<noteq> None)
         \<and> (pbo_OverflowServiceTransactionsEstimator ov \<noteq> [] \<longrightarrow> pbo_OverflowServiceTransactions ov \<noteq> None)
         \<and> (pbo_OverflowSpansEstimator ov \<noteq> [] \<longrightarrow> pbo_OverflowSpans ov \<noteq> None))"

definition instance_complete :: "KeyedServiceInstanceMetrics \<Rightarrow> bool" where
  "instance_complete ksim \<longleftrightarrow> (case ksim_Key ksim of None \<Rightarrow> False
     | Some sik \<Rightarrow> \<exists>gl. GlobalLabels_UnmarshalBinary (pbsik_GlobalLabelsStr sik) = Inr gl)"

definition msg_complete :: "CombinedMetrics \<Rightarrow> bool" where
  "msg_complete cm \<longleftrightarrow> cm_msg_ok cm \<and> overflow_complete (pbcm_OverflowServices cm)
     \<and> (pbcm_OverflowServiceInstancesEstimator cm \<noteq> [] \<longrightarrow> pbcm_OverflowServices cm \<noteq> None)
     \<and> (\<forall>ksm \<in> set (pbcm_ServiceMetrics cm). \<forall>sm. ksm_Metrics ksm = Some sm \<longrightarrow>
          overflow_complete (pbsm_OverflowGroups sm) \<and> list_all instance_complete (pbsm_ServiceInstanceMetrics sm))"

definition succeeds :: "(wire_error + APMEvent list) option \<Rightarrow> bool" where
  "succeeds r \<longleftrightarrow> (\<exists>es. r = Some (Inr es))"

lemma append_all_succeeds: "list_all succeeds rs \<Longrightarrow> succeeds (append_all rs)"
proof (induction rs)
  case Nil
  then show ?case by (simp add: succeeds_def append_all.simps)
next
  case (Cons r rs)
  then obtain es es' where "r = Some (Inr es)" "append_all rs = Some (Inr es')" by (auto simp: succeeds_def)
  then show ?case by (simp add: succeeds_def append_all.simps)
qed

lemma one_event_succeeds: "succeeds (one_event e) \<longleftrightarrow> e \<noteq> None"
  by (auto simp: succeeds_def one_event_def)

lemma histogram_buckets_total: "hist_ok h \<Longrightarrow> histogram_buckets h \<noteq> None"
  by (cases h) (simp_all add: histogram_buckets_def histogramFromProto_def hist_ok_def hdr_ok_def add_wire_bars_eq)

lemma txn_event_total: "ktm_ok k \<Longrightarrow> txnMetricsToAPMEvent (ktm_Key k) (ktm_Metrics k) e s \<noteq> None"
  using histogram_buckets_total
  by (fastforce simp: ktm_ok_def txnMetricsToAPMEvent_def Let_def split: option.splits bind_splits)

lemma svctxn_event_total: "kstm_ok k \<Longrightarrow> svcTxnMetricsToAPMEvent (kstm_Key k) (kstm_Metrics k) e s \<noteq> None"
  using histogram_buckets_total
  by (fastforce simp: kstm_ok_def svcTxnMetricsToAPMEvent_def Let_def split: option.splits bind_splits)

lemma span_event_total: "kspm_ok k \<Longrightarrow> spanMetricsToAPMEvent (kspm_Key k) (kspm_Metrics k) e s \<noteq> None"
  by (auto simp: kspm_ok_def spanMetricsToAPMEvent_def Let_def)

lemma instance_events_total:
  assumes "ksim_ok ksim" and "instance_complete ksim"
  shows "succeeds (instance_events (Some sk) s ksim)"
proof -
  obtain sik sim gl where k: "ksim_Key ksim = Some sik" "ksim_Metrics ksim = Some sim" "sim_msg_ok sim"
    "GlobalLabels_UnmarshalBinary (pbsik_GlobalLabelsStr sik) = Inr gl"
    using assms by (auto simp: ksim_ok_def instance_complete_def split: option.splits)
  show ?thesis
    unfolding instance_events_def k bind.bind_lunit sum.case Let_def
    using k(3) txn_event_total svctxn_event_total span_event_total
    by (intro append_all_succeeds) (auto simp: list_all_iff one_event_succeeds sim_msg_ok_def)
qed

lemma overflow_events_total:
  assumes "pbo_ok ov" and "overflow_complete (Some ov)"
  shows "succeeds (overflow_events H t (Some e) s ov)"
proof -
  have est: "estimate H b \<noteq> None" if "b \<noteq> []" for b using that by (simp add: estimate_def hllSketch_def)
  have "overflowTxnMetricsToAPMEvent t (pbo_OverflowTransactions ov) n e s \<noteq> None"
    if "pbo_OverflowTransactionsEstimator ov \<noteq> []" for n
    using assms that txn_event_total [of "\<lparr>ktm_Key = Some _, ktm_Metrics = pbo_OverflowTransactions ov\<rparr>"]
    by (auto simp: overflow_complete_def pbo_ok_def overflowTxnMetricsToAPMEvent_def ktm_ok_def split: option.splits)
  moreover have "overflowSvcTxnMetricsToAPMEvent t (pbo_OverflowServiceTransactions ov) n e s \<noteq> None"
    if "pbo_OverflowServiceTransactionsEstimator ov \<noteq> []" for n
    using assms that svctxn_event_total [of "\<lparr>kstm_Key = Some _, kstm_Metrics = pbo_OverflowServiceTransactions ov\<rparr>"]
    by (auto simp: overflow_complete_def pbo_ok_def overflowSvcTxnMetricsToAPMEvent_def kstm_ok_def split: option.splits)
  moreover have "overflowSpanMetricsToAPMEvent t (pbo_OverflowSpans ov) n e s \<noteq> None"
    if "pbo_OverflowSpansEstimator ov \<noteq> []" for n
    using assms that span_event_total [of "\<lparr>kspm_Key = Some _, kspm_Metrics = pbo_OverflowSpans ov\<rparr>"]
    by (auto simp: overflow_complete_def overflowSpanMetricsToAPMEvent_def kspm_ok_def)
  ultimately show ?thesis
    unfolding overflow_events_def using est
    by (intro append_all_succeeds) (auto simp: one_event_succeeds list_all_iff bind_eq_None_conv)
qed

lemma service_events_total:
  assumes "ksm_ok ksm"
    and "\<And>sm. ksm_Metrics ksm = Some sm \<Longrightarrow>
      overflow_complete (pbsm_OverflowGroups sm) \<and> list_all instance_complete (pbsm_ServiceInstanceMetrics sm)"
  shows "succeeds (service_events H t s ksm)" and "service_size ksm \<noteq> None"
proof -
  obtain sk sm where k: "ksm_Key ksm = Some sk" "ksm_Metrics ksm = Some sm" "sm_msg_ok sm"
    using assms(1) by (auto simp: ksm_ok_def split: option.splits)
  note c = assms(2) [OF k(2)]
  have i: "list_all succeeds (map (instance_events (Some sk) s) (pbsm_ServiceInstanceMetrics sm))"
    using k(3) c instance_events_total by (auto simp: list_all_iff sm_msg_ok_def)
  have o: "list_all succeeds (case pbsm_OverflowGroups sm of None \<Rightarrow> []
      | Some ov \<Rightarrow> [overflow_events H t (Some (getBaseEvent sk)) s ov])"
    using k(3) c overflow_events_total by (auto simp: sm_msg_ok_def pbo_opt_ok_def split: option.splits)
  show "succeeds (service_events H t s ksm)"
    unfolding service_events_def k bind.bind_lunit option.map using i o by (intro append_all_succeeds) simp
  have "list_all2 (\<lambda>x n. instance_size x = Some n) (pbsm_ServiceInstanceMetrics sm)
      (map (\<lambda>x. the (instance_size x)) (pbsm_ServiceInstanceMetrics sm))"
    using k(3) by (auto simp: list_all2_map2 list_all2_same sm_msg_ok_def list_all_iff ksim_ok_def instance_size_def
        split: option.splits)
  then have "those (map instance_size (pbsm_ServiceInstanceMetrics sm)) \<noteq> None" unfolding those_map_Some [symmetric] by simp
  then show "service_size ksm \<noteq> None" by (auto simp: service_size_def k)
qed

lemma CombinedMetricsToBatch_total:
  assumes "msg_complete cm" and "pbcm_ServiceMetrics cm \<noteq> []"
  shows "\<exists>b. CombinedMetricsToBatch H (Some cm) t ivl = Some (Inr (Some b))"
proof -
  let ?s = "formatDuration ivl"
  have ok: "ksm_ok ksm" "\<And>sm. ksm_Metrics ksm = Some sm \<Longrightarrow>
      overflow_complete (pbsm_OverflowGroups sm) \<and> list_all instance_complete (pbsm_ServiceInstanceMetrics sm)"
    if "ksm \<in> set (pbcm_ServiceMetrics cm)" for ksm
    using assms(1) that by (auto simp: msg_complete_def cm_msg_ok_def list_all_iff)
  have "list_all2 (\<lambda>x n. service_size x = Some n) (pbcm_ServiceMetrics cm)
      (map (\<lambda>x. the (service_size x)) (pbcm_ServiceMetrics cm))"
    using service_events_total(2) [OF ok] by (auto simp: list_all2_map2 list_all2_same)
  then have "batch_size cm \<noteq> None"
    using assms(1) unfolding those_map_Some [symmetric]
    by (auto simp: batch_size_def msg_complete_def)
  moreover have "succeeds (overflow_services_events H t ?s cm)"
  proof (cases "pbcm_OverflowServiceInstancesEstimator cm = []")
    case True
    then show ?thesis by (simp add: overflow_services_events_def succeeds_def)
  next
    case False
    then obtain ov n where "pbcm_OverflowServices cm = Some ov" "pbo_ok ov" "overflow_complete (Some ov)"
      "estimate H (pbcm_OverflowServiceInstancesEstimator cm) = Some n"
      using assms(1)
      by (auto simp: msg_complete_def cm_msg_ok_def pbo_opt_ok_def estimate_def hllSketch_def split: option.splits)
    then show ?thesis
      using False overflow_events_total
      by (auto simp: overflow_services_events_def one_event_succeeds intro!: append_all_succeeds)
  qed
  then have "list_all succeeds (map (service_events H t ?s) (pbcm_ServiceMetrics cm) @ [overflow_services_events H t ?s cm])"
    using service_events_total(1) [OF ok] by (auto simp: list_all_iff)
  from append_all_succeeds [OF this] obtain es where
    "append_all (map (service_events H t ?s) (pbcm_ServiceMetrics cm) @ [overflow_services_events H t ?s cm]) = Some (Inr es)"
    by (auto simp: succeeds_def)
  ultimately show ?thesis using assms(2) by (auto simp: CombinedMetricsToBatch_def Let_def)
qed

section \<open>Service keys\<close>

text \<open>Every event made from a base event still carries the service key.\<close>

definition has_service_key :: "ServiceAggregationKey \<Rightarrow> APMEvent \<Rightarrow> bool" where
  "has_service_key sk e \<longleftrightarrow> ae_Timestamp e = Some (PBTimestampToTime (pbsk_Timestamp sk))
     \<and> getf svc_Name [] (ae_Service e) = pbsk_ServiceName sk
     \<and> getf svc_Environment [] (ae_Service e) = pbsk_ServiceEnvironment sk
     \<and> getf lang_Name [] (getf svc_Language None (ae_Service e)) = pbsk_ServiceLanguageName sk
     \<and> getf ag_Name [] (ae_Agent e) = pbsk_AgentName sk"

lemma metric_events_service:
  "txnMetricsToAPMEvent k m (base_event sk gl) s = Some e \<Longrightarrow> has_service_key sk e"
  "svcTxnMetricsToAPMEvent k' m' (base_event sk gl) s = Some e \<Longrightarrow> has_service_key sk e"
  "spanMetricsToAPMEvent k'' m'' (base_event sk gl) s = Some e \<Longrightarrow> has_service_key sk e"
  "has_service_key sk (serviceMetricsToAPMEvent (base_event sk gl) s)"
proof -
  obtain v where v: "ae_Service (base_event sk gl) = Some v" "svc_Version v = ''''" "svc_Node v = None" "svc_Runtime v = None"
    "getf lang_Version [] (svc_Language v) = ''''" "svc_Name v = pbsk_ServiceName sk"
    "svc_Environment v = pbsk_ServiceEnvironment sk" "getf lang_Name [] (svc_Language v) = pbsk_ServiceLanguageName sk"
    by (rule base_event_service)
  have t: "\<exists>s'. set_txn_service key (Some v) = Some s' \<and> svc_Name s' = pbsk_ServiceName sk
      \<and> svc_Environment s' = pbsk_ServiceEnvironment sk \<and> getf lang_Name [] (svc_Language s') = pbsk_ServiceLanguageName sk" for key
    using txn_service_fields [OF v(2-5), of key] v(6-8) by auto
  show "has_service_key sk e" if ev: "txnMetricsToAPMEvent k m (base_event sk gl) s = Some e"
  proof -
    obtain key where key: "k = Some key" using ev by (cases k) (auto simp: txnMetricsToAPMEvent_def split: bind_splits)
    from t [of key] ev show ?thesis
      by (auto simp: key txnMetricsToAPMEvent_def has_service_key_def Let_def v(1) base_event_fields split: bind_splits)
  qed
  show "svcTxnMetricsToAPMEvent k' m' (base_event sk gl) s = Some e \<Longrightarrow> has_service_key sk e"
    by (auto simp: svcTxnMetricsToAPMEvent_def has_service_key_def Let_def v base_event_fields split: bind_splits)
  show "spanMetricsToAPMEvent k'' m'' (base_event sk gl) s = Some e \<Longrightarrow> has_service_key sk e"
    by (auto simp: spanMetricsToAPMEvent_def has_service_key_def Let_def v base_event_fields upd_def split: bind_splits)
  show "has_service_key sk (serviceMetricsToAPMEvent (base_event sk gl) s)"
    by (simp add: serviceMetricsToAPMEvent_def has_service_key_def v base_event_fields)
qed

end
