(* ===== verification/Samples.thy ===== *)
theory Samples
  imports MemPebble RunClose BatchSpec HdrProofs VtprotoRT
begin

text \<open>
  Concrete inputs on which the theorems are applied: messages, histograms, one event, and a run of the
  aggregator over the reference database that accepts the event and closes.
\<close>

section \<open>Messages\<close>

definition sample_env :: "(bytes, bytes) env" where
  "sample_env = \<lparr>hll = log_hll, xx = log_xxhash, junk_buckets = (\<lambda>_. 0), junk_counts = (\<lambda>_. 0)\<rparr>"

definition sample_limits :: Limits where
  "sample_limits = \<lparr>MaxServices = 1, MaxServiceInstanceGroupsPerService = 1, MaxSpanGroups = 2,
     MaxSpanGroupsPerService = 2, MaxTransactionGroups = 1, MaxTransactionGroupsPerService = 1,
     MaxServiceTransactionGroups = 1, MaxServiceTransactionGroupsPerService = 1\<rparr>"

definition sample_hist :: HDRHistogram where
  "sample_hist = \<lparr>hdr_LowestTrackableValue = 1, hdr_HighestTrackableValue = 3600000000,
     hdr_SignificantFigures = 2, hdr_Counts = [1000, 2000], hdr_Buckets = [3, 70]\<rparr>"

definition sample_hist2 :: HDRHistogram where
  "sample_hist2 = \<lparr>hdr_LowestTrackableValue = 1, hdr_HighestTrackableValue = 3600000000,
     hdr_SignificantFigures = 2, hdr_Counts = [500, 1000], hdr_Buckets = [5, 70]\<rparr>"

definition sample_svctxn :: KeyedServiceTransactionMetrics where
  "sample_svctxn = \<lparr>kstm_Key = Some \<lparr>pbstk_TransactionType = ''request''\<rparr>,
     kstm_Metrics = Some \<lparr>stm_Histogram = Some sample_hist, stm_FailureCount = Fin 1, stm_SuccessCount = Fin 2\<rparr>\<rparr>"

definition sample_span :: KeyedSpanMetrics where
  "sample_span = \<lparr>kspm_Key = Some \<lparr>pbspk_SpanName = ''GET'', pbspk_Outcome = ''success'', pbspk_TargetType = ''http'',
     pbspk_TargetName = ''db'', pbspk_Resource = ''db:80''\<rparr>,
     kspm_Metrics = Some \<lparr>spm_Count = Fin 2, spm_Sum = Fin 10\<rparr>\<rparr>"

definition sample_msg :: "string \<Rightarrow> CombinedMetrics" where
  "sample_msg svc = \<lparr>pbcm_ServiceMetrics = [\<lparr>
       ksm_Key = Some \<lparr>pbsk_Timestamp = 60, pbsk_ServiceName = svc, pbsk_ServiceEnvironment = ''prod'',
                  pbsk_ServiceLanguageName = ''go'', pbsk_AgentName = ''go''\<rparr>,
       ksm_Metrics = Some \<lparr>
         pbsm_ServiceInstanceMetrics = [\<lparr>ksim_Key = Some \<lparr>pbsik_GlobalLabelsStr = []\<rparr>,
           ksim_Metrics = Some \<lparr>pbsim_TransactionMetrics = [], pbsim_ServiceTransactionMetrics = [sample_svctxn],
                            pbsim_SpanMetrics = [sample_span]\<rparr>\<rparr>],
         pbsm_OverflowGroups = None\<rparr>\<rparr>],
     pbcm_OverflowServices = None, pbcm_OverflowServiceInstancesEstimator = [],
     pbcm_EventsTotal = Fin 3, pbcm_YoungestEventTimestamp = 1000\<rparr>"

lemma sample_hist_ok [simp]: "hdr_ok sample_hist" "hdr_ok sample_hist2"
  by (simp_all add: hdr_ok_def sample_hist_def sample_hist2_def hdr_bars_def bars_sorted_def)

lemma sample_msg_ok [simp]: "cm_msg_ok (sample_msg svc)" "cm_msg_anchored (sample_msg svc)"
  by (simp_all add: cm_msg_ok_def sample_msg_def pbo_opt_ok_def ksm_ok_def sm_msg_ok_def ksim_ok_def sim_msg_ok_def
      sample_svctxn_def sample_span_def kstm_ok_def kspm_ok_def hist_ok_def cm_msg_anchored_def ksm_anchored_def)

lemma sample_youngest [simp]:
  "pbcm_YoungestEventTimestamp (sample_msg svc) = 1000"
  "YoungestEventTimestamp (mg_metrics (new_merger l)) = 0"
  by (simp_all add: sample_msg_def new_merger_def zero_combinedMetrics_def)

lemma hll_roundtrip_sample [simp]: "hll_roundtrip (hll sample_env)"
  by (simp add: sample_env_def)

section \<open>An event\<close>

definition sample_event :: APMEvent where
  "sample_event = zero_APMEvent\<lparr>ae_Timestamp := Some (2000000 * Second),
     ae_Service := Some (zero_Service\<lparr>svc_Name := ''checkout''\<rparr>),
     ae_Event := Some \<lparr>ev_Outcome = ''success'', ev_Duration = Some (70 * Millisecond),
       ev_Received = Some (2000001 * Second), ev_SuccessCount = None\<rparr>,
     ae_Transaction := Some \<lparr>tx_Name = ''GET /'', tx_Type = ''request'', tx_Result = ''HTTP 2xx'', tx_Root = True,
       tx_RepresentativeCount = Fin 2, tx_DroppedSpansStats = [], tx_DurationSummary = None,
       tx_DurationHistogram = None\<rparr>\<rparr>"

definition sample_etype :: "APMEvent \<Rightarrow> APMEventType" where
  "sample_etype e = TransactionEventType"

lemma sample_transaction:
  "ae_Transaction sample_event = Some \<lparr>tx_Name = ''GET /'', tx_Type = ''request'', tx_Result = ''HTTP 2xx'', tx_Root = True,
     tx_RepresentativeCount = Fin 2, tx_DroppedSpansStats = [], tx_DurationSummary = None, tx_DurationHistogram = None\<rparr>"
  by (simp add: sample_event_def)

lemma sample_bucket: "countsIndexFor 70000 = 1288"
  by code_simp

lemma sample_micros: "Microseconds (AsDuration (getf ev_Duration None (ae_Event sample_event))) = 70000"
  by (simp add: sample_event_def AsDuration_def Microseconds_def Millisecond_def)

lemma sample_scaled: "f64_to_int64 (math_Round (fmul (Fin 2) (f64_of_int histogramCountScale))) = 2000"
proof -
  have "f64_of_int histogramCountScale = Fin (of_int 1000)" by (simp add: histogramCountScale_def f64_of_int_exact)
  moreover have "fmul (Fin (of_int 2)) (Fin (of_int 1000)) = Fin (of_int 2000)" by (subst fmul_ints) simp_all
  moreover have "math_Round (Fin (of_int 2000)) = Fin (of_int 2000)" by (rule math_Round_of_int)
  ultimately show ?thesis by (simp add: f64_to_int64_def trunc_def)
qed

lemma sample_histogram:
  "event_histogram (Fin 2) sample_event = \<lparr>hdr_LowestTrackableValue = 1, hdr_HighestTrackableValue = 3600000000,
     hdr_SignificantFigures = 2, hdr_Counts = [2000], hdr_Buckets = [1288]\<rparr>"
  unfolding event_histogram_def record_histogram_def setHistogramProto_eq
  using sample_micros sample_bucket sample_scaled
  by (simp add: RecordDuration_def Let_def RecordValues_ok hist_New_def hc_Add_first hc_zero_def hc_bars_def
      lowestTrackableValue_def highestTrackableValue_def significantFigures_def)

lemma sample_event_ok: "event_ok sample_event"
  using is_f64_int [of 2] by (simp add: event_ok_def sample_transaction)

lemma sample_weight: "event_weight sample_etype 1288 sample_event = 2000"
  using sample_micros sample_bucket sample_scaled
  by (simp add: event_weight_def sample_transaction event_bucket_count_def sample_etype_def)

text \<open>With one partition there is one message.\<close>

definition sample_part :: part_metrics where
  "sample_part = \<lparr>q_pid = 0, q_txns = [txn_group sample_event (Fin 2)],
     q_svctxns = [svctxn_group sample_event (Fin 2)], q_spans = []\<rparr>"

lemma sample_parts: "event_parts X sample_etype 1 sample_event h = [sample_part]"
  by (simp add: event_parts_def event_groups_def sample_transaction sample_etype_def sample_part_def pid_of_def Let_def)

lemma sample_labels: "marshalEventGlobalLabels sample_event = Some []"
  by (simp add: marshalEventGlobalLabels_eq sample_event_def zero_APMEvent_def event_labels_def event_numeric_labels_def entries_def)

lemma sample_part_ok: "part_ok sample_part"
  using place_all_ok [OF event_groups_ok [OF sample_event_ok], of "[]" log_xxhash 1 log_xxhash sample_etype "[]"]
    sample_parts [of log_xxhash "[]"] by (simp add: event_parts_def)

lemma sample_message_weight:
  "cm_msg_weight H (txn_metric 1288) (part_message sample_event Minute 1 sample_part) = 2000"
proof -
  have "sum_list (map (cm_msg_weight H (txn_metric 1288) \<circ> snd)
      (part_messages log_xxhash sample_etype sample_event (base_key [] 0 Minute) 1)) = 2000"
    using part_messages_weight [of "txn_metric 1288" 1288 H log_xxhash sample_etype sample_event "base_key [] 0 Minute" 1]
      sample_weight by simp
  then show ?thesis by (simp add: part_messages_def sample_parts Let_def base_key_def)
qed

lemma sov_step: "sov v = (if v < 128 then 1 else 1 + sov (drop_bit 7 v))"
  unfolding length_varint [symmetric] by (subst varint.simps) (auto simp: not_le not_less)

lemmas sov_eval = sov_step [of "numeral w" for w] sov_step [of 1] sov_step [of 0]

lemmas sample_fields = sample_event_def zero_APMEvent_def zero_Service_def getf_def AsTime_def TimeToPBTimestamp_def
  UnixNano_def Truncate_def zero_time_def duration_units nbool_defs

lemmas size_defs = size_varint_def size_bool_def size_bytes_def size_double_def size_msg_def size_msgs_def
  size_packed_varint_def sov_eval

lemma sample_sizes:
  "TransactionAggregationKey_SizeVT (setTransactionKey sample_event) = 37"
  "ServiceTransactionAggregationKey_SizeVT (setServiceTransactionKey sample_event) = 9"
  "ServiceAggregationKey_SizeVT (event_service_key sample_event Minute) = 19"
  by (simp_all add: TransactionAggregationKey_SizeVT_def setTransactionKey_def ServiceTransactionAggregationKey_SizeVT_def
      setServiceTransactionKey_def ServiceAggregationKey_SizeVT_def event_service_key_def sample_fields size_defs)

lemma sample_histogram_size: "HDRHistogram_SizeVT (event_histogram (Fin 2) sample_event) = 18"
  unfolding sample_histogram by (simp add: HDRHistogram_SizeVT_def size_defs)

lemma sample_message_size: "CombinedMetrics_SizeVT (part_message sample_event Minute 1 sample_part) < 1000"
  unfolding part_message_def sample_part_def txn_group_def svctxn_group_def event_instance_key_def sample_labels
  by (simp add: CombinedMetrics_SizeVT_def KeyedServiceMetrics_SizeVT_def ServiceMetrics_SizeVT_def
      KeyedServiceInstanceMetrics_SizeVT_def ServiceInstanceMetrics_SizeVT_def KeyedTransactionMetrics_SizeVT_def
      KeyedServiceTransactionMetrics_SizeVT_def TransactionMetrics_SizeVT_def ServiceTransactionMetrics_SizeVT_def
      ServiceInstanceAggregationKey_SizeVT_def sample_sizes sample_histogram_size size_defs)
    (simp add: sample_fields sov_eval)

section \<open>A run\<close>

definition sample_globals :: "(unit processor, unit) cfg_globals" where
  "sample_globals = \<lparr>gl_stdoutProcessor = (\<lambda>_ _ _. None), gl_Meter = (), gl_Tracer = (), gl_Logger = ()\<rparr>"

definition sample_now :: gotime where
  "sample_now = 2000007 * Second"

definition sample_pebble :: "(mem, mem, unit) pebble" where
  "sample_pebble = mem_pebble sample_env sample_limits"

definition sample_cfg :: "(unit, unit, unit) agg_config" where
  "sample_cfg = defaultCfg sample_globals"

definition sample_agg :: "(mem, mem) Aggregator" where
  "sample_agg = \<lparr>ag_db = Some [], ag_processingTime = Truncate sample_now Minute, ag_batch = None, ag_cachedEvents = [],
     ag_closed = False, ag_runStopped = NilChan, ag_metrics = [], ag_processed = []\<rparr>"

lemma sample_cfg_fields: "cfg_AggregationIntervals sample_cfg = [Minute]" "cfg_Partitions sample_cfg = 1"
  by (simp_all add: sample_cfg_def defaultCfg_def)

lemma sample_schedule: "schedule_ok sample_cfg"
  unfolding schedule_ok_def validateCfg_ok_iff by (simp add: sample_cfg_def defaultCfg_def duration_units)

lemma sample_New: "New sample_pebble sample_globals sample_now None [] = Some (Inr (sample_cfg, sample_agg))"
  using sample_schedule
  by (simp add: New_def NewConfig_def schedule_ok_def sample_cfg_def [symmetric] sample_pebble_def mem_pebble_def sample_agg_def
      lowest_interval_def sample_cfg_fields)

lemma sample_laws: "pebble_laws sample_env sample_limits sample_pebble (\<lambda>b. b) mem_dops" "storage_total sample_pebble"
  unfolding sample_pebble_def by (rule mem_store.laws, rule mem_store.never_fails)

lemma sample_clock: "36 * Hour \<le> sample_now" "sample_now < 2 ^ 62 * Second"
  by (simp_all add: sample_now_def duration_units)

lemma sample_empty: "opens_empty sample_pebble mem_dops"
  unfolding sample_pebble_def by (rule mem_store.fresh)

lemmas sample_ready = new_ready [OF sample_empty sample_New sample_schedule sample_clock] new_chan [OF sample_New]

lemma sample_messages:
  "batch_messages X sample_etype 1 i t [sample_event] [Minute]
     = [((base_key i t Minute)\<lparr>cmk_PartitionID := 0\<rparr>, part_message sample_event Minute 1 sample_part)]"
  by (simp add: batch_messages_def interval_messages_def part_messages_def sample_parts Let_def base_key_def)
    (simp add: sample_part_def)

lemma sample_complete:
  assumes "db_holds mem_dops db (batch_messages X sample_etype 1 i t [sample_event] [Minute])"
  shows "iter_complete sample_pebble db ivl stop"
  unfolding sample_pebble_def
  by (rule mem_iter_complete [OF assms]) (use sample_message_size in \<open>simp_all add: sample_messages at_key_def CombinedMetrics_size\<close>)

lemma sample_accept:
  "\<exists>a pd pb. agg_run sample_pebble sample_cfg log_xxhash sample_etype (sample_agg, NotRunning) [In_Event sample_event] (a, NotRunning)
     \<and> agg_holds (\<lambda>b. b) mem_dops a pd pb
     \<and> pd @ pb = batch_messages log_xxhash sample_etype 1 (replicate 16 0) (Truncate sample_now Minute) [sample_event] [Minute]"
proof -
  let ?i = "replicate 16 0 :: bytes" let ?pool = "\<lambda>(_ :: duration) (_ :: nat) (_ :: nat). None :: eventMetricsBuilder option"
  have pool: "pool_ok (?pool ivl j)" for ivl j by (simp add: pool_ok_def)
  have i: "length ?i = 16" by simp
  from mem_store.new_accepts [where pool = ?pool and X = log_xxhash and etype = sample_etype and es = "[sample_event]" and pick = False,
      OF sample_New [unfolded sample_pebble_def] sample_schedule sample_clock i pool, folded sample_pebble_def]
  obtain a1 pd pb where a1: "AggregateBatch sample_pebble sample_cfg log_xxhash sample_etype ?pool False False ?i [sample_event] sample_agg
      = Some ([], a1)" "agg_holds (\<lambda>b. b) mem_dops a1 pd pb"
    "pd @ pb = batch_messages log_xxhash sample_etype (cfg_Partitions sample_cfg) ?i (ag_processingTime sample_agg)
       [sample_event] (cfg_AggregationIntervals sample_cfg)" by blast
  have "agg_step sample_pebble sample_cfg log_xxhash sample_etype (sample_agg, NotRunning) [In_Event sample_event] (a1, NotRunning)"
    using agg_step.accept [OF a1(1)] pool i sample_event_ok by simp
  from agg_run.step [OF agg_run.start this]
  have "agg_run sample_pebble sample_cfg log_xxhash sample_etype (sample_agg, NotRunning) [In_Event sample_event] (a1, NotRunning)" by simp
  with a1(2,3) show ?thesis by (auto simp: sample_cfg_fields sample_agg_def)
qed

lemma sample_time: "time_ok sample_cfg (ag_processingTime sample_agg)"
  by (rule inv_time_ok [OF sample_ready(1)]) simp

lemma sample_open: "ag_db sample_agg \<noteq> None" "\<not> ag_closed sample_agg" "length (replicate 16 0 :: bytes) = 16"
  "\<forall>ivl j. pool_ok ((\<lambda>(_ :: duration) (_ :: nat) (_ :: nat). None :: eventMetricsBuilder option) ivl j)"
  by (simp_all add: sample_agg_def pool_ok_def)

text \<open>A partial aggregate of the open window.\<close>

definition open_key :: CombinedMetricsKey where
  "open_key = base_key (replicate 16 0) (ag_processingTime sample_agg) Minute"

lemma open_key_ok: "key_ok open_key"
  unfolding open_key_def
  by (rule base_key_ok [OF sample_schedule sample_time _ sample_open(3)]) (simp add: sample_cfg_fields)

lemma sample_accept_metrics:
  "\<exists>a. agg_run sample_pebble sample_cfg log_xxhash sample_etype (sample_agg, NotRunning)
     [In_Metrics open_key (part_message sample_event Minute 1 sample_part)] (a, NotRunning)"
proof -
  let ?m = "part_message sample_event Minute 1 sample_part"
  obtain a where a: "AggregateCombinedMetrics sample_pebble False False open_key ?m sample_agg
      = Some (None :: (unit, unit) agg_error option, a)"
    using AggregateCombinedMetrics_total [where 'pe = unit, OF sample_laws(2) sample_open(1,2) open_key_ok] by blast
  have "keyed_ok (open_key, ?m)" using open_key_ok part_message_ok [OF sample_part_ok] by (simp add: keyed_ok_def)
  moreover have "cmk_Interval open_key \<in> set (cfg_AggregationIntervals sample_cfg)" "current (ag_processingTime sample_agg) (open_key, ?m)"
    by (simp_all add: open_key_def base_key_def sample_cfg_fields current_def)
  ultimately have "agg_step sample_pebble sample_cfg log_xxhash sample_etype (sample_agg, NotRunning) [In_Metrics open_key ?m] (a, NotRunning)"
    by (rule agg_step.accept_metrics [OF a])
  from agg_run.step [OF agg_run.start this] show ?thesis by auto
qed

lemma sample_final:
  assumes "agg_holds (\<lambda>b. b) mem_dops a pd pb"
    and "pd @ pb = batch_messages log_xxhash sample_etype 1 i t [sample_event] [Minute]"
  shows "final_complete sample_pebble sample_cfg (cfg_AggregationIntervals sample_cfg) (final_state sample_pebble sample_cfg a)"
proof -
  obtain db where db: "ag_db a = Some db" "db_holds mem_dops db pd" "batch_holds (\<lambda>b. b) (ag_batch a) pb"
    using assms(1) by (auto simp: agg_holds_def)
  have "db_holds mem_dops snap (pd @ pb)" if "ag_db (final_state sample_pebble sample_cfg a) = Some snap" for snap
    using that db
    by (auto simp: final_state_def Let_def sample_pebble_def mem_pebble_def commit_batch_def batch_holds_def db_holds_def
        operands_of_append operands_of_enc split: option.splits)
  then have "harvest_complete sample_pebble sample_cfg stop (final_state sample_pebble sample_cfg a)" for stop
    using sample_complete assms(2) by (auto simp: harvest_complete_def)
  then show ?thesis by (simp add: sample_cfg_fields harvest_complete_def split: option.splits prod.splits)
qed

lemma sample_run:
  "\<exists>a. agg_run sample_pebble sample_cfg log_xxhash sample_etype (sample_agg, NotRunning) [In_Event sample_event] (a, Finished)"
proof -
  from sample_accept obtain a pd pb where a:
    "agg_run sample_pebble sample_cfg log_xxhash sample_etype (sample_agg, NotRunning) [In_Event sample_event] (a, NotRunning)"
    "agg_holds (\<lambda>b. b) mem_dops a pd pb"
    "pd @ pb = batch_messages log_xxhash sample_etype 1 (replicate 16 0) (Truncate sample_now Minute) [sample_event] [Minute]"
    by blast
  from run_can_close [OF sample_laws(1) hll_roundtrip_sample sample_schedule sample_laws(2) sample_ready a(1)] sample_final [OF a(2,3)]
  show ?thesis by blast
qed

end
