(* ===== verification/MergerProps.thy ===== *)
theory MergerProps
  imports Samples
begin

text \<open>
  The properties of the merger, of the values that a key of the database goes through, and of the
  histograms.
\<close>

section \<open>The merger\<close>

text \<open>
  C3. Merging a well-formed message into a well-formed merger does not panic and keeps the
  invariant: every limit holds, each shared counter equals the number of groups of its kind over
  all services and instances, every group sits under its own key, and all histograms are sorted
  without duplicate buckets. The event total is added and the youngest event timestamp is the
  larger of the two.
\<close>

theorem merge_invariant:
  assumes "merger_ok m" and "cm_msg_ok x"
  shows "\<exists>m'. merge E m x = Some m' \<and> merger_ok m' \<and> mg_limits m' = mg_limits m
    \<and> EventsTotal (mg_metrics m') = fadd (EventsTotal (mg_metrics m)) (pbcm_EventsTotal x)
    \<and> YoungestEventTimestamp (mg_metrics m')
        = max (YoungestEventTimestamp (mg_metrics m)) (pbcm_YoungestEventTimestamp x)"
  using assms by (rule merge_ok)

theorem merge_invariant_witness:
  "\<exists>m'. merge sample_env (new_merger sample_limits) (sample_msg ''a'') = Some m' \<and> merger_ok m'
     \<and> YoungestEventTimestamp (mg_metrics m') = 1000"
  using merge_invariant [OF merger_ok_new sample_msg_ok(1), of sample_env sample_limits "''a''"] by auto

text \<open>Groups per service: so many instances, with so many groups each.\<close>

lemma gm_sum_le: "(\<And>k v. (k, v) \<in> set m \<Longrightarrow> int (n v) \<le> c) \<Longrightarrow> int (gm_sum n m) \<le> int (gm_len m) * c"
  by (induction m) (fastforce simp: algebra_simps)+

lemma sm_groups_le:
  assumes "int (gm_len (ServiceInstanceGroups sm)) \<le> max 0 a"
    and "\<And>i s. (i, s) \<in> set (ServiceInstanceGroups sm) \<Longrightarrow> int (n s) \<le> max 0 b"
  shows "int (sm_groups n sm) \<le> max 0 a * max 0 b"
proof -
  have "int (sm_groups n sm) \<le> int (gm_len (ServiceInstanceGroups sm)) * max 0 b"
    unfolding sm_groups_def by (rule gm_sum_le) (rule assms(2))
  also have "\<dots> \<le> max 0 a * max 0 b" by (rule mult_right_mono [OF assms(1)]) simp
  finally show ?thesis .
qed

text \<open>
  C4. The limits that the code enforces hold after any sequence of merges from an empty merger: the
  number of services, of instances per service, of groups of each kind over everything, and of groups of
  each kind in every single service instance, which is what the limits \<^verbatim>\<open>Max...GroupsPerService\<close> are
  compared with. A whole service is bounded only by the product of the limits on instances and groups,
  and may hold more distinct groups than its documented limit. (A limit that is zero or negative admits
  nothing.)
\<close>

theorem merge_all_limits:
  assumes "list_all cm_msg_ok xs"
  shows "\<exists>m. merge_all E (new_merger l) xs = Some m
    \<and> int (length (Services (mg_metrics m))) \<le> max 0 (MaxServices l)
    \<and> (\<forall>(k, sm) \<in> set (Services (mg_metrics m)).
         int (length (ServiceInstanceGroups sm)) \<le> max 0 (MaxServiceInstanceGroupsPerService l)
         \<and> (\<forall>(i, s) \<in> set (ServiceInstanceGroups sm).
              int (length (TransactionGroups s)) \<le> max 0 (MaxTransactionGroupsPerService l)
              \<and> int (length (ServiceTransactionGroups s)) \<le> max 0 (MaxServiceTransactionGroupsPerService l)
              \<and> int (length (SpanGroups s)) \<le> max 0 (MaxSpanGroupsPerService l))
         \<and> int (sm_groups (\<lambda>s. length (TransactionGroups s)) sm)
             \<le> max 0 (MaxServiceInstanceGroupsPerService l) * max 0 (MaxTransactionGroupsPerService l)
         \<and> int (sm_groups (\<lambda>s. length (ServiceTransactionGroups s)) sm)
             \<le> max 0 (MaxServiceInstanceGroupsPerService l) * max 0 (MaxServiceTransactionGroupsPerService l)
         \<and> int (sm_groups (\<lambda>s. length (SpanGroups s)) sm)
             \<le> max 0 (MaxServiceInstanceGroupsPerService l) * max 0 (MaxSpanGroupsPerService l))
    \<and> int (cm_groups (\<lambda>s. length (TransactionGroups s)) (mg_metrics m)) \<le> max 0 (MaxTransactionGroups l)
    \<and> int (cm_groups (\<lambda>s. length (ServiceTransactionGroups s)) (mg_metrics m)) \<le> max 0 (MaxServiceTransactionGroups l)
    \<and> int (cm_groups (\<lambda>s. length (SpanGroups s)) (mg_metrics m)) \<le> max 0 (MaxSpanGroups l)"
proof -
  from merge_all_ok [OF merger_ok_new assms, of E l] obtain m where
    m: "merge_all E (new_merger l) xs = Some m" "merger_ok m" "mg_limits m = l"
    by (auto simp: new_merger_def [of l])
  then have "cm_ok l (mg_metrics m)" by (simp add: merger_ok_def)
  note lim = cm_ok_limits [OF this]
  have "int (sm_groups (\<lambda>s. length (TransactionGroups s)) sm)
          \<le> max 0 (MaxServiceInstanceGroupsPerService l) * max 0 (MaxTransactionGroupsPerService l)
      \<and> int (sm_groups (\<lambda>s. length (ServiceTransactionGroups s)) sm)
          \<le> max 0 (MaxServiceInstanceGroupsPerService l) * max 0 (MaxServiceTransactionGroupsPerService l)
      \<and> int (sm_groups (\<lambda>s. length (SpanGroups s)) sm)
          \<le> max 0 (MaxServiceInstanceGroupsPerService l) * max 0 (MaxSpanGroupsPerService l)"
    if "(k, sm) \<in> set (Services (mg_metrics m))" for k sm
    using lim(3) [OF that] by (intro conjI sm_groups_le lim(2) [OF that]) auto
  then show ?thesis
    using m lim by (intro exI [of _ m]) (auto simp: merger_ok_def g_ok_def)
qed

text \<open>
  Two instances of one service, each with a group of its own: with a limit of one group per service,
  the service holds two, with different keys.
\<close>

definition two_instances :: CombinedMetrics where
  "two_instances = (sample_msg ''a'')\<lparr>pbcm_ServiceMetrics := map (\<lambda>svc. svc\<lparr>ksm_Metrics := Some
     \<lparr>pbsm_ServiceInstanceMetrics = map (\<lambda>(i, ty). \<lparr>ksim_Key = Some \<lparr>pbsik_GlobalLabelsStr = i\<rparr>,
        ksim_Metrics = Some \<lparr>pbsim_TransactionMetrics = [], pbsim_ServiceTransactionMetrics =
            [sample_svctxn\<lparr>kstm_Key := Some \<lparr>pbstk_TransactionType = ty\<rparr>\<rparr>], pbsim_SpanMetrics = []\<rparr>\<rparr>)
        [([], ''request''), ([1], ''messaging'')],
      pbsm_OverflowGroups = None\<rparr>\<rparr>) (pbcm_ServiceMetrics (sample_msg ''a''))\<rparr>"

definition two_limits :: Limits where
  "two_limits = sample_limits\<lparr>MaxServiceInstanceGroupsPerService := 2, MaxServiceTransactionGroups := 2\<rparr>"

lemma two_instances_ok: "cm_msg_ok two_instances"
  by (simp add: cm_msg_ok_def two_instances_def sample_msg_def pbo_opt_ok_def ksm_ok_def sm_msg_ok_def ksim_ok_def
      sim_msg_ok_def sample_svctxn_def kstm_ok_def hist_ok_def)

lemma two_instances_merged:
  assumes "merge_all sample_env (new_merger two_limits) [two_instances] = Some m"
  shows "\<exists>k sm. (k, sm) \<in> set (Services (mg_metrics m)) \<and> sm_groups (\<lambda>s. length (ServiceTransactionGroups s)) sm = 2
    \<and> concat (map (\<lambda>(i, s). map fst (ServiceTransactionGroups s)) (ServiceInstanceGroups sm))
      = [\<lparr>stk_TransactionType = ''request''\<rparr>, \<lparr>stk_TransactionType = ''messaging''\<rparr>]"
  using assms
  by (auto simp: merge_def merge_totals_def two_instances_def sample_msg_def hllSketch_def new_merger_def zero_combinedMetrics_def
      mergeService_def Let_def getServiceMetrics_def two_limits_def sample_limits_def mergeOverflow_def
      getServiceInstanceMetrics_def newServiceMetrics_def newServiceInstanceMetrics_def mergeInstance_def sample_svctxn_def
      serviceInstanceAggregationKey_FromProto_def serviceTransactionAggregationKey_FromProto_def Maxed_iff newConstraints_def
      sm_groups_def string_of_bytes_def)

theorem merge_all_limits_witness:
  "\<exists>m k sm. merge_all sample_env (new_merger two_limits) [two_instances] = Some m \<and> (k, sm) \<in> set (Services (mg_metrics m))
     \<and> sm_groups (\<lambda>s. length (ServiceTransactionGroups s)) sm = 2 \<and> MaxServiceTransactionGroupsPerService two_limits = 1
     \<and> concat (map (\<lambda>(i, s). map fst (ServiceTransactionGroups s)) (ServiceInstanceGroups sm))
       = [\<lparr>stk_TransactionType = ''request''\<rparr>, \<lparr>stk_TransactionType = ''messaging''\<rparr>]
     \<and> (\<forall>(i, s) \<in> set (ServiceInstanceGroups sm). length (ServiceTransactionGroups s) \<le> 1)"
proof -
  have "list_all cm_msg_ok [two_instances]" by (simp add: two_instances_ok)
  from merge_all_limits [OF this, of sample_env two_limits] obtain m where
    m: "merge_all sample_env (new_merger two_limits) [two_instances] = Some m"
    and s: "\<forall>(k, sm) \<in> set (Services (mg_metrics m)). \<forall>(i, s) \<in> set (ServiceInstanceGroups sm).
      int (length (ServiceTransactionGroups s)) \<le> max 0 (MaxServiceTransactionGroupsPerService two_limits)"
    by fastforce
  have l: "MaxServiceTransactionGroupsPerService two_limits = 1" by (simp add: two_limits_def sample_limits_def)
  from two_instances_merged [OF m] obtain k sm where
    sm: "(k, sm) \<in> set (Services (mg_metrics m))" "sm_groups (\<lambda>s. length (ServiceTransactionGroups s)) sm = 2"
    "concat (map (\<lambda>(i, s). map fst (ServiceTransactionGroups s)) (ServiceInstanceGroups sm))
      = [\<lparr>stk_TransactionType = ''request''\<rparr>, \<lparr>stk_TransactionType = ''messaging''\<rparr>]" by blast
  from s sm(1) have "\<forall>(i, s) \<in> set (ServiceInstanceGroups sm). length (ServiceTransactionGroups s) \<le> 1"
    by (fastforce simp: l)
  with m sm l show ?thesis by blast
qed

text \<open>
  C5. Merging conserves histograms: for every histogram bucket, the count over all groups and
  overflow buckets after the merge is the count before plus the count in the message (in 64-bit
  arithmetic), for transactions and for service transactions.
\<close>

theorem merge_conserves_histograms:
  assumes "merger_ok m" and "cm_msg_ok x"
  shows "\<exists>m'. merge E m x = Some m'
    \<and> (\<forall>b. cm_weight (txn_metric b) (mg_metrics m')
            = cm_weight (txn_metric b) (mg_metrics m) + cm_msg_weight (hll E) (txn_metric b) x)
    \<and> (\<forall>b. cm_weight (svctxn_metric b) (mg_metrics m')
            = cm_weight (svctxn_metric b) (mg_metrics m) + cm_msg_weight (hll E) (svctxn_metric b) x)"
proof -
  from merge_ok [OF assms, of E] obtain m' where m': "merge E m x = Some m'" by blast
  have cm: "cm_ok (mg_limits m) (mg_metrics m)" using assms(1) by (simp add: merger_ok_def)
  have "cm_weight (txn_metric b) (mg_metrics m')
      = cm_weight (txn_metric b) (mg_metrics m) + cm_msg_weight (hll E) (txn_metric b) x" for b
    using txn_bucket.merge_conserves [OF m' cm_ok_exact [OF plain_metrics(1) cm] cm_msg_ok_exact [OF plain_metrics(1) assms(2)]]
    by simp
  moreover have "cm_weight (svctxn_metric b) (mg_metrics m')
      = cm_weight (svctxn_metric b) (mg_metrics m) + cm_msg_weight (hll E) (svctxn_metric b) x" for b
    using svctxn_bucket.merge_conserves [OF m' cm_ok_exact [OF plain_metrics(2) cm] cm_msg_ok_exact [OF plain_metrics(2) assms(2)]]
    by simp
  ultimately show ?thesis using m' by blast
qed

lemma new_merger_weight: "cm_weight (svctxn_metric b) (mg_metrics (new_merger l) :: bytes combinedMetrics) = 0"
  by (simp add: cm_weight_def new_merger_def zero_combinedMetrics_def svctxn_bucket.zero_weight)

lemma sample_msg_weight: "cm_msg_weight (hll sample_env) (svctxn_metric 70) (sample_msg svc) = 2000"
  by (simp add: cm_msg_weight_def sample_msg_def sm_msg_weight_def sim_msg_weight_def pbo_weight_def
      svctxn_metric_def sample_svctxn_def stm_count_def hist_count_def hdr_count_def hdr_bars_def sample_hist_def)

lemma sample_merge_weight:
  assumes "merger_ok m" and "merge sample_env m (sample_msg svc) = Some m'"
  shows "cm_weight (svctxn_metric 70) (mg_metrics m') = cm_weight (svctxn_metric 70) (mg_metrics m) + 2000"
proof -
  have cm: "cm_ok (mg_limits m) (mg_metrics m)" using assms(1) by (simp add: merger_ok_def)
  from svctxn_bucket.merge_conserves [OF assms(2) cm_ok_exact [OF plain_metrics(2) cm]
      cm_msg_ok_exact [OF plain_metrics(2) sample_msg_ok(1)]]
  show ?thesis by (simp add: sample_msg_weight)
qed

theorem merge_conserves_histograms_witness:
  "\<exists>m'. merge sample_env (new_merger sample_limits) (sample_msg ''a'') = Some m'
     \<and> cm_weight (svctxn_metric 70) (mg_metrics m') = 2000"
  using merge_conserves_histograms [OF merger_ok_new sample_msg_ok(1), of sample_env sample_limits "''a''"]
  by (fastforce simp: new_merger_weight sample_msg_weight)

text \<open>
  C20. Merging conserves the number of spans: as long as the span counts are whole numbers whose
  total stays within the precision of a float64, the span count over all groups and overflow
  buckets after the merge is the count before plus the count in the message.
\<close>

theorem merge_conserves_spans:
  assumes "merger_ok m" and "cm_msg_ok x" and "cm_exact span_metric (mg_metrics m)"
    and "cm_msg_exact (hll E) span_metric x"
    and "cm_weight span_metric (mg_metrics m) + cm_msg_weight (hll E) span_metric x \<le> max_count"
  shows "\<exists>m'. merge E m x = Some m' \<and> cm_exact span_metric (mg_metrics m')
    \<and> cm_weight span_metric (mg_metrics m')
        = cm_weight span_metric (mg_metrics m) + cm_msg_weight (hll E) span_metric x"
proof -
  from merge_ok [OF assms(1,2), of E] obtain m' where m': "merge E m x = Some m'" by blast
  have "mt_fits span_metric n \<longleftrightarrow> n \<le> max_count" for n by (simp add: span_metric_def)
  with span_number.merge_conserves [OF m' assms(3,4)] assms(5) m' show ?thesis by blast
qed

theorem merge_conserves_spans_witness:
  "\<exists>m'. merge sample_env (new_merger sample_limits) (sample_msg ''a'') = Some m'
     \<and> cm_weight span_metric (mg_metrics m') = 2"
proof -
  have z: "cm_weight span_metric (mg_metrics (new_merger sample_limits) :: bytes combinedMetrics) = 0"
    "cm_exact span_metric (mg_metrics (new_merger sample_limits) :: bytes combinedMetrics)"
    by (simp_all add: cm_weight_def cm_exact_def new_merger_def zero_combinedMetrics_def
        span_number.zero_weight span_number.zero_exact)
  have c: "fcount (Fin 2) = 2" using fcount_Fin [of 2] by simp
  have w: "cm_msg_weight (hll sample_env) span_metric (sample_msg ''a'') = 2"
    by (simp add: cm_msg_weight_def sample_msg_def sm_msg_weight_def sim_msg_weight_def pbo_weight_def
        span_metric_def sample_span_def spm_count_def c)
  have e: "cm_msg_exact (hll sample_env) span_metric (sample_msg ''a'')"
    using sample_msg_ok(1) [of "''a''"]
    by (simp add: cm_msg_exact_def cm_msg_ok_def ksm_ok_def sm_msg_ok_def ksim_ok_def sim_msg_ok_def sample_msg_def sm_msg_exact_def sim_msg_exact_def pbo_exact_def
        span_metric_def sample_span_def kspm_exact_def kspm_ok_def spm_exact_def is_count_def c max_count_def)
  have "cm_weight span_metric (mg_metrics (new_merger sample_limits) :: bytes combinedMetrics)
      + cm_msg_weight (hll sample_env) span_metric (sample_msg ''a'') \<le> max_count"
    unfolding z w by (simp add: max_count_def)
  from merge_conserves_spans [OF merger_ok_new sample_msg_ok(1) z(2) e this] show ?thesis
    unfolding z w by auto
qed

text \<open>
  C21. What \<^verbatim>\<open>Finish\<close> writes back can be merged again: if the sketch library decodes what it encodes,
  the message of a well-formed, anchored state is well-formed and anchored, keeps the totals, and
  carries the count of every histogram bucket and every span.
\<close>

theorem finish_closed:
  assumes "hll_roundtrip H" and "cm_ok l cm" and "cm_anchored cm"
  shows "cm_msg_ok (combinedMetrics_ToProto H cm) \<and> cm_msg_anchored (combinedMetrics_ToProto H cm)
    \<and> pbcm_EventsTotal (combinedMetrics_ToProto H cm) = EventsTotal cm
    \<and> pbcm_YoungestEventTimestamp (combinedMetrics_ToProto H cm) = YoungestEventTimestamp cm
    \<and> cm_msg_weight H (txn_metric b) (combinedMetrics_ToProto H cm) = cm_weight (txn_metric b) cm
    \<and> cm_msg_weight H (svctxn_metric b) (combinedMetrics_ToProto H cm) = cm_weight (svctxn_metric b) cm
    \<and> cm_msg_weight H span_metric (combinedMetrics_ToProto H cm) = cm_weight span_metric cm"
  using assms
  by (simp add: cm_ToProto_ok cm_ToProto_anchored cm_ToProto_fields cm_ToProto_weight
      txn_bucket.zero_weight svctxn_bucket.zero_weight span_number.zero_weight)

text \<open>
  Two services where one is admitted: the second is in the overflow of services, and the message carries
  the counts of both.
\<close>

lemma sample_overflows:
  assumes "merge_all sample_env (new_merger sample_limits) [sample_msg ''a'', sample_msg ''b''] = Some m"
  shows "gm_len (Services (mg_metrics m)) = 1 \<and> OverflowServiceInstancesEstimator (mg_metrics m) \<noteq> None"
  using assms
  by (auto simp: merge_def merge_totals_def sample_msg_def hllSketch_def new_merger_def zero_combinedMetrics_def
      mergeService_def Let_def getServiceMetrics_def sample_limits_def mergeOverflow_def serviceAggregationKey_FromProto_def
      getServiceInstanceMetrics_def newServiceMetrics_def newServiceInstanceMetrics_def insertHash_def
      split: bind_splits)

theorem finish_closed_witness:
  "\<exists>m. merge_all sample_env (new_merger sample_limits) [sample_msg ''a'', sample_msg ''b''] = Some m
     \<and> gm_len (Services (mg_metrics m)) = 1 \<and> OverflowServiceInstancesEstimator (mg_metrics m) \<noteq> None
     \<and> cm_msg_ok (combinedMetrics_ToProto log_hll (mg_metrics m))
     \<and> cm_msg_weight log_hll (svctxn_metric 70) (combinedMetrics_ToProto log_hll (mg_metrics m)) = 4000"
proof -
  have ok: "list_all cm_msg_ok [sample_msg ''a'', sample_msg ''b'']" by simp
  from merge_ok [OF merger_ok_new sample_msg_ok(1), of sample_env sample_limits "''a''"] obtain m1 where
    m1: "merge sample_env (new_merger sample_limits) (sample_msg ''a'') = Some m1" "merger_ok m1" by blast
  from merge_ok [OF m1(2) sample_msg_ok(1), of sample_env "''b''"] obtain m where
    m: "merge sample_env m1 (sample_msg ''b'') = Some m" "merger_ok m" by blast
  have cm: "cm_ok (mg_limits m) (mg_metrics m)" using m(2) by (simp add: merger_ok_def)
  have an: "cm_anchored (mg_metrics m)"
    using merge_anchors [OF m(1) merge_anchors [OF m1(1)]] by simp
  have "cm_weight (svctxn_metric 70) (mg_metrics m) = 4000"
    using sample_merge_weight [OF merger_ok_new m1(1)] sample_merge_weight [OF m1(2) m(1)] new_merger_weight by simp
  with finish_closed [OF hll_roundtrip_log cm an, of 70] m1 m
  have "cm_msg_ok (combinedMetrics_ToProto log_hll (mg_metrics m))
     \<and> cm_msg_weight log_hll (svctxn_metric 70) (combinedMetrics_ToProto log_hll (mg_metrics m)) = 4000" by simp
  moreover have "merge_all sample_env (new_merger sample_limits) [sample_msg ''a'', sample_msg ''b''] = Some m"
    using m1 m by simp
  ultimately show ?thesis using sample_overflows by blast
qed

section \<open>The values of a key\<close>

text \<open>
  C6. However the database groups the operands of a key (partial merges of any neighbours, newer or older
  first, encoded and decoded again in between), the value it reads decodes to one well-formed message
  that carries, for every histogram bucket, the sum of the counts of all operands, and the youngest event
  timestamp of all.
\<close>

theorem lsm_value_conserves:
  assumes "hll_roundtrip (hll E)" and "list_all msg_ok xs" and "lsm_val E l (map enc xs) v"
  shows "\<exists>x. CombinedMetrics_UnmarshalVT v zero_CombinedMetrics = Inr x \<and> msg_ok x
    \<and> (\<forall>b. cm_msg_weight (hll E) (txn_metric b) x = sum_list (map (cm_msg_weight (hll E) (txn_metric b)) xs))
    \<and> (\<forall>b. cm_msg_weight (hll E) (svctxn_metric b) x = sum_list (map (cm_msg_weight (hll E) (svctxn_metric b)) xs))
    \<and> pbcm_YoungestEventTimestamp x = fold max (map pbcm_YoungestEventTimestamp xs) 0"
  using lsm_invariant(1) [OF assms(1,3) refl assms(2)] unfolding stored_def youngest_def by blast

theorem lsm_value_conserves_witness:
  "\<exists>x. CombinedMetrics_UnmarshalVT (enc (part_message sample_event Minute 1 sample_part)) zero_CombinedMetrics = Inr x
     \<and> cm_msg_weight (hll sample_env) (txn_metric 1288) x = 2000"
proof -
  let ?x = "part_message sample_event Minute 1 sample_part"
  have "list_all msg_ok [?x]" using sample_part_ok by (simp add: part_message_ok)
  moreover have "lsm_val sample_env sample_limits (map enc [?x]) (enc ?x)"
    using sample_message_size by (auto simp: CombinedMetrics_size intro!: lsm_val_lsm_merger.operand)
  ultimately show ?thesis
    using lsm_value_conserves [OF hll_roundtrip_sample] sample_message_weight by fastforce
qed

text \<open>
  C19. Merging never fails on what the database holds: on the value of a key, whose operands are
  well-formed messages, the merge function of the database and both methods of the merger return a
  merger, without an error and without a panic.
\<close>

theorem lsm_merge_succeeds:
  assumes "hll_roundtrip (hll E)" and "list_all msg_ok xs" and "list_all msg_ok ys"
    and "lsm_merger E l (map enc xs) m" and "lsm_val E l (map enc ys) w"
  shows "\<exists>m0 m1 v. Merge E l w = Some (Inr m0) \<and> MergeNewer E m w = Some (Inr m1) \<and> MergeOlder E m w = Some (Inr m1)
    \<and> Finish E m = Some v \<and> length v = CombinedMetrics_SizeVT (combinedMetrics_ToProto (hll E) (mg_metrics m))"
  using lsm_progress(1) [OF assms(1,5,3)] lsm_progress(2) [OF assms(1,5,3,4,2)]
  by (auto simp: Finish_def MarshalVT_CombinedMetrics CombinedMetrics_size)

theorem lsm_merge_succeeds_witness:
  "\<exists>m m1. Merge sample_env sample_limits (enc (part_message sample_event Minute 1 sample_part)) = Some (Inr m)
     \<and> MergeNewer sample_env m (enc (part_message sample_event Minute 1 sample_part)) = Some (Inr m1)"
proof -
  let ?x = "part_message sample_event Minute 1 sample_part"
  have x: "list_all msg_ok [?x]" using sample_part_ok by (simp add: part_message_ok)
  have v: "lsm_val sample_env sample_limits (map enc [?x]) (enc ?x)"
    using sample_message_size by (auto simp: CombinedMetrics_size intro!: lsm_val_lsm_merger.operand)
  obtain m where m: "Merge sample_env sample_limits (enc ?x) = Some (Inr m)"
    using lsm_progress(1) [OF hll_roundtrip_sample v x] by blast
  from lsm_merge_succeeds [OF hll_roundtrip_sample x x lsm_val_lsm_merger.first [OF v m] v] m show ?thesis by blast
qed

section \<open>Histograms\<close>

text \<open>
  C18. Merging two encoded histograms, done in place from the back of the slices, computes the merge
  of two sorted lists of bars: it does not panic whatever the spare capacity of the slices holds,
  leaves a well-formed histogram with the parameters of the receiver, and the count of each bucket
  is the sum of both.
\<close>

theorem mergeHistogram_refines:
  assumes "hdr_ok to" and "hdr_ok from"
  shows "\<exists>r. mergeHistogram jb jc to from = Some r \<and> hdr_ok r
    \<and> hdr_bars r = merge_bars (hdr_bars to) (hdr_bars from)
    \<and> (\<forall>b. hdr_count r b = hdr_count to b + hdr_count from b)
    \<and> hdr_total r = hdr_total to + hdr_total from
    \<and> set (hdr_Buckets r) = set (hdr_Buckets to) \<union> set (hdr_Buckets from)"
proof -
  obtain r where r: "mergeHistogram jb jc to from = Some r" "hdr_ok r"
    "hdr_bars r = merge_bars (hdr_bars to) (hdr_bars from)"
    using mergeHistogram_correct [OF assms, of jb jc] by blast
  have "set (hdr_Buckets h) = fst ` set (hdr_bars h)" if "hdr_ok h" for h
    using hdr_okD(6) [OF that] by (metis list.set_map)
  with r assms show ?thesis
    by (simp add: hdr_count_def bars_at_merge hdr_total_def sum_merge_bars fst_merge_bars)
qed

theorem mergeHistogram_refines_witness:
  "\<exists>r. mergeHistogram (\<lambda>_. 9) (\<lambda>_. 9) sample_hist sample_hist2 = Some r
     \<and> hdr_bars r = [(3, 1000), (5, 500), (70, 3000)]"
  using mergeHistogram_refines [OF sample_hist_ok, of "\<lambda>_. 9" "\<lambda>_. 9"]
  by (auto simp: hdr_bars_def sample_hist_def sample_hist2_def)

text \<open>
  C32. A value in the range of the histogram and the value that stands for its bucket differ by less than
  one percent, the precision of two significant figures: the bucket is represented by its largest value,
  which exceeds the recorded value by at most one part in 128.
\<close>

theorem bucket_accuracy:
  assumes "0 \<le> sint v" and "sint v < 2 ^ 32"
  shows "sint v \<le> sint (highestEquivalentValue v)
    \<and> 128 * (sint (highestEquivalentValue v) - sint v) \<le> sint v
    \<and> countsIndexFor (highestEquivalentValue v) = countsIndexFor v
    \<and> (\<forall>u. 0 \<le> sint u \<longrightarrow> countsIndexFor u = countsIndexFor v \<longrightarrow> sint u \<le> sint (highestEquivalentValue v))"
  using highestEquivalentValue_props [OF assms] by blast

theorem bucket_accuracy_witness:
  "sint (70000 :: int64) \<le> sint (highestEquivalentValue 70000)
    \<and> 128 * (sint (highestEquivalentValue 70000) - 70000) \<le> 70000"
  using bucket_accuracy [of 70000] by simp

text \<open>
  C33. Recording a value adds its count to the one bucket of the value exactly when the value is between 0
  and \<open>2 ^ 32 - 1\<close> microseconds; every other value is refused with an error and leaves the histogram alone.
\<close>

theorem record_values_spec:
  assumes "hc_ok (CountsRep h)"
  shows "RecordValues h v n =
      (if 0 \<le> sint v \<and> sint v < 2 ^ 32
       then (h\<lparr>CountsRep := hc_Add (CountsRep h) (countsIndexFor v) n\<rparr>, None) else (h, Some (ValueTooLarge v)))
    \<and> (\<forall>b. hc_count (CountsRep (fst (RecordValues h v n))) b
          = hc_count (CountsRep h) b + (if 0 \<le> sint v \<and> sint v < 2 ^ 32 \<and> b = countsIndexFor v then n else 0))
    \<and> hc_ok (CountsRep (fst (RecordValues h v n)))"
  using assms by (auto simp: RecordValues_ok RecordValues_error hc_count_Add)

theorem record_values_spec_witness:
  "snd (RecordValues hist_New 70000 5) = None
    \<and> hc_count (CountsRep (fst (RecordValues hist_New 70000 5))) 1288 = 5"
  using record_values_spec [of hist_New 70000 5] sample_bucket by (simp add: hist_New_def hc_count_Add)

text \<open>
  C34. The counts are kept in one inlined bar until a second bucket is used, and in a sorted slice found
  by binary search from then on. This hybrid refines a plain map from buckets to counts: adding, reading,
  visiting in order, resetting and comparing all agree with the map.
\<close>

theorem hybrid_counts_refine_map:
  assumes "hc_ok c" and "hc_ok d"
  shows "hc_ok (hc_Add c b v) \<and> hc_count (hc_Add c b v) = (hc_count c)(b := hc_count c b + v)
    \<and> fst (hc_Get c b) = hc_count c b
    \<and> hc_ForEach (\<lambda>b n acc. acc @ [(b, n)]) c [] = map (\<lambda>x. (Bucket x, Count x)) (hc_bars c)
    \<and> sorted_wrt (<) (map (sint \<circ> Bucket) (hc_bars c)) \<and> hc_Len c = length (hc_bars c)
    \<and> hc_Len (hc_Reset c) = 0
    \<and> (hc_Equal c d \<longleftrightarrow> hc_bars c = hc_bars d)"
proof -
  have f: "fold (\<lambda>x acc. acc @ [(Bucket x, Count x)]) bs acc = acc @ map (\<lambda>x. (Bucket x, Count x)) bs"
    for bs :: "bar list" and acc by (induction bs arbitrary: acc) auto
  show ?thesis
    using assms hc_bars_ok [OF assms(1)]
    by (simp add: f hc_count_Add hc_Get_count hc_ForEach_bars hc_Len_bars hc_Equal_iff bars_ok_def comp_def)
qed

theorem hybrid_counts_refine_map_witness:
  "hc_count (hc_Add (hc_Add hc_zero 7 2) 3 1) 7 = 2 \<and> hc_Len (hc_Add (hc_Add hc_zero 7 2) 3 1) = 2"
proof -
  have "hc_ok (hc_Add hc_zero 7 2)" by simp
  from hybrid_counts_refine_map [OF this this, of 3 1] show ?thesis
    by (simp add: hc_count_Add) (simp add: hc_Len_bars, code_simp)
qed

text \<open>
  C35. The counts and values that are reported for a histogram are those of a direct reading of its bars:
  for every bar with a positive count, in order, the scaled count and the largest value of its bucket; the
  total is the sum of the counts. The code gets there by advancing one iterator from bar to bar.
\<close>

theorem buckets_equal_reference:
  assumes "indices_ok (hc_bars (CountsRep h))"
  shows "hist_Buckets h =
    (sum_list (ref_counts (hc_bars (CountsRep h))), ref_counts (hc_bars (CountsRep h)), ref_values (hc_bars (CountsRep h)))"
  using assms by (rule hist_Buckets_ref)

theorem buckets_equal_reference_witness:
  "snd (snd (hist_Buckets (hist_New\<lparr>CountsRep := hc_Add hc_zero 300 1000\<rparr>))) = [f64_of_int 345]"
proof -
  have b: "hc_bars (hc_Add hc_zero 300 1000) = [\<lparr>Bucket = 300, Count = 1000\<rparr>]"
    by (simp add: hc_Add_first hc_zero_def hc_bars_def)
  have "indices_ok (hc_bars (CountsRep (hist_New\<lparr>CountsRep := hc_Add hc_zero 300 1000\<rparr>)))"
    by (simp add: b indices_ok_def bars_ok_def)
  from buckets_equal_reference [OF this] show ?thesis
    by (simp add: b ref_values_def pos_bars_def idx_top_def idx_s_def idx_k_def)
qed

end
