(* ===== verification/CodecProps.thy ===== *)
theory CodecProps
  imports Samples
begin

text \<open>
  The properties of the encodings: the wire format of the messages, the binary keys of the database, the
  global labels, the conversions between the model and its messages, and the digests of the keys.
\<close>

section \<open>Messages\<close>

text \<open>
  C22. Encoding a message fills a buffer of exactly the computed size, and decoding it gives the message
  back, with all nested services, instances, groups, histograms, overflow buckets and sketches; decoding
  starts from an empty message.
\<close>

theorem metrics_wire_roundtrip:
  assumes "CombinedMetrics_rep m" and "CombinedMetrics_SizeVT m < 2 ^ 63"
  shows "\<exists>d. MarshalVT CombinedMetrics_SizeVT CombinedMetrics_MarshalToSizedBufferVT m = Some d
    \<and> length d = CombinedMetrics_SizeVT m \<and> CombinedMetrics_UnmarshalVT d zero_CombinedMetrics = Inr m"
  using CombinedMetrics_rt [OF assms] by (simp add: MarshalVT_CombinedMetrics CombinedMetrics_size)

theorem metrics_wire_roundtrip_witness:
  "\<exists>d. CombinedMetrics_UnmarshalVT d zero_CombinedMetrics = Inr (part_message sample_event Minute 1 sample_part)
     \<and> length d < 1000"
proof -
  have "CombinedMetrics_rep (part_message sample_event Minute 1 sample_part)"
    using part_message_ok [OF sample_part_ok] by (simp add: msg_ok_def)
  from metrics_wire_roundtrip [OF this] sample_message_size show ?thesis by fastforce
qed

section \<open>Database keys\<close>

text \<open>
  C23. A key whose interval is a whole number of seconds below \<open>2 ^ 16\<close> and whose processing time is a
  whole number of seconds since the epoch is encoded in 28 bytes and decoded to itself; blanking the
  partition in the encoded key gives the encoding of the key with partition 0.
\<close>

theorem metrics_key_roundtrip:
  assumes "key_ok k" and "length buf = SizeBinary k"
  shows "\<exists>d. MarshalBinaryToSizedBuffer k buf = Inr d \<and> length d = SizeBinary k \<and> UnmarshalBinary d = Some (Inr k)
    \<and> MarshalBinaryToSizedBuffer (k\<lparr>cmk_PartitionID := 0\<rparr>) buf
        = Inr (GetEncodedCombinedMetricsKeyWithoutPartitionID d)"
proof -
  have "key_ok (k\<lparr>cmk_PartitionID := 0\<rparr>)" using assms(1) by simp
  then show ?thesis
    using assms MarshalBinary_ok [of "k\<lparr>cmk_PartitionID := 0\<rparr>" buf] UnmarshalBinary_enc [OF assms(1), of "[]"]
    by (intro exI [of _ "enc_key k"])
      (simp add: MarshalBinary_ok SizeBinary_def CombinedMetricsKeyEncodedSize_def strip_partition)
qed

definition sample_key :: CombinedMetricsKey where
  "sample_key = \<lparr>cmk_Interval = Minute, cmk_ProcessingTime = 1200 * Second, cmk_PartitionID = 3, cmk_ID = replicate 16 7\<rparr>"

lemma sample_key_ok: "key_ok sample_key"
  by (simp add: key_ok_def key_secs_def key_unix_def sample_key_def duration_units)

theorem metrics_key_roundtrip_witness:
  "\<exists>d. MarshalBinaryToSizedBuffer sample_key (replicate 28 0) = Inr d \<and> UnmarshalBinary d = Some (Inr sample_key)"
  using metrics_key_roundtrip [OF sample_key_ok, of "replicate 28 0"]
  by (auto simp: SizeBinary_def CombinedMetricsKeyEncodedSize_def)

text \<open>
  C24. The byte order of encoded keys is the order by interval, then processing time, then ID, then
  partition, so that the range from the encoded start to the encoded end of a harvest, both with a zero ID
  and partition, holds exactly the keys of the interval whose processing time is in between.
\<close>

theorem harvest_range_exact:
  assumes "key_ok k" and "key_ok k'" and "key_ok (bound_key ivl start)" and "key_ok (bound_key ivl stop)"
    and "MarshalBinaryToSizedBuffer k buf = Inr d" and "MarshalBinaryToSizedBuffer k' buf = Inr d'"
  shows "(bytes_less d d' \<longleftrightarrow> key_less k k')
    \<and> (in_range (encode_bound ivl start) (encode_bound ivl stop) d \<longleftrightarrow>
         cmk_Interval k = ivl \<and> start \<le> cmk_ProcessingTime k \<and> cmk_ProcessingTime k < stop)"
proof -
  have "length buf = 28" using assms(5) MarshalBinary_length by blast
  then have "d = enc_key k" "d' = enc_key k'" using assms(1,2,5,6) by (simp_all add: MarshalBinary_ok)
  then show ?thesis
    using bytes_less_enc_key [OF assms(1,2)] in_range_window [of "(k, zero_CombinedMetrics)", OF _ assms(3,4)] assms(1)
    by (simp add: window_def)
qed

theorem harvest_range_exact_witness:
  "in_range (encode_bound Minute (1200 * Second)) (encode_bound Minute (1260 * Second)) (enc_key sample_key)"
proof -
  have b: "key_ok (bound_key Minute (1200 * Second))" "key_ok (bound_key Minute (1260 * Second))"
    by (simp_all add: key_ok_def key_secs_def key_unix_def bound_key_def duration_units)
  have m: "MarshalBinaryToSizedBuffer sample_key (replicate 28 0) = Inr (enc_key sample_key)"
    by (rule MarshalBinary_ok [OF sample_key_ok]) simp
  from harvest_range_exact [OF sample_key_ok sample_key_ok b m m] show ?thesis
    by (simp add: sample_key_def duration_units)
qed

text \<open>
  C25. What the key codec does with every input, whatever the capacity of the slice: encoding succeeds
  exactly on a buffer of 28 bytes; decoding refuses fewer than 12 bytes with an error, panics between 12
  and 27 bytes, where its slice expressions and reads run past the end, and on 28 bytes or more gives a
  key whose encoding is the first 28 of them, so that no two stored keys decode to the same key and the
  bytes behind do not matter.
\<close>

theorem key_codec_lengths:
  "((\<exists>d. MarshalBinaryToSizedBuffer k buf = Inr d) \<longleftrightarrow> length buf = 28)
   \<and> (UnmarshalBinary_in tail data = Some (Inl InsufficientLength) \<longleftrightarrow> length data < 12)
   \<and> (UnmarshalBinary_in tail data = None \<longleftrightarrow> 12 \<le> length data \<and> length data < 28)
   \<and> (28 \<le> length data \<and> length buf = 28 \<longrightarrow>
        (\<exists>key. UnmarshalBinary_in tail data = Some (Inr key) \<and> MarshalBinaryToSizedBuffer key buf = Inr (take 28 data)))"
  using MarshalBinary_length [of k buf] Unmarshal_Marshal [of data buf tail]
  by (auto simp: UnmarshalBinary_in_eq)

text \<open>Bytes that no key of the aggregator has: a negative time; and a slice of 26 bytes in an array of 40.\<close>

theorem key_codec_lengths_witness:
  "(\<exists>key. UnmarshalBinary_in [1, 2] (replicate 28 255 @ [3]) = Some (Inr key)
      \<and> MarshalBinaryToSizedBuffer key (replicate 28 0) = Inr (replicate 28 255))
   \<and> UnmarshalBinary_in (replicate 14 0) (replicate 26 0) = None"
  using key_codec_lengths [of sample_key "replicate 28 0" "[1, 2]" "replicate 28 255 @ [3]"]
    key_codec_lengths [of sample_key "replicate 28 0" "replicate 14 0" "replicate 26 0"]
  by auto

section \<open>Global labels\<close>

text \<open>
  C26. The global labels of an event, encoded for the key of its service instance, decode to exactly the
  labels and numeric labels of the event that are marked global.
\<close>

theorem event_labels_roundtrip:
  assumes "labels_ok e"
  shows "\<exists>bs gl. marshalEventGlobalLabels e = Some bs \<and> GlobalLabels_UnmarshalBinary bs = Inr gl
    \<and> (\<forall>k. gm_get (entries (gls_Labels gl)) k = gm_get (filter (lv_Global \<circ> snd) (entries (ae_Labels e))) k)
    \<and> (\<forall>k. gm_get (entries (gls_NumericLabels gl)) k
          = gm_get (filter (nlv_Global \<circ> snd) (entries (ae_NumericLabels e))) k)"
  by (rule UnmarshalBinary_event_labels [OF assms]) (auto simp: event_labels_def event_numeric_labels_def)

definition labelled :: "(string, LabelValue) gomap \<Rightarrow> APMEvent" where
  "labelled m = zero_APMEvent\<lparr>ae_Labels := Some m\<rparr>"

definition label_a :: "string \<times> LabelValue" where
  "label_a = (''a'', \<lparr>lv_Value = ''1'', lv_Values = [], lv_Global = True\<rparr>)"

definition label_b :: "string \<times> LabelValue" where
  "label_b = (''b'', \<lparr>lv_Value = ''2'', lv_Values = [], lv_Global = True\<rparr>)"

lemma labelled_ok: "labels_ok (labelled [label_a, label_b])" "labels_ok (labelled [label_b, label_a])"
  by (simp_all add: labels_ok_def labelled_def label_a_def label_b_def zero_APMEvent_def entries_def gm_ok_def
      GlobalLabels_rep_def event_labels_msg_def event_labels_def event_numeric_labels_def label_msg_def
      GlobalLabels_SizeVT_def Label_SizeVT_def size_defs)

theorem event_labels_roundtrip_witness:
  "\<exists>bs gl. marshalEventGlobalLabels (labelled [label_a, label_b]) = Some bs \<and> GlobalLabels_UnmarshalBinary bs = Inr gl
     \<and> gm_get (entries (gls_Labels gl)) ''b'' = Some (snd label_b)"
  using event_labels_roundtrip [OF labelled_ok(1)]
  by (fastforce simp: labelled_def label_a_def label_b_def entries_def)

text \<open>
  C27. The encoding of the labels does not depend on the order in which Go iterates over the label maps:
  two events with the same global labels are encoded to the same bytes, so that they aggregate into the
  same service instance.
\<close>

theorem event_labels_canonical:
  assumes "labels_ok e" and "labels_ok e'"
    and "set (filter (lv_Global \<circ> snd) (entries (ae_Labels e))) = set (filter (lv_Global \<circ> snd) (entries (ae_Labels e')))"
    and "set (filter (nlv_Global \<circ> snd) (entries (ae_NumericLabels e)))
       = set (filter (nlv_Global \<circ> snd) (entries (ae_NumericLabels e')))"
  shows "marshalEventGlobalLabels e = marshalEventGlobalLabels e'"
proof -
  have s: "set (event_labels e) = set (event_labels e')" "set (event_numeric_labels e) = set (event_numeric_labels e')"
    using assms(3,4) by (simp_all add: event_labels_def event_numeric_labels_def)
  have "event_labels_msg e = event_labels_msg e'"
    using s distinct_event_labels [OF assms(1)] distinct_event_labels [OF assms(2)]
    by (simp add: event_labels_msg_def label_keys sort_key_perm)
  moreover have "event_labels e = [] \<longleftrightarrow> event_labels e' = []" "event_numeric_labels e = [] \<longleftrightarrow> event_numeric_labels e' = []"
    using s by (metis set_empty)+
  ultimately show ?thesis by (simp add: marshalEventGlobalLabels_eq)
qed

theorem event_labels_canonical_witness:
  "marshalEventGlobalLabels (labelled [label_a, label_b]) = marshalEventGlobalLabels (labelled [label_b, label_a])"
  by (rule event_labels_canonical [OF labelled_ok])
    (simp_all add: labelled_def label_a_def label_b_def zero_APMEvent_def entries_def insert_commute)

section \<open>Keys and their messages\<close>

text \<open>
  The aggregation keys of the model survive the conversion to their messages and back, a service key
  as long as its timestamp fits into 64 bits of nanoseconds; a service key read from a message always does.
\<close>

lemma keys_proto_roundtrip:
  assumes "- (2 ^ 63) \<le> sk_Timestamp sk" and "sk_Timestamp sk < 2 ^ 63"
  shows "serviceAggregationKey_FromProto (serviceAggregationKey_ToProto sk) = sk
    \<and> serviceAggregationKey_ToProto (serviceAggregationKey_FromProto pb) = pb
    \<and> serviceInstanceAggregationKey_FromProto (serviceInstanceAggregationKey_ToProto sik) = sik
    \<and> transactionAggregationKey_FromProto (transactionAggregationKey_ToProto tk) = tk
    \<and> serviceTransactionAggregationKey_FromProto (serviceTransactionAggregationKey_ToProto stk) = stk
    \<and> spanAggregationKey_FromProto (spanAggregationKey_ToProto spk) = spk"
  using assms skp.from_to [of sk] sikp.from_to [of sik] tkp.from_to [of tk] stkp.from_to [of stk] spkp.from_to [of spk]
  by (simp add: sk_ok_def)

text \<open>
  A histogram that is converted to a message and read back keeps its parameters and the count of
  every bucket, whatever the message held before.
\<close>

lemma histogram_proto_roundtrip:
  assumes "hc_ok (CountsRep h)"
  shows "\<exists>h'. histogramFromProto h0 (Some (setHistogramProto h pb)) = Some h'
    \<and> (\<forall>b. hc_count (CountsRep h') b = hc_count (CountsRep h) b) \<and> hc_ok (CountsRep h')
    \<and> LowestTrackableValue h' = LowestTrackableValue h \<and> HighestTrackableValue h' = HighestTrackableValue h
    \<and> SignificantFigures h' = SignificantFigures h"
proof -
  let ?c = "hybrid.add_all (hc_Reset (CountsRep h0)) (hc_bars (CountsRep h))"
  have "hc_count ?c b = hc_count (CountsRep h) b" for b
    by (simp add: hybrid.count_add_all) (simp add: hc_count_def)
  moreover have "hc_ok ?c" by (simp add: hybrid.invar_add_all)
  ultimately show ?thesis
    by (simp add: histogramFromProto_def setHistogramProto_eq add_wire_bars_maps)
qed

section \<open>Digests\<close>

text \<open>
  The digest of a span key depends only on its five fields written one after the other, with nothing
  between them: keys with the same concatenation have the same digest, and with it the same partition and
  the same entry in the cardinality estimate, though they are different keys.
\<close>

lemma span_digest_concatenation:
  assumes "streaming X"
    and "pbspk_SpanName k @ pbspk_Outcome k @ pbspk_TargetType k @ pbspk_TargetName k @ pbspk_Resource k
       = pbspk_SpanName k' @ pbspk_Outcome k' @ pbspk_TargetType k' @ pbspk_TargetName k' @ pbspk_Resource k'"
  shows "HashSpanAggregationKey X h k = HashSpanAggregationKey X h k'"
  using assms by (simp add: HashSpan_stream span_stream_def)

lemma span_digest_example:
  "HashSpanAggregationKey log_xxhash [] \<lparr>pbspk_SpanName = ''ab'', pbspk_Outcome = '''', pbspk_TargetType = '''',
       pbspk_TargetName = '''', pbspk_Resource = ''''\<rparr>
   = HashSpanAggregationKey log_xxhash [] \<lparr>pbspk_SpanName = ''a'', pbspk_Outcome = '''', pbspk_TargetType = ''b'',
       pbspk_TargetName = '''', pbspk_Resource = ''''\<rparr>"
  by (rule span_digest_concatenation [OF streaming_log]) simp

end
