(* ===== verification/ConvProps.thy ===== *)
theory ConvProps
  imports Samples
begin

text \<open>
  The properties of the conversions, from events to messages and from messages to metric events, and of
  the configuration and the counters of cached events.
\<close>

section \<open>From events to messages\<close>

text \<open>
  C15. Converting an event goes through pooled builders that are reused without being cleared as a whole. It
  refines the partition-wise specification: the callback is called with exactly the messages that are
  computed from the event alone, in the same order, whatever the reused builders held before.
\<close>

theorem event_conversion_refines:
  assumes "pool_ok pool" and "partitions \<noteq> 0"
  shows "EventToCombinedMetrics X etype pool e key partitions callback s
    = run_callbacks callback (part_messages X etype e key partitions) s"
  by (simp add: EventToCombinedMetrics_def event_messages_parts [OF assms])

definition used_builder :: eventMetricsBuilder where
  "used_builder = zero_eventMetricsBuilder\<lparr>mb_partition := 9, mb_transactionMetrics_Histogram := True,
     mb_transactionHistogram := sample_hist, mb_keyedTransactionMetricsSlice := 1, mb_SuccessCount := Fin 8,
     mb_keyedSpanMetricsSlice := 128\<rparr>"

theorem event_conversion_refines_witness:
  "EventToCombinedMetrics log_xxhash sample_etype (\<lambda>_. Some used_builder) sample_event (base_key [] 0 Minute) 1
     (\<lambda>k m s. Some (s @ [m], None :: unit option)) [] = Some ([part_message sample_event Minute 1 sample_part], [])"
proof -
  have "pool_ok (\<lambda>_. Some used_builder)"
    by (simp add: pool_ok_def used_builder_def zero_eventMetricsBuilder_def)
  moreover have "part_messages log_xxhash sample_etype sample_event (base_key [] 0 Minute) 1
      = [((base_key [] 0 Minute)\<lparr>cmk_PartitionID := q_pid sample_part\<rparr>, part_message sample_event Minute 1 sample_part)]"
    by (simp add: part_messages_def Let_def sample_parts base_key_def)
  ultimately show ?thesis
    using event_conversion_refines [where X = log_xxhash and etype = sample_etype and pool = "\<lambda>_. Some used_builder"
      and e = sample_event and key = "base_key [] 0 Minute" and partitions = 1
      and callback = "\<lambda>k m s. Some (s @ [m], None :: unit option)" and s = "[]"] by simp
qed






text \<open>
  C17. The messages of an event whose representative count is a float64 are well formed: the merger accepts
  them and the codec represents them. Together they carry the rounded, scaled representative count of a
  transaction in the one bucket of its duration, once as a transaction and once as a service transaction,
  and nothing for other events.
\<close>

theorem event_messages_well_formed:
  assumes "event_ok e" and "pool_ok pool" and "n \<noteq> 0"
  shows "\<exists>kms. event_messages X etype pool e key n = Some kms \<and> list_all (msg_ok \<circ> snd) kms
    \<and> (\<forall>b. sum_list (map (cm_msg_weight H (txn_metric b) \<circ> snd) kms) = event_weight etype b e)
    \<and> (\<forall>b. sum_list (map (cm_msg_weight H (svctxn_metric b) \<circ> snd) kms) = event_weight etype b e)"
  using event_messages_parts [OF assms(2,3), of X etype e key] part_messages_ok [OF assms(1)] part_messages_weight by blast

theorem event_messages_well_formed_witness:
  "\<exists>kms. event_messages log_xxhash sample_etype (\<lambda>_. None) sample_event (base_key [] 0 Minute) 2 = Some kms
     \<and> sum_list (map (cm_msg_weight log_hll (svctxn_metric 1288) \<circ> snd) kms) = 2000"
proof -
  have "pool_ok (\<lambda>_. None)" by (simp add: pool_ok_def)
  from event_messages_well_formed [OF sample_event_ok this, of 2 log_xxhash sample_etype "base_key [] 0 Minute" log_hll] show ?thesis
    using sample_weight by auto
qed

section \<open>From messages to metric events\<close>

text \<open>
  C36. The batch of metric events has exactly the number of events that was computed beforehand for its
  capacity.
\<close>

theorem batch_size_exact:
  assumes "CombinedMetricsToBatch H (Some cm) t ivl = Some (Inr (Some b))"
  shows "batch_size cm = Some (length b)"
  using assms by (rule CombinedMetricsToBatch_size)

lemma sample_msg_complete: "msg_complete (sample_msg svc)" "pbcm_ServiceMetrics (sample_msg svc) \<noteq> []"
proof -
  have "GlobalLabels_UnmarshalBinary [] = Inr \<lparr>gls_Labels = None, gls_NumericLabels = None\<rparr>"
    by (simp add: GlobalLabels_UnmarshalBinary_def)
  with sample_msg_ok(1) [of svc] show "msg_complete (sample_msg svc)"
    by (simp add: msg_complete_def overflow_complete_def instance_complete_def sample_msg_def)
  show "pbcm_ServiceMetrics (sample_msg svc) \<noteq> []" by (simp add: sample_msg_def)
qed

theorem batch_size_exact_witness:
  "\<exists>b. CombinedMetricsToBatch log_hll (Some (sample_msg ''a'')) 0 Minute = Some (Inr (Some b)) \<and> length b = 3"
proof -
  obtain b where b: "CombinedMetricsToBatch log_hll (Some (sample_msg ''a'')) 0 Minute = Some (Inr (Some b))"
    using CombinedMetricsToBatch_total [OF sample_msg_complete] by blast
  have "batch_size (sample_msg ''a'') = Some 3"
    by (simp add: batch_size_def sample_msg_def service_size_def instance_size_def overflow_size_def)
  with batch_size_exact [OF b] b show ?thesis by simp
qed

text \<open>
  C37. A message that is complete (keys and metrics present, labels that decode, an overflow bucket for
  every estimate) and has a service is converted to a batch, without an error and without a panic. A message
  without services gives no batch.
\<close>

theorem batch_conversion_total:
  assumes "msg_complete cm"
  shows "if pbcm_ServiceMetrics cm = [] then CombinedMetricsToBatch H (Some cm) t ivl = Some (Inr None)
    else \<exists>b. CombinedMetricsToBatch H (Some cm) t ivl = Some (Inr (Some b))"
proof (cases "pbcm_ServiceMetrics cm = []")
  case True
  then show ?thesis by (simp add: CombinedMetricsToBatch_def)
qed (simp add: CombinedMetricsToBatch_total [OF assms])

theorem batch_conversion_total_witness:
  "\<exists>b. CombinedMetricsToBatch log_hll (Some (sample_msg ''a'')) 0 Minute = Some (Inr (Some b))"
  using batch_conversion_total [OF sample_msg_complete(1), of "''a''" log_hll 0 Minute] sample_msg_complete(2) by simp

lemma txn_event_root:
  "txnMetricsToAPMEvent (Some key) m e s = Some e' \<Longrightarrow> getf tx_Root False (ae_Transaction e') = pbtk_TraceRoot key"
  by (auto simp: txnMetricsToAPMEvent_def Let_def upd_def split: bind_splits)

text \<open>
  C38. Nothing of the keys is lost in a metric event. Reading the key of a service transaction or span group
  off its metric event, the way it is read off an ordinary event, gives the key back; so does reading the
  key of a transaction group, with the trace root taken from \<^verbatim>\<open>Transaction.Root\<close>, where the conversion puts it.
  (An ordinary event has its trace root from the missing parent ID, which for every metric event reads as
  true.) The event carries the service, environment, language, agent and timestamp of its service key.
\<close>

theorem metric_event_keys:
  assumes "pbtk_FaasColdstart tk \<in> {NB_Nil, NB_False, NB_True}"
  shows "(\<forall>e. txnMetricsToAPMEvent (Some tk) tm (base_event sk gl) s = Some e \<longrightarrow>
        (setTransactionKey e)\<lparr>pbtk_TraceRoot := getf tx_Root False (ae_Transaction e)\<rparr> = tk
        \<and> pbtk_TraceRoot (setTransactionKey e) \<and> has_service_key sk e)
    \<and> (\<forall>e. svcTxnMetricsToAPMEvent (Some stk) stm (base_event sk gl) s = Some e \<longrightarrow>
        setServiceTransactionKey e = stk \<and> has_service_key sk e)
    \<and> (\<forall>e. spanMetricsToAPMEvent (Some spk) spm (base_event sk gl) s = Some e \<longrightarrow>
        setSpanKey e = spk \<and> has_service_key sk e)"
proof (intro conjI allI impI)
  fix e assume e: "txnMetricsToAPMEvent (Some tk) tm (base_event sk gl) s = Some e"
  from txn_event_key [OF e assms] txn_event_root [OF e]
  show "(setTransactionKey e)\<lparr>pbtk_TraceRoot := getf tx_Root False (ae_Transaction e)\<rparr> = tk"
    "pbtk_TraceRoot (setTransactionKey e)" by simp_all
qed (auto dest: svctxn_event_key span_event_key metric_events_service(1-3))

text \<open>A transaction that is not a trace root, in a container, of a function after a cold start.\<close>

definition sample_txn :: KeyedTransactionMetrics where
  "sample_txn = \<lparr>ktm_Key = Some ((setTransactionKey sample_event)\<lparr>pbtk_TraceRoot := False, pbtk_ContainerId := ''c1'',
     pbtk_FaasId := ''f1'', pbtk_FaasColdstart := NB_True\<rparr>), ktm_Metrics = Some \<lparr>tm_Histogram = Some sample_hist\<rparr>\<rparr>"

theorem metric_event_keys_witness:
  "\<exists>e. txnMetricsToAPMEvent (ktm_Key sample_txn) (ktm_Metrics sample_txn)
        (base_event (event_service_key sample_event Minute) \<lparr>gls_Labels = None, gls_NumericLabels = None\<rparr>) ''1m'' = Some e
     \<and> getf tx_Root False (ae_Transaction e) = False \<and> pbtk_TraceRoot (setTransactionKey e) = True
     \<and> pbtk_ContainerId (setTransactionKey e) = ''c1'' \<and> pbtk_FaasId (setTransactionKey e) = ''f1''
     \<and> pbtk_TransactionName (setTransactionKey e) = ''GET /''"
proof -
  let ?sk = "event_service_key sample_event Minute" and ?gl = "\<lparr>gls_Labels = None, gls_NumericLabels = None\<rparr>"
  obtain tk where tk: "ktm_Key sample_txn = Some tk" "pbtk_FaasColdstart tk \<in> {NB_Nil, NB_False, NB_True}"
    "pbtk_TraceRoot tk = False" "pbtk_ContainerId tk = ''c1''" "pbtk_FaasId tk = ''f1''" "pbtk_TransactionName tk = ''GET /''"
    by (simp add: sample_txn_def setTransactionKey_def sample_fields)
  have "ktm_ok sample_txn" by (simp add: sample_txn_def ktm_ok_def hist_ok_def)
  from txn_event_total [OF this, of "base_event ?sk ?gl" "''1m''"] tk(1) obtain e where
    e: "txnMetricsToAPMEvent (Some tk) (ktm_Metrics sample_txn) (base_event ?sk ?gl) ''1m'' = Some e" by auto
  from metric_event_keys [OF tk(2), where sk = ?sk and gl = ?gl and s = "''1m''" and tm = "ktm_Metrics sample_txn"] e
  have "(setTransactionKey e)\<lparr>pbtk_TraceRoot := getf tx_Root False (ae_Transaction e)\<rparr> = tk"
    "pbtk_TraceRoot (setTransactionKey e)" by blast+
  with tk e show ?thesis by (intro exI [of _ e]) auto
qed

section \<open>Configuration\<close>

lemma default_valid: "validateCfg (defaultCfg G) = Some (Inr ())"
  unfolding validateCfg_ok_iff by (simp add: defaultCfg_def duration_units)

text \<open>
  C30. The validation accepts exactly the configurations with a data directory, a processor, at least one
  partition, and ascending intervals between one second and 18 hours that are multiples of the lowest. It
  panics, dividing by zero, exactly when everything before that check passes and the lowest of at least two
  intervals is zero. The default configuration is accepted.
\<close>

theorem config_validation_exact:
  "(validateCfg cfg = Some (Inr ()) \<longleftrightarrow>
      cfg_DataDir cfg \<noteq> '''' \<and> cfg_Processor cfg \<noteq> None \<and> cfg_Partitions cfg \<noteq> 0
      \<and> cfg_AggregationIntervals cfg \<noteq> [] \<and> sorted (cfg_AggregationIntervals cfg)
      \<and> (\<forall>ivl \<in> set (cfg_AggregationIntervals cfg). hd (cfg_AggregationIntervals cfg) dvd ivl
           \<and> Second \<le> ivl \<and> ivl \<le> 18 * Hour))
   \<and> (validateCfg cfg = None \<longleftrightarrow>
      cfg_DataDir cfg \<noteq> '''' \<and> cfg_Processor cfg \<noteq> None \<and> cfg_Partitions cfg \<noteq> 0
      \<and> (\<exists>ivl ivls. cfg_AggregationIntervals cfg = 0 # ivl # ivls \<and> sorted (0 # ivl # ivls)))
   \<and> NewConfig G [] = Some (defaultCfg G, Inr ())"
proof (intro conjI)
  show "validateCfg cfg = None \<longleftrightarrow>
      cfg_DataDir cfg \<noteq> '''' \<and> cfg_Processor cfg \<noteq> None \<and> cfg_Partitions cfg \<noteq> 0
      \<and> (\<exists>ivl ivls. cfg_AggregationIntervals cfg = 0 # ivl # ivls \<and> sorted (0 # ivl # ivls))"
  proof (cases "cfg_AggregationIntervals cfg")
    case (Cons low ivls)
    show ?thesis
    proof (cases "low = 0")
      case True
      then show ?thesis
        by (cases ivls) (auto simp: validateCfg_def Cons Let_def SliceIsSorted_sorted)
    next
      case False
      then show ?thesis
        by (auto simp: validateCfg_def Cons Let_def SliceIsSorted_sorted check_multiples_ok split: if_splits)
    qed
  qed (auto simp: validateCfg_def)
  show "NewConfig G [] = Some (defaultCfg G, Inr ())"
    by (simp add: NewConfig_def Let_def default_valid)
qed (rule validateCfg_ok_iff)

theorem config_validation_exact_witness:
  "validateCfg (sample_cfg\<lparr>cfg_AggregationIntervals := [0, Minute]\<rparr>) = None
   \<and> validateCfg (sample_cfg\<lparr>cfg_AggregationIntervals := [Minute, 10 * Minute]\<rparr>) = Some (Inr ())"
proof -
  let ?bad = "sample_cfg\<lparr>cfg_AggregationIntervals := [0, Minute]\<rparr>"
  let ?good = "sample_cfg\<lparr>cfg_AggregationIntervals := [Minute, 10 * Minute]\<rparr>"
  have "cfg_DataDir ?bad \<noteq> ''''" "cfg_Processor ?bad \<noteq> None" "cfg_Partitions ?bad \<noteq> 0"
    "sorted (0 # Minute # [])" "cfg_AggregationIntervals ?bad = [0, Minute]"
    "cfg_DataDir ?good \<noteq> ''''" "cfg_Processor ?good \<noteq> None" "cfg_Partitions ?good \<noteq> 0"
    "sorted [Minute, 10 * Minute]" "cfg_AggregationIntervals ?good = [Minute, 10 * Minute]"
    "\<forall>ivl \<in> {Minute, 10 * Minute}. Minute dvd ivl \<and> Second \<le> ivl \<and> ivl \<le> 18 * Hour"
    by (simp_all add: sample_cfg_def defaultCfg_def duration_units)
  then show ?thesis
    using config_validation_exact [of ?bad sample_globals] config_validation_exact [of ?good sample_globals] by auto
qed

section \<open>Cached events\<close>

text \<open>
  C31. Counting events: after adding a whole number of events for an interval and an ID to a counter that
  stands for a whole number, loading at a time at which the interval is due returns the exact sum, and the
  counter is gone; counters of intervals that are not due stay as they are.
\<close>

theorem cached_events_exact:
  assumes "gm_ok m" and "ce_count m ivl i = of_nat (k * MaxUint16)" and "k + n < 2 ^ 37"
    and "Truncate stop ivl = stop"
    and "ce_loadAndDelete (ce_add m ivl i (Fin (of_nat n))) stop = (m', loaded)"
  shows "(\<exists>im. gm_get loaded ivl = Some im \<and> gm_get im i = Some (Fin (of_nat (k + n))))
    \<and> ce_count m' ivl i = 0
    \<and> (\<forall>ivl' i'. Truncate stop ivl' \<noteq> stop \<longrightarrow> ce_count m' ivl' i' = ce_count m ivl' i')"
proof -
  let ?m = "ce_add m ivl i (Fin (of_nat n))" let ?k = "\<lparr>ck_interval = ivl, ck_id = i\<rparr>"
  have ok: "gm_ok ?m" using assms(1) by simp
  have "ce_count ?m ivl i = of_nat (k * MaxUint16) + of_nat (n * MaxUint16)"
    using assms(3) by (simp add: ce_count_add assms(2) scaled_of_nat)
  then have "ce_count ?m ivl i = of_nat ((k + n) * MaxUint16)" by (simp add: algebra_simps)
  moreover have "gm_get ?m ?k \<noteq> None" by (auto simp: ce_add_def Let_def gomap_simps split: option.splits)
  ultimately have v: "gm_get ?m ?k = Some (of_nat ((k + n) * MaxUint16))" by (auto simp: ce_count_def)
  note f = fold_ce_load [OF ok ok, of stop "[]" m' loaded, folded ce_loadAndDelete_def, OF assms(5)]
  have "(case gm_get loaded ivl of None \<Rightarrow> None | Some im \<Rightarrow> gm_get im i) = Some (Fin (of_nat (k + n)))"
    using f assms(4) v unscaled_of_nat [OF assms(3)] by simp
  moreover have "gm_get m' ?k = None" using f assms(4) map_of_SomeD [OF v] by force
  then have "ce_count m' ivl i = 0" by (simp add: ce_count_def)
  moreover have "ce_count m' ivl' i' = ce_count m ivl' i'" if "Truncate stop ivl' \<noteq> stop" for ivl' i'
  proof -
    have "ce_count m' ivl' i' = ce_count ?m ivl' i'" using f that by (simp add: ce_count_def)
    moreover have "ivl' \<noteq> ivl" using that assms(4) by blast
    ultimately show ?thesis by (simp add: ce_count_add)
  qed
  ultimately show ?thesis by (simp split: option.splits)
qed

theorem cached_events_exact_witness:
  "\<exists>m' loaded im. ce_loadAndDelete (ce_add [] Minute [] (Fin 5)) (Truncate sample_now Minute) = (m', loaded)
     \<and> gm_get loaded Minute = Some im \<and> gm_get im [] = Some (Fin 5)"
proof -
  obtain m' loaded where l: "ce_loadAndDelete (ce_add [] Minute [] (Fin (of_nat 5))) (Truncate sample_now Minute) = (m', loaded)"
    by (rule prod.exhaust)
  have "ce_count [] Minute [] = of_nat (0 * MaxUint16)" by (simp add: ce_count_def)
  from cached_events_exact [OF _ this, of 5 "Truncate sample_now Minute", OF _ _ _ l] l show ?thesis by auto
qed

end
