(* ===== verification/AfterClose.thy ===== *)
theory AfterClose
  imports Aggregator
begin

text \<open>
  What is left of the aggregator of \<^verbatim>\<open>aggregators/aggregator.go\<close> once \<^verbatim>\<open>Close\<close> has returned: the calls and
  the steps of the run loop that may still follow, in any order and over a storage that may fail, and
  what they cannot change any more.
\<close>

section \<open>Calls and steps\<close>

text \<open>
  Every call that returns, with any result, and every step of \<^verbatim>\<open>Run\<close>: it registers, takes the batch,
  commits a batch, harvests an interval from a snapshot, and stops. A \<^verbatim>\<open>Close\<close> that still waits has
  signalled. A step that panics does not return.
\<close>

inductive api_step ::
  "('db, 'b, 'e) pebble \<Rightarrow> ('pe, 'kv, 'h) agg_config \<Rightarrow> 'd xxhash_ops \<Rightarrow> (APMEvent \<Rightarrow> APMEventType)
   \<Rightarrow> ('db, 'b) Aggregator \<Rightarrow> ('db, 'b) Aggregator \<Rightarrow> bool"
  for P :: "('db, 'b, 'e) pebble" and cfg :: "('pe, 'kv, 'h) agg_config" and X :: "'d xxhash_ops"
    and etype :: "APMEvent \<Rightarrow> APMEventType" where
  batch: "AggregateBatch P cfg X etype pool ctx_done pick i es a = Some (errs, a') \<Longrightarrow> api_step P cfg X etype a a'"
| metrics: "AggregateCombinedMetrics P ctx_done pick cmk cm a = Some (err :: ('e, 'pe) agg_error option, a') \<Longrightarrow>
    api_step P cfg X etype a a'"
| run_begins: "(run_start a :: ('e, 'pe) agg_error + ('db, 'b) Aggregator) = Inr a' \<Longrightarrow> api_step P cfg X etype a a'"
| run_takes: "run_take to a = (b, stats, a') \<Longrightarrow> api_step P cfg X etype a a'"
| run_commits: "commit_taken P b a = Some (errs :: ('e, 'pe) agg_error list, a') \<Longrightarrow> api_step P cfg X etype a a'"
| run_harvests: "harvest_step P processor snap stop stats ivl a = Some (errs :: ('e, 'pe) agg_error list, a') \<Longrightarrow>
    api_step P cfg X etype a a'"
| run_stops: "api_step P cfg X etype a (a\<lparr>ag_runStopped := ClosedChan\<rparr>)"
| close_signals: "api_step P cfg X etype a (a\<lparr>ag_closed := True\<rparr>)"
| close: "Close P cfg ctx_done pick cleanup a = Some (errs :: ('e, 'pe) agg_error list, a') \<Longrightarrow> api_step P cfg X etype a a'"

inductive calls ::
  "('db, 'b, 'e) pebble \<Rightarrow> ('pe, 'kv, 'h) agg_config \<Rightarrow> 'd xxhash_ops \<Rightarrow> (APMEvent \<Rightarrow> APMEventType)
   \<Rightarrow> ('db, 'b) Aggregator \<Rightarrow> ('db, 'b) Aggregator \<Rightarrow> bool"
  for P :: "('db, 'b, 'e) pebble" and cfg :: "('pe, 'kv, 'h) agg_config" and X :: "'d xxhash_ops"
    and etype :: "APMEvent \<Rightarrow> APMEventType" where
  none: "calls P cfg X etype a a"
| more: "calls P cfg X etype a a1 \<Longrightarrow> api_step P cfg X etype a1 a2 \<Longrightarrow> calls P cfg X etype a a2"

section \<open>What a harvest leaves alone\<close>

text \<open>Harvesting leaves the channels and the open batch alone, whatever the storage does.\<close>

definition same_channels :: "('db, 'b) Aggregator \<Rightarrow> ('db, 'b) Aggregator \<Rightarrow> bool" where
  "same_channels a a' \<longleftrightarrow> ag_closed a' = ag_closed a \<and> ag_runStopped a' = ag_runStopped a \<and> ag_batch a' = ag_batch a"

lemma same_channels_trans: "same_channels a b \<Longrightarrow> same_channels b c \<Longrightarrow> same_channels a c"
  by (simp add: same_channels_def)

lemma processHarvest_channels: "processHarvest processor cmk v ivl a = (r, a') \<Longrightarrow> same_channels a a'"
  by (auto simp: processHarvest_def same_channels_def Let_def split: sum.splits option.splits)

lemma harvest_entries_channels: "harvest_entries processor ivl kvs a = Some (c, errs, a') \<Longrightarrow> same_channels a a'"
proof (induction kvs arbitrary: a c errs)
  case (Cons kv kvs)
  obtain k v where kv: "kv = (k, v)" by (rule prod.exhaust)
  show ?case
    using Cons.prems processHarvest_channels
    by (auto simp: kv split: bind_splits sum.splits prod.splits dest!: Cons.IH elim!: same_channels_trans)
     (fastforce simp: same_channels_def)+
qed (simp add: same_channels_def)

lemma harvestForInterval_channels:
  "harvestForInterval P processor snap start stop ivl stats a = Some (c, errs, a') \<Longrightarrow> same_channels a a'"
  by (auto simp: harvestForInterval_def Let_def same_channels_def split: bind_splits prod.splits dest!: harvest_entries_channels)

lemma harvest_loop_channels: "harvest_loop P processor snap stop stats ivls a = Some (errs, a') \<Longrightarrow> same_channels a a'"
proof (induction ivls arbitrary: a errs)
  case (Cons ivl ivls)
  have "same_channels a a1" if "harvest_step P processor snap stop stats ivl a = Some (errs1, a1)" for errs1 a1
    using that by (auto simp: harvest_step_def same_channels_def split: if_splits bind_splits dest!: harvestForInterval_channels)
  then show ?case using Cons.prems by (auto split: bind_splits dest!: Cons.IH intro: same_channels_trans)
qed (simp add: same_channels_def)

lemma final_harvests_channels:
  fixes P :: "('db, 'b, 'e) pebble" and cfg :: "('pe, 'kv, 'h) agg_config"
  shows "final_harvests P cfg ivls a = Some (errs, a') \<Longrightarrow> same_channels a a'"
proof (induction ivls arbitrary: a errs)
  case (Cons ivl ivls)
  have "same_channels a a1" if "harvest P cfg to stats (a\<lparr>ag_cachedEvents := ce\<rparr>) = Some (errs1 :: ('e, 'pe) agg_error list, a1)"
    for to stats ce errs1 a1
    using that by (auto simp: harvest_def same_channels_def split: bind_splits dest!: harvest_loop_channels)
  then show ?case
    using Cons.prems by (auto simp: Let_def split: bind_splits prod.splits dest!: Cons.IH) (blast intro: same_channels_trans)
qed (simp add: same_channels_def)

section \<open>What a close leaves\<close>

text \<open>The final aggregation keeps the channels, and the open batch unless it was committed.\<close>

definition batch_gone :: "('db, 'b) Aggregator \<Rightarrow> ('db, 'b) Aggregator \<Rightarrow> bool" where
  "batch_gone a a' \<longleftrightarrow> ag_batch a' = None \<or> ag_batch a' = ag_batch a"

lemma batch_gone_trans: "batch_gone a b \<Longrightarrow> batch_gone b c \<Longrightarrow> batch_gone a c"
  by (auto simp: batch_gone_def)

lemma commit_batch_channels:
  "commit_batch P db b a = (err, a') \<Longrightarrow>
     ag_closed a' = ag_closed a \<and> ag_runStopped a' = ag_runStopped a \<and> batch_gone a a'"
  by (auto simp: commit_batch_def Let_def batch_gone_def split: prod.splits option.splits)

lemma final_aggregation_channels:
  fixes P :: "('db, 'b, 'e) pebble" and cfg :: "('pe, 'kv, 'h) agg_config"
  assumes "final_aggregation P cfg db a = Some (errs, a')"
  shows "ag_closed a' = ag_closed a \<and> ag_runStopped a' = ag_runStopped a \<and> batch_gone a a' \<and> (errs = [] \<longrightarrow> ag_db a' = None)"
proof -
  obtain err a1 where c: "(case ag_batch a of None \<Rightarrow> (None, a) | Some b \<Rightarrow> commit_batch P db b a)
      = (err :: ('e, 'pe) agg_error option, a1)" by (rule prod.exhaust)
  then have a1: "ag_closed a1 = ag_closed a \<and> ag_runStopped a1 = ag_runStopped a \<and> batch_gone a a1"
    by (cases "ag_batch a") (auto simp: batch_gone_def dest!: commit_batch_channels)
  show ?thesis
  proof (cases err)
    case None
    then obtain errs1 a2 where f: "final_harvests P cfg (cfg_AggregationIntervals cfg) a1 = Some (errs1, a2)"
      using assms c by (auto simp: final_aggregation_def split: bind_splits)
    from final_harvests_channels [OF f] a1
    have "ag_closed a2 = ag_closed a \<and> ag_runStopped a2 = ag_runStopped a \<and> batch_gone a a2"
      by (simp add: same_channels_def batch_gone_def)
    then show ?thesis using assms c None f
      by (auto simp: final_aggregation_def batch_gone_def split: bind_splits if_splits option.splits)
  qed (use assms c a1 in \<open>auto simp: final_aggregation_def\<close>)
qed

lemma Close_closed:
  assumes "Close P cfg ctx_done pick cleanup a = Some (errs, a')"
  shows "ag_closed a'" and "batch_gone a a'"
  using assms by (auto simp: Close_def Let_def batch_gone_def split: if_splits bind_splits option.splits
      dest!: final_aggregation_channels)

lemma Close_success:
  assumes "Close P cfg ctx_done pick cleanup a = Some ([], a')"
  shows "ag_db a' = None \<and> ag_runStopped a' \<noteq> OpenChan"
  using assms by (auto simp: Close_def Let_def split: if_splits bind_splits option.splits dest!: final_aggregation_channels)

lemma Close_again:
  "ag_db a = None \<Longrightarrow> Close P cfg ctx_done pick cleanup a = Some (errs, a') \<Longrightarrow>
     ag_db a' = None \<and> ag_processed a' = ag_processed a"
  by (auto simp: Close_def Let_def split: if_splits bind_splits)

section \<open>After a close\<close>

lemma closed_unchanged:
  assumes "ag_closed a"
  shows "AggregateBatch P cfg X etype pool ctx_done pick i es a = Some (errs, a') \<Longrightarrow> a' = a"
    and "AggregateCombinedMetrics P ctx_done pick cmk cm a = Some (err, a') \<Longrightarrow> a' = a"
  using assms by (auto simp: AggregateBatch_def AggregateCombinedMetrics_def guard_def split: if_splits)

text \<open>A step of a closed aggregator keeps it closed, and the batch can only go.\<close>

lemma api_step_closed:
  assumes "api_step P cfg X etype a a'" and "ag_closed a"
  shows "ag_closed a' \<and> batch_gone a a'"
  using assms
proof cases
  case (close ctx_done pick cleanup errs)
  then show ?thesis using Close_closed by blast
next
  case (run_harvests processor snap stop stats ivl errs)
  from this have "same_channels a a'"
    by (auto simp: harvest_step_def same_channels_def split: if_splits bind_splits dest!: harvestForInterval_channels)
  with assms(2) show ?thesis by (simp add: same_channels_def batch_gone_def)
qed (use assms(2) in \<open>auto simp: batch_gone_def closed_unchanged run_start_def run_take_def commit_taken_def Let_def
       split: if_splits prod.splits option.splits bind_splits dest: closed_unchanged\<close>)

lemma calls_closed: "calls P cfg X etype a1 a2 \<Longrightarrow> ag_closed a1 \<Longrightarrow> ag_closed a2 \<and> batch_gone a1 a2"
proof (induction rule: calls.induct)
  case (more a a1 a2)
  then show ?case using api_step_closed batch_gone_trans by blast
qed (simp add: batch_gone_def)

text \<open>Without a database no harvest and no commit returns, so nothing is handed to the processor any more.\<close>

lemma processHarvest_db: "processHarvest processor cmk v ivl a = (r, a') \<Longrightarrow> ag_db a' = ag_db a"
  by (auto simp: processHarvest_def Let_def split: sum.splits option.splits)

lemma harvest_entries_db: "harvest_entries processor ivl kvs a = Some (c, errs, a') \<Longrightarrow> ag_db a' = ag_db a"
proof (induction kvs arbitrary: a c errs)
  case (Cons kv kvs)
  obtain k v where kv: "kv = (k, v)" by (rule prod.exhaust)
  show ?case
    using Cons.prems
    by (auto simp: kv split: bind_splits sum.splits prod.splits dest!: Cons.IH processHarvest_db)
qed simp

lemma harvest_step_no_db:
  "ag_db a = None \<Longrightarrow> harvest_step P processor snap stop stats ivl a = Some (errs, a') \<Longrightarrow> a' = a"
  by (auto simp: harvest_step_def harvestForInterval_def Let_def split: if_splits bind_splits prod.splits
      dest!: harvest_entries_db)

lemma api_step_no_db:
  assumes "api_step P cfg X etype a a'" and "ag_closed a" and "ag_db a = None"
  shows "ag_db a' = None \<and> ag_processed a' = ag_processed a"
  using assms(1)
  by cases (use assms(2,3) in \<open>auto simp: run_start_def run_take_def commit_taken_def Let_def
       split: if_splits prod.splits option.splits bind_splits
       dest: closed_unchanged harvest_step_no_db Close_again\<close>)

lemma calls_no_db:
  "calls P cfg X etype a1 a2 \<Longrightarrow> ag_closed a1 \<Longrightarrow> ag_db a1 = None \<Longrightarrow> ag_db a2 = None \<and> ag_processed a2 = ag_processed a1"
proof (induction rule: calls.induct)
  case (more a a1 a2)
  then show ?case using api_step_no_db calls_closed by metis
qed simp

end
