(* ===== verification/AggProps.thy ===== *)
theory AggProps
  imports Samples AfterClose
begin

text \<open>
  The properties of the aggregator: what a batch does to the storage, what a harvest does, what
  callers see of a closed aggregator, and how \<^verbatim>\<open>Run\<close> and \<^verbatim>\<open>Close\<close> synchronise.
\<close>

section \<open>Aggregating a batch\<close>



text \<open>
  C11. A batch that is aggregated without an error adds exactly the messages of its events to the
  storage, interval by interval and event by event and under the keys of the current processing time:
  what the database and the open batch hold together grows by these messages, in this order, and
  nothing that was in the database is lost.
\<close>

theorem aggregate_batch_appends:
  fixes P :: "('db, 'b, 'e) pebble" and cfg :: "('pe, 'kv, 'h) agg_config"
  assumes "pebble_laws E l P bops dops" and "agg_holds bops dops a pd pb" and "schedule_ok cfg"
    and "time_ok cfg (ag_processingTime a)" and "length i = 16" and "\<forall>ivl j. pool_ok (pool ivl j)"
    and "AggregateBatch P cfg X etype pool ctx_done pick i es a = Some ([], a')"
  shows "\<exists>zs pb'. agg_holds bops dops a' (pd @ zs) pb'
    \<and> zs @ pb' = pb @ List.concat (map (\<lambda>ivl. List.concat (map (\<lambda>e. part_messages X etype e
           \<lparr>cmk_Interval = ivl, cmk_ProcessingTime = Truncate (ag_processingTime a) ivl, cmk_PartitionID = 0, cmk_ID = i\<rparr>
           (cfg_Partitions cfg)) es)) (cfg_AggregationIntervals cfg))"
proof -
  have "\<forall>ivl \<in> set (cfg_AggregationIntervals cfg). key_ok (base_key i (ag_processingTime a) ivl)"
    using base_key_ok [OF assms(3,4) _ assms(5)] by blast
  moreover have "pool_ok (pool ivl j)" for ivl j using assms(6) by blast
  ultimately show ?thesis
    using AggregateBatch_holds [OF assms(1,2) _ _ schedule_okD(3) [OF assms(3)] assms(7)]
    by (auto simp: appended_def batch_messages_def interval_messages_def [abs_def] base_key_def)
qed

lemma sample_batch:
  "\<exists>a'. AggregateBatch sample_pebble sample_cfg log_xxhash sample_etype (\<lambda>_ _ _. None) False False (replicate 16 0)
      [sample_event] sample_agg = Some ([], a')"
  using AggregateBatch_total [OF sample_laws(2) sample_open(1,2) sample_schedule sample_time sample_open(3),
      where pool = "\<lambda>_ _ _. None" and X = log_xxhash and etype = sample_etype and pick = False and es = "[sample_event]"]
    sample_open(4) by blast

theorem aggregate_batch_appends_witness:
  "\<exists>a' pd pb. agg_holds (\<lambda>b. b) mem_dops a' pd pb
     \<and> pd @ pb = [((base_key (replicate 16 0) (ag_processingTime sample_agg) Minute)\<lparr>cmk_PartitionID := 0\<rparr>,
                   part_message sample_event Minute 1 sample_part)]"
proof -
  let ?i = "replicate 16 0 :: bytes" let ?pool = "\<lambda>(_ :: duration) (_ :: nat) (_ :: nat). None :: eventMetricsBuilder option"
  obtain a' where
    a': "AggregateBatch sample_pebble sample_cfg log_xxhash sample_etype ?pool False False ?i [sample_event] sample_agg = Some ([], a')"
    using sample_batch by blast
  have "agg_holds (\<lambda>b. b) mem_dops sample_agg [] []"
    by (simp add: agg_holds_def db_holds_def batch_holds_def sample_agg_def operands_of_def)
  from aggregate_batch_appends [OF sample_laws(1) this sample_schedule sample_time sample_open(3,4) a']
  show ?thesis
    using sample_messages [of log_xxhash ?i "ag_processingTime sample_agg"]
    by (auto simp: sample_cfg_fields batch_messages_def interval_messages_def base_key_def)
qed

section \<open>Harvest\<close>

text \<open>
  C14. The harvest of an interval that is due, over an iterator that visits everything and a deletion
  that succeeds, hands the processor one message for every key that the database holds in the window
  of the interval, and no other; the messages carry the counts of all that was stored under their keys;
  every message is either counted or has an error in the result; and exactly the window leaves the
  database, whatever the processor returns.
\<close>

theorem harvest_interval_exact:
  fixes P :: "('db, 'b, 'e) pebble" and processor :: "'pe processor"
  assumes "pebble_laws E l P bops dops" and "hll_roundtrip (hll E)" and "list_all keyed_ok pd"
    and "due_ok ivl stop" and "ag_db a = Some db" and "db_holds dops db pd" and "iter_complete P db ivl stop"
    and "harvestForInterval P processor db (stop - ivl) stop ivl stats a = Some (c, errs, a')"
    and "no_storage_errors (errs :: ('e, 'pe) agg_error list)"
  shows "\<exists>db' ys. ag_db a' = Some db' \<and> db_holds dops db' (filter (\<lambda>x. \<not> window ivl (stop - ivl) stop x) pd)
    \<and> ag_processed a' = ag_processed a @ map (\<lambda>(k, x). (k, x, ivl)) ys
    \<and> distinct (map fst ys) \<and> fst ` set ys = fst ` set (filter (window ivl (stop - ivl) stop) pd)
    \<and> c + length errs = length ys
    \<and> (\<forall>b. kw (hll E) (txn_metric b) ys = kw (hll E) (txn_metric b) (filter (window ivl (stop - ivl) stop) pd))
    \<and> (\<forall>b. kw (hll E) (svctxn_metric b) ys = kw (hll E) (svctxn_metric b) (filter (window ivl (stop - ivl) stop) pd))"
proof -
  have metrics: "hist_metric (txn_metric b)" "hist_metric (svctxn_metric b)" for b by (auto simp: hist_metric_def)
  show ?thesis
    using harvestForInterval_holds [OF assms(1-6) assms(6,3) refl assms(7-9)]
    by (elim exE conjE, intro exI conjI allI) (assumption | simp add: metrics)+
qed

definition sample_harvest :: "(mem, mem) Aggregator" where
  "sample_harvest = sample_agg\<lparr>ag_db := Some [enc_op (base_key (replicate 16 0) sample_now Minute,
     part_message sample_event Minute 1 sample_part)]\<rparr>"

theorem harvest_interval_exact_witness:
  "\<exists>c errs a' y. harvestForInterval sample_pebble (\<lambda>_ _ _. Some ()) (the (ag_db sample_harvest)) (Truncate sample_now Minute)
       (Truncate sample_now Minute + Minute) Minute [] sample_harvest = Some (c, errs :: (unit, unit) agg_error list, a')
     \<and> ag_processed a' = [(base_key (replicate 16 0) sample_now Minute, y, Minute)] \<and> c + length errs = 1"
proof -
  let ?k = "base_key (replicate 16 0) sample_now Minute" let ?m = "part_message sample_event Minute 1 sample_part"
  let ?db = "[enc_op (?k, ?m)]" let ?stop = "Truncate sample_now Minute + Minute"
  have k: "key_ok ?k" "due_ok Minute ?stop" "window Minute (?stop - Minute) ?stop (?k, ?m)"
    by (simp_all add: key_ok_def due_ok_def bound_key_def base_key_def window_def sample_now_def Truncate_def zero_time_def
        duration_units key_secs_def key_unix_def)
  have m: "msg_ok ?m" by (rule part_message_ok [OF sample_part_ok])
  have db: "db_holds mem_dops ?db [(?k, ?m)]" by (simp add: db_holds_def operands_of_enc [of _ "[(?k, ?m)]", simplified])
  have it: "iter_complete sample_pebble ?db Minute ?stop"
    unfolding sample_pebble_def
    by (rule mem_iter_complete [OF db]) (use sample_message_size in \<open>simp_all add: at_key_def CombinedMetrics_size\<close>)
  have ok: "list_all keyed_ok [(?k, ?m)]" using k(1) m by (simp add: keyed_ok_def)
  have a: "ag_db sample_harvest = Some ?db" by (simp add: sample_harvest_def)
  have "open_db mem_dops sample_harvest" "db_ok mem_dops ?db" using db ok a by (auto simp: open_db_def db_ok_def)
  from harvestForInterval_total [OF sample_laws(2,1) hll_roundtrip_sample this, where processor = "\<lambda>_ _ _. Some ()"
      and start = "?stop - Minute" and stop = ?stop and ivl = Minute and stats = "[]" and 'pe = unit]
  obtain c errs a' where r: "harvestForInterval sample_pebble (\<lambda>_ _ _. Some ()) ?db (?stop - Minute) ?stop Minute [] sample_harvest
      = Some (c, errs :: (unit, unit) agg_error list, a')" "no_storage_errors errs" by (auto simp: harvests_def processor_no_storage)
  from harvest_interval_exact [OF sample_laws(1) hll_roundtrip_sample ok k(2) a db it r] obtain ys where
    ys: "ag_processed a' = map (\<lambda>(k, x). (k, x, Minute)) ys" "distinct (map fst ys)" "fst ` set ys = {?k}" "c + length errs = length ys"
    using k(3) by (auto simp: sample_harvest_def sample_agg_def)
  have "length ys = 1" using distinct_card [OF ys(2)] ys(3) by simp
  then obtain z where "ys = [z]" by (auto simp: length_Suc_conv)
  with ys(3) have "ys = [(?k, snd z)]" by (simp add: prod_eq_iff)
  with ys(1,4) have "ag_processed a' = [(?k, snd z, Minute)]" "c + length errs = 1" by simp_all
  moreover have "?stop - Minute = Truncate sample_now Minute" "the (ag_db sample_harvest) = ?db" by (simp_all add: a)
  ultimately show ?thesis using r(1) by (intro exI conjI) (simp only:)
qed

section \<open>After Close\<close>

text \<open>
  C12. \<^verbatim>\<open>Close\<close> is final, whatever it returns and whatever the storage and the other threads do afterwards:
  after any sequence of further calls and further steps of a run loop (a \<^verbatim>\<open>Run\<close> that is started late and
  another \<^verbatim>\<open>Close\<close> included) every batch and every partial aggregate is rejected, with the error of the
  context when it was cancelled and that branch is picked and with \<^verbatim>\<open>ErrAggregatorClosed\<close> otherwise, the
  open batch has not been written to, and when \<^verbatim>\<open>Close\<close> returned without an error the processor has not
  been called again.
\<close>

theorem closed_aggregator_rejects:
  fixes P :: "('db, 'b, 'e) pebble" and cfg :: "('pe, 'kv, 'h) agg_config"
  assumes "Close P cfg cd pk cleanup a = Some (errs :: ('e, 'pe) agg_error list, a1)" and "calls P cfg X etype a1 a2"
  shows "AggregateBatch P cfg X etype pool ctx_done pick i fs a2
      = Some ([if ctx_done \<and> pick then ContextDone else ErrAggregatorClosed], a2)
    \<and> AggregateCombinedMetrics P ctx_done pick cmk cm a2
      = Some (Some (if ctx_done \<and> pick then ContextDone else ErrAggregatorClosed :: ('e, 'pe) agg_error), a2)
    \<and> (ag_batch a2 = None \<or> ag_batch a2 = ag_batch a1)
    \<and> (errs = [] \<longrightarrow> ag_db a2 = None \<and> ag_processed a2 = ag_processed a1)"
proof -
  have c: "ag_closed a1" using assms(1) by (rule Close_closed)
  from calls_closed [OF assms(2) c] have a2: "ag_closed a2" "ag_batch a2 = None \<or> ag_batch a2 = ag_batch a1"
    by (simp_all add: batch_gone_def)
  have "ag_db a2 = None \<and> ag_processed a2 = ag_processed a1" if "errs = []"
    using calls_no_db [OF assms(2) c] Close_success [of P cfg cd pk cleanup a a1] assms(1) that by simp
  with a2 show ?thesis by (simp add: AggregateBatch_def AggregateCombinedMetrics_def guard_def)
qed

lemma sample_closes: "\<exists>a'. Close sample_pebble sample_cfg False False None sample_agg = Some ([], a') \<and> ag_runStopped a' = NilChan"
proof -
  have "fst (pb_Iter sample_pebble [] lb ub) = []" for lb ub
    by (simp add: sample_pebble_def mem_pebble_def mem_iter_def Let_def)
  moreover have "pb_DeleteRange sample_pebble [] lb ub = (None, [])" "pb_Close sample_pebble db = None" for lb ub db
    by (simp_all add: sample_pebble_def mem_pebble_def)
  ultimately show ?thesis
    by (simp add: Close_def Let_def sample_agg_def final_aggregation_def sample_cfg_def defaultCfg_def harvest_def harvest_step_def
        harvestForInterval_def ce_loadAndDelete_def sample_globals_def)
qed

text \<open>A run loop is started after the close and takes the batch; an event is rejected all the same.\<close>

theorem closed_aggregator_rejects_witness:
  "\<exists>a1 a2. Close sample_pebble sample_cfg False False None sample_agg = Some ([], a1)
     \<and> calls sample_pebble sample_cfg log_xxhash sample_etype a1 a2 \<and> ag_runStopped a2 = OpenChan
     \<and> AggregateBatch sample_pebble sample_cfg log_xxhash sample_etype (\<lambda>_ _ _. None) False False (replicate 16 0) [sample_event] a2
         = Some ([ErrAggregatorClosed], a2)"
proof -
  obtain a1 where a1: "Close sample_pebble sample_cfg False False None sample_agg = Some ([], a1)" "ag_runStopped a1 = NilChan"
    using sample_closes by blast
  have "(run_start a1 :: (unit, unit) agg_error + _) = Inr (a1\<lparr>ag_runStopped := OpenChan\<rparr>)" by (simp add: run_start_def a1(2))
  then have "api_step sample_pebble sample_cfg log_xxhash sample_etype a1 (a1\<lparr>ag_runStopped := OpenChan\<rparr>)"
    by (rule api_step.run_begins)
  then have "calls sample_pebble sample_cfg log_xxhash sample_etype a1 (a1\<lparr>ag_runStopped := OpenChan\<rparr>)"
    by (rule calls.more [OF calls.none])
  moreover obtain b st a2 where t: "run_take sample_now (a1\<lparr>ag_runStopped := OpenChan\<rparr>) = (b, st, a2)" by (rule prod_cases3)
  ultimately have "calls sample_pebble sample_cfg log_xxhash sample_etype a1 a2"
    by (rule calls.more [OF _ api_step.run_takes])
  moreover from t have "ag_runStopped a2 = OpenChan" by (auto simp: run_take_def split: prod.splits)
  ultimately have "calls sample_pebble sample_cfg log_xxhash sample_etype a1 a2" "ag_runStopped a2 = OpenChan" by simp_all
  with closed_aggregator_rejects [OF a1(1) this(1), of "\<lambda>_ _ _. None" False False "replicate 16 0" "[sample_event]"] a1(1)
  show ?thesis by auto
qed

text \<open>
  C13. When \<^verbatim>\<open>Close\<close> succeeds the database is gone and the aggregator is closed, and closing it again
  does nothing but unregister the instruments. A run loop whose timer fires after that panics: the tick
  uses the database without looking whether it is still there.
\<close>

theorem tick_after_close_panics:
  fixes P :: "('db, 'b, 'e) pebble" and cfg :: "('pe, 'kv, 'h) agg_config"
  assumes "Close P cfg ctx_done pick cleanup a = Some ([], a')"
  shows "ag_db a' = None \<and> ag_closed a' \<and> Close P cfg False pick cleanup' a'
      = Some ((case cleanup' of None \<Rightarrow> [] | Some err \<Rightarrow> [Instrumentation err]), a')
    \<and> run_tick P cfg to a' = (None :: (('e, 'pe) agg_error list \<times> _) option)"
proof -
  have "ag_db a' = None \<and> ag_runStopped a' \<noteq> OpenChan" using Close_success [OF assms] by blast
  moreover have "ag_closed a'" using assms by (rule Close_closed)
  ultimately show ?thesis
    by (auto simp: Close_def Let_def run_tick_def run_take_def commitAndHarvest_def commit_taken_def harvest_def
        split: prod.splits option.splits bind_splits)
qed

theorem tick_after_close_panics_witness:
  "\<exists>a'. Close sample_pebble sample_cfg False False None sample_agg = Some ([], a')
     \<and> run_tick sample_pebble sample_cfg (sample_now + Minute) a' = (None :: ((unit, unit) agg_error list \<times> _) option)"
proof -
  obtain a' where "Close sample_pebble sample_cfg False False None sample_agg = Some ([], a')" using sample_closes by blast
  with tick_after_close_panics [OF this] show ?thesis by blast
qed

section \<open>Run and Close\<close>

text \<open>
  C8. \<^verbatim>\<open>Run\<close> and \<^verbatim>\<open>Close\<close> can only get stuck in one way: \<^verbatim>\<open>Close\<close> waits for \<^verbatim>\<open>Run\<close> to stop while it
  holds the mutex, and \<^verbatim>\<open>Run\<close>, whose timer has fired, waits for the mutex. They do get stuck there when
  the context of \<^verbatim>\<open>Close\<close> is never cancelled, and that state can be reached; the context of \<^verbatim>\<open>Run\<close>,
  which the waiting run loop does not look at, makes no difference.
\<close>

theorem run_close_deadlock:
  "(control_reach rc cc s \<longrightarrow> (stuck rc cc s \<longleftrightarrow> \<not> cc \<and> run_at s = R_Tick \<and> close_at s = C_Wait))
   \<and> (\<exists>s. control_reach rc False s \<and> stuck rc False s)"
proof (intro conjI impI)
  assume "control_reach rc cc s"
  then show "stuck rc cc s \<longleftrightarrow> \<not> cc \<and> run_at s = R_Tick \<and> close_at s = C_Wait"
    using stuck_iff [OF control_reach_inv] by (simp add: lock_cycle_def)
next
  obtain s where "control_reach rc False s" "lock_cycle s" using lock_cycle_reachable by blast
  then show "\<exists>s. control_reach rc False s \<and> stuck rc False s" using stuck_iff [OF control_reach_inv] by blast
qed

theorem run_close_deadlock_witness: "\<not> stuck True False control_init \<and> (\<exists>s. control_reach True False s \<and> stuck True False s)"
  using run_close_deadlock [of True False control_init] control_reach.init [of True False] by (simp add: control_init_def)

text \<open>
  C9. The mutex is exclusive, and the final harvests of \<^verbatim>\<open>Close\<close> never overlap with the run loop: while
  \<^verbatim>\<open>Close\<close> harvests, \<^verbatim>\<open>Run\<close> has not begun, is refused, or has returned for good; and when \<^verbatim>\<open>Close\<close> waits
  for \<^verbatim>\<open>Run\<close> there is a run loop to wait for and it has been told to stop.
\<close>

theorem final_harvest_exclusive:
  assumes "control_reach rc cc s"
  shows "\<not> (run_at s \<in> {R_Register, R_Take} \<and> close_at s \<in> {C_Signal, C_Wait, C_Final})
    \<and> (close_at s = C_Final \<longrightarrow> run_at s \<in> {R_Off, R_Start, R_Return})
    \<and> (close_at s = C_Wait \<longrightarrow> closed_chan s \<and> stopped_chan s \<noteq> NilChan)"
  using control_reach_inv [OF assms] unfolding control_inv_def by (metis insertI1 insert_commute option.inject thread.distinct(1))

theorem final_harvest_exclusive_witness:
  "\<exists>s. control_reach False False s \<and> close_at s = C_Final \<and> run_at s \<in> {R_Off, R_Start, R_Return}"
proof -
  note r = control_reach.step [where rc = False and cc = False]
  have "control_reach False False (control_init\<lparr>close_at := C_Start\<rparr>)"
    by (rule r [OF control_reach.init]) (simp add: control_step_iff control_init_def)
  then have "control_reach False False (control_init\<lparr>close_at := C_Signal, mu := Some CloseThread\<rparr>)"
    by (rule r) (simp add: control_step_iff control_init_def)
  then have "control_reach False False (control_init\<lparr>close_at := C_Final, mu := Some CloseThread, closed_chan := True\<rparr>)" (is "control_reach _ _ ?s")
    by (rule r) (simp add: control_step_iff control_init_def)
  then show ?thesis using final_harvest_exclusive [of False False ?s] by (intro exI [of _ ?s]) auto
qed

end
