(* ===== verification/Telemetry.thy ===== *)
theory Telemetry
  imports Prelude "HOL-Library.Multiset"
begin

text \<open>
  The telemetry of the aggregator, \<^verbatim>\<open>aggregators/internal/telemetry\<close>: the instruments it creates with a
  meter, the callback that observes pebble, and its removal. The meter belongs to OpenTelemetry: it is a
  record of functions on a state of its own, an error is the left value. What the callback reads of
  \<^verbatim>\<open>pebble.Metrics\<close> is a record of those values.
\<close>

section \<open>The meter\<close>

datatype instrument_kind = Int64Counter | Float64Counter | Float64Histogram | Int64ObservableCounter | Int64ObservableGauge

text \<open>\<open>mt_New\<close> is the method of the given kind, with the name, the description and the unit.\<close>

record ('m, 'w, 'i, 'r, 'e) Meter =
  mt_New :: "instrument_kind \<Rightarrow> string \<Rightarrow> string \<Rightarrow> string \<Rightarrow> 'm \<Rightarrow> ('e + 'i) \<times> 'm"
  mt_RegisterCallback :: "('w \<Rightarrow> ('i \<times> int64) list) \<Rightarrow> 'i list \<Rightarrow> 'm \<Rightarrow> ('e + 'r) \<times> 'm"
  mt_Unregister :: "'r \<Rightarrow> 'm \<Rightarrow> 'e option \<times> 'm"

definition bytesUnit :: string where
  "bytesUnit = ''by''"

definition countUnit :: string where
  "countUnit = ''1''"

definition durationUnit :: string where
  "durationUnit = ''s''"

record pebble_metrics =
  pm_MemTable_Size :: uint64
  pm_DiskSpaceUsage :: uint64
  pm_Flush_Count :: int64
  pm_Levels0_BytesFlushed :: uint64
  pm_Compact_Count :: int64
  pm_Compact_EstimatedDebt :: uint64
  pm_Compact_MarkedFiles :: int64
  pm_TableCache_Size :: int64
  pm_Keys_TombstoneCount :: uint64
  pm_Total_NumFiles :: int64
  pm_Total_BytesIngested :: uint64
  pm_Total_BytesRead :: uint64
  pm_Total_BytesCompacted :: uint64
  pm_Total_Sublevels :: int32

section \<open>Configuration\<close>

record 'meter tel_config =
  tc_Meter :: 'meter

definition tel_newConfig :: "'meter \<Rightarrow> ('meter tel_config \<Rightarrow> 'meter tel_config) list \<Rightarrow> 'meter tel_config" where
  "tel_newConfig global opts = fold (\<lambda>opt c. opt c) opts \<lparr>tc_Meter = global\<rparr>"

definition tel_WithMeter :: "'meter \<Rightarrow> 'meter tel_config \<Rightarrow> 'meter tel_config" where
  "tel_WithMeter meter cfg = cfg\<lparr>tc_Meter := meter\<rparr>"

section \<open>Instruments\<close>

text \<open>A nil registration is \<^term>\<open>None\<close>.\<close>

record ('i, 'r) Metrics =
  mx_RequestsTotal :: 'i
  mx_RequestsFailed :: 'i
  mx_BytesIngested :: 'i
  mx_EventsTotal :: 'i
  mx_EventsProcessed :: 'i
  mx_MinQueuedDelay :: 'i
  mx_ProcessingDelay :: 'i
  mx_pebbleFlushes :: 'i
  mx_pebbleFlushedBytes :: 'i
  mx_pebbleCompactions :: 'i
  mx_pebbleIngestedBytes :: 'i
  mx_pebbleCompactedBytesRead :: 'i
  mx_pebbleCompactedBytesWritten :: 'i
  mx_pebbleMemtableTotalSize :: 'i
  mx_pebbleTotalDiskUsage :: 'i
  mx_pebbleReadAmplification :: 'i
  mx_pebbleNumSSTables :: 'i
  mx_pebbleTableReadersMemEstimate :: 'i
  mx_pebblePendingCompaction :: 'i
  mx_pebbleMarkedForCompactionFiles :: 'i
  mx_pebbleKeysTombstones :: 'i
  mx_registration :: "'r option"

text \<open>The callback: what it reports for each instrument. The conversions to \<^verbatim>\<open>int64\<close> wrap.\<close>

definition pebble_observations :: "('i, 'r) Metrics \<Rightarrow> pebble_metrics \<Rightarrow> ('i \<times> int64) list" where
  "pebble_observations i pm =
     [(mx_pebbleMemtableTotalSize i, pm_MemTable_Size pm),
      (mx_pebbleTotalDiskUsage i, pm_DiskSpaceUsage pm),
      (mx_pebbleFlushes i, pm_Flush_Count pm),
      (mx_pebbleFlushedBytes i, pm_Levels0_BytesFlushed pm),
      (mx_pebbleCompactions i, pm_Compact_Count pm),
      (mx_pebblePendingCompaction i, pm_Compact_EstimatedDebt pm),
      (mx_pebbleMarkedForCompactionFiles i, pm_Compact_MarkedFiles pm),
      (mx_pebbleTableReadersMemEstimate i, pm_TableCache_Size pm),
      (mx_pebbleKeysTombstones i, pm_Keys_TombstoneCount pm),
      (mx_pebbleNumSSTables i, pm_Total_NumFiles pm),
      (mx_pebbleIngestedBytes i, pm_Total_BytesIngested pm),
      (mx_pebbleCompactedBytesRead i, pm_Total_BytesRead pm),
      (mx_pebbleCompactedBytesWritten i, pm_Total_BytesCompacted pm),
      (mx_pebbleReadAmplification i, scast (pm_Total_Sublevels pm))]"

definition registered :: "('i, 'r) Metrics \<Rightarrow> 'i list" where
  "registered i =
     [mx_pebbleMemtableTotalSize i,
      mx_pebbleTotalDiskUsage i,
      mx_pebbleFlushes i,
      mx_pebbleFlushedBytes i,
      mx_pebbleCompactions i,
      mx_pebbleIngestedBytes i,
      mx_pebbleCompactedBytesRead i,
      mx_pebbleCompactedBytesWritten i,
      mx_pebbleReadAmplification i,
      mx_pebbleNumSSTables i,
      mx_pebbleTableReadersMemEstimate i,
      mx_pebblePendingCompaction i,
      mx_pebbleMarkedForCompactionFiles i,
      mx_pebbleKeysTombstones i]"

definition registerCallback ::
  "('m, 'w, 'i, 'r, 'e) Meter \<Rightarrow> ('w \<Rightarrow> pebble_metrics) \<Rightarrow> ('i, 'r) Metrics \<Rightarrow> 'm \<Rightarrow> 'e option \<times> ('i, 'r) Metrics \<times> 'm" where
  "registerCallback meter provider i m =
     (case mt_RegisterCallback meter (\<lambda>w. pebble_observations i (provider w)) (registered i) m of
        (Inl err, m) \<Rightarrow> (Some err, i\<lparr>mx_registration := None\<rparr>, m)
      | (Inr r, m) \<Rightarrow> (None, i\<lparr>mx_registration := Some r\<rparr>, m))"

text \<open>One creation, with the early return when it fails. The error says what could not be created.\<close>

definition try_new ::
  "('m, 'w, 'i, 'r, 'e) Meter \<Rightarrow> instrument_kind \<Rightarrow> string \<Rightarrow> string \<Rightarrow> string \<Rightarrow> string
   \<Rightarrow> ('i \<Rightarrow> 'm \<Rightarrow> (string \<times> 'e + 'a) \<times> 'm) \<Rightarrow> 'm \<Rightarrow> (string \<times> 'e + 'a) \<times> 'm" where
  "try_new meter kind name description unit what cont m =
     (case mt_New meter kind name description unit m of
        (Inl err, m) \<Rightarrow> (Inl (what, err), m)
      | (Inr x, m) \<Rightarrow> cont x m)"

definition NewMetrics ::
  "('m, 'w, 'i, 'r, 'e) Meter \<Rightarrow> ('w \<Rightarrow> pebble_metrics)
   \<Rightarrow> (('m, 'w, 'i, 'r, 'e) Meter tel_config \<Rightarrow> ('m, 'w, 'i, 'r, 'e) Meter tel_config) list
   \<Rightarrow> 'm \<Rightarrow> (string \<times> 'e + ('i, 'r) Metrics) \<times> 'm" where
  "NewMetrics global provider opts =
     (let meter = tc_Meter (tel_newConfig global opts) in
      try_new meter Int64Counter ''aggregator.requests.total''
        ''Total number of aggregation requests'' countUnit ''requests total'' (\<lambda>x0.
      try_new meter Int64Counter ''aggregator.requests.failed''
        ''Total number of aggregation requests failed, including partial failures'' countUnit ''requests failed'' (\<lambda>x1.
      try_new meter Int64Counter ''aggregator.bytes.ingested''
        ''Number of bytes ingested by the aggregators'' bytesUnit ''bytes processed'' (\<lambda>x2.
      try_new meter Float64Counter ''aggregator.events.total''
        ''Total number of APM Events requested for aggregation per aggregation interval'' countUnit ''events total'' (\<lambda>x3.
      try_new meter Float64Counter ''aggregator.events.processed''
        ''APM Events successfully aggregated by the aggregator per aggregation interval'' countUnit ''events processed'' (\<lambda>x4.
      try_new meter Float64Histogram ''events.queued-delay''
        ''Records total duration for aggregating a batch w.r.t. its youngest member'' durationUnit ''queued delay'' (\<lambda>x5.
      try_new meter Float64Histogram ''events.processing-delay''
        ''Records the processing delays, removes expected delays due to aggregation intervals'' durationUnit ''processing delay'' (\<lambda>x6.
      try_new meter Int64ObservableCounter ''pebble.flushes''
        ''Number of memtable flushes to disk'' countUnit ''flushes'' (\<lambda>x7.
      try_new meter Int64ObservableCounter ''pebble.flushed-bytes''
        ''Bytes written during flush'' bytesUnit ''flushed bytes'' (\<lambda>x8.
      try_new meter Int64ObservableCounter ''pebble.compactions''
        ''Number of table compactions'' countUnit ''compactions'' (\<lambda>x9.
      try_new meter Int64ObservableCounter ''pebble.ingested-bytes''
        ''Bytes ingested'' bytesUnit ''ingested bytes'' (\<lambda>x10.
      try_new meter Int64ObservableCounter ''pebble.compacted-bytes-read''
        ''Bytes read during compaction'' bytesUnit ''compacted bytes read'' (\<lambda>x11.
      try_new meter Int64ObservableCounter ''pebble.compacted-bytes-written''
        ''Bytes written during compaction'' bytesUnit ''compacted bytes written'' (\<lambda>x12.
      try_new meter Int64ObservableGauge ''pebble.memtable.total-size''
        ''Current size of memtable in bytes'' bytesUnit ''memtable size'' (\<lambda>x13.
      try_new meter Int64ObservableGauge ''pebble.disk.usage''
        ''Total disk usage by pebble, including live and obsolete files'' bytesUnit ''total disk usage'' (\<lambda>x14.
      try_new meter Int64ObservableGauge ''pebble.read-amplification''
        ''Current read amplification for the db'' countUnit ''read amplification'' (\<lambda>x15.
      try_new meter Int64ObservableGauge ''pebble.num-sstables''
        ''Current number of storage engine SSTables'' countUnit ''count of sstables'' (\<lambda>x16.
      try_new meter Int64ObservableGauge ''pebble.table-readers-mem-estimate''
        ''Memory used by index and filter blocks'' bytesUnit ''table cache readers'' (\<lambda>x17.
      try_new meter Int64ObservableGauge ''pebble.estimated-pending-compaction''
        ''Estimated pending compaction bytes'' bytesUnit ''pending compaction'' (\<lambda>x18.
      try_new meter Int64ObservableGauge ''pebble.marked-for-compaction-files''
        ''Count of SSTables marked for compaction'' countUnit ''compaction marked files'' (\<lambda>x19.
      try_new meter Int64ObservableGauge ''pebble.keys.tombstone.count''
        ''Approximate count of delete keys across the storage engine'' countUnit ''tombstones'' (\<lambda>x20.
      (\<lambda>m. let i = \<lparr>mx_RequestsTotal = x0,
          mx_RequestsFailed = x1,
          mx_BytesIngested = x2,
          mx_EventsTotal = x3,
          mx_EventsProcessed = x4,
          mx_MinQueuedDelay = x5,
          mx_ProcessingDelay = x6,
          mx_pebbleFlushes = x7,
          mx_pebbleFlushedBytes = x8,
          mx_pebbleCompactions = x9,
          mx_pebbleIngestedBytes = x10,
          mx_pebbleCompactedBytesRead = x11,
          mx_pebbleCompactedBytesWritten = x12,
          mx_pebbleMemtableTotalSize = x13,
          mx_pebbleTotalDiskUsage = x14,
          mx_pebbleReadAmplification = x15,
          mx_pebbleNumSSTables = x16,
          mx_pebbleTableReadersMemEstimate = x17,
          mx_pebblePendingCompaction = x18,
          mx_pebbleMarkedForCompactionFiles = x19,
          mx_pebbleKeysTombstones = x20,
          mx_registration = None\<rparr>
        in case registerCallback meter provider i m of
             (Some err, i, m) \<Rightarrow> (Inl (''callback'', err), m)
           | (None, i, m) \<Rightarrow> (Inr i, m))))))))))))))))))))))))"

text \<open>A nil receiver is \<^term>\<open>None\<close>.\<close>

definition CleanUp :: "('m, 'w, 'i, 'r, 'e) Meter \<Rightarrow> ('i, 'r) Metrics option \<Rightarrow> 'm \<Rightarrow> 'e option \<times> 'm" where
  "CleanUp meter i m =
     (case i of
        None \<Rightarrow> (None, m)
      | Some i \<Rightarrow> (case mx_registration i of None \<Rightarrow> (None, m) | Some r \<Rightarrow> mt_Unregister meter r m))"

section \<open>Creation in order\<close>

text \<open>The specification: a table of the instruments, created one after the other up to the first error.\<close>

definition instruments :: "(instrument_kind \<times> string \<times> string \<times> string \<times> string) list" where
  "instruments =
     [(Int64Counter, ''aggregator.requests.total'', ''Total number of aggregation requests'', countUnit, ''requests total''),
      (Int64Counter, ''aggregator.requests.failed'', ''Total number of aggregation requests failed, including partial failures'', countUnit, ''requests failed''),
      (Int64Counter, ''aggregator.bytes.ingested'', ''Number of bytes ingested by the aggregators'', bytesUnit, ''bytes processed''),
      (Float64Counter, ''aggregator.events.total'', ''Total number of APM Events requested for aggregation per aggregation interval'', countUnit, ''events total''),
      (Float64Counter, ''aggregator.events.processed'', ''APM Events successfully aggregated by the aggregator per aggregation interval'', countUnit, ''events processed''),
      (Float64Histogram, ''events.queued-delay'', ''Records total duration for aggregating a batch w.r.t. its youngest member'', durationUnit, ''queued delay''),
      (Float64Histogram, ''events.processing-delay'', ''Records the processing delays, removes expected delays due to aggregation intervals'', durationUnit, ''processing delay''),
      (Int64ObservableCounter, ''pebble.flushes'', ''Number of memtable flushes to disk'', countUnit, ''flushes''),
      (Int64ObservableCounter, ''pebble.flushed-bytes'', ''Bytes written during flush'', bytesUnit, ''flushed bytes''),
      (Int64ObservableCounter, ''pebble.compactions'', ''Number of table compactions'', countUnit, ''compactions''),
      (Int64ObservableCounter, ''pebble.ingested-bytes'', ''Bytes ingested'', bytesUnit, ''ingested bytes''),
      (Int64ObservableCounter, ''pebble.compacted-bytes-read'', ''Bytes read during compaction'', bytesUnit, ''compacted bytes read''),
      (Int64ObservableCounter, ''pebble.compacted-bytes-written'', ''Bytes written during compaction'', bytesUnit, ''compacted bytes written''),
      (Int64ObservableGauge, ''pebble.memtable.total-size'', ''Current size of memtable in bytes'', bytesUnit, ''memtable size''),
      (Int64ObservableGauge, ''pebble.disk.usage'', ''Total disk usage by pebble, including live and obsolete files'', bytesUnit, ''total disk usage''),
      (Int64ObservableGauge, ''pebble.read-amplification'', ''Current read amplification for the db'', countUnit, ''read amplification''),
      (Int64ObservableGauge, ''pebble.num-sstables'', ''Current number of storage engine SSTables'', countUnit, ''count of sstables''),
      (Int64ObservableGauge, ''pebble.table-readers-mem-estimate'', ''Memory used by index and filter blocks'', bytesUnit, ''table cache readers''),
      (Int64ObservableGauge, ''pebble.estimated-pending-compaction'', ''Estimated pending compaction bytes'', bytesUnit, ''pending compaction''),
      (Int64ObservableGauge, ''pebble.marked-for-compaction-files'', ''Count of SSTables marked for compaction'', countUnit, ''compaction marked files''),
      (Int64ObservableGauge, ''pebble.keys.tombstone.count'', ''Approximate count of delete keys across the storage engine'', countUnit, ''tombstones'')]"

fun create_all ::
  "('m, 'w, 'i, 'r, 'e) Meter \<Rightarrow> (instrument_kind \<times> string \<times> string \<times> string \<times> string) list
   \<Rightarrow> 'm \<Rightarrow> (string \<times> 'e + 'i list) \<times> 'm" where
  "create_all meter [] m = (Inr [], m)"
| "create_all meter ((kind, name, description, unit, what) # ts) m =
     (case mt_New meter kind name description unit m of
        (Inl err, m) \<Rightarrow> (Inl (what, err), m)
      | (Inr x, m) \<Rightarrow>
          (case create_all meter ts m of (Inl e, m) \<Rightarrow> (Inl e, m) | (Inr xs, m) \<Rightarrow> (Inr (x # xs), m)))"

definition and_then ::
  "('m \<Rightarrow> (string \<times> 'e + 'i list) \<times> 'm) \<Rightarrow> ('i list \<Rightarrow> 'm \<Rightarrow> (string \<times> 'e + 'a) \<times> 'm) \<Rightarrow> 'm \<Rightarrow> (string \<times> 'e + 'a) \<times> 'm" where
  "and_then f k m = (case f m of (Inl e, m) \<Rightarrow> (Inl e, m) | (Inr xs, m) \<Rightarrow> k xs m)"

lemma and_then_create [simp]:
  "and_then (create_all meter []) k = k []"
  "and_then (create_all meter ((kind, name, description, unit, what) # ts)) k
     = try_new meter kind name description unit what (\<lambda>x. and_then (create_all meter ts) (\<lambda>xs. k (x # xs)))"
  by (auto simp: and_then_def try_new_def fun_eq_iff split: prod.splits sum.splits)

text \<open>The record of the instruments, from the list in the order of the table.\<close>

definition metrics_of :: "'i list \<Rightarrow> ('i, 'r) Metrics" where
  "metrics_of xs =
     \<lparr>mx_RequestsTotal = xs ! 0,
      mx_RequestsFailed = xs ! 1,
      mx_BytesIngested = xs ! 2,
      mx_EventsTotal = xs ! 3,
      mx_EventsProcessed = xs ! 4,
      mx_MinQueuedDelay = xs ! 5,
      mx_ProcessingDelay = xs ! 6,
      mx_pebbleFlushes = xs ! 7,
      mx_pebbleFlushedBytes = xs ! 8,
      mx_pebbleCompactions = xs ! 9,
      mx_pebbleIngestedBytes = xs ! 10,
      mx_pebbleCompactedBytesRead = xs ! 11,
      mx_pebbleCompactedBytesWritten = xs ! 12,
      mx_pebbleMemtableTotalSize = xs ! 13,
      mx_pebbleTotalDiskUsage = xs ! 14,
      mx_pebbleReadAmplification = xs ! 15,
      mx_pebbleNumSSTables = xs ! 16,
      mx_pebbleTableReadersMemEstimate = xs ! 17,
      mx_pebblePendingCompaction = xs ! 18,
      mx_pebbleMarkedForCompactionFiles = xs ! 19,
      mx_pebbleKeysTombstones = xs ! 20,
      mx_registration = None\<rparr>"

definition register ::
  "('m, 'w, 'i, 'r, 'e) Meter \<Rightarrow> ('w \<Rightarrow> pebble_metrics) \<Rightarrow> 'i list \<Rightarrow> 'm \<Rightarrow> (string \<times> 'e + ('i, 'r) Metrics) \<times> 'm" where
  "register meter provider xs m =
     (let i = metrics_of xs
      in case mt_RegisterCallback meter (\<lambda>w. pebble_observations i (provider w)) (registered i) m of
           (Inl err, m) \<Rightarrow> (Inl (''callback'', err), m)
         | (Inr r, m) \<Rightarrow> (Inr (i\<lparr>mx_registration := Some r\<rparr>), m))"

lemma NewMetrics_spec:
  "NewMetrics global provider opts
     = and_then (create_all (tc_Meter (tel_newConfig global opts)) instruments)
         (register (tc_Meter (tel_newConfig global opts)) provider)"
proof -
  have k: "(\<lambda>m. case registerCallback meter provider (metrics_of xs) m of
      (Some err, i, m) \<Rightarrow> (Inl (''callback'', err), m) | (None, i, m) \<Rightarrow> (Inr i, m)) = register meter provider xs" for meter xs
    by (auto simp: fun_eq_iff registerCallback_def register_def Let_def split: prod.splits sum.splits)
  show ?thesis
    unfolding NewMetrics_def Let_def instruments_def and_then_create k [symmetric]
    by (simp add: metrics_of_def)
qed

section \<open>What is reported\<close>

text \<open>
  The report that is meant, by what the name of an instrument says: kind, name and unit, and the value of
  the metrics of pebble that goes with them.
\<close>

type_synonym instrument_id = "instrument_kind \<times> string \<times> string"

definition pebble_report :: "pebble_metrics \<Rightarrow> (instrument_id \<times> int64) list" where
  "pebble_report pm =
     [((Int64ObservableCounter, ''pebble.compacted-bytes-read'', ''by''), pm_Total_BytesRead pm),
      ((Int64ObservableCounter, ''pebble.compacted-bytes-written'', ''by''), pm_Total_BytesCompacted pm),
      ((Int64ObservableCounter, ''pebble.compactions'', ''1''), pm_Compact_Count pm),
      ((Int64ObservableGauge, ''pebble.disk.usage'', ''by''), pm_DiskSpaceUsage pm),
      ((Int64ObservableGauge, ''pebble.estimated-pending-compaction'', ''by''), pm_Compact_EstimatedDebt pm),
      ((Int64ObservableCounter, ''pebble.flushed-bytes'', ''by''), pm_Levels0_BytesFlushed pm),
      ((Int64ObservableCounter, ''pebble.flushes'', ''1''), pm_Flush_Count pm),
      ((Int64ObservableCounter, ''pebble.ingested-bytes'', ''by''), pm_Total_BytesIngested pm),
      ((Int64ObservableGauge, ''pebble.keys.tombstone.count'', ''1''), pm_Keys_TombstoneCount pm),
      ((Int64ObservableGauge, ''pebble.marked-for-compaction-files'', ''1''), pm_Compact_MarkedFiles pm),
      ((Int64ObservableGauge, ''pebble.memtable.total-size'', ''by''), pm_MemTable_Size pm),
      ((Int64ObservableGauge, ''pebble.num-sstables'', ''1''), pm_Total_NumFiles pm),
      ((Int64ObservableGauge, ''pebble.read-amplification'', ''1''), scast (pm_Total_Sublevels pm)),
      ((Int64ObservableGauge, ''pebble.table-readers-mem-estimate'', ''by''), pm_TableCache_Size pm)]"

text \<open>The instruments that the aggregator records into itself.\<close>

definition sync_ids :: "('i \<Rightarrow> instrument_id) \<Rightarrow> ('i, 'r) Metrics \<Rightarrow> bool" where
  "sync_ids nm i \<longleftrightarrow> nm (mx_RequestsTotal i) = (Int64Counter, ''aggregator.requests.total'', ''1'')
     \<and> nm (mx_RequestsFailed i) = (Int64Counter, ''aggregator.requests.failed'', ''1'')
     \<and> nm (mx_BytesIngested i) = (Int64Counter, ''aggregator.bytes.ingested'', ''by'')
     \<and> nm (mx_EventsTotal i) = (Float64Counter, ''aggregator.events.total'', ''1'')
     \<and> nm (mx_EventsProcessed i) = (Float64Counter, ''aggregator.events.processed'', ''1'')
     \<and> nm (mx_MinQueuedDelay i) = (Float64Histogram, ''events.queued-delay'', ''s'')
     \<and> nm (mx_ProcessingDelay i) = (Float64Histogram, ''events.processing-delay'', ''s'')"

text \<open>What the meter promises: an instrument is of the kind, the name and the unit it was created with.\<close>

definition names_kept :: "('m, 'w, 'i, 'r, 'e) Meter \<Rightarrow> ('i \<Rightarrow> instrument_id) \<Rightarrow> bool" where
  "names_kept meter nm \<longleftrightarrow>
     (\<forall>kind name description unit m x m'. mt_New meter kind name description unit m = (Inr x, m') \<longrightarrow> nm x = (kind, name, unit))"

lemma create_all_names:
  assumes "names_kept meter nm"
  shows "create_all meter ts m = (Inr xs, m') \<Longrightarrow> map nm xs = map (\<lambda>(kind, name, _, unit, _). (kind, name, unit)) ts"
proof (induction ts arbitrary: m xs)
  case (Cons t ts)
  obtain kind name description unit what where t: "t = (kind, name, description, unit, what)" by (cases t)
  have "nm x = (kind, name, unit)" if "mt_New meter kind name description unit m = (Inr x, m1)" for x m1
    using assms that unfolding names_kept_def by blast
  then show ?case using Cons by (auto simp: t split: prod.splits sum.splits)
qed simp

lemma create_all_fails:
  "create_all meter ts m = (Inl (what, err), m') \<Longrightarrow>
     \<exists>kind name description unit m1. mt_New meter kind name description unit m1 = (Inl err, m')"
proof (induction ts arbitrary: m)
  case (Cons t ts)
  obtain kind name description unit what where t: "t = (kind, name, description, unit, what)" by (cases t)
  show ?case using Cons.prems by (auto simp: t split: prod.splits sum.splits dest: Cons.IH) blast
qed simp

text \<open>With these names, the callback and the instruments it is registered for are the intended ones.\<close>

lemma instruments_reported:
  assumes "map nm xs = map (\<lambda>(kind, name, _, unit, _). (kind, name, unit)) instruments"
  shows "sync_ids nm (metrics_of xs)"
    and "mset (map nm (registered (metrics_of xs))) = mset (map fst (pebble_report pm))"
    and "mset (map (\<lambda>(x, n). (nm x, n)) (pebble_observations (metrics_of xs) pm)) = mset (pebble_report pm)"
proof -
  from assms obtain x0 x1 x2 x3 x4 x5 x6 x7 x8 x9 x10 x11 x12 x13 x14 x15 x16 x17 x18 x19 x20 where
    xs: "xs = [x0, x1, x2, x3, x4, x5, x6, x7, x8, x9, x10, x11, x12, x13, x14, x15, x16, x17, x18, x19, x20]"
    by (auto simp: instruments_def map_eq_Cons_conv)
  note nm = assms [unfolded xs instruments_def bytesUnit_def countUnit_def durationUnit_def, simplified]
  show "sync_ids nm (metrics_of xs)" using nm by (simp add: sync_ids_def metrics_of_def xs)
  show "mset (map nm (registered (metrics_of xs))) = mset (map fst (pebble_report pm))"
    using nm by (simp add: registered_def metrics_of_def xs pebble_report_def)
  show "mset (map (\<lambda>(x, n). (nm x, n)) (pebble_observations (metrics_of xs) pm)) = mset (pebble_report pm)"
    using nm by (simp add: pebble_observations_def metrics_of_def xs pebble_report_def)
qed

text \<open>
  C40. What the telemetry reports, for a meter that keeps the kind, the name and the unit of its
  instruments. When \<^verbatim>\<open>NewMetrics\<close> succeeds, the instruments that the aggregator records into have their
  names; a callback has been registered, for exactly the instruments of pebble, and whenever it is called
  it reports for each of them, once, the value of the metrics of pebble at that time that its name
  stands for; and \<^verbatim>\<open>CleanUp\<close> removes that registration. When it fails, the error is the one the meter has
  given, for an instrument or for the callback, and nothing was asked of the meter after that.
\<close>

theorem telemetry_reports:
  fixes provider :: "'w \<Rightarrow> pebble_metrics" and global :: "('m, 'w, 'i, 'r, 'e) Meter"
  assumes "meter = tc_Meter (tel_newConfig global opts)" and "names_kept meter nm"
  shows "(\<forall>i m'. NewMetrics global provider opts m = (Inr i, m') \<longrightarrow>
        sync_ids nm i
        \<and> (\<exists>callback insts r m1. mt_RegisterCallback meter callback insts m1 = (Inr r, m')
            \<and> (\<forall>pm. mset (map nm insts) = mset (map fst (pebble_report pm)))
            \<and> (\<forall>w. mset (map (\<lambda>(x, n). (nm x, n)) (callback w)) = mset (pebble_report (provider w)))
            \<and> (\<forall>m2. CleanUp meter (Some i) m2 = mt_Unregister meter r m2)))
    \<and> (\<forall>what err m'. NewMetrics global provider opts m = (Inl (what, err), m') \<longrightarrow>
        (\<exists>kind name description unit m1. mt_New meter kind name description unit m1 = (Inl err, m'))
        \<or> (\<exists>callback insts m1. mt_RegisterCallback meter callback insts m1 = (Inl err, m')))"
proof -
  obtain c m1 where c: "create_all meter instruments m = (c, m1)" by (rule prod.exhaust)
  note spec = NewMetrics_spec [of global provider opts, folded assms(1)]
  show ?thesis
  proof (cases c)
    case (Inl e)
    then show ?thesis using c create_all_fails [of meter instruments m "fst e" "snd e" m1]
      by (auto simp: spec and_then_def)
  next
    case (Inr xs)
    note nm = create_all_names [OF assms(2) c [unfolded Inr]]
    have n: "NewMetrics global provider opts m = register meter provider xs m1" using c Inr by (simp add: spec and_then_def)
    obtain rr m3 where rr: "mt_RegisterCallback meter (\<lambda>w. pebble_observations (metrics_of xs :: ('i, 'r) Metrics) (provider w))
      (registered (metrics_of xs :: ('i, 'r) Metrics)) m1 = (rr, m3)" by (rule prod.exhaust)
    show ?thesis
    proof (cases rr)
      case (Inl err)
      then show ?thesis using rr by (auto simp: n register_def)
    next
      case (Inr r)
      have "sync_ids nm ((metrics_of xs)\<lparr>mx_registration := Some r\<rparr>)"
        using instruments_reported(1) [OF nm] by (simp add: sync_ids_def)
      moreover have "CleanUp meter (Some ((metrics_of xs)\<lparr>mx_registration := Some r\<rparr>)) m2 = mt_Unregister meter r m2" for m2
        by (simp add: CleanUp_def)
      ultimately show ?thesis
        using rr Inr instruments_reported(2,3) [OF nm] by (auto simp: n register_def intro!: exI)
    qed
  qed
qed

text \<open>A meter that keeps the callback that was registered last; its instruments are their own identity.\<close>

type_synonym log_state = "((pebble_metrics \<Rightarrow> (instrument_id \<times> int64) list) \<times> instrument_id list) option"

definition log_meter :: "(log_state, pebble_metrics, instrument_id, unit, unit) Meter" where
  "log_meter = \<lparr>mt_New = (\<lambda>kind name description unit m. (Inr (kind, name, unit), m)),
     mt_RegisterCallback = (\<lambda>callback insts m. (Inr (), Some (callback, insts))), mt_Unregister = (\<lambda>r m. (None, None))\<rparr>"

theorem telemetry_reports_witness:
  "\<exists>i callback insts. NewMetrics log_meter (\<lambda>w. w) [] None = (Inr i, Some (callback, insts))
     \<and> mx_MinQueuedDelay i = (Float64Histogram, ''events.queued-delay'', ''s'')
     \<and> length insts = 14 \<and> (\<forall>pm. mset (callback pm) = mset (pebble_report pm))
     \<and> CleanUp log_meter (Some i) (Some (callback, insts)) = (None, None)"
proof -
  have m: "log_meter = tc_Meter (tel_newConfig log_meter [])" by (simp add: tel_newConfig_def)
  have k: "names_kept log_meter (\<lambda>x. x)" by (simp add: names_kept_def log_meter_def)
  have "\<exists>xs. create_all log_meter ts st = (Inr xs, st)" for ts st
    by (induction ts) (auto simp: log_meter_def)
  then obtain xs where "create_all log_meter instruments None = (Inr xs, None)" by blast
  then obtain i s where n: "NewMetrics log_meter (\<lambda>w. w) [] None = (Inr i, s)"
    by (simp add: NewMetrics_spec m [symmetric] and_then_def register_def Let_def) (simp add: log_meter_def)
  from telemetry_reports [OF m k, where m = None and provider = "\<lambda>w. w"] n obtain callback insts r m1 where
    i: "sync_ids (\<lambda>x. x) i" and cb: "mt_RegisterCallback log_meter callback insts m1 = (Inr r, s)"
    and rep: "mset (map (\<lambda>x. x) insts) = mset (map fst (pebble_report pm))"
      "mset (map (\<lambda>(x, n). (x, n)) (callback w)) = mset (pebble_report w)"
    and cl: "CleanUp log_meter (Some i) m2 = mt_Unregister log_meter r m2" for pm w m2
    by blast
  have "s = Some (callback, insts)" using cb by (simp add: log_meter_def)
  moreover have "length insts = 14" using arg_cong [OF rep(1), of size] by (simp add: pebble_report_def)
  moreover have "CleanUp log_meter (Some i) m2 = (None, None)" for m2 by (simp add: cl) (simp add: log_meter_def)
  ultimately show ?thesis using n i rep(2) by (auto simp: sync_ids_def)
qed

end
