(* ===== verification/HashGen.thy ===== *)
theory HashGen
  imports Protohash
begin

text \<open>
  The program that writes the hash functions, \<^verbatim>\<open>aggregators/internal/protohash/generate/main.go\<close>. It walks
  over the types of a package, as \<^verbatim>\<open>go/types\<close> presents them, and prints one function for every struct
  whose name ends in \<^verbatim>\<open>Key\<close>, one statement per exported field. The loaded package and the result of
  creating the file are arguments. A file is a list of lines: every print of the program ends a line.
\<close>

section \<open>Types of a package\<close>

text \<open>
  \<open>Byte\<close> is the kind of \<^verbatim>\<open>uint8\<close>. An object of the scope is the name of a type, with its underlying type when
  the type is a named one, or something else.
\<close>

datatype go_kind = Bool | String | Uint32 | Uint64 | Byte | OtherKind

datatype go_type = Basic go_kind | Slice go_type | Struct "(string \<times> go_type) list" | OtherType

datatype go_object = TypeName "go_type option" | OtherObject

type_synonym go_scope = "(string \<times> go_object) list"

text \<open>A name is exported when it begins with a capital letter.\<close>

definition Exported :: "string \<Rightarrow> bool" where
  "Exported name = (case name of [] \<Rightarrow> False | c # _ \<Rightarrow> 65 \<le> (of_char c :: nat) \<and> (of_char c :: nat) \<le> 90)"

definition HasSuffix :: "string \<Rightarrow> string \<Rightarrow> bool" where
  "HasSuffix s suffix \<longleftrightarrow> length suffix \<le> length s \<and> drop (length s - length suffix) s = suffix"

section \<open>The generator\<close>

definition tab :: char where
  "tab = CHR 0x09"

definition quote :: char where
  "quote = CHR 0x22"

text \<open>The lines of a field; a field that is not handled is a panic.\<close>

definition gen_field :: "string \<Rightarrow> go_type \<Rightarrow> string list option" where
  "gen_field name t =
     (case t of
        Basic kind \<Rightarrow>
          (case kind of
             Bool \<Rightarrow> Some [tab # ''if k.'' @ name @ '' {'',
                           tab # tab # ''h.WriteString('' @ [quote] @ ''1'' @ [quote] @ '')'',
                           tab # ''}'']
           | String \<Rightarrow> Some [tab # ''h.WriteString(k.'' @ name @ '')'']
           | Uint32 \<Rightarrow> Some [tab # ''writeUint32(&h, k.'' @ name @ '')'']
           | Uint64 \<Rightarrow> Some [tab # ''writeUint64(&h, k.'' @ name @ '')'']
           | _ \<Rightarrow> None)
      | Slice elem \<Rightarrow>
          (case elem of
             Basic kind \<Rightarrow> if kind \<noteq> Byte then None else Some [tab # ''h.Write(k.'' @ name @ '')'']
           | _ \<Rightarrow> None)
      | _ \<Rightarrow> None)"

fun gen_fields :: "(string \<times> go_type) list \<Rightarrow> string list option" where
  "gen_fields [] = Some []"
| "gen_fields ((name, t) # fs) =
     (if \<not> Exported name then gen_fields fs
      else do { ls \<leftarrow> gen_field name t; ls' \<leftarrow> gen_fields fs; Some (ls @ ls') })"

definition gen_object :: "string \<Rightarrow> go_object \<Rightarrow> string list option" where
  "gen_object name obj =
     (if \<not> HasSuffix name ''Key'' then Some []
      else case obj of
             OtherObject \<Rightarrow> Some []
           | TypeName named \<Rightarrow>
               if \<not> Exported name then Some []
               else do { underlying \<leftarrow> named;
                         case underlying of
                           Struct fs \<Rightarrow>
                             do { ls \<leftarrow> gen_fields fs;
                                  Some ([''func Hash'' @ name @ ''(h xxhash.Digest, k *aggregationpb.'' @ name @ '') xxhash.Digest {'']
                                    @ ls @ [tab # ''return h'', ''}'', []]) }
                         | _ \<Rightarrow> Some [] })"

fun gen_scope :: "go_scope \<Rightarrow> string list option" where
  "gen_scope [] = Some []"
| "gen_scope ((name, obj) # scope) =
     do { ls \<leftarrow> gen_object name obj; ls' \<leftarrow> gen_scope scope; Some (ls @ ls') }"

definition gen_header :: "string list" where
  "gen_header =
     [''// Copyright Elasticsearch B.V. and/or licensed to Elasticsearch B.V. under one'',
      ''// or more contributor license agreements. Licensed under the Elastic License 2.0;'',
      ''// you may not use this file except in compliance with the Elastic License 2.0.'',
      [],
      ''// Code generated by protohash/generate. DO NOT EDIT.'',
      [],
      ''package protohash'',
      [],
      ''import ('',
      tab # ([quote] @ ''encoding/binary'' @ [quote]),
      [],
      tab # ([quote] @ ''github.com/cespare/xxhash/v2'' @ [quote]),
      [],
      tab # ([quote] @ ''github.com/elastic/apm-aggregation/aggregationpb'' @ [quote]),
      '')'',
      [],
      ''func writeUint32(h *xxhash.Digest, v uint32) {'',
      tab # ''var buf [4]byte'',
      tab # ''binary.LittleEndian.PutUint32(buf[:], v)'',
      tab # ''h.Write(buf[:])'',
      ''}'',
      [],
      ''func writeUint64(h *xxhash.Digest, v uint64) {'',
      tab # ''var buf [8]byte'',
      tab # ''binary.LittleEndian.PutUint64(buf[:], v)'',
      tab # ''h.Write(buf[:])'',
      ''}'',
      []]"

text \<open>\<^verbatim>\<open>log.Fatal\<close> ends the program with the error.\<close>

definition gen_main :: "'e + go_scope list \<Rightarrow> 'e + unit \<Rightarrow> ('e + string list) option" where
  "gen_main load create =
     (case load of
        Inl err \<Rightarrow> Some (Inl err)
      | Inr pkgs \<Rightarrow>
          (case create of
             Inl err \<Rightarrow> Some (Inl err)
           | Inr _ \<Rightarrow>
               do { pkg \<leftarrow> index_at pkgs 0;
                    ls \<leftarrow> gen_scope pkg;
                    Some (Inr (gen_header @ ls)) }))"

section \<open>What it is run on and what it wrote\<close>

text \<open>The key types of \<^verbatim>\<open>aggregationpb\<close>, with the fields of their structs.\<close>

definition message_fields :: "(string \<times> go_type) list" where
  "message_fields = [(''state'', OtherType), (''sizeCache'', OtherType), (''unknownFields'', OtherType)]"

definition ServiceAggregationKey_fields_of :: "(string \<times> go_type) list" where
  "ServiceAggregationKey_fields_of = message_fields @
     [(''Timestamp'', Basic Uint64),
      (''ServiceName'', Basic String),
      (''ServiceEnvironment'', Basic String),
      (''ServiceLanguageName'', Basic String),
      (''AgentName'', Basic String)]"

definition ServiceInstanceAggregationKey_fields_of :: "(string \<times> go_type) list" where
  "ServiceInstanceAggregationKey_fields_of = message_fields @
     [(''GlobalLabelsStr'', Slice (Basic Byte))]"

definition ServiceTransactionAggregationKey_fields_of :: "(string \<times> go_type) list" where
  "ServiceTransactionAggregationKey_fields_of = message_fields @
     [(''TransactionType'', Basic String)]"

definition SpanAggregationKey_fields_of :: "(string \<times> go_type) list" where
  "SpanAggregationKey_fields_of = message_fields @
     [(''SpanName'', Basic String),
      (''Outcome'', Basic String),
      (''TargetType'', Basic String),
      (''TargetName'', Basic String),
      (''Resource'', Basic String)]"

definition TransactionAggregationKey_fields_of :: "(string \<times> go_type) list" where
  "TransactionAggregationKey_fields_of = message_fields @
     [(''TraceRoot'', Basic Bool),
      (''ContainerId'', Basic String),
      (''KubernetesPodName'', Basic String),
      (''ServiceVersion'', Basic String),
      (''ServiceNodeName'', Basic String),
      (''ServiceRuntimeName'', Basic String),
      (''ServiceRuntimeVersion'', Basic String),
      (''ServiceLanguageVersion'', Basic String),
      (''HostHostname'', Basic String),
      (''HostName'', Basic String),
      (''HostOsPlatform'', Basic String),
      (''EventOutcome'', Basic String),
      (''TransactionName'', Basic String),
      (''TransactionType'', Basic String),
      (''TransactionResult'', Basic String),
      (''FaasColdstart'', Basic Uint32),
      (''FaasId'', Basic String),
      (''FaasName'', Basic String),
      (''FaasVersion'', Basic String),
      (''FaasTriggerType'', Basic String),
      (''CloudProvider'', Basic String),
      (''CloudRegion'', Basic String),
      (''CloudAvailabilityZone'', Basic String),
      (''CloudServiceName'', Basic String),
      (''CloudAccountId'', Basic String),
      (''CloudAccountName'', Basic String),
      (''CloudMachineType'', Basic String),
      (''CloudProjectId'', Basic String),
      (''CloudProjectName'', Basic String)]"

definition key_types :: go_scope where
  "key_types =
     [(''ServiceAggregationKey'', TypeName (Some (Struct ServiceAggregationKey_fields_of))),
      (''ServiceInstanceAggregationKey'', TypeName (Some (Struct ServiceInstanceAggregationKey_fields_of))),
      (''ServiceTransactionAggregationKey'', TypeName (Some (Struct ServiceTransactionAggregationKey_fields_of))),
      (''SpanAggregationKey'', TypeName (Some (Struct SpanAggregationKey_fields_of))),
      (''TransactionAggregationKey'', TypeName (Some (Struct TransactionAggregationKey_fields_of)))]"

text \<open>The file \<^verbatim>\<open>generated.go\<close>, line by line.\<close>

definition generated_go :: "string list" where
  "generated_go =
     [''// Copyright Elasticsearch B.V. and/or licensed to Elasticsearch B.V. under one'',
      ''// or more contributor license agreements. Licensed under the Elastic License 2.0;'',
      ''// you may not use this file except in compliance with the Elastic License 2.0.'',
      [],
      ''// Code generated by protohash/generate. DO NOT EDIT.'',
      [],
      ''package protohash'',
      [],
      ''import ('',
      tab # ([quote] @ ''encoding/binary'' @ [quote]),
      [],
      tab # ([quote] @ ''github.com/cespare/xxhash/v2'' @ [quote]),
      [],
      tab # ([quote] @ ''github.com/elastic/apm-aggregation/aggregationpb'' @ [quote]),
      '')'',
      [],
      ''func writeUint32(h *xxhash.Digest, v uint32) {'',
      tab # ''var buf [4]byte'',
      tab # ''binary.LittleEndian.PutUint32(buf[:], v)'',
      tab # ''h.Write(buf[:])'',
      ''}'',
      [],
      ''func writeUint64(h *xxhash.Digest, v uint64) {'',
      tab # ''var buf [8]byte'',
      tab # ''binary.LittleEndian.PutUint64(buf[:], v)'',
      tab # ''h.Write(buf[:])'',
      ''}'',
      [],
      ''func HashServiceAggregationKey(h xxhash.Digest, k *aggregationpb.ServiceAggregationKey) xxhash.Digest {'',
      tab # ''writeUint64(&h, k.Timestamp)'',
      tab # ''h.WriteString(k.ServiceName)'',
      tab # ''h.WriteString(k.ServiceEnvironment)'',
      tab # ''h.WriteString(k.ServiceLanguageName)'',
      tab # ''h.WriteString(k.AgentName)'',
      tab # ''return h'',
      ''}'',
      [],
      ''func HashServiceInstanceAggregationKey(h xxhash.Digest, k *aggregationpb.ServiceInstanceAggregationKey) xxhash.Digest {'',
      tab # ''h.Write(k.GlobalLabelsStr)'',
      tab # ''return h'',
      ''}'',
      [],
      ''func HashServiceTransactionAggregationKey(h xxhash.Digest, k *aggregationpb.ServiceTransactionAggregationKey) xxhash.Digest {'',
      tab # ''h.WriteString(k.TransactionType)'',
      tab # ''return h'',
      ''}'',
      [],
      ''func HashSpanAggregationKey(h xxhash.Digest, k *aggregationpb.SpanAggregationKey) xxhash.Digest {'',
      tab # ''h.WriteString(k.SpanName)'',
      tab # ''h.WriteString(k.Outcome)'',
      tab # ''h.WriteString(k.TargetType)'',
      tab # ''h.WriteString(k.TargetName)'',
      tab # ''h.WriteString(k.Resource)'',
      tab # ''return h'',
      ''}'',
      [],
      ''func HashTransactionAggregationKey(h xxhash.Digest, k *aggregationpb.TransactionAggregationKey) xxhash.Digest {'',
      tab # ''if k.TraceRoot {'',
      tab # tab # (''h.WriteString('' @ [quote] @ ''1'' @ [quote] @ '')''),
      tab # ''}'',
      tab # ''h.WriteString(k.ContainerId)'',
      tab # ''h.WriteString(k.KubernetesPodName)'',
      tab # ''h.WriteString(k.ServiceVersion)'',
      tab # ''h.WriteString(k.ServiceNodeName)'',
      tab # ''h.WriteString(k.ServiceRuntimeName)'',
      tab # ''h.WriteString(k.ServiceRuntimeVersion)'',
      tab # ''h.WriteString(k.ServiceLanguageVersion)'',
      tab # ''h.WriteString(k.HostHostname)'',
      tab # ''h.WriteString(k.HostName)'',
      tab # ''h.WriteString(k.HostOsPlatform)'',
      tab # ''h.WriteString(k.EventOutcome)'',
      tab # ''h.WriteString(k.TransactionName)'',
      tab # ''h.WriteString(k.TransactionType)'',
      tab # ''h.WriteString(k.TransactionResult)'',
      tab # ''writeUint32(&h, k.FaasColdstart)'',
      tab # ''h.WriteString(k.FaasId)'',
      tab # ''h.WriteString(k.FaasName)'',
      tab # ''h.WriteString(k.FaasVersion)'',
      tab # ''h.WriteString(k.FaasTriggerType)'',
      tab # ''h.WriteString(k.CloudProvider)'',
      tab # ''h.WriteString(k.CloudRegion)'',
      tab # ''h.WriteString(k.CloudAvailabilityZone)'',
      tab # ''h.WriteString(k.CloudServiceName)'',
      tab # ''h.WriteString(k.CloudAccountId)'',
      tab # ''h.WriteString(k.CloudAccountName)'',
      tab # ''h.WriteString(k.CloudMachineType)'',
      tab # ''h.WriteString(k.CloudProjectId)'',
      tab # ''h.WriteString(k.CloudProjectName)'',
      tab # ''return h'',
      ''}'']"

section \<open>What the printed statements do\<close>

text \<open>A field that is handled gives one statement; executing it reads the field of the key.\<close>

datatype stmt = S_Bool string | S_String string | S_Uint32 string | S_Uint64 string | S_Bytes string

fun print_stmt :: "stmt \<Rightarrow> string list" where
  "print_stmt (S_Bool name) = [tab # ''if k.'' @ name @ '' {'',
     tab # tab # ''h.WriteString('' @ [quote] @ ''1'' @ [quote] @ '')'', tab # ''}'']"
| "print_stmt (S_String name) = [tab # ''h.WriteString(k.'' @ name @ '')'']"
| "print_stmt (S_Uint32 name) = [tab # ''writeUint32(&h, k.'' @ name @ '')'']"
| "print_stmt (S_Uint64 name) = [tab # ''writeUint64(&h, k.'' @ name @ '')'']"
| "print_stmt (S_Bytes name) = [tab # ''h.Write(k.'' @ name @ '')'']"

datatype go_value = VBool bool | VString string | VUint32 uint32 | VUint64 uint64 | VBytes bytes

fun exec_stmt :: "'d xxhash_ops \<Rightarrow> (string \<rightharpoonup> go_value) \<Rightarrow> stmt \<Rightarrow> 'd \<Rightarrow> 'd option" where
  "exec_stmt X k (S_Bool name) h =
     (case k name of Some (VBool b) \<Rightarrow> Some (if b then xx_WriteString X h ''1'' else h) | _ \<Rightarrow> None)"
| "exec_stmt X k (S_String name) h = (case k name of Some (VString s) \<Rightarrow> Some (xx_WriteString X h s) | _ \<Rightarrow> None)"
| "exec_stmt X k (S_Uint32 name) h = (case k name of Some (VUint32 v) \<Rightarrow> Some (writeUint32 X h v) | _ \<Rightarrow> None)"
| "exec_stmt X k (S_Uint64 name) h = (case k name of Some (VUint64 v) \<Rightarrow> Some (writeUint64 X h v) | _ \<Rightarrow> None)"
| "exec_stmt X k (S_Bytes name) h = (case k name of Some (VBytes b) \<Rightarrow> Some (xx_Write X h b) | _ \<Rightarrow> None)"

fun exec_stmts :: "'d xxhash_ops \<Rightarrow> (string \<rightharpoonup> go_value) \<Rightarrow> stmt list \<Rightarrow> 'd \<Rightarrow> 'd option" where
  "exec_stmts X k [] h = Some h"
| "exec_stmts X k (s # ss) h = do { h \<leftarrow> exec_stmt X k s h; exec_stmts X k ss h }"

fun stmt_of :: "string \<times> go_type \<Rightarrow> stmt option" where
  "stmt_of (name, Basic Bool) = Some (S_Bool name)"
| "stmt_of (name, Basic String) = Some (S_String name)"
| "stmt_of (name, Basic Uint32) = Some (S_Uint32 name)"
| "stmt_of (name, Basic Uint64) = Some (S_Uint64 name)"
| "stmt_of (name, Slice (Basic Byte)) = Some (S_Bytes name)"
| "stmt_of _ = None"

definition stmts_of :: "(string \<times> go_type) list \<Rightarrow> stmt list" where
  "stmts_of fs = List.map_filter stmt_of (filter (Exported \<circ> fst) fs)"

text \<open>The fields of the keys, as the printed code reads them.\<close>

definition ServiceAggregationKey_value :: "ServiceAggregationKey \<Rightarrow> (string \<rightharpoonup> go_value)" where
  "ServiceAggregationKey_value k = map_of
     [(''Timestamp'', VUint64 (pbsk_Timestamp k)),
      (''ServiceName'', VString (pbsk_ServiceName k)),
      (''ServiceEnvironment'', VString (pbsk_ServiceEnvironment k)),
      (''ServiceLanguageName'', VString (pbsk_ServiceLanguageName k)),
      (''AgentName'', VString (pbsk_AgentName k))]"

definition ServiceInstanceAggregationKey_value :: "ServiceInstanceAggregationKey \<Rightarrow> (string \<rightharpoonup> go_value)" where
  "ServiceInstanceAggregationKey_value k = map_of
     [(''GlobalLabelsStr'', VBytes (pbsik_GlobalLabelsStr k))]"

definition ServiceTransactionAggregationKey_value :: "ServiceTransactionAggregationKey \<Rightarrow> (string \<rightharpoonup> go_value)" where
  "ServiceTransactionAggregationKey_value k = map_of
     [(''TransactionType'', VString (pbstk_TransactionType k))]"

definition SpanAggregationKey_value :: "SpanAggregationKey \<Rightarrow> (string \<rightharpoonup> go_value)" where
  "SpanAggregationKey_value k = map_of
     [(''SpanName'', VString (pbspk_SpanName k)),
      (''Outcome'', VString (pbspk_Outcome k)),
      (''TargetType'', VString (pbspk_TargetType k)),
      (''TargetName'', VString (pbspk_TargetName k)),
      (''Resource'', VString (pbspk_Resource k))]"

definition TransactionAggregationKey_value :: "TransactionAggregationKey \<Rightarrow> (string \<rightharpoonup> go_value)" where
  "TransactionAggregationKey_value k = map_of
     [(''TraceRoot'', VBool (pbtk_TraceRoot k)),
      (''ContainerId'', VString (pbtk_ContainerId k)),
      (''KubernetesPodName'', VString (pbtk_KubernetesPodName k)),
      (''ServiceVersion'', VString (pbtk_ServiceVersion k)),
      (''ServiceNodeName'', VString (pbtk_ServiceNodeName k)),
      (''ServiceRuntimeName'', VString (pbtk_ServiceRuntimeName k)),
      (''ServiceRuntimeVersion'', VString (pbtk_ServiceRuntimeVersion k)),
      (''ServiceLanguageVersion'', VString (pbtk_ServiceLanguageVersion k)),
      (''HostHostname'', VString (pbtk_HostHostname k)),
      (''HostName'', VString (pbtk_HostName k)),
      (''HostOsPlatform'', VString (pbtk_HostOsPlatform k)),
      (''EventOutcome'', VString (pbtk_EventOutcome k)),
      (''TransactionName'', VString (pbtk_TransactionName k)),
      (''TransactionType'', VString (pbtk_TransactionType k)),
      (''TransactionResult'', VString (pbtk_TransactionResult k)),
      (''FaasColdstart'', VUint32 (pbtk_FaasColdstart k)),
      (''FaasId'', VString (pbtk_FaasId k)),
      (''FaasName'', VString (pbtk_FaasName k)),
      (''FaasVersion'', VString (pbtk_FaasVersion k)),
      (''FaasTriggerType'', VString (pbtk_FaasTriggerType k)),
      (''CloudProvider'', VString (pbtk_CloudProvider k)),
      (''CloudRegion'', VString (pbtk_CloudRegion k)),
      (''CloudAvailabilityZone'', VString (pbtk_CloudAvailabilityZone k)),
      (''CloudServiceName'', VString (pbtk_CloudServiceName k)),
      (''CloudAccountId'', VString (pbtk_CloudAccountId k)),
      (''CloudAccountName'', VString (pbtk_CloudAccountName k)),
      (''CloudMachineType'', VString (pbtk_CloudMachineType k)),
      (''CloudProjectId'', VString (pbtk_CloudProjectId k)),
      (''CloudProjectName'', VString (pbtk_CloudProjectName k))]"

section \<open>Correctness of the generator\<close>

lemma gen_field_print: "gen_field name t = map_option print_stmt (stmt_of (name, t))"
  by (cases "(name, t)" rule: stmt_of.cases) (simp_all add: gen_field_def)

lemma gen_fields_print:
  assumes "\<forall>x \<in> set fs. Exported (fst x) \<longrightarrow> stmt_of x \<noteq> None"
  shows "gen_fields fs = Some (List.concat (map print_stmt (stmts_of fs)))"
  using assms
proof (induction fs)
  case (Cons x fs)
  obtain name t where x: "x = (name, t)" by (rule prod.exhaust)
  show ?case
  proof (cases "Exported name")
    case True
    then obtain s where "stmt_of (name, t) = Some s" using Cons.prems x by auto
    with Cons True show ?thesis by (simp add: x stmts_of_def gen_field_print List.map_filter_simps)
  next
    case False
    with Cons show ?thesis by (simp add: x stmts_of_def)
  qed
qed (simp add: stmts_of_def List.map_filter_simps)

text \<open>Only names that end in \<^verbatim>\<open>Key\<close> matter.\<close>

lemma gen_scope_filter: "gen_scope scope = gen_scope (filter (\<lambda>(name, obj). HasSuffix name ''Key'') scope)"
proof (induction scope)
  case (Cons x scope)
  obtain name obj where x: "x = (name, obj)" by (rule prod.exhaust)
  show ?case
  proof (cases "HasSuffix name ''Key''")
    case True
    with Cons show ?thesis by (simp add: x)
  next
    case False
    then have "gen_object name obj = Some []" by (simp add: gen_object_def)
    with Cons False show ?thesis by (simp add: x)
  qed
qed simp


lemmas fields_of_defs = message_fields_def ServiceAggregationKey_fields_of_def ServiceInstanceAggregationKey_fields_of_def
  ServiceTransactionAggregationKey_fields_of_def SpanAggregationKey_fields_of_def TransactionAggregationKey_fields_of_def

lemma handled_fields:
  "\<forall>x \<in> set ServiceAggregationKey_fields_of. Exported (fst x) \<longrightarrow> stmt_of x \<noteq> None"
  "\<forall>x \<in> set ServiceInstanceAggregationKey_fields_of. Exported (fst x) \<longrightarrow> stmt_of x \<noteq> None"
  "\<forall>x \<in> set ServiceTransactionAggregationKey_fields_of. Exported (fst x) \<longrightarrow> stmt_of x \<noteq> None"
  "\<forall>x \<in> set SpanAggregationKey_fields_of. Exported (fst x) \<longrightarrow> stmt_of x \<noteq> None"
  "\<forall>x \<in> set TransactionAggregationKey_fields_of. Exported (fst x) \<longrightarrow> stmt_of x \<noteq> None"
  by (simp_all add: fields_of_defs Exported_def)

lemma key_stmts:
  "stmts_of ServiceAggregationKey_fields_of =
     [S_Uint64 ''Timestamp'',
      S_String ''ServiceName'',
      S_String ''ServiceEnvironment'',
      S_String ''ServiceLanguageName'',
      S_String ''AgentName'']"
  "stmts_of ServiceInstanceAggregationKey_fields_of =
     [S_Bytes ''GlobalLabelsStr'']"
  "stmts_of ServiceTransactionAggregationKey_fields_of =
     [S_String ''TransactionType'']"
  "stmts_of SpanAggregationKey_fields_of =
     [S_String ''SpanName'',
      S_String ''Outcome'',
      S_String ''TargetType'',
      S_String ''TargetName'',
      S_String ''Resource'']"
  "stmts_of TransactionAggregationKey_fields_of =
     [S_Bool ''TraceRoot'',
      S_String ''ContainerId'',
      S_String ''KubernetesPodName'',
      S_String ''ServiceVersion'',
      S_String ''ServiceNodeName'',
      S_String ''ServiceRuntimeName'',
      S_String ''ServiceRuntimeVersion'',
      S_String ''ServiceLanguageVersion'',
      S_String ''HostHostname'',
      S_String ''HostName'',
      S_String ''HostOsPlatform'',
      S_String ''EventOutcome'',
      S_String ''TransactionName'',
      S_String ''TransactionType'',
      S_String ''TransactionResult'',
      S_Uint32 ''FaasColdstart'',
      S_String ''FaasId'',
      S_String ''FaasName'',
      S_String ''FaasVersion'',
      S_String ''FaasTriggerType'',
      S_String ''CloudProvider'',
      S_String ''CloudRegion'',
      S_String ''CloudAvailabilityZone'',
      S_String ''CloudServiceName'',
      S_String ''CloudAccountId'',
      S_String ''CloudAccountName'',
      S_String ''CloudMachineType'',
      S_String ''CloudProjectId'',
      S_String ''CloudProjectName'']"
  by (simp_all add: stmts_of_def fields_of_defs Exported_def List.map_filter_simps)

lemma gen_struct:
  assumes "HasSuffix name ''Key''" and "Exported name" and "\<forall>x \<in> set fs. Exported (fst x) \<longrightarrow> stmt_of x \<noteq> None"
  shows "gen_object name (TypeName (Some (Struct fs)))
    = Some ([''func Hash'' @ name @ ''(h xxhash.Digest, k *aggregationpb.'' @ name @ '') xxhash.Digest {'']
        @ List.concat (map print_stmt (stmts_of fs)) @ [tab # ''return h'', ''}'', []])"
  using assms by (simp add: gen_object_def gen_fields_print)

lemma gen_key_types: "gen_scope key_types = Some (drop (length gen_header) (generated_go @ [[]]))"
proof -
  have "HasSuffix name ''Key'' \<and> Exported name"
    if "name \<in> {''ServiceAggregationKey'', ''ServiceInstanceAggregationKey'', ''ServiceTransactionAggregationKey'',
        ''SpanAggregationKey'', ''TransactionAggregationKey''}" for name
    using that by (elim insertE emptyE; simp add: HasSuffix_def Exported_def)
  then show ?thesis
    by (simp add: key_types_def gen_struct handled_fields key_stmts gen_header_def generated_go_def)
qed

lemma exec_key_stmts:
  "exec_stmts X (ServiceAggregationKey_value sk) (stmts_of ServiceAggregationKey_fields_of) h
     = Some (HashServiceAggregationKey X h sk)"
  "exec_stmts X (ServiceInstanceAggregationKey_value sik) (stmts_of ServiceInstanceAggregationKey_fields_of) h
     = Some (HashServiceInstanceAggregationKey X h sik)"
  "exec_stmts X (ServiceTransactionAggregationKey_value stk) (stmts_of ServiceTransactionAggregationKey_fields_of) h
     = Some (HashServiceTransactionAggregationKey X h stk)"
  "exec_stmts X (SpanAggregationKey_value spk) (stmts_of SpanAggregationKey_fields_of) h
     = Some (HashSpanAggregationKey X h spk)"
  "exec_stmts X (TransactionAggregationKey_value tk) (stmts_of TransactionAggregationKey_fields_of) h
     = Some (HashTransactionAggregationKey X h tk)"
  unfolding key_stmts
  by (simp_all add: ServiceAggregationKey_value_def HashServiceAggregationKey_def ServiceInstanceAggregationKey_value_def
      HashServiceInstanceAggregationKey_def ServiceTransactionAggregationKey_value_def HashServiceTransactionAggregationKey_def
      SpanAggregationKey_value_def HashSpanAggregationKey_def TransactionAggregationKey_value_def HashTransactionAggregationKey_def Let_def)

lemma generated_parts: "gen_header @ drop (length gen_header) (generated_go @ [[]]) = generated_go @ [[]]"
proof -
  have "take (length gen_header) (generated_go @ [[]]) = gen_header" by (simp add: gen_header_def generated_go_def)
  then show ?thesis using append_take_drop_id [of "length gen_header" "generated_go @ [[]]"] by argo
qed

text \<open>
  C39. Run on a package whose types with a name in \<^verbatim>\<open>Key\<close> are the five key types, the generator writes the
  file \<^verbatim>\<open>generated.go\<close>, line by line, up to an empty line at its end. The bodies it prints are the statements
  of the exported fields, in their order, and executing the statements of a key type computes its hash
  function: no field of a key is left out of its hash.
\<close>

theorem hash_functions_generated:
  assumes "filter (\<lambda>(name, obj). HasSuffix name ''Key'') scope = key_types"
  shows "gen_main (Inr (scope # pkgs)) (Inr () :: 'e + unit) = Some (Inr (generated_go @ [[]]))
    \<and> gen_fields TransactionAggregationKey_fields_of
        = Some (List.concat (map print_stmt (stmts_of TransactionAggregationKey_fields_of)))
    \<and> exec_stmts X (TransactionAggregationKey_value tk) (stmts_of TransactionAggregationKey_fields_of) h
        = Some (HashTransactionAggregationKey X h tk)
    \<and> exec_stmts X (ServiceTransactionAggregationKey_value stk) (stmts_of ServiceTransactionAggregationKey_fields_of) h
        = Some (HashServiceTransactionAggregationKey X h stk)
    \<and> exec_stmts X (SpanAggregationKey_value spk) (stmts_of SpanAggregationKey_fields_of) h
        = Some (HashSpanAggregationKey X h spk)
    \<and> exec_stmts X (ServiceAggregationKey_value sk) (stmts_of ServiceAggregationKey_fields_of) h
        = Some (HashServiceAggregationKey X h sk)
    \<and> exec_stmts X (ServiceInstanceAggregationKey_value sik) (stmts_of ServiceInstanceAggregationKey_fields_of) h
        = Some (HashServiceInstanceAggregationKey X h sik)"
proof (intro conjI exec_key_stmts gen_fields_print handled_fields)
  have "gen_scope scope = Some (drop (length gen_header) (generated_go @ [[]]))"
    using gen_scope_filter [of scope] gen_key_types by (simp add: assms)
  then show "gen_main (Inr (scope # pkgs)) (Inr () :: 'e + unit) = Some (Inr (generated_go @ [[]]))"
    by (simp add: gen_main_def index_at_def generated_parts del: drop_append)
qed

theorem hash_functions_generated_witness:
  "gen_main (Inr [(''CombinedMetrics'', TypeName (Some (Struct message_fields))) # key_types @ [(''fileInit'', OtherObject)]])
     (Inr () :: unit + unit) = Some (Inr (generated_go @ [[]]))"
proof -
  have "filter (\<lambda>(name, obj). HasSuffix name ''Key'')
      ((''CombinedMetrics'', TypeName (Some (Struct message_fields))) # key_types @ [(''fileInit'', OtherObject)]) = key_types"
    by (simp add: HasSuffix_def key_types_def)
  then show ?thesis by (rule hash_functions_generated [THEN conjunct1])
qed

end
