(* ===== verification/LabelPool.thy ===== *)
theory LabelPool
  imports GlobalLabels
begin

text \<open>
  The pooled messages of the labels with their memory: \<^verbatim>\<open>sync.Pool\<close> hands out \<^verbatim>\<open>GlobalLabels\<close> messages
  that were used before, \<^verbatim>\<open>ResetVT\<close> of \<^verbatim>\<open>aggregationpb/labels_vtproto.pb.go\<close> keeps the arrays behind
  their slices, and \<^verbatim>\<open>FromProto\<close> and \<^verbatim>\<open>marshalEventGlobalLabels\<close> pass on slices instead of copies. Here the
  arrays are in an explicit store, and the decoders, the reset and both users of the pool work on it. For
  a message that the pool may hand out, decoding computes what theory \<open>GlobalLabels\<close> says; but the labels
  that it returns change when the message is used again.
\<close>

section \<open>Slices\<close>

text \<open>
  The store is the list of arrays, an address is a position in it. All slices of this code begin at the
  start of their array; the length of the array is their capacity. \<^term>\<open>None\<close> is the nil slice.
\<close>

type_synonym 'a arrays = "'a list list"

record slice =
  sl_arr :: nat
  sl_len :: nat

definition contents :: "'a arrays \<Rightarrow> slice option \<Rightarrow> 'a list" where
  "contents h s = (case s of None \<Rightarrow> [] | Some s \<Rightarrow> take (sl_len s) (h ! sl_arr s))"

definition slice_ok :: "'a arrays \<Rightarrow> slice option \<Rightarrow> bool" where
  "slice_ok h s \<longleftrightarrow>
     (case s of None \<Rightarrow> True | Some s \<Rightarrow> sl_arr s < length h \<and> sl_len s \<le> length (h ! sl_arr s))"

definition addrs :: "slice option \<Rightarrow> nat list" where
  "addrs s = (case s of None \<Rightarrow> [] | Some s \<Rightarrow> [sl_arr s])"

text \<open>\<^verbatim>\<open>s[:0]\<close>\<close>

definition empty_slice :: "slice option \<Rightarrow> slice option" where
  "empty_slice s = map_option (\<lambda>s. s\<lparr>sl_len := 0\<rparr>) s"

text \<open>
  \<^verbatim>\<open>append\<close> writes behind the last element when the array has room, and copies to a new array when it
  has not. How much room a new array has is up to the runtime: \<open>G n\<close> elements more than the \<open>n\<close> that are needed,
  which are zero values \<open>z\<close>.
\<close>

definition go_append :: "(nat \<Rightarrow> nat) \<Rightarrow> 'a \<Rightarrow> 'a arrays \<Rightarrow> slice option \<Rightarrow> 'a \<Rightarrow> 'a arrays \<times> slice option" where
  "go_append G z h s x =
     (case s of
        None \<Rightarrow> (h @ [x # replicate (G 1) z], Some \<lparr>sl_arr = length h, sl_len = 1\<rparr>)
      | Some s \<Rightarrow>
          (let a = h ! sl_arr s; n = sl_len s
           in if n < length a then (h[sl_arr s := a[n := x]], Some (s\<lparr>sl_len := n + 1\<rparr>))
              else (h @ [take n a @ x # replicate (G (n + 1)) z], Some \<lparr>sl_arr = length h, sl_len = n + 1\<rparr>)))"

text \<open>\<open>h'\<close> is a later store in which of the earlier arrays only those at \<open>A\<close> have been written.\<close>

definition writes_only :: "nat set \<Rightarrow> 'a arrays \<Rightarrow> 'a arrays \<Rightarrow> bool" where
  "writes_only A h h' \<longleftrightarrow> length h \<le> length h' \<and>
     (\<forall>a < length h. length (h' ! a) = length (h ! a) \<and> (a \<notin> A \<longrightarrow> h' ! a = h ! a))"

lemma writes_only_refl [simp]: "writes_only A h h"
  by (simp add: writes_only_def)

lemma writes_only_trans:
  assumes "writes_only A h h'" and "writes_only B h' h''" and "B \<subseteq> A \<union> {length h..}"
  shows "writes_only A h h''"
  unfolding writes_only_def
proof (intro conjI allI impI)
  show "length h \<le> length h''" using assms(1,2) by (simp add: writes_only_def)
next
  fix a assume a: "a < length h"
  then show "length (h'' ! a) = length (h ! a)" using assms(1,2) by (simp add: writes_only_def)
  show "h'' ! a = h ! a" if "a \<notin> A"
  proof -
    have "a \<notin> B" using that a assms(3) by auto
    then show ?thesis using that a assms(1,2) by (simp add: writes_only_def)
  qed
qed

lemma writes_only_mono: "writes_only A h h' \<Longrightarrow> A \<subseteq> B \<Longrightarrow> writes_only B h h'"
  by (auto simp: writes_only_def)

lemma writes_only_slice:
  assumes "writes_only A h h'" and "slice_ok h s"
  shows "slice_ok h' s" and "set (addrs s) \<inter> A = {} \<Longrightarrow> contents h' s = contents h s"
  using assms by (auto simp: writes_only_def slice_ok_def contents_def addrs_def split: option.splits)

lemma addrs_bound: "slice_ok h s \<Longrightarrow> set (addrs s) \<subseteq> {..<length h}"
  by (auto simp: slice_ok_def addrs_def split: option.splits)

lemma empty_slice_simps [simp]:
  "contents h (empty_slice s) = []" "addrs (empty_slice s) = addrs s" "slice_ok h s \<Longrightarrow> slice_ok h (empty_slice s)"
  "contents h None = []" "addrs None = []" "slice_ok h None"
  by (cases s; simp add: contents_def addrs_def slice_ok_def empty_slice_def)+

text \<open>Appending appends, and writes to the array of the slice only.\<close>

lemma go_append_spec:
  assumes "slice_ok h s" and "go_append G z h s x = (h', s')"
  shows "contents h' s' = contents h s @ [x]" and "slice_ok h' s'"
    and "writes_only (set (addrs s)) h h'" and "set (addrs s') \<subseteq> set (addrs s) \<union> {length h..}"
  using assms
  by (auto simp: go_append_def contents_def slice_ok_def addrs_def writes_only_def Let_def nth_append nth_list_update
      take_Suc_conv_app_nth split: option.splits if_splits)

section \<open>Labels\<close>

record label_obj =
  lo_Key :: string
  lo_Value :: string
  lo_Values :: "slice option"

record numlabel_obj =
  no_Key :: string
  no_Value :: float64
  no_Values :: "slice option"

definition new_label :: label_obj where
  "new_label = \<lparr>lo_Key = [], lo_Value = [], lo_Values = None\<rparr>"

definition new_numlabel :: numlabel_obj where
  "new_numlabel = \<lparr>no_Key = [], no_Value = Fin 0, no_Values = None\<rparr>"

text \<open>The message that an object is, in a store.\<close>

definition label_at :: "string arrays \<Rightarrow> label_obj \<Rightarrow> Label" where
  "label_at h m = \<lparr>lb_Key = lo_Key m, lb_Value = lo_Value m, lb_Values = contents h (lo_Values m)\<rparr>"

definition numlabel_at :: "float64 arrays \<Rightarrow> numlabel_obj \<Rightarrow> NumericLabel" where
  "numlabel_at h m = \<lparr>nl_Key = no_Key m, nl_Value = no_Value m, nl_Values = contents h (no_Values m)\<rparr>"

definition Label_ResetVT :: "label_obj \<Rightarrow> label_obj" where
  "Label_ResetVT m = (let f0 = empty_slice (lo_Values m) in new_label\<lparr>lo_Values := f0\<rparr>)"

definition NumericLabel_ResetVT :: "numlabel_obj \<Rightarrow> numlabel_obj" where
  "NumericLabel_ResetVT m = (let f0 = empty_slice (no_Values m) in new_numlabel\<lparr>no_Values := f0\<rparr>)"

text \<open>The decoders: \<^verbatim>\<open>UnmarshalVT\<close> on an object and the store.\<close>

definition Label_fields_h ::
  "(nat \<Rightarrow> nat) \<Rightarrow> nat \<Rightarrow> int \<Rightarrow> int \<Rightarrow> bytes \<Rightarrow> string arrays \<times> label_obj
   \<Rightarrow> (wire_error + ((string arrays \<times> label_obj) \<times> bytes)) option" where
  "Label_fields_h G l fieldNum w bs hm =
     (let (h, m) = hm
      in if fieldNum = 1 then Some (rd_bytes l w bs (\<lambda>v. (h, m\<lparr>lo_Key := string_of_bytes v\<rparr>)))
         else if fieldNum = 2 then Some (rd_bytes l w bs (\<lambda>v. (h, m\<lparr>lo_Value := string_of_bytes v\<rparr>)))
         else if fieldNum = 3 then
           Some (rd_bytes l w bs (\<lambda>v. let (h', s) = go_append G [] h (lo_Values m) (string_of_bytes v)
                                      in (h', m\<lparr>lo_Values := s\<rparr>)))
         else None)"

definition Label_UnmarshalVT_h ::
  "(nat \<Rightarrow> nat) \<Rightarrow> bytes \<Rightarrow> string arrays \<times> label_obj \<Rightarrow> wire_error + (string arrays \<times> label_obj)" where
  "Label_UnmarshalVT_h G dAtA hm = unmarshal (length dAtA) (Label_fields_h G (length dAtA)) dAtA hm"

text \<open>A packed field that finds no elements makes room for all that it announces first.\<close>

definition reserve :: "float64 arrays \<Rightarrow> slice option \<Rightarrow> nat \<Rightarrow> float64 arrays \<times> slice option" where
  "reserve h s elementCount =
     (let n = (case s of None \<Rightarrow> 0 | Some s \<Rightarrow> sl_len s);
          cap = (case s of None \<Rightarrow> 0 | Some s \<Rightarrow> length (h ! sl_arr s))
      in if elementCount \<noteq> 0 \<and> n = 0 \<and> cap < elementCount
         then (h @ [replicate elementCount (Fin 0)], Some \<lparr>sl_arr = length h, sl_len = 0\<rparr>)
         else (h, s))"

function packed_doubles_h ::
  "(nat \<Rightarrow> nat) \<Rightarrow> nat \<Rightarrow> bytes \<Rightarrow> float64 arrays \<times> slice option
   \<Rightarrow> wire_error + ((float64 arrays \<times> slice option) \<times> bytes)" where
  "packed_doubles_h G stop bs hs =
     (if length bs > stop
      then if length bs < 8 then Inl ErrUnexpectedEOF
           else packed_doubles_h G stop (drop 8 bs)
                  (go_append G (Fin 0) (fst hs) (snd hs) (Float64frombits (Uint64_LE bs)))
      else Inr (hs, bs))"
  by pat_completeness auto
termination
  by (relation "measure (\<lambda>(G, stop, bs, hs). length bs)") auto

declare packed_doubles_h.simps [simp del]

definition rd_packed_double_h ::
  "(nat \<Rightarrow> nat) \<Rightarrow> nat \<Rightarrow> int \<Rightarrow> bytes \<Rightarrow> float64 arrays \<times> slice option
   \<Rightarrow> (float64 arrays \<times> slice option \<Rightarrow> 'm) \<Rightarrow> wire_error + ('m \<times> bytes)" where
  "rd_packed_double_h G l wireType bs old f =
     (if wireType = 1 then
        (if length bs < 8 then Inl ErrUnexpectedEOF
         else Inr (f (go_append G (Fin 0) (fst old) (snd old) (Float64frombits (Uint64_LE bs))), drop 8 bs))
      else if wireType = 2 then
        (case dec_varint 0 (0 :: int64) bs of
           Inl e \<Rightarrow> Inl e
         | Inr (len, rest) \<Rightarrow>
             if sint len < 0 \<or> int (l - length rest) + sint len \<ge> 2 ^ 63 then Inl ErrInvalidLength
             else if sint len > int (length rest) then Inl ErrUnexpectedEOF
             else case packed_doubles_h G (length rest - unat len) rest (reserve (fst old) (snd old) (unat len div 8)) of
                    Inl e \<Rightarrow> Inl e | Inr (hs, rest) \<Rightarrow> Inr (f hs, rest))
      else Inl (WrongWireType wireType))"

definition NumericLabel_fields_h ::
  "(nat \<Rightarrow> nat) \<Rightarrow> nat \<Rightarrow> int \<Rightarrow> int \<Rightarrow> bytes \<Rightarrow> float64 arrays \<times> numlabel_obj
   \<Rightarrow> (wire_error + ((float64 arrays \<times> numlabel_obj) \<times> bytes)) option" where
  "NumericLabel_fields_h G l fieldNum w bs hm =
     (let (h, m) = hm
      in if fieldNum = 1 then Some (rd_bytes l w bs (\<lambda>v. (h, m\<lparr>no_Key := string_of_bytes v\<rparr>)))
         else if fieldNum = 2 then Some (rd_double w bs (\<lambda>v. (h, m\<lparr>no_Value := v\<rparr>)))
         else if fieldNum = 3 then
           Some (rd_packed_double_h G l w bs (h, no_Values m) (\<lambda>(h', s). (h', m\<lparr>no_Values := s\<rparr>)))
         else None)"

definition NumericLabel_UnmarshalVT_h ::
  "(nat \<Rightarrow> nat) \<Rightarrow> bytes \<Rightarrow> float64 arrays \<times> numlabel_obj \<Rightarrow> wire_error + (float64 arrays \<times> numlabel_obj)" where
  "NumericLabel_UnmarshalVT_h G dAtA hm =
     unmarshal (length dAtA) (NumericLabel_fields_h G (length dAtA)) dAtA hm"

section \<open>The pooled message\<close>

text \<open>
  The slice of pointers to the labels, owned by the message alone: the objects up to its length, and those
  in the room behind, where \<^term>\<open>None\<close> is a nil pointer.
\<close>

record 'l pointers =
  vis :: "'l list"
  spare :: "'l option list"

record globalLabels_obj =
  go_Labels :: "label_obj pointers"
  go_NumericLabels :: "numlabel_obj pointers"

record label_store =
  strs :: "string arrays"
  flts :: "float64 arrays"

definition new_globalLabels :: globalLabels_obj where
  "new_globalLabels = \<lparr>go_Labels = \<lparr>vis = [], spare = []\<rparr>, go_NumericLabels = \<lparr>vis = [], spare = []\<rparr>\<rparr>"

text \<open>Extending the slice by one: the object that is found there or a new one, and the room that is left.\<close>

definition next_slot :: "(nat \<Rightarrow> nat) \<Rightarrow> 'l \<Rightarrow> 'l pointers \<Rightarrow> 'l \<times> 'l option list" where
  "next_slot G zero p =
     (case spare p of
        [] \<Rightarrow> (zero, replicate (G (length (vis p) + 1)) None)
      | x # xs \<Rightarrow> ((case x of None \<Rightarrow> zero | Some l \<Rightarrow> l), xs))"

definition reset_all :: "('l \<Rightarrow> 'l) \<Rightarrow> 'l pointers \<Rightarrow> 'l pointers" where
  "reset_all reset p = \<lparr>vis = [], spare = map (Some \<circ> reset) (vis p) @ spare p\<rparr>"

definition GlobalLabels_ResetVT :: "globalLabels_obj \<Rightarrow> globalLabels_obj" where
  "GlobalLabels_ResetVT m =
     \<lparr>go_Labels = reset_all Label_ResetVT (go_Labels m),
      go_NumericLabels = reset_all NumericLabel_ResetVT (go_NumericLabels m)\<rparr>"

definition GlobalLabels_fields_h ::
  "(nat \<Rightarrow> nat) \<Rightarrow> nat \<Rightarrow> int \<Rightarrow> int \<Rightarrow> bytes \<Rightarrow> label_store \<times> globalLabels_obj
   \<Rightarrow> (wire_error + ((label_store \<times> globalLabels_obj) \<times> bytes)) option" where
  "GlobalLabels_fields_h G l fieldNum w bs hm =
     (let (h, m) = hm
      in if fieldNum = 1 then
           (let (x, rest) = next_slot G new_label (go_Labels m)
            in Some (rd_msg l w bs (\<lambda>b. Label_UnmarshalVT_h G b (strs h, x))
                 (\<lambda>(a, x). (h\<lparr>strs := a\<rparr>, m\<lparr>go_Labels := \<lparr>vis = vis (go_Labels m) @ [x], spare = rest\<rparr>\<rparr>))))
         else if fieldNum = 2 then
           (let (x, rest) = next_slot G new_numlabel (go_NumericLabels m)
            in Some (rd_msg l w bs (\<lambda>b. NumericLabel_UnmarshalVT_h G b (flts h, x))
                 (\<lambda>(a, x). (h\<lparr>flts := a\<rparr>,
                            m\<lparr>go_NumericLabels := \<lparr>vis = vis (go_NumericLabels m) @ [x], spare = rest\<rparr>\<rparr>))))
         else None)"

definition GlobalLabels_UnmarshalVT_h ::
  "(nat \<Rightarrow> nat) \<Rightarrow> bytes \<Rightarrow> label_store \<times> globalLabels_obj \<Rightarrow> wire_error + (label_store \<times> globalLabels_obj)" where
  "GlobalLabels_UnmarshalVT_h G dAtA hm =
     unmarshal (length dAtA) (GlobalLabels_fields_h G (length dAtA)) dAtA hm"

section \<open>The users of the pool\<close>

text \<open>\<^verbatim>\<open>LabelValue\<close>, \<^verbatim>\<open>NumericLabelValue\<close> and \<^verbatim>\<open>GlobalLabels\<close> of the caller, with slices of the store.\<close>

record label_ref =
  lr_Value :: string
  lr_Values :: "slice option"
  lr_Global :: bool

record numlabel_ref =
  nr_Value :: float64
  nr_Values :: "slice option"
  nr_Global :: bool

record labels_ref =
  lrs_Labels :: "(string, label_ref) gomap option"
  lrs_NumericLabels :: "(string, numlabel_ref) gomap option"

definition value_at :: "string arrays \<Rightarrow> label_ref \<Rightarrow> LabelValue" where
  "value_at h v = \<lparr>lv_Value = lr_Value v, lv_Values = contents h (lr_Values v), lv_Global = lr_Global v\<rparr>"

definition numvalue_at :: "float64 arrays \<Rightarrow> numlabel_ref \<Rightarrow> NumericLabelValue" where
  "numvalue_at h v = \<lparr>nlv_Value = nr_Value v, nlv_Values = contents h (nr_Values v), nlv_Global = nr_Global v\<rparr>"

definition labels_at :: "label_store \<Rightarrow> labels_ref \<Rightarrow> globalLabels" where
  "labels_at h gl =
     \<lparr>gls_Labels = map_option (map (apsnd (value_at (strs h)))) (lrs_Labels gl),
      gls_NumericLabels = map_option (map (apsnd (numvalue_at (flts h)))) (lrs_NumericLabels gl)\<rparr>"

definition GlobalLabels_FromProto_h :: "globalLabels_obj \<Rightarrow> labels_ref" where
  "GlobalLabels_FromProto_h pb =
     \<lparr>lrs_Labels = Some (fold (\<lambda>l m. gm_put m (lo_Key l)
        \<lparr>lr_Value = lo_Value l, lr_Values = lo_Values l, lr_Global = True\<rparr>) (vis (go_Labels pb)) []),
      lrs_NumericLabels = Some (fold (\<lambda>l m. gm_put m (no_Key l)
        \<lparr>nr_Value = no_Value l, nr_Values = no_Values l, nr_Global = True\<rparr>) (vis (go_NumericLabels pb)) [])\<rparr>"

text \<open>
  \<^verbatim>\<open>UnmarshalBinary\<close> with the message that the pool hands out: the store, the message that goes back to
  the pool, and the labels. What a decoder leaves behind when it fails is not followed.
\<close>

definition GlobalLabels_UnmarshalBinary_h ::
  "(nat \<Rightarrow> nat) \<Rightarrow> bytes \<Rightarrow> label_store \<times> globalLabels_obj
   \<Rightarrow> wire_error + (label_store \<times> globalLabels_obj \<times> labels_ref)" where
  "GlobalLabels_UnmarshalBinary_h G data hm =
     (if length data = 0 then Inr (fst hm, snd hm, \<lparr>lrs_Labels = None, lrs_NumericLabels = None\<rparr>)
      else case GlobalLabels_UnmarshalVT_h G data hm of
             Inl e \<Rightarrow> Inl e
           | Inr (h, pb) \<Rightarrow> Inr (h, GlobalLabels_ResetVT pb, GlobalLabels_FromProto_h pb))"

text \<open>
  \<^verbatim>\<open>marshalEventGlobalLabels\<close>: the objects of the message are pointed to the slices of the event's labels.
  The arrays are only read.
\<close>

definition push_label :: "(nat \<Rightarrow> nat) \<Rightarrow> string \<times> label_ref \<Rightarrow> label_obj pointers \<Rightarrow> label_obj pointers" where
  "push_label G kv p =
     (let (x, rest) = next_slot G new_label p
      in \<lparr>vis = vis p @ [x\<lparr>lo_Key := fst kv, lo_Value := lr_Value (snd kv), lo_Values := lr_Values (snd kv)\<rparr>],
          spare = rest\<rparr>)"

definition push_numlabel ::
  "(nat \<Rightarrow> nat) \<Rightarrow> string \<times> numlabel_ref \<Rightarrow> numlabel_obj pointers \<Rightarrow> numlabel_obj pointers" where
  "push_numlabel G kv p =
     (let (x, rest) = next_slot G new_numlabel p
      in \<lparr>vis = vis p @ [x\<lparr>no_Key := fst kv, no_Value := nr_Value (snd kv), no_Values := nr_Values (snd kv)\<rparr>],
          spare = rest\<rparr>)"

definition message_at :: "label_store \<Rightarrow> globalLabels_obj \<Rightarrow> GlobalLabels" where
  "message_at h pb =
     \<lparr>gl_Labels = map (label_at (strs h)) (vis (go_Labels pb)),
      gl_NumericLabels = map (numlabel_at (flts h)) (vis (go_NumericLabels pb))\<rparr>"

definition marshalEventGlobalLabels_h ::
  "(nat \<Rightarrow> nat) \<Rightarrow> labels_ref \<Rightarrow> label_store \<times> globalLabels_obj \<Rightarrow> bytes option \<times> globalLabels_obj" where
  "marshalEventGlobalLabels_h G e hm =
     (let (h, pb) = hm
      in if entries (lrs_Labels e) = [] \<and> entries (lrs_NumericLabels e) = [] then (Some [], pb)
         else let ls = filter (lr_Global \<circ> snd) (entries (lrs_Labels e));
                  ns = filter (nr_Global \<circ> snd) (entries (lrs_NumericLabels e))
              in if ls = [] \<and> ns = [] then (Some [], pb)
                 else let lp = fold (push_label G) ls (go_Labels pb);
                          np = fold (push_numlabel G) ns (go_NumericLabels pb);
                          pb' = \<lparr>go_Labels = lp\<lparr>vis := sort_key lo_Key (vis lp)\<rparr>,
                                 go_NumericLabels = np\<lparr>vis := sort_key no_Key (vis np)\<rparr>\<rparr>
                      in (MarshalVT GlobalLabels_SizeVT GlobalLabels_MarshalToSizedBufferVT (message_at h pb'),
                          GlobalLabels_ResetVT pb'))"

section \<open>Decoding one object\<close>

text \<open>Two decoders whose switches agree up to a relation of their states agree up to it.\<close>

lemma unmarshal_rel:
  assumes F: "\<And>n w bs m m'. R m m' \<Longrightarrow> rel_option (rel_sum (=) (rel_prod R (=))) (F n w bs m) (F' n w bs m')"
    and "R m m'"
  shows "rel_sum (=) R (unmarshal l F bs m) (unmarshal l F' bs m')"
  using assms(2)
proof (induction "length bs" arbitrary: bs m m' rule: less_induct)
  case less
  show ?case
  proof (cases "bs = []")
    case True
    then show ?thesis using less.prems by (simp add: unmarshal.simps)
  next
    case ne: False
    show ?thesis
    proof (cases "dec_varint 0 (0 :: uint64) bs")
      case (Inl e)
      then show ?thesis using ne by (simp add: unmarshal.simps [of l _ bs])
    next
      case (Inr wr)
      obtain wire rest where wr: "wr = (wire, rest)" by force
      let ?n = "sint (ucast (drop_bit 3 wire) :: int32)" and ?w = "uint (wire AND 0x7)"
      have step: "rel_option (rel_sum (=) (rel_prod R (=))) (F ?n ?w rest m) (F' ?n ?w rest m')"
        using F less.prems by blast
      have more: "rel_sum (=) R (unmarshal l F bs' a) (unmarshal l F' bs' b)" if "length bs' < length bs" "R a b" for bs' a b
        using less.hyps that by blast
      have skipped: "length (drop k bs) < length bs" if "k \<noteq> 0" for k using ne that by (cases bs) auto
      show ?thesis
        using step ne Inr wr less.prems
        by (subst (1 2) unmarshal.simps)
          (auto simp: Let_def option_rel_Some1 more skipped split: sum.splits option.splits
            elim!: rel_sum.cases option.rel_cases intro!: more)
    qed
  qed
qed

text \<open>What decoding into an object has done since the store was \<open>h0\<close> and the object had the arrays \<open>A\<close>.\<close>

definition decoded ::
  "('l \<Rightarrow> slice option) \<Rightarrow> ('a arrays \<Rightarrow> 'l \<Rightarrow> 'v) \<Rightarrow> nat set \<Rightarrow> 'a arrays \<Rightarrow> 'a arrays \<times> 'l \<Rightarrow> 'v \<Rightarrow> bool" where
  "decoded sl rd A h0 hm v \<longleftrightarrow> rd (fst hm) (snd hm) = v \<and> slice_ok (fst hm) (sl (snd hm))
     \<and> set (addrs (sl (snd hm))) \<subseteq> A \<union> {length h0..} \<and> writes_only A h0 (fst hm)"

lemma decoded_append:
  assumes "decoded sl rd A h0 (h, m) v" and "go_append G z h (sl m) x = (h', s)"
    and "sl m' = s" and "rd h' m' = v'"
  shows "decoded sl rd A h0 (h', m') v'"
proof -
  have ok: "slice_ok h (sl m)" and w: "writes_only A h0 h" and a: "set (addrs (sl m)) \<subseteq> A \<union> {length h0..}"
    using assms(1) by (auto simp: decoded_def)
  note ap = go_append_spec [OF ok assms(2)]
  have "length h0 \<le> length h" using w by (simp add: writes_only_def)
  then have "set (addrs s) \<subseteq> A \<union> {length h0..}" using ap(4) a by fastforce
  then show ?thesis using ap(2) assms(3,4) writes_only_trans [OF w ap(3) a] by (simp add: decoded_def)
qed

lemma rel_rd_bytes:
  "(\<And>v. R (f v) (f' v)) \<Longrightarrow> rel_sum (=) (rel_prod R (=)) (rd_bytes l w bs f) (rd_bytes l w bs f')"
  by (auto simp: rd_bytes_def split: sum.splits)

lemma Label_fields_rel:
  assumes "decoded lo_Values label_at A h0 hm v"
  shows "rel_option (rel_sum (=) (rel_prod (decoded lo_Values label_at A h0) (=)))
    (Label_fields_h G l n w bs hm) (Label_fields l n w bs v)"
proof -
  obtain h m where hm: "hm = (h, m)" by force
  have ok: "slice_ok h (lo_Values m)" and v: "label_at h m = v" using assms hm by (auto simp: decoded_def)
  have key: "decoded lo_Values label_at A h0 (h, m\<lparr>lo_Key := x\<rparr>) (v\<lparr>lb_Key := x\<rparr>)"
    and val: "decoded lo_Values label_at A h0 (h, m\<lparr>lo_Value := x\<rparr>) (v\<lparr>lb_Value := x\<rparr>)" for x
    using assms hm by (auto simp: decoded_def label_at_def)
  have app: "decoded lo_Values label_at A h0 (h', m\<lparr>lo_Values := s\<rparr>) (v\<lparr>lb_Values := lb_Values v @ [x]\<rparr>)"
    if "go_append G [] h (lo_Values m) x = (h', s)" for h' s x
    by (rule decoded_append [OF assms [unfolded hm] that]) (use v go_append_spec(1) [OF ok that] in \<open>auto simp: label_at_def\<close>)
  show ?thesis
    by (auto simp: hm Label_fields_h_def Label_fields_def key val intro!: rel_rd_bytes split: prod.splits intro: app)
qed

lemma Label_UnmarshalVT_rel:
  assumes "slice_ok h (lo_Values m)"
  shows "rel_sum (=) (decoded lo_Values label_at (set (addrs (lo_Values m))) h)
    (Label_UnmarshalVT_h G b (h, m)) (Label_UnmarshalVT b (label_at h m))"
  unfolding Label_UnmarshalVT_h_def Label_UnmarshalVT_def
  by (rule unmarshal_rel [OF Label_fields_rel]) (use assms in \<open>auto simp: decoded_def\<close>)

text \<open>The packed field of a numeric label.\<close>

lemma packed_doubles_rel:
  assumes "decoded (\<lambda>s. s) contents A h0 hs vs"
  shows "rel_sum (=) (rel_prod (decoded (\<lambda>s. s) contents A h0) (=)) (packed_doubles_h G stop bs hs) (packed_doubles stop bs vs)"
  using assms
proof (induction G stop bs hs arbitrary: vs rule: packed_doubles_h.induct)
  case (1 G stop bs hs)
  obtain h s where hs: "hs = (h, s)" by force
  obtain h' s' where g: "go_append G (Fin 0) h s (Float64frombits (Uint64_LE bs)) = (h', s')" by force
  have ok: "slice_ok h s" and vs: "contents h s = vs" using "1.prems" hs by (auto simp: decoded_def)
  have "decoded (\<lambda>s. s) contents A h0 (h', s') (vs @ [Float64frombits (Uint64_LE bs)])"
    by (rule decoded_append [where sl = "\<lambda>s. s", OF "1.prems" [unfolded hs]])
      (use g go_append_spec(1) [OF ok g] vs in auto)
  then show ?case
    using "1.IH" "1.prems" hs g
    by (subst packed_doubles_h.simps, subst packed_doubles.simps) auto
qed

lemma reserve_rel:
  assumes "decoded (\<lambda>s. s) contents A h0 (h, s) vs"
  shows "decoded (\<lambda>s. s) contents A h0 (reserve h s n) vs"
proof -
  have "writes_only A h0 (h @ [replicate n (Fin 0)])"
    using assms by (auto simp: decoded_def writes_only_def nth_append)
  moreover have "length h0 \<le> length h" using assms by (simp add: decoded_def writes_only_def)
  ultimately show ?thesis
    using assms by (auto simp: decoded_def reserve_def Let_def contents_def slice_ok_def addrs_def split: option.splits)
qed

lemma rd_packed_double_rel:
  assumes "decoded (\<lambda>s. s) contents A h0 hs vs"
    and f: "\<And>hs vs. decoded (\<lambda>s. s) contents A h0 hs vs \<Longrightarrow> R (f hs) (f' vs)"
  shows "rel_sum (=) (rel_prod R (=)) (rd_packed_double_h G l w bs hs f) (rd_packed_double l w bs vs f')"
proof -
  obtain h s where hs: "hs = (h, s)" by force
  have one: "R (f (go_append G (Fin 0) h s x)) (f' (vs @ [x]))" for x
  proof (cases "go_append G (Fin 0) h s x")
    case (Pair h' s')
    have "contents h s = vs" "slice_ok h s" using assms(1) hs by (auto simp: decoded_def)
    with Pair show ?thesis
      by (auto intro!: f decoded_append [where sl = "\<lambda>s. s", OF assms(1) [unfolded hs]] dest: go_append_spec(1))
  qed
  have all: "rel_sum (=) (rel_prod (decoded (\<lambda>s. s) contents A h0) (=))
      (packed_doubles_h G stop bs (reserve h s n)) (packed_doubles stop bs vs)" for stop bs n
    using packed_doubles_rel reserve_rel assms(1) hs by blast
  have many: "rel_sum (=) (rel_prod R (=))
      (case packed_doubles_h G stop bs (reserve h s n) of Inl e \<Rightarrow> Inl e | Inr (hs, rest) \<Rightarrow> Inr (f hs, rest))
      (case packed_doubles stop bs vs of Inl e \<Rightarrow> Inl e | Inr (vs, rest) \<Rightarrow> Inr (f' vs, rest))" for stop bs n
    using all [of stop bs n] by (cases rule: rel_sum.cases) (auto intro: f)
  show ?thesis
    by (cases "dec_varint 0 (0 :: int64) bs")
      (auto simp: hs rd_packed_double_h_def rd_packed_double_def one many simp del: of_nat_diff)
qed

lemma NumericLabel_fields_rel:
  assumes "decoded no_Values numlabel_at A h0 hm v"
  shows "rel_option (rel_sum (=) (rel_prod (decoded no_Values numlabel_at A h0) (=)))
    (NumericLabel_fields_h G l n w bs hm) (NumericLabel_fields l n w bs v)"
proof -
  obtain h m where hm: "hm = (h, m)" by force
  have key: "decoded no_Values numlabel_at A h0 (h, m\<lparr>no_Key := x\<rparr>) (v\<lparr>nl_Key := x\<rparr>)"
    and val: "decoded no_Values numlabel_at A h0 (h, m\<lparr>no_Value := y\<rparr>) (v\<lparr>nl_Value := y\<rparr>)" for x y
    using assms hm by (auto simp: decoded_def numlabel_at_def)
  have start: "decoded (\<lambda>s. s) contents A h0 (h, no_Values m) (nl_Values v)"
    using assms hm by (auto simp: decoded_def numlabel_at_def)
  have stop: "decoded no_Values numlabel_at A h0 (h', m\<lparr>no_Values := s\<rparr>) (v\<lparr>nl_Values := vs\<rparr>)"
    if "decoded (\<lambda>s. s) contents A h0 (h', s) vs" for h' s vs
    using assms that hm by (auto simp: decoded_def numlabel_at_def)
  show ?thesis
    by (auto simp: hm NumericLabel_fields_h_def NumericLabel_fields_def rd_double_def key val
        intro!: rel_rd_bytes rd_packed_double_rel [OF start] stop)
qed

lemma NumericLabel_UnmarshalVT_rel:
  assumes "slice_ok h (no_Values m)"
  shows "rel_sum (=) (decoded no_Values numlabel_at (set (addrs (no_Values m))) h)
    (NumericLabel_UnmarshalVT_h G b (h, m)) (NumericLabel_UnmarshalVT b (numlabel_at h m))"
  unfolding NumericLabel_UnmarshalVT_h_def NumericLabel_UnmarshalVT_def
  by (rule unmarshal_rel [OF NumericLabel_fields_rel]) (use assms in \<open>auto simp: decoded_def\<close>)

section \<open>Decoding into the objects of a message\<close>

text \<open>The objects behind the end, all objects, and the arrays that they own.\<close>

definition objects :: "'l option list \<Rightarrow> 'l list" where
  "objects xs = concat (map (case_option [] (\<lambda>l. [l])) xs)"

definition slot_addrs :: "('l \<Rightarrow> slice option) \<Rightarrow> 'l pointers \<Rightarrow> nat list" where
  "slot_addrs sl p = concat (map (addrs \<circ> sl) (vis p @ objects (spare p)))"

text \<open>The slices are valid, no two objects share an array, and the objects behind the end are reset.\<close>

definition pointers_ok ::
  "('l \<Rightarrow> slice option) \<Rightarrow> ('a arrays \<Rightarrow> 'l \<Rightarrow> 'v) \<Rightarrow> 'v \<Rightarrow> 'a arrays \<Rightarrow> 'l pointers \<Rightarrow> bool" where
  "pointers_ok sl rd zv h p \<longleftrightarrow> list_all (slice_ok h \<circ> sl) (vis p @ objects (spare p))
     \<and> distinct (slot_addrs sl p) \<and> list_all (\<lambda>l. rd h l = zv) (objects (spare p))"

definition filled ::
  "('l \<Rightarrow> slice option) \<Rightarrow> ('a arrays \<Rightarrow> 'l \<Rightarrow> 'v) \<Rightarrow> 'v \<Rightarrow> nat set \<Rightarrow> 'a arrays \<Rightarrow> 'a arrays \<Rightarrow> 'l pointers
   \<Rightarrow> 'v list \<Rightarrow> bool" where
  "filled sl rd zv A h0 h p vs \<longleftrightarrow> map (rd h) (vis p) = vs \<and> pointers_ok sl rd zv h p
     \<and> set (slot_addrs sl p) \<subseteq> A \<union> {length h0..} \<and> writes_only A h0 h"

text \<open>
  What the message needs of its objects: the decoder refines the decoder of messages, a new object and a
  reset one are empty messages, and what an object is depends on the contents of its slice only.
\<close>

locale slot_decoder =
  fixes sl :: "'l \<Rightarrow> slice option" and rd :: "'a arrays \<Rightarrow> 'l \<Rightarrow> 'v" and zero :: 'l and zv :: 'v
    and dec :: "bytes \<Rightarrow> 'v \<Rightarrow> wire_error + 'v"
    and dech :: "bytes \<Rightarrow> 'a arrays \<times> 'l \<Rightarrow> wire_error + ('a arrays \<times> 'l)" and reset :: "'l \<Rightarrow> 'l"
  assumes zero: "sl zero = None" "rd h zero = zv"
    and rd_cong: "contents h' (sl m) = contents h (sl m) \<Longrightarrow> rd h' m = rd h m"
    and dec_rel: "slice_ok h (sl m) \<Longrightarrow>
      rel_sum (=) (decoded sl rd (set (addrs (sl m))) h) (dech b (h, m)) (dec b (rd h m))"
    and reset: "sl (reset m) = empty_slice (sl m)" "rd h (reset m) = zv"
begin

lemma next_slot_ok:
  assumes "pointers_ok sl rd zv h p" and "next_slot G zero p = (x, rest)"
  shows "list_all (slice_ok h \<circ> sl) (vis p @ x # objects rest)"
    and "slot_addrs sl p = concat (map (addrs \<circ> sl) (vis p @ x # objects rest))"
    and "list_all (\<lambda>l. rd h l = zv) (x # objects rest)"
  using assms zero
  by (auto simp: next_slot_def pointers_ok_def slot_addrs_def objects_def split: list.splits option.splits)

text \<open>Decoding into an object leaves the other objects as they are.\<close>

lemma push_decoded:
  assumes "filled sl rd zv A h0 h p vs" and "next_slot G zero p = (x, rest)"
    and "decoded sl rd (set (addrs (sl x))) h (h', x') v"
  shows "filled sl rd zv A h0 h' \<lparr>vis = vis p @ [x'], spare = rest\<rparr> (vs @ [v])"
proof -
  have p: "pointers_ok sl rd zv h p" and vs: "map (rd h) (vis p) = vs" and w: "writes_only A h0 h"
    and a: "set (slot_addrs sl p) \<subseteq> A \<union> {length h0..}" using assms(1) by (auto simp: filled_def)
  note n = next_slot_ok [OF p assms(2)]
  have d: "distinct (slot_addrs sl p)" using p by (simp add: pointers_ok_def)
  have x': "rd h' x' = v" "slice_ok h' (sl x')" "set (addrs (sl x')) \<subseteq> set (addrs (sl x)) \<union> {length h..}"
    and w': "writes_only (set (addrs (sl x))) h h'" using assms(3) by (auto simp: decoded_def)
  let ?os = "vis p @ objects rest"
  have os: "slice_ok h (sl l)" "set (addrs (sl l)) \<inter> set (addrs (sl x)) = {}" if "l \<in> set ?os" for l
    using n(1) d that unfolding n(2) by (auto simp: list_all_iff)
  have keep: "slice_ok h' (sl l)" "rd h' l = rd h l" if "l \<in> set ?os" for l
    using writes_only_slice [OF w' os(1)] os(2) that by (auto intro: rd_cong)
  have fresh: "set (addrs (sl l)) \<inter> set (addrs (sl x')) = {}" if "l \<in> set ?os" for l
    using os(2) [OF that] x'(3) addrs_bound [OF os(1) [OF that]] by fastforce
  have dx: "distinct (addrs (sl x'))" by (simp add: addrs_def split: option.split)
  have hh: "length h0 \<le> length h" using w by (simp add: writes_only_def)
  have ax: "set (addrs (sl x)) \<subseteq> A \<union> {length h0..}" using a unfolding n(2) by auto
  have "set (addrs (sl x')) \<subseteq> A \<union> {length h0..}" using x'(3) ax hh by fastforce
  moreover have "distinct (concat (map (addrs \<circ> sl) (vis p @ x' # objects rest)))"
  proof -
    have "set (addrs (sl x')) \<inter> set (concat (map (addrs \<circ> sl) ?os)) = {}" using fresh by fastforce
    then show ?thesis using d dx unfolding n(2) by (simp add: Int_Un_distrib inf_commute)
  qed
  ultimately show ?thesis
    using n keep x' vs a writes_only_trans [OF w w' ax]
    by (auto simp: filled_def pointers_ok_def slot_addrs_def list_all_iff)
qed

lemma push_rel:
  assumes "filled sl rd zv A h0 h p vs" and "next_slot G zero p = (x, rest)"
  shows "rel_sum (=) (\<lambda>(h', x') v. filled sl rd zv A h0 h' \<lparr>vis = vis p @ [x'], spare = rest\<rparr> (vs @ [v]))
    (dech b (h, x)) (dec b zv)"
proof -
  have "pointers_ok sl rd zv h p" using assms(1) by (simp add: filled_def)
  then have "slice_ok h (sl x)" "rd h x = zv" using next_slot_ok assms(2) by fastforce+
  from dec_rel [OF this(1), of b] this(2)
  have "rel_sum (=) (decoded sl rd (set (addrs (sl x))) h) (dech b (h, x)) (dec b zv)" by simp
  then show ?thesis by (rule sum.rel_mono_strong) (auto intro: push_decoded [OF assms])
qed

lemma reset_all_ok:
  assumes "pointers_ok sl rd zv h p"
  shows "pointers_ok sl rd zv h (reset_all reset p)" and "slot_addrs sl (reset_all reset p) = slot_addrs sl p"
proof -
  have o: "objects (map (\<lambda>x. Some (reset x)) xs @ ys) = map reset xs @ objects ys" for xs ys
    by (induction xs) (simp_all add: objects_def)
  show a: "slot_addrs sl (reset_all reset p) = slot_addrs sl p"
    by (simp add: slot_addrs_def reset_all_def comp_def o reset)
  show "pointers_ok sl rd zv h (reset_all reset p)"
    using assms a by (auto simp: pointers_ok_def reset_all_def comp_def o reset list_all_iff)
qed

lemma filled_start:
  "pointers_ok sl rd zv h p \<Longrightarrow> vis p = [] \<Longrightarrow> filled sl rd zv (set (slot_addrs sl p)) h h p []"
  by (simp add: filled_def)

end

interpretation labels: slot_decoder lo_Values label_at new_label zero_Label Label_UnmarshalVT "Label_UnmarshalVT_h G"
  Label_ResetVT for G
  by (unfold_locales; (rule Label_UnmarshalVT_rel)?)
    (simp_all add: new_label_def zero_Label_def label_at_def Label_ResetVT_def)

interpretation numlabels: slot_decoder no_Values numlabel_at new_numlabel zero_NumericLabel NumericLabel_UnmarshalVT
  "NumericLabel_UnmarshalVT_h G" NumericLabel_ResetVT for G
  by (unfold_locales; (rule NumericLabel_UnmarshalVT_rel)?)
    (simp_all add: new_numlabel_def zero_NumericLabel_def numlabel_at_def NumericLabel_ResetVT_def)

section \<open>Decoding a message\<close>

text \<open>What may be in the pool: a message without labels.\<close>

definition pool_ok :: "label_store \<Rightarrow> globalLabels_obj \<Rightarrow> bool" where
  "pool_ok h pb \<longleftrightarrow> vis (go_Labels pb) = [] \<and> vis (go_NumericLabels pb) = []
     \<and> pointers_ok lo_Values label_at zero_Label (strs h) (go_Labels pb)
     \<and> pointers_ok no_Values numlabel_at zero_NumericLabel (flts h) (go_NumericLabels pb)"

definition filled_labels ::
  "nat set \<Rightarrow> nat set \<Rightarrow> label_store \<Rightarrow> label_store \<times> globalLabels_obj \<Rightarrow> GlobalLabels \<Rightarrow> bool" where
  "filled_labels A B h0 hm v \<longleftrightarrow>
     filled lo_Values label_at zero_Label A (strs h0) (strs (fst hm)) (go_Labels (snd hm)) (gl_Labels v)
     \<and> filled no_Values numlabel_at zero_NumericLabel B (flts h0) (flts (fst hm)) (go_NumericLabels (snd hm))
         (gl_NumericLabels v)"

lemma rel_rd_msg:
  assumes "\<And>b. rel_sum (=) S (d b) (d' b)" and "\<And>x y. S x y \<Longrightarrow> R (f x) (f' y)"
  shows "rel_sum (=) (rel_prod R (=)) (rd_msg l w bs d f) (rd_msg l w bs d' f')"
proof -
  have "rel_sum (=) (rel_prod R (=)) (case d b of Inl e \<Rightarrow> Inl e | Inr x \<Rightarrow> Inr (f x, rest))
      (case d' b of Inl e \<Rightarrow> Inl e | Inr y \<Rightarrow> Inr (f' y, rest))" for b rest
    using assms(1) [of b] by (cases rule: rel_sum.cases) (auto intro: assms(2))
  then show ?thesis by (cases "dec_len l bs") (auto simp: rd_msg_def)
qed

lemma GlobalLabels_fields_rel:
  assumes "filled_labels A B h0 hm v"
  shows "rel_option (rel_sum (=) (rel_prod (filled_labels A B h0) (=)))
    (GlobalLabels_fields_h G l n w bs hm) (GlobalLabels_fields l n w bs v)"
proof -
  obtain h m where hm: "hm = (h, m)" by force
  obtain x rest where x: "next_slot G new_label (go_Labels m) = (x, rest)" by force
  obtain y rest' where y: "next_slot G new_numlabel (go_NumericLabels m) = (y, rest')" by force
  have f: "filled lo_Values label_at zero_Label A (strs h0) (strs h) (go_Labels m) (gl_Labels v)"
    "filled no_Values numlabel_at zero_NumericLabel B (flts h0) (flts h) (go_NumericLabels m) (gl_NumericLabels v)"
    using assms hm by (auto simp: filled_labels_def)
  note lab = rel_rd_msg [OF labels.push_rel [OF f(1) x]] and num = rel_rd_msg [OF numlabels.push_rel [OF f(2) y]]
  show ?thesis
    using f by (auto simp: hm x y GlobalLabels_fields_h_def GlobalLabels_fields_def filled_labels_def intro!: lab num)
qed

lemma GlobalLabels_UnmarshalVT_rel:
  assumes "pool_ok h pb"
  shows "rel_sum (=) (filled_labels (set (slot_addrs lo_Values (go_Labels pb))) (set (slot_addrs no_Values (go_NumericLabels pb))) h)
    (GlobalLabels_UnmarshalVT_h G data (h, pb)) (GlobalLabels_UnmarshalVT data zero_GlobalLabels)"
  unfolding GlobalLabels_UnmarshalVT_h_def GlobalLabels_UnmarshalVT_def
  by (rule unmarshal_rel [OF GlobalLabels_fields_rel])
    (use assms in \<open>auto simp: pool_ok_def filled_labels_def zero_GlobalLabels_def
      intro: labels.filled_start numlabels.filled_start\<close>)

lemma map_update: "map (apsnd f) (AList.update k v m) = AList.update k (f v) (map (apsnd f) m)"
  by (induction m) auto

lemma map_fold_update:
  "map (apsnd f) (fold (\<lambda>l m. AList.update (k l) (v l) m) ls m)
     = fold (\<lambda>l m. AList.update (k l) (f (v l)) m) ls (map (apsnd f) m)"
  by (induction ls arbitrary: m) (simp_all add: map_update)

lemma GlobalLabels_FromProto_at: "labels_at h (GlobalLabels_FromProto_h pb) = GlobalLabels_FromProto (message_at h pb)"
  by (simp add: labels_at_def GlobalLabels_FromProto_h_def GlobalLabels_FromProto_def message_at_def map_fold_update
      fold_map comp_def value_at_def numvalue_at_def label_at_def numlabel_at_def)

text \<open>What a completed decode leaves.\<close>

lemma filled_labels_done:
  assumes "filled_labels A B h0 (h, pb) v"
  shows "v = message_at h pb" and "pool_ok h (GlobalLabels_ResetVT pb)"
    and "writes_only A (strs h0) (strs h)" and "writes_only B (flts h0) (flts h)"
proof -
  have f: "filled lo_Values label_at zero_Label A (strs h0) (strs h) (go_Labels pb) (gl_Labels v)"
    "filled no_Values numlabel_at zero_NumericLabel B (flts h0) (flts h) (go_NumericLabels pb) (gl_NumericLabels v)"
    using assms by (auto simp: filled_labels_def)
  then show "v = message_at h pb" by (cases v) (simp add: filled_def message_at_def)
  from f show "writes_only A (strs h0) (strs h)" "writes_only B (flts h0) (flts h)" by (simp_all add: filled_def)
  from f have "pointers_ok lo_Values label_at zero_Label (strs h) (reset_all Label_ResetVT (go_Labels pb))"
    "pointers_ok no_Values numlabel_at zero_NumericLabel (flts h) (reset_all NumericLabel_ResetVT (go_NumericLabels pb))"
    by (auto simp: filled_def intro: labels.reset_all_ok numlabels.reset_all_ok)
  then show "pool_ok h (GlobalLabels_ResetVT pb)"
    by (simp add: pool_ok_def GlobalLabels_ResetVT_def) (simp add: reset_all_def)
qed

lemma labels_decode:
  assumes "pool_ok h pb"
  shows "case GlobalLabels_UnmarshalBinary_h G data (h, pb) of
      Inl e \<Rightarrow> GlobalLabels_UnmarshalBinary data = Inl e
    | Inr (h', pb', gl) \<Rightarrow> GlobalLabels_UnmarshalBinary data = Inr (labels_at h' gl) \<and> pool_ok h' pb'
        \<and> writes_only (set (slot_addrs lo_Values (go_Labels pb))) (strs h) (strs h')
        \<and> writes_only (set (slot_addrs no_Values (go_NumericLabels pb))) (flts h) (flts h')"
proof (cases "data = []")
  case True
  then show ?thesis
    using assms by (simp add: GlobalLabels_UnmarshalBinary_h_def GlobalLabels_UnmarshalBinary_def labels_at_def)
next
  case False
  show ?thesis
    using GlobalLabels_UnmarshalVT_rel [OF assms, of G data] False
    by (cases rule: rel_sum.cases)
      (auto simp: GlobalLabels_UnmarshalBinary_h_def GlobalLabels_UnmarshalBinary_def GlobalLabels_FromProto_at
        dest: filled_labels_done)
qed

text \<open>
  C28. Decoding labels into a message that was used before gives what decoding into a new message gives:
  the same error, or labels that read the same in the store afterwards. The message goes back to the
  pool without labels and with objects that share no array, so it may be handed out again; and of the
  arrays that existed before only those that the message owns have been written.
\<close>

theorem labels_decode_refines:
  assumes "pool_ok h pb"
  shows "case GlobalLabels_UnmarshalBinary_h G data (h, pb) of
      Inl e \<Rightarrow> GlobalLabels_UnmarshalBinary data = Inl e
    | Inr (h', pb', gl) \<Rightarrow> GlobalLabels_UnmarshalBinary data = Inr (labels_at h' gl) \<and> pool_ok h' pb'
        \<and> writes_only (set (slot_addrs lo_Values (go_Labels pb))) (strs h) (strs h')
        \<and> writes_only (set (slot_addrs no_Values (go_NumericLabels pb))) (flts h) (flts h')"
  using labels_decode [OF assms] .

section \<open>Reuse\<close>

fun append_all :: "(nat \<Rightarrow> nat) \<Rightarrow> 'a \<Rightarrow> 'a list \<Rightarrow> 'a arrays \<times> slice option \<Rightarrow> 'a arrays \<times> slice option" where
  "append_all G z [] hs = hs"
| "append_all G z (x # xs) hs = append_all G z xs (go_append G z (fst hs) (snd hs) x)"

lemma append_all_spec:
  assumes "slice_ok h s" and "append_all G z xs (h, s) = (h', s')"
  shows "slice_ok h' s' \<and> contents h' s' = contents h s @ xs"
  using assms
proof (induction xs arbitrary: h s)
  case (Cons x xs)
  obtain h1 s1 where g: "go_append G z h s x = (h1, s1)" by force
  from go_append_spec(1,2) [OF Cons.prems(1) g] Cons.IH [of h1 s1] Cons.prems(2) g show ?case by simp
qed simp

text \<open>In an array with enough room appending overwrites.\<close>

lemma append_all_room:
  assumes "a < length h" and "n + length xs \<le> length (h ! a)"
  shows "append_all G z xs (h, Some \<lparr>sl_arr = a, sl_len = n\<rparr>)
    = (h[a := take n (h ! a) @ xs @ drop (n + length xs) (h ! a)], Some \<lparr>sl_arr = a, sl_len = n + length xs\<rparr>)"
  using assms
proof (induction xs arbitrary: h n)
  case (Cons x xs)
  have "go_append G z h (Some \<lparr>sl_arr = a, sl_len = n\<rparr>) x = (h[a := (h ! a)[n := x]], Some \<lparr>sl_arr = a, sl_len = n + 1\<rparr>)"
    using Cons.prems by (simp add: go_append_def)
  moreover have "take (n + 1) ((h ! a)[n := x]) = take n (h ! a) @ [x]"
    using Cons.prems by (simp add: take_Suc_conv_app_nth)
  ultimately show ?case using Cons.IH [of "h[a := (h ! a)[n := x]]" "n + 1"] Cons.prems by simp
qed (simp add: list_update_id)

lemma append_all_empty_slice:
  assumes "slice_ok h s" and "length xs \<le> length (contents h s)"
    and "append_all G z xs (h, empty_slice s) = (h', s')"
  shows "contents h' s = xs @ drop (length xs) (contents h s)"
proof (cases s)
  case None
  then show ?thesis using assms by (auto simp: empty_slice_def)
next
  case (Some t)
  then show ?thesis
    using assms append_all_room [of "sl_arr t" h 0 xs G z]
    by (cases t) (auto simp: slice_ok_def contents_def empty_slice_def min_def drop_take split: if_splits)
qed

text \<open>Decoding one label, and a message with one label.\<close>

definition one_label :: "string \<Rightarrow> string \<Rightarrow> string list \<Rightarrow> GlobalLabels" where
  "one_label k v vs = \<lparr>gl_Labels = [\<lparr>lb_Key = k, lb_Value = v, lb_Values = vs\<rparr>], gl_NumericLabels = []\<rparr>"

definition one_label_map :: "string \<Rightarrow> string \<Rightarrow> string list \<Rightarrow> globalLabels" where
  "one_label_map k v vs =
     \<lparr>gls_Labels = Some [(k, \<lparr>lv_Value = v, lv_Values = vs, lv_Global = True\<rparr>)], gls_NumericLabels = Some []\<rparr>"

lemma un_string_h:
  "l < 2 ^ 63 \<Longrightarrow> lo_Key m = [] \<Longrightarrow> size_bytes 1 (length k) < 2 ^ 63 \<Longrightarrow>
   unmarshal l (Label_fields_h G l) (put_bytes [0xA] (bytes_of_string k) d) (h, m)
     = unmarshal l (Label_fields_h G l) d (h, m\<lparr>lo_Key := k\<rparr>)"
  "l < 2 ^ 63 \<Longrightarrow> lo_Value m = [] \<Longrightarrow> size_bytes 1 (length v) < 2 ^ 63 \<Longrightarrow>
   unmarshal l (Label_fields_h G l) (put_bytes [0x12] (bytes_of_string v) d) (h, m)
     = unmarshal l (Label_fields_h G l) d (h, m\<lparr>lo_Value := v\<rparr>)"
  by (rule un_string [where U = "\<lambda>f. apsnd (lo_Key_update f)" and m = "(h, m)", simplified]
        un_string [where U = "\<lambda>f. apsnd (lo_Value_update f)" and m = "(h, m)", simplified];
      simp add: Label_fields_h_def tag_field_def Let_def wire_sizes; fail)+

lemma un_strings_h:
  assumes "l < 2 ^ 63" and "size_msgs 1 length vs < 2 ^ 63"
  shows "unmarshal l (Label_fields_h G l) (put_msgs [0x1A] bytes_of_string vs d) (h, m)
    = unmarshal l (Label_fields_h G l) d
        (let (h', s) = append_all G [] vs (h, lo_Values m) in (h', m\<lparr>lo_Values := s\<rparr>))"
  using assms(2)
proof (induction vs arbitrary: h m)
  case (Cons x xs)
  obtain h1 s1 where g: "go_append G [] h (lo_Values m) x = (h1, s1)" by force
  let ?d = "put_msgs [0x1A] bytes_of_string xs d"
  have eq: "put_msgs [0x1A] bytes_of_string (x # xs) d
      = [0x1A] @ varint (of_nat (length (bytes_of_string x))) @ bytes_of_string x @ ?d"
    by (simp add: put_msgs_def)
  have len: "length (bytes_of_string x) < 2 ^ 63" "size_msgs 1 length xs < 2 ^ 63"
    using Cons.prems by (simp_all add: size_msgs_def)
  have "Label_fields_h G l (tag_field [0x1A]) 2 (varint (of_nat (length (bytes_of_string x))) @ bytes_of_string x @ ?d) (h, m)
      = Some (Inr ((h1, m\<lparr>lo_Values := s1\<rparr>), ?d))"
    by (simp add: Label_fields_h_def tag_field_def Let_def rd_bytes_def dec_len_bytes [OF len(1) assms(1)] g del: length_bytes_of_string)
  then have "unmarshal l (Label_fields_h G l) (put_msgs [0x1A] bytes_of_string (x # xs) d) (h, m)
      = unmarshal l (Label_fields_h G l) ?d (h1, m\<lparr>lo_Values := s1\<rparr>)"
    unfolding eq by (rule unmarshal_field [rotated]) (simp_all del: length_bytes_of_string)
  with Cons.IH len(2) g show ?case by (simp add: case_prod_beta)
qed (simp add: put_msgs_def)

lemma Label_decode_one:
  assumes "Label_SizeVT \<lparr>lb_Key = k, lb_Value = v, lb_Values = vs\<rparr> < 2 ^ 63" and "lo_Key x = []" and "lo_Value x = []"
    and "append_all G [] vs (h, lo_Values x) = (h', s)"
  shows "Label_UnmarshalVT_h G (Label_MarshalToSizedBufferVT \<lparr>lb_Key = k, lb_Value = v, lb_Values = vs\<rparr>) (h, x)
    = Inr (h', \<lparr>lo_Key = k, lo_Value = v, lo_Values = s\<rparr>)"
  using assms unfolding Label_UnmarshalVT_h_def Label_size
  by (cases x) (simp add: un_string_h un_strings_h Label_MarshalToSizedBufferVT_def Label_SizeVT_def)

text \<open>The object that a message from the pool decodes its first label into.\<close>

lemma pool_slot:
  assumes "pool_ok h pb" and "next_slot G new_label (go_Labels pb) = (x, rest)"
  shows "slice_ok (strs h) (lo_Values x)" and "lo_Key x = []" and "lo_Value x = []" and "contents (strs h) (lo_Values x) = []"
proof -
  have "pointers_ok lo_Values label_at zero_Label (strs h) (go_Labels pb)" using assms(1) by (simp add: pool_ok_def)
  note n = labels.next_slot_ok [OF this assms(2)]
  show "slice_ok (strs h) (lo_Values x)" using n(1) by simp
  show "lo_Key x = []" "lo_Value x = []" "contents (strs h) (lo_Values x) = []"
    using n(3) by (simp_all add: label_at_def zero_Label_def)
qed

lemma one_label_enc:
  "GlobalLabels_MarshalToSizedBufferVT (one_label k v vs) =
     [0xA] @ varint (of_nat (Label_SizeVT \<lparr>lb_Key = k, lb_Value = v, lb_Values = vs\<rparr>))
       @ Label_MarshalToSizedBufferVT \<lparr>lb_Key = k, lb_Value = v, lb_Values = vs\<rparr> @ []"
  by (simp add: GlobalLabels_MarshalToSizedBufferVT_def one_label_def put_msgs_def Label_size)

lemma decode_one_label:
  assumes "pool_ok h pb" and "GlobalLabels_SizeVT (one_label k v vs) < 2 ^ 63"
    and "next_slot G new_label (go_Labels pb) = (x, rest)"
    and "append_all G [] vs (strs h, lo_Values x) = (a, s)"
  shows "GlobalLabels_UnmarshalBinary_h G (GlobalLabels_MarshalToSizedBufferVT (one_label k v vs)) (h, pb)
    = Inr (h\<lparr>strs := a\<rparr>,
           \<lparr>go_Labels = \<lparr>vis = [], spare = Some \<lparr>lo_Key = [], lo_Value = [], lo_Values = empty_slice s\<rparr> # rest\<rparr>,
            go_NumericLabels = go_NumericLabels pb\<rparr>,
           \<lparr>lrs_Labels = Some [(k, \<lparr>lr_Value = v, lr_Values = s, lr_Global = True\<rparr>)], lrs_NumericLabels = Some []\<rparr>)"
proof -
  let ?l = "\<lparr>lb_Key = k, lb_Value = v, lb_Values = vs\<rparr>" and ?n = "GlobalLabels_SizeVT (one_label k v vs)"
  have vis: "vis (go_Labels pb) = []" "vis (go_NumericLabels pb) = []" using assms(1) by (simp_all add: pool_ok_def)
  have len: "length (Label_MarshalToSizedBufferVT ?l) < 2 ^ 63"
    using assms(2) by (simp add: GlobalLabels_SizeVT_def one_label_def size_msgs_def Label_size)
  have "Label_UnmarshalVT_h G (Label_MarshalToSizedBufferVT ?l) (strs h, x) = Inr (a, \<lparr>lo_Key = k, lo_Value = v, lo_Values = s\<rparr>)"
    using Label_decode_one pool_slot [OF assms(1,3)] assms(4) len by (simp add: Label_size)
  then have step: "GlobalLabels_fields_h G ?n (tag_field [0xA]) 2
      (varint (of_nat (Label_SizeVT ?l)) @ Label_MarshalToSizedBufferVT ?l @ []) (h, pb)
    = Some (Inr ((h\<lparr>strs := a\<rparr>,
        pb\<lparr>go_Labels := \<lparr>vis = [\<lparr>lo_Key = k, lo_Value = v, lo_Values = s\<rparr>], spare = rest\<rparr>\<rparr>), []))"
    using dec_len_bytes [OF len assms(2), of "[]"] vis
    by (simp add: GlobalLabels_fields_h_def tag_field_def Let_def rd_msg_def assms(3) Label_size)
  have "is_tag [0xA] 2" by simp
  from unmarshal_field [where F = "GlobalLabels_fields_h G ?n" and l = ?n, OF this step]
  have "GlobalLabels_UnmarshalVT_h G (GlobalLabels_MarshalToSizedBufferVT (one_label k v vs)) (h, pb)
    = Inr (h\<lparr>strs := a\<rparr>, pb\<lparr>go_Labels := \<lparr>vis = [\<lparr>lo_Key = k, lo_Value = v, lo_Values = s\<rparr>], spare = rest\<rparr>\<rparr>)"
    unfolding GlobalLabels_UnmarshalVT_h_def GlobalLabels_size unfolding one_label_enc by simp
  moreover have "GlobalLabels_MarshalToSizedBufferVT (one_label k v vs) \<noteq> []" by (simp add: one_label_enc)
  ultimately show ?thesis using vis
    by (simp add: GlobalLabels_UnmarshalBinary_h_def GlobalLabels_ResetVT_def reset_all_def Label_ResetVT_def
        new_label_def GlobalLabels_FromProto_h_def)
qed

text \<open>
  C29. The labels that \<^verbatim>\<open>UnmarshalBinary\<close> returns are overwritten when the message it took from the pool is
  used again. Decode a label with values \<open>vs\<close>, and then, with the message that went back to the pool,
  another label with at most as many values \<open>ws\<close>. Both calls succeed and both results are right when
  they are returned; but afterwards the first label, unchanged by its owner, has the values \<open>ws\<close> in the
  place of its own.
\<close>

theorem decoded_labels_overwritten:
  assumes "pool_ok h pb" and "GlobalLabels_SizeVT (one_label k v vs) < 2 ^ 63"
    and "GlobalLabels_SizeVT (one_label k' v' ws) < 2 ^ 63" and "length ws \<le> length vs"
  shows "\<exists>h1 pb1 gl1 h2 pb2 gl2.
    GlobalLabels_UnmarshalBinary_h G (GlobalLabels_MarshalToSizedBufferVT (one_label k v vs)) (h, pb) = Inr (h1, pb1, gl1)
    \<and> GlobalLabels_UnmarshalBinary_h G (GlobalLabels_MarshalToSizedBufferVT (one_label k' v' ws)) (h1, pb1) = Inr (h2, pb2, gl2)
    \<and> labels_at h1 gl1 = one_label_map k v vs \<and> labels_at h2 gl2 = one_label_map k' v' ws
    \<and> labels_at h2 gl1 = one_label_map k v (ws @ drop (length ws) vs)"
proof -
  obtain x rest where x: "next_slot G new_label (go_Labels pb) = (x, rest)" by force
  obtain a s where a: "append_all G [] vs (strs h, lo_Values x) = (a, s)" by force
  note slot = pool_slot [OF assms(1) x] and one = decode_one_label [OF assms(1,2) x a]
  have s: "slice_ok a s" "contents a s = vs" using append_all_spec [OF slot(1) a] slot(4) by auto
  let ?h1 = "h\<lparr>strs := a\<rparr>" and ?x1 = "\<lparr>lo_Key = [], lo_Value = [], lo_Values = empty_slice s\<rparr>"
  let ?pb1 = "\<lparr>go_Labels = \<lparr>vis = [], spare = Some ?x1 # rest\<rparr>, go_NumericLabels = go_NumericLabels pb\<rparr>"
  have ok: "pool_ok ?h1 ?pb1"
    using labels_decode [OF assms(1), where G = G and data = "GlobalLabels_MarshalToSizedBufferVT (one_label k v vs)"] one by simp
  obtain b t where b: "append_all G [] ws (a, empty_slice s) = (b, t)" by force
  have t: "contents b t = ws" using append_all_spec [OF _ b] s(1) by simp
  have "contents b s = ws @ drop (length ws) vs"
    using append_all_empty_slice [OF s(1) _ b] assms(4) s(2) by simp
  then show ?thesis
    using one decode_one_label [OF ok assms(3), of G ?x1 rest b t] b s t
    by (simp add: next_slot_def labels_at_def value_at_def one_label_map_def)
qed

text \<open>A message that was used before: its object owns an array with an old value.\<close>

definition used_store :: label_store where
  "used_store = \<lparr>strs = [[''old'']], flts = []\<rparr>"

definition used_labels :: globalLabels_obj where
  "used_labels = \<lparr>go_Labels = \<lparr>vis = [], spare = [Some \<lparr>lo_Key = [], lo_Value = [], lo_Values = Some \<lparr>sl_arr = 0, sl_len = 0\<rparr>\<rparr>, None]\<rparr>,
     go_NumericLabels = \<lparr>vis = [], spare = []\<rparr>\<rparr>"

lemma used_ok: "pool_ok used_store used_labels"
  by (simp add: pool_ok_def used_store_def used_labels_def pointers_ok_def slot_addrs_def objects_def slice_ok_def
      addrs_def label_at_def zero_Label_def contents_def)

lemma new_ok: "pool_ok h new_globalLabels"
  by (simp add: pool_ok_def new_globalLabels_def pointers_ok_def slot_addrs_def objects_def)

lemma one_label_value:
  assumes "GlobalLabels_SizeVT (one_label k v vs) < 2 ^ 63"
  shows "GlobalLabels_UnmarshalBinary (GlobalLabels_MarshalToSizedBufferVT (one_label k v vs)) = Inr (one_label_map k v vs)"
  using GlobalLabels_rt [OF _ assms]
  by (simp add: GlobalLabels_UnmarshalBinary_def one_label_enc) (simp add: one_label_enc one_label_def one_label_map_def
      GlobalLabels_rep_def GlobalLabels_FromProto_def)

lemma sov_small: "v < 128 \<Longrightarrow> sov v = 1"
  unfolding length_varint [symmetric] by (subst varint.simps) (simp add: not_le)

lemma one_label_sizes:
  "GlobalLabels_SizeVT (one_label ''k'' '''' [''a'', ''b'']) < 2 ^ 63" "GlobalLabels_SizeVT (one_label ''k'' '''' [''c'']) < 2 ^ 63"
  by (simp_all add: GlobalLabels_SizeVT_def one_label_def Label_SizeVT_def size_msgs_def size_bytes_def sov_small)

theorem labels_decode_refines_witness:
  "pool_ok used_store used_labels \<and>
   (\<exists>h' pb' gl. GlobalLabels_UnmarshalBinary_h (\<lambda>_. 0) (GlobalLabels_MarshalToSizedBufferVT (one_label ''k'' '''' [''c'']))
       (used_store, used_labels) = Inr (h', pb', gl) \<and> labels_at h' gl = one_label_map ''k'' '''' [''c''] \<and> pool_ok h' pb')"
  using labels_decode_refines [OF used_ok, where G = "\<lambda>_. 0" and data = "GlobalLabels_MarshalToSizedBufferVT (one_label ''k'' '''' [''c''])"]
  by (auto simp: used_ok one_label_value [OF one_label_sizes(2)] split: sum.splits)

theorem decoded_labels_overwritten_witness:
  "\<exists>h1 pb1 gl1 h2 pb2 gl2.
    GlobalLabels_UnmarshalBinary_h (\<lambda>n. n) (GlobalLabels_MarshalToSizedBufferVT (one_label ''k'' '''' [''a'', ''b'']))
      (used_store, new_globalLabels) = Inr (h1, pb1, gl1)
    \<and> GlobalLabels_UnmarshalBinary_h (\<lambda>n. n) (GlobalLabels_MarshalToSizedBufferVT (one_label ''k'' '''' [''c''])) (h1, pb1)
      = Inr (h2, pb2, gl2)
    \<and> labels_at h1 gl1 = one_label_map ''k'' '''' [''a'', ''b''] \<and> labels_at h2 gl1 = one_label_map ''k'' '''' [''c'', ''b'']"
  using decoded_labels_overwritten [OF new_ok one_label_sizes, where h = used_store and G = "\<lambda>n. n"] by auto

section \<open>The labels of an event\<close>

lemma map_insort_key: "map f (insort_key (\<lambda>x. g (f x)) x xs) = insort_key g (f x) (map f xs)"
  by (induction xs) auto

lemma map_sort_key: "map f (sort_key (\<lambda>x. g (f x)) xs) = sort_key g (map f xs)"
  by (induction xs) (simp_all add: map_insort_key)

lemma vis_push:
  "vis (fold (push_label G) ls p)
     = vis p @ map (\<lambda>kv. \<lparr>lo_Key = fst kv, lo_Value = lr_Value (snd kv), lo_Values = lr_Values (snd kv)\<rparr>) ls"
  "vis (fold (push_numlabel G) ns q)
     = vis q @ map (\<lambda>kv. \<lparr>no_Key = fst kv, no_Value = nr_Value (snd kv), no_Values = nr_Values (snd kv)\<rparr>) ns"
proof -
  have "vis (push_label G kv p) = vis p @ [\<lparr>lo_Key = fst kv, lo_Value = lr_Value (snd kv), lo_Values = lr_Values (snd kv)\<rparr>]" for kv p
    by (cases "next_slot G new_label p"; cases "fst (next_slot G new_label p)") (simp add: push_label_def)
  then show "vis (fold (push_label G) ls p)
     = vis p @ map (\<lambda>kv. \<lparr>lo_Key = fst kv, lo_Value = lr_Value (snd kv), lo_Values = lr_Values (snd kv)\<rparr>) ls"
    by (induction ls arbitrary: p) simp_all
  have "vis (push_numlabel G kv q) = vis q @ [\<lparr>no_Key = fst kv, no_Value = nr_Value (snd kv), no_Values = nr_Values (snd kv)\<rparr>]" for kv q
    by (cases "next_slot G new_numlabel q"; cases "fst (next_slot G new_numlabel q)") (simp add: push_numlabel_def)
  then show "vis (fold (push_numlabel G) ns q)
     = vis q @ map (\<lambda>kv. \<lparr>no_Key = fst kv, no_Value = nr_Value (snd kv), no_Values = nr_Values (snd kv)\<rparr>) ns"
    by (induction ns arbitrary: q) simp_all
qed

text \<open>With a message from the pool the encoding is that of the labels as they are in the store.\<close>

lemma marshalEventGlobalLabels_at:
  assumes "pool_ok h pb"
  shows "fst (marshalEventGlobalLabels_h G e (h, pb)) =
    marshalEventGlobalLabels (ev\<lparr>ae_Labels := gls_Labels (labels_at h e), ae_NumericLabels := gls_NumericLabels (labels_at h e)\<rparr>)"
proof -
  have vis: "vis (go_Labels pb) = []" "vis (go_NumericLabels pb) = []" using assms by (simp_all add: pool_ok_def)
  have ent: "entries (map_option (map (apsnd f)) m) = map (apsnd f) (entries m)" for f m
    by (simp add: entries_def split: option.split)
  have keys: "lo_Key = (\<lambda>x. lb_Key (label_at (strs h) x))" "no_Key = (\<lambda>x. nl_Key (numlabel_at (flts h) x))"
    by (auto simp: label_at_def numlabel_at_def)
  have fl: "filter (lv_Global \<circ> snd) (map (apsnd (value_at a)) kvs) = map (apsnd (value_at a)) (filter (lr_Global \<circ> snd) kvs)"
    and fn: "filter (nlv_Global \<circ> snd) (map (apsnd (numvalue_at b)) nvs) = map (apsnd (numvalue_at b)) (filter (nr_Global \<circ> snd) nvs)"
    for a kvs b nvs
    by (simp_all add: filter_map comp_def value_at_def numvalue_at_def)
  have msg: "label_msg \<circ> apsnd (value_at a) = (\<lambda>kv. label_at a \<lparr>lo_Key = fst kv, lo_Value = lr_Value (snd kv), lo_Values = lr_Values (snd kv)\<rparr>)"
    "numeric_label_msg \<circ> apsnd (numvalue_at b) = (\<lambda>kv. numlabel_at b \<lparr>no_Key = fst kv, no_Value = nr_Value (snd kv), no_Values = nr_Values (snd kv)\<rparr>)"
    for a b by (auto simp: label_msg_def numeric_label_msg_def value_at_def numvalue_at_def label_at_def numlabel_at_def)
  show ?thesis
    by (simp add: marshalEventGlobalLabels_h_def marshalEventGlobalLabels_def labels_at_def ent fl fn Let_def message_at_def vis_push vis
        map_sort_key keys msg del: MarshalVT_GlobalLabels) (simp add: comp_def)
qed

text \<open>
  After that the pool owns the arrays of the event. When the next call decodes a label into the message,
  the label of the event is overwritten.
\<close>

lemma event_labels_overwritten:
  assumes "pool_ok h pb" and "slice_ok (strs h) s" and "set (addrs s) \<inter> set (slot_addrs lo_Values (go_Labels pb)) = {}"
    and e: "e = \<lparr>lrs_Labels = Some [(k, \<lparr>lr_Value = v, lr_Values = s, lr_Global = True\<rparr>)], lrs_NumericLabels = Some []\<rparr>"
    and "GlobalLabels_SizeVT (one_label k' v' ws) < 2 ^ 63" and "length ws \<le> length (contents (strs h) s)"
  shows "\<exists>h' pb' gl. GlobalLabels_UnmarshalBinary_h G (GlobalLabels_MarshalToSizedBufferVT (one_label k' v' ws))
      (h, snd (marshalEventGlobalLabels_h G e (h, pb))) = Inr (h', pb', gl)
    \<and> labels_at h' e = one_label_map k v (ws @ drop (length ws) (contents (strs h) s))"
proof -
  obtain x rest where x: "next_slot G new_label (go_Labels pb) = (x, rest)" by force
  have p: "pointers_ok lo_Values label_at zero_Label (strs h) (go_Labels pb)" and vis: "vis (go_Labels pb) = []" "vis (go_NumericLabels pb) = []"
    using assms(1) by (simp_all add: pool_ok_def)
  note n = labels.next_slot_ok [OF p x]
  let ?x1 = "\<lparr>lo_Key = [], lo_Value = [], lo_Values = empty_slice s\<rparr>"
  let ?pb1 = "\<lparr>go_Labels = \<lparr>vis = [], spare = Some ?x1 # rest\<rparr>, go_NumericLabels = go_NumericLabels pb\<rparr>"
  have m: "snd (marshalEventGlobalLabels_h G e (h, pb)) = ?pb1"
    using vis by (cases "go_NumericLabels pb") (simp add: e marshalEventGlobalLabels_h_def entries_def push_label_def x Let_def
        GlobalLabels_ResetVT_def reset_all_def Label_ResetVT_def, simp add: new_label_def)
  have "distinct (addrs s)" by (simp add: addrs_def split: option.split)
  then have "pointers_ok lo_Values label_at zero_Label (strs h) (go_Labels ?pb1)"
    using n p vis assms(2,3) by (auto simp: pointers_ok_def slot_addrs_def objects_def label_at_def zero_Label_def)
  then have ok: "pool_ok h ?pb1" using assms(1) by (simp add: pool_ok_def)
  obtain b t where b: "append_all G [] ws (strs h, empty_slice s) = (b, t)" by force
  from append_all_empty_slice [OF assms(2,6) b] decode_one_label [OF ok assms(5), of G ?x1 rest b t] b
  show ?thesis by (simp add: m next_slot_def) (simp add: e labels_at_def value_at_def one_label_map_def)
qed

end
