(* ===== verification/Spec2Isabelle.thy ===== *)
theory Spec2Isabelle
  imports MergerProps CodecProps ConvProps AggProps Telemetry HashGen LabelPool
begin

text \<open>
  \<^bold>\<open>apm-aggregation\<close>: a verification development for the aggregation of APM events.

  \<^bold>\<open>The program.\<close> Events arrive in batches. \<^verbatim>\<open>aggregators/converter.go\<close> turns every event into small
  messages of metrics (histograms of transactions, counts of spans), one per partition.
  \<^verbatim>\<open>aggregators/aggregator.go\<close> files them under a key of interval, processing time, partition and ID
  (\<^verbatim>\<open>codec.go\<close>) as merge operands in a pebble database. Pebble merges the operands of a key, in
  groupings of its own choice, with the merger of \<^verbatim>\<open>merger.go\<close>, which enforces limits on the number of
  groups by moving what is too much to overflow buckets. A run loop takes the open batch at every tick,
  commits it, and harvests the intervals that are due: it decodes what the database holds in the window
  of the interval, hands it to a processor and deletes the window. Closing harvests what is left.
  The other direction, from messages to metric events, is in \<^verbatim>\<open>converter.go\<close> too.

  \<^bold>\<open>The theories\<close>, with the code they model under \<^verbatim>\<open>src/\<close>:

  \<^item> \<open>Prelude\<close>: machine integers, Go maps, checked slices, binary search (the parts of the language and
    its library that the code uses). \<open>GoTime\<close>: \<^verbatim>\<open>time.Time\<close> and \<^verbatim>\<open>time.Duration\<close> as nanoseconds, and
    \<^verbatim>\<open>internal/timestamppb\<close>. \<open>Float64\<close>, \<open>FloatBits\<close>, \<open>FloatClosed\<close>: \<^verbatim>\<open>float64\<close> as rationals with infinities and
    NaN, rounded to 53 bits, with its bit representation. \<open>Nullable\<close>: \<^verbatim>\<open>nullable/bool.go\<close>.
    \<open>Constraint\<close>: \<^verbatim>\<open>internal/constraint\<close>.
  \<^item> \<open>Models\<close>, \<open>ModelPB\<close>: the records of \<^verbatim>\<open>models.go\<close> and of the messages of \<^verbatim>\<open>aggregationpb\<close>; the fields of
    the events that the code reads and writes.
  \<^item> \<open>HdrHistogram\<close>, \<open>CountsRep\<close>, \<open>HdrProofs\<close>: \<^verbatim>\<open>internal/hdrhistogram\<close>; the hybrid counts refine a map,
    bucket arithmetic is accurate, reported buckets equal a direct reading.
  \<^item> \<open>HistMerge\<close>, \<open>Merger\<close>, and the proofs \<open>GroupMerge\<close>, \<open>MergeKinds\<close>, \<open>MergeInv\<close>, \<open>MergeConserve\<close>,
    \<open>MergeFinish\<close>: \<^verbatim>\<open>merger.go\<close>. The three kinds of groups interpret one locale for the loop that all of
    them are; \<open>merge_weights\<close> is the locale of what is additive over messages. The invariant says that
    limits hold, counters count and keys are found under their hashes; conservation says that no count
    is lost to merging or overflow; finishing gives a well-formed message again.
  \<^item> \<open>Codec\<close>, \<open>Protohash\<close>, \<open>KeyCodec\<close>, \<open>GlobalLabels\<close>: \<^verbatim>\<open>codec.go\<close> and \<^verbatim>\<open>internal/protohash\<close>.
    \<open>HashGen\<close>: the generator \<^verbatim>\<open>internal/protohash/generate/main.go\<close>; run on the key types it prints the
    text of \<^verbatim>\<open>generated.go\<close>, and the statements it prints compute the hash functions of \<open>Protohash\<close>.
    \<open>LabelPool\<close>: the pooled messages of the labels with the arrays behind their slices in an explicit store;
    decoding with a reused message refines \<open>GlobalLabels\<close>, and what it returned before is overwritten.
    \<open>Wire\<close>, \<open>Vtproto\<close>, \<open>WireRT\<close>, \<open>VtprotoRT\<close>: the encoders, sizes and decoders of
    \<^verbatim>\<open>aggregationpb/*_vtproto.pb.go\<close>, with their round trips.
  \<^item> \<open>Store\<close>, \<open>StoreRep\<close>: the merger as pebble calls it, on encoded operands in any grouping.
  \<^item> \<open>EventConv\<close>, \<open>EventSpec\<close>, \<open>EventStore\<close>: events to messages, with the pooled builders, refined to a
    partition-wise specification. \<open>BatchConv\<close>, \<open>BatchSpec\<close>: messages to metric events.
  \<^item> \<open>Config\<close>, \<open>CachedEvents\<close>: \<^verbatim>\<open>config.go\<close> and \<^verbatim>\<open>cachedeventsmap.go\<close>. \<open>Telemetry\<close>:
    \<^verbatim>\<open>internal/telemetry\<close>.
  \<^item> \<open>Aggregator\<close>: \<^verbatim>\<open>aggregator.go\<close>, every operation as a function on the state, a panic as
    \<^term>\<open>None\<close>, pebble as a record of the functions that are called. \<open>AggStore\<close> states the laws of pebble
    that the proofs use and what a batch does to the storage, \<open>AggHarvest\<close> what a harvest does,
    \<open>Schedule\<close> the arithmetic of windows. \<open>AggMachine\<close> is the step relation of the whole aggregator,
    with calls between any two steps of the run loop, and its invariant; \<open>AggTotal\<close> shows that calls
    return and states the contract of the storage as a locale; \<open>MemPebble\<close> is an in-memory store that
    honours it. \<open>RunClose\<close> is the synchronisation of one \<^verbatim>\<open>Run\<close> and one \<^verbatim>\<open>Close\<close>: mutex, channels, program
    points, and whether the context of each may be cancelled. \<open>AfterClose\<close> is the step relation of all calls,
    over any storage, and what they cannot change once \<^verbatim>\<open>Close\<close> has returned.
  \<^item> \<open>Samples\<close>: a concrete event, messages and a complete run, on which the properties are applied.
    \<open>MergerProps\<close>, \<open>CodecProps\<close>, \<open>ConvProps\<close>, \<open>AggProps\<close>, \<open>Telemetry\<close>, \<open>HashGen\<close>, \<open>LabelPool\<close> and this theory hold the properties.

  \<^bold>\<open>Parameters.\<close> Code of other programs is an argument of the definitions: the hash \<^verbatim>\<open>xxhash\<close>, the
  sketches \<^verbatim>\<open>hyperloglog\<close> (their encoding must survive decoding), pebble, the processor, the type of an
  event, the meter. What a \<open>sync.Pool\<close> hands out is an argument too; of the pools, the one of the
  builders is modelled with its reuse, and so is the one of labels, in a theory of its own; elsewhere
  the pools of messages and histograms give zero values.

  \<^bold>\<open>Bounds.\<close> Loops are structural or have a measure; the decoders recurse on the bytes that are left, the
  in-place merge of histograms on its two indices. No fuel is used. Times lie between 1970 and
  \<open>2 ^ 62\<close> seconds after, keys encode whole seconds, and representative counts are float64 values. Limits
  and the counters of constraints, which count the entries of maps, are unbounded integers.

  \<^bold>\<open>Not modelled.\<close> Build tools, the loading of packages and files by the hash generator, logging and tracing, the
  delay histograms of the telemetry, which read the clock, unknown fields of messages, and interleavings
  inside a call that holds the mutex.
\<close>

section \<open>Every event is harvested\<close>

text \<open>
  The hypotheses: the storage keeps its laws and opens empty, the sketches survive encoding, the clock
  is after 1970 and before the end of 64-bit seconds, and the intervals are distinct whole seconds (a
  configuration that \<^verbatim>\<open>validateCfg\<close> accepts may repeat an interval, which counts events twice).
\<close>

lemma new_run_inv:
  fixes P :: "('db, 'b, 'e) pebble" and cfg :: "('pe, 'kv, 'h) agg_config"
  assumes "pebble_laws E l P bops dops" and "hll_roundtrip (hll E)"
    and "opens_empty P dops"
    and "New P G now None opts = Some (Inr (cfg, a0))" and "schedule_ok cfg" and "36 * Hour \<le> now" and "now < 2 ^ 62 * Second"
    and "agg_run P cfg X etype (a0, NotRunning) es s"
  shows "sys_inv (hll E) cfg etype bops dops es s"
proof -
  from agg_run_inv [OF assms(1,2,5,8) new_ready [OF assms(3-7)]] show ?thesis by simp
qed

text \<open>
  C1. Everything that was accepted is harvested, exactly once per aggregation interval. Take a run of
  a new aggregator, in which batches of events and partial aggregates were accepted at any time, also in
  the middle of harvests (of the partial aggregates, the well-formed ones whose key is of a configured
  interval and of its open window), the run loop committed, took snapshots, harvested and deleted, and which ended
  with \<^verbatim>\<open>Close\<close>, without a storage error. Then for every aggregation interval and every histogram bucket,
  the messages that the processor received for the interval carry together exactly what was accepted:
  the rounded, scaled representative counts of the transactions whose duration lies in the bucket, and
  the counts of the partial aggregates of the interval; in their transaction groups as well as in their
  service transaction groups, overflow groups included.
\<close>

theorem every_event_harvested:
  fixes P :: "('db, 'b, 'e) pebble" and cfg :: "('pe, 'kv, 'h) agg_config"
  assumes "pebble_laws E l P bops dops" and "hll_roundtrip (hll E)"
    and "opens_empty P dops"
    and "New P G now None opts = Some (Inr (cfg, a0))" and "schedule_ok cfg" and "36 * Hour \<le> now" and "now < 2 ^ 62 * Second"
    and "agg_run P cfg X etype (a0, NotRunning) es (a, Finished)" and "ivl \<in> set (cfg_AggregationIntervals cfg)"
  shows "processed_weight (hll E) (txn_metric b) ivl (ag_processed a)
      = sum_list (map (input_weight (hll E) etype (txn_metric b) b ivl) es)
    \<and> processed_weight (hll E) (svctxn_metric b) ivl (ag_processed a)
      = sum_list (map (input_weight (hll E) etype (svctxn_metric b) b ivl) es)"
  using new_run_inv [OF assms(1-8)] assms(9) by (auto simp: weights_ok_def pending_weight_def)

theorem every_event_harvested_witness:
  "\<exists>a. agg_run sample_pebble sample_cfg log_xxhash sample_etype (sample_agg, NotRunning) [In_Event sample_event] (a, Finished)
     \<and> processed_weight (hll sample_env) (txn_metric 1288) Minute (ag_processed a) = 2000"
proof -
  from sample_run obtain a where
    a: "agg_run sample_pebble sample_cfg log_xxhash sample_etype (sample_agg, NotRunning) [In_Event sample_event] (a, Finished)" by blast
  have "Minute \<in> set (cfg_AggregationIntervals sample_cfg)" by (simp add: sample_cfg_fields)
  from every_event_harvested [OF sample_laws(1) hll_roundtrip_sample sample_empty sample_New sample_schedule sample_clock a this,
      of 1288] a show ?thesis
    by (auto simp: sample_weight)
qed

text \<open>
  C2. At every point of such a run, up to the close that completes it, the accepted events and the accepted
  partial aggregates (well-formed, of the open window of a configured interval) are accounted for: what the processor received for an
  interval, together with what the database, the batch that the run loop has taken and the open batch
  hold for it, carries exactly the counts of the accepted events and partial aggregates. Messages in the open batch are filed
  under the current processing time.
\<close>

theorem run_accounts_for_events:
  fixes P :: "('db, 'b, 'e) pebble" and cfg :: "('pe, 'kv, 'h) agg_config"
  assumes "pebble_laws E l P bops dops" and "hll_roundtrip (hll E)"
    and "opens_empty P dops"
    and "New P G now None opts = Some (Inr (cfg, a0))" and "schedule_ok cfg" and "36 * Hour \<le> now" and "now < 2 ^ 62 * Second"
    and "agg_run P cfg X etype (a0, NotRunning) es (a, ph)" and "ph \<noteq> Finished" and "ivl \<in> set (cfg_AggregationIntervals cfg)"
  shows "\<exists>pd pt pb. agg_holds bops dops a pd pb \<and> taken_holds bops ph pt
    \<and> (\<forall>b. processed_weight (hll E) (txn_metric b) ivl (ag_processed a) + pending_weight (hll E) (txn_metric b) ivl (pd @ pt @ pb)
          = sum_list (map (input_weight (hll E) etype (txn_metric b) b ivl) es))
    \<and> (\<forall>b. processed_weight (hll E) (svctxn_metric b) ivl (ag_processed a) + pending_weight (hll E) (svctxn_metric b) ivl (pd @ pt @ pb)
          = sum_list (map (input_weight (hll E) etype (svctxn_metric b) b ivl) es))
    \<and> list_all (\<lambda>x. cmk_ProcessingTime (fst x) = Truncate (ag_processingTime a) (cmk_Interval (fst x))) pb"
proof -
  from new_run_inv [OF assms(1-8)] assms(9) obtain pd pt pb where i: "agg_inv (hll E) cfg etype bops dops es a ph pd pt pb" by auto
  then have w: "weights_ok (hll E) etype (set (cfg_AggregationIntervals cfg)) es (ag_processed a) (pd @ pt @ pb)"
    by (simp add: agg_inv_def)
  from i have "agg_holds bops dops a pd pb" "taken_holds bops ph pt"
    "list_all (\<lambda>x. cmk_ProcessingTime (fst x) = Truncate (ag_processingTime a) (cmk_Interval (fst x))) pb"
    by (simp_all add: agg_inv_def list_all_iff current_def)
  with w assms(10) show ?thesis unfolding weights_ok_def by blast
qed

theorem run_accounts_for_events_witness:
  "\<exists>a pd pt pb. agg_run sample_pebble sample_cfg log_xxhash sample_etype (sample_agg, NotRunning)
       [In_Metrics open_key (part_message sample_event Minute 1 sample_part)] (a, NotRunning)
     \<and> agg_holds (\<lambda>b. b) mem_dops a pd pb
     \<and> processed_weight (hll sample_env) (txn_metric 1288) Minute (ag_processed a)
         + pending_weight (hll sample_env) (txn_metric 1288) Minute (pd @ pt @ pb) = 2000"
proof -
  let ?x = "In_Metrics open_key (part_message sample_event Minute 1 sample_part)"
  from sample_accept_metrics obtain a where
    a: "agg_run sample_pebble sample_cfg log_xxhash sample_etype (sample_agg, NotRunning) [?x] (a, NotRunning)" by blast
  have "Minute \<in> set (cfg_AggregationIntervals sample_cfg)" by (simp add: sample_cfg_fields)
  from run_accounts_for_events [OF sample_laws(1) hll_roundtrip_sample sample_empty sample_New sample_schedule sample_clock a _ this]
  obtain pd pt pb where h: "agg_holds (\<lambda>b. b) mem_dops a pd pb"
    "\<forall>b. processed_weight (hll sample_env) (txn_metric b) Minute (ag_processed a)
       + pending_weight (hll sample_env) (txn_metric b) Minute (pd @ pt @ pb)
       = sum_list (map (input_weight (hll sample_env) sample_etype (txn_metric b) b Minute) [?x])" by blast
  have "sum_list (map (input_weight (hll sample_env) sample_etype (txn_metric 1288) 1288 Minute) [?x]) = 2000"
    using sample_message_weight [of "hll sample_env"] by (simp add: open_key_def base_key_def)
  with spec [OF h(2), of 1288] have "processed_weight (hll sample_env) (txn_metric 1288) Minute (ag_processed a)
      + pending_weight (hll sample_env) (txn_metric 1288) Minute (pd @ pt @ pb) = 2000" by (rule trans)
  with a h(1) show ?thesis by blast
qed

text \<open>
  C7. Over a storage that reports no errors every run can be ended: when the run loop was never started
  or has stopped, \<^verbatim>\<open>Close\<close> returns, with at most errors of the processor; the aggregator is closed; when
  there is no error the database is closed and gone; and when the iterators of the final harvests end
  without an error, the run is a complete one, whose events are all harvested.
\<close>

theorem close_completes:
  fixes P :: "('db, 'b, 'e) pebble" and cfg :: "('pe, 'kv, 'h) agg_config"
  assumes "pebble_laws E l P bops dops" and "hll_roundtrip (hll E)"
    and "opens_empty P dops"
    and "New P G now None opts = Some (Inr (cfg, a0))" and "schedule_ok cfg" and "36 * Hour \<le> now" and "now < 2 ^ 62 * Second"
    and "storage_total P"
    and "agg_run P cfg X etype (a0, NotRunning) es (a, ph)" and "ph = NotRunning \<or> ph = Stopped"
  shows "\<exists>errs a'. Close P cfg False pick None a = Some (errs, a') \<and> processor_errors errs \<and> ag_closed a'
    \<and> (errs = [] \<longrightarrow> ag_db a' = None)
    \<and> (final_complete P cfg (cfg_AggregationIntervals cfg) (final_state P cfg a) \<longrightarrow>
         agg_run P cfg X etype (a0, NotRunning) es (a', Finished))"
  using run_can_close [OF assms(1,2,5,8) new_ready [OF assms(3-7)] new_chan [OF assms(4)] assms(9,10)] .

theorem close_completes_witness:
  "\<exists>a errs a'. agg_run sample_pebble sample_cfg log_xxhash sample_etype (sample_agg, NotRunning) [In_Event sample_event] (a, NotRunning)
     \<and> Close sample_pebble sample_cfg False False None a = Some (errs, a') \<and> processor_errors errs \<and> ag_closed a'"
proof -
  from sample_accept obtain a where
    a: "agg_run sample_pebble sample_cfg log_xxhash sample_etype (sample_agg, NotRunning) [In_Event sample_event] (a, NotRunning)" by blast
  from close_completes [OF sample_laws(1) hll_roundtrip_sample sample_empty sample_New sample_schedule sample_clock sample_laws(2) a,
      of False] a show ?thesis by blast
qed

end
